(* ===== verification/Prelude.thy ===== *)
theory Prelude
  imports Complex_Main
    "HOL-Library.AList"
    "HOL-Library.Char_ord"
    "HOL-Library.List_Lexorder"
    "HOL-Library.Product_Lexorder"
    "HOL-Library.Sublist"
    "HOL-Library.Multiset"
    "HOL-Library.Word"
begin

text \<open>
  Shared material: Go's 64-bit integers, the functions of Go's packages strings,
  path/filepath and sort that the program calls, pagination, and the collections of facts the
  component theories use. A Go string is a list of bytes and HOL's \<open>char\<close> is a byte, so a Go
  string and a byte slice are both the type \<open>string\<close>; multi-byte runes are byte sequences.
\<close>

named_theorems go_simps \<open>evaluation rules of the model's straight-line code\<close>
named_theorems step_simps \<open>one system call under a fault script\<close>
named_theorems touch_intros \<open>which paths an operation can change, whatever fails\<close>
named_theorems rest_intros \<open>what an operation leaves beside the disk, whatever fails\<close>

type_synonym bytes = string
type_synonym time = int

lemma not_Some_pair [simp]: "(\<forall>a b. x \<noteq> Some (a, b)) \<longleftrightarrow> x = None"
  by (cases x) auto

section \<open>Signed 64-bit integers\<close>

text \<open>
  Go's \<open>int\<close> and \<open>int64\<close> are two's complement. Values are kept as \<open>int\<close> and every addition,
  subtraction or doubling of the source that could leave the range goes through \<open>wrap64\<close>.
\<close>

definition max_int64 :: int where
  "max_int64 = 9223372036854775807"

definition min_int64 :: int where
  "min_int64 = - 9223372036854775808"

definition wrap64 :: "int \<Rightarrow> int" where
  "wrap64 x = (x + 9223372036854775808) mod 18446744073709551616 - 9223372036854775808"

definition in_int64 :: "int \<Rightarrow> bool" where
  "in_int64 x \<longleftrightarrow> min_int64 \<le> x \<and> x \<le> max_int64"

lemma wrap64_id: "in_int64 x \<Longrightarrow> wrap64 x = x"
  by (simp add: wrap64_def in_int64_def min_int64_def max_int64_def)

lemma wrap64_nonneg_id: "0 \<le> x \<Longrightarrow> x \<le> max_int64 \<Longrightarrow> wrap64 x = x"
  by (simp add: wrap64_id in_int64_def min_int64_def)

lemma in_int64_wrap64: "in_int64 (wrap64 x)"
proof -
  have "0 \<le> (x + 9223372036854775808) mod 18446744073709551616"
    and "(x + 9223372036854775808) mod 18446744073709551616 < 18446744073709551616" by simp_all
  then show ?thesis
    unfolding wrap64_def in_int64_def min_int64_def max_int64_def by linarith
qed

text \<open>A duration is the difference of two instants, saturating at the bounds of \<open>int64\<close>
  (Go's \<open>Time.Sub\<close>).\<close>

definition time_sub :: "time \<Rightarrow> time \<Rightarrow> int" where
  "time_sub a b = max min_int64 (min max_int64 (a - b))"

text \<open>Instants are nanoseconds since Go's zero time, January 1 of year 1.\<close>

definition is_zero_time :: "time \<Rightarrow> bool" where
  "is_zero_time t \<longleftrightarrow> t = 0"

section \<open>64-bit floating point\<close>

text \<open>
  Go's \<open>float64\<close> on the non-negative values the program computes: every operation is the exact
  one rounded to 53 significant bits, ties to even. The values are far from the exponent limits.
\<close>

fun bit_length :: "nat \<Rightarrow> nat" where
  "bit_length n = (if n = 0 then 0 else Suc (bit_length (n div 2)))"

declare bit_length.simps [simp del]

definition pow2 :: "int \<Rightarrow> rat" where
  "pow2 i = (if 0 \<le> i then 2 ^ nat i else 1 / 2 ^ nat (- i))"

definition round_half_even :: "rat \<Rightarrow> int" where
  "round_half_even m =
     (let n = \<lfloor>m\<rfloor>; r = m - of_int n
      in if r < 1 / 2 then n else if r > 1 / 2 then n + 1 else if even n then n else n + 1)"

definition f64 :: "rat \<Rightarrow> rat" where
  "f64 x =
     (if x \<le> 0 then 0
      else let (a, b) = quotient_of x;
               e1 = int (bit_length (nat a)) - int (bit_length (nat b));
               e = (if pow2 e1 \<le> x then e1 else e1 - 1)
           in of_int (round_half_even (x * pow2 (52 - e))) * pow2 (e - 52))"

text \<open>\<open>float64(used) * 100 / float64(total)\<close>.\<close>

definition f64_percent :: "int \<Rightarrow> int \<Rightarrow> rat" where
  "f64_percent used whole = f64 (f64 (f64 (of_int used) * 100) / f64 (of_int whole))"

section \<open>Package strings\<close>

text \<open>
  The code points of Go's \<open>unicode.IsSpace\<close> in UTF-8. \<open>strings.TrimSpace\<close> strips them at
  both ends.
\<close>

definition space_seqs :: "string list" where
  "space_seqs =
     [[CHR 0x20], [CHR 0x0A], [CHR 0x0D], [CHR 0x09], [CHR 0x0B], [CHR 0x0C],
      [CHR 0xC2, CHR 0x85], [CHR 0xC2, CHR 0xA0], [CHR 0xE1, CHR 0x9A, CHR 0x80],
      [CHR 0xE2, CHR 0x80, CHR 0x80], [CHR 0xE2, CHR 0x80, CHR 0x81],
      [CHR 0xE2, CHR 0x80, CHR 0x82], [CHR 0xE2, CHR 0x80, CHR 0x83],
      [CHR 0xE2, CHR 0x80, CHR 0x84], [CHR 0xE2, CHR 0x80, CHR 0x85],
      [CHR 0xE2, CHR 0x80, CHR 0x86], [CHR 0xE2, CHR 0x80, CHR 0x87],
      [CHR 0xE2, CHR 0x80, CHR 0x88], [CHR 0xE2, CHR 0x80, CHR 0x89],
      [CHR 0xE2, CHR 0x80, CHR 0x8A], [CHR 0xE2, CHR 0x80, CHR 0xA8],
      [CHR 0xE2, CHR 0x80, CHR 0xA9], [CHR 0xE2, CHR 0x80, CHR 0xAF],
      [CHR 0xE2, CHR 0x81, CHR 0x9F], [CHR 0xE3, CHR 0x80, CHR 0x80]]"

text \<open>Strip, as long as there is one, a member of the list from the front.\<close>

function strip_front :: "string list \<Rightarrow> string \<Rightarrow> string" where
  "strip_front seqs s =
     (case find (\<lambda>p. p \<noteq> [] \<and> prefix p s) seqs of
        None \<Rightarrow> s
      | Some p \<Rightarrow> strip_front seqs (drop (length p) s))"
  by pat_completeness auto
termination
  by (relation "measure (\<lambda>(seqs, s). length s)") (auto simp: find_Some_iff prefix_def)

declare strip_front.simps [simp del]

definition trim_left :: "string \<Rightarrow> string" where
  "trim_left s = strip_front space_seqs s"

definition trim_right :: "string \<Rightarrow> string" where
  "trim_right s = rev (strip_front (map rev space_seqs) (rev s))"

definition trim_space :: "string \<Rightarrow> string" where
  "trim_space s = trim_right (trim_left s)"

lemma strip_front_drop: "\<exists>n. strip_front seqs s = drop n s"
proof (induction seqs s rule: strip_front.induct)
  case (1 seqs s)
  show ?case
  proof (cases "find (\<lambda>p. p \<noteq> [] \<and> prefix p s) seqs")
    case None
    then show ?thesis by (subst strip_front.simps) (auto intro: exI [of _ 0])
  next
    case (Some p)
    then obtain n where "strip_front seqs (drop (length p) s) = drop n (drop (length p) s)"
      using 1 by blast
    with Some have "strip_front seqs s = drop (n + length p) s"
      by (subst strip_front.simps) simp
    then show ?thesis by blast
  qed
qed

lemma strip_front_clean:
  "p \<in> set seqs \<Longrightarrow> p \<noteq> [] \<Longrightarrow> \<not> prefix p (strip_front seqs s)"
proof (induction seqs s rule: strip_front.induct)
  case (1 seqs s)
  show ?case
  proof (cases "find (\<lambda>p. p \<noteq> [] \<and> prefix p s) seqs")
    case None
    then have "strip_front seqs s = s" by (subst strip_front.simps) simp
    with None 1 show ?thesis by (auto simp: find_None_iff)
  next
    case (Some q)
    then have "strip_front seqs s = strip_front seqs (drop (length q) s)"
      by (subst strip_front.simps) simp
    with Some 1 show ?thesis by simp
  qed
qed

lemma strip_front_id:
  "(\<And>p. p \<in> set seqs \<Longrightarrow> p \<noteq> [] \<Longrightarrow> \<not> prefix p s) \<Longrightarrow> strip_front seqs s = s"
  by (subst strip_front.simps) (auto simp: find_Some_iff split: option.split dest!: nth_mem)

lemma trim_right_take: "\<exists>n. trim_right s = take n s"
proof -
  obtain n where "strip_front (map rev space_seqs) (rev s) = drop n (rev s)"
    using strip_front_drop by blast
  then show ?thesis by (auto simp: trim_right_def rev_drop)
qed

lemma trim_right_idem: "trim_right (trim_right s) = trim_right s"
  by (simp add: trim_right_def, intro strip_front_id) (use strip_front_clean in blast)

lemma trim_left_id_prefix:
  assumes "\<And>p. p \<in> set space_seqs \<Longrightarrow> p \<noteq> [] \<Longrightarrow> \<not> prefix p s"
  shows "trim_left (take n s) = take n s"
  unfolding trim_left_def
proof (rule strip_front_id)
  fix p assume "p \<in> set space_seqs" "p \<noteq> []"
  with assms have "\<not> prefix p s" by blast
  then show "\<not> prefix p (take n s)"
    using take_is_prefix prefix_order.trans by blast
qed

lemma trim_space_idem [simp]: "trim_space (trim_space s) = trim_space s"
proof -
  obtain n where n: "trim_space s = take n (trim_left s)"
    unfolding trim_space_def using trim_right_take by blast
  have "trim_left (take n (trim_left s)) = take n (trim_left s)"
    by (rule trim_left_id_prefix) (simp add: trim_left_def strip_front_clean)
  then have "trim_left (trim_space s) = trim_space s" using n by simp
  then show ?thesis
    by (metis trim_right_idem trim_space_def)
qed

text \<open>ASCII case mapping, which is what the program's hexadecimal and size strings need.\<close>

definition lower_char :: "char \<Rightarrow> char" where
  "lower_char c = (if CHR ''A'' \<le> c \<and> c \<le> CHR ''Z'' then char_of (of_char c + (32::nat)) else c)"

definition upper_char :: "char \<Rightarrow> char" where
  "upper_char c = (if CHR ''a'' \<le> c \<and> c \<le> CHR ''z'' then char_of (of_char c - (32::nat)) else c)"

definition to_lower :: "string \<Rightarrow> string" where
  "to_lower s = map lower_char s"

definition to_upper :: "string \<Rightarrow> string" where
  "to_upper s = map upper_char s"

definition equal_fold :: "string \<Rightarrow> string \<Rightarrow> bool" where
  "equal_fold a b \<longleftrightarrow> to_lower a = to_lower b"

lemma equal_fold_refl [simp]: "equal_fold a a"
  by (simp add: equal_fold_def)

definition trim_prefix :: "string \<Rightarrow> string \<Rightarrow> string" where
  "trim_prefix p s = (if prefix p s then drop (length p) s else s)"

definition trim_suffix :: "string \<Rightarrow> string \<Rightarrow> string" where
  "trim_suffix p s = (if suffix p s then take (length s - length p) s else s)"

lemma trim_suffix_append [simp]: "trim_suffix p (s @ p) = s"
  by (simp add: trim_suffix_def suffix_def)

lemma trim_prefix_append [simp]: "trim_prefix p (p @ s) = s"
  by (simp add: trim_prefix_def)

lemma suffix_append_same [simp]: "suffix p (s @ p)"
  by (simp add: suffix_def)

text \<open>\<open>strings.Split\<close> at a single byte: always at least one part.\<close>

fun split_on :: "char \<Rightarrow> string \<Rightarrow> string list" where
  "split_on c [] = [[]]"
| "split_on c (x # xs) =
     (if x = c then [] # split_on c xs
      else (case split_on c xs of [] \<Rightarrow> [[x]] | p # ps \<Rightarrow> (x # p) # ps))"

lemma split_on_not_Nil [simp]: "split_on c s \<noteq> []"
  by (induction s) (auto split: list.split)

lemma split_on_free: "c \<notin> set s \<Longrightarrow> split_on c s = [s]"
  by (induction s) auto

lemma split_on_append: "c \<notin> set a \<Longrightarrow> split_on c (a @ c # b) = a # split_on c b"
  by (induction a) auto

text \<open>Decimal notation (\<open>%d\<close>).\<close>

fun show_nat :: "nat \<Rightarrow> string" where
  "show_nat n = (if n < 10 then [char_of (48 + n)] else show_nat (n div 10) @ [char_of (48 + n mod 10)])"

declare show_nat.simps [simp del]

definition show_int :: "int \<Rightarrow> string" where
  "show_int i = (if i < 0 then CHR ''-'' # show_nat (nat (- i)) else show_nat (nat i))"

section \<open>Package filepath\<close>

definition filepath_ext :: "string \<Rightarrow> string" where
  "filepath_ext s =
     (let r = takeWhile (\<lambda>c. c \<noteq> CHR ''.'' \<and> c \<noteq> CHR ''/'') (rev s)
      in case drop (length r) (rev s) of
           c # _ \<Rightarrow> if c = CHR ''.'' then CHR ''.'' # rev r else ''''
         | [] \<Rightarrow> '''')"

definition filepath_base :: "string \<Rightarrow> string" where
  "filepath_base s =
     (if s = '''' then ''.''
      else let t = rev (takeWhile (\<lambda>c. c \<noteq> CHR ''/'') (dropWhile (\<lambda>c. c = CHR ''/'') (rev s)))
           in if t = '''' then ''/'' else t)"

lemma filepath_ext_json: "filepath_ext (s @ ''.json'') = ''.json''"
  by (simp add: filepath_ext_def)

lemma filepath_base_no_slash:
  "s \<noteq> '''' \<Longrightarrow> CHR ''/'' \<notin> set s \<Longrightarrow> filepath_base s = s"
proof -
  assume "s \<noteq> ''''" and free: "CHR ''/'' \<notin> set s"
  then have "dropWhile (\<lambda>c. c = CHR ''/'') (rev s) = rev s"
    by (cases s rule: rev_cases) auto
  moreover have "takeWhile (\<lambda>c. c \<noteq> CHR ''/'') (rev s) = rev s"
    using free by (auto simp: takeWhile_eq_all_conv)
  ultimately show "filepath_base s = s" using \<open>s \<noteq> ''''\<close>
    by (simp add: filepath_base_def del: takeWhile_eq_all_conv)
qed

lemma filepath_base_no_slash_inside:
  "filepath_base s \<noteq> ''/'' \<Longrightarrow> CHR ''/'' \<notin> set (filepath_base s)"
  by (auto simp: filepath_base_def Let_def dest: set_takeWhileD split: if_splits)

section \<open>Package sort\<close>

text \<open>
  \<open>sort.Slice xs lt\<close> returns a permutation of \<open>xs\<close> in the order of \<open>less\<close>. The model
  sorts by insertion. Where \<open>less\<close> compares a key that is unique in the slice, the result is the
  only sorted permutation, whatever the algorithm.
\<close>

fun insert_by :: "('a \<Rightarrow> 'a \<Rightarrow> bool) \<Rightarrow> 'a \<Rightarrow> 'a list \<Rightarrow> 'a list" where
  "insert_by lt x [] = [x]"
| "insert_by lt x (y # ys) = (if lt y x then y # insert_by lt x ys else x # y # ys)"

definition sort_slice :: "('a \<Rightarrow> 'a \<Rightarrow> bool) \<Rightarrow> 'a list \<Rightarrow> 'a list" where
  "sort_slice lt xs = foldr (insert_by lt) xs []"

lemma mset_insert_by: "mset (insert_by lt x xs) = add_mset x (mset xs)"
  by (induction xs) auto

lemma mset_sort_slice [simp]: "mset (sort_slice lt xs) = mset xs"
  by (induction xs) (auto simp: sort_slice_def mset_insert_by)

lemma set_sort_slice [simp]: "set (sort_slice lt xs) = set xs"
  by (metis mset_sort_slice set_mset_mset)

lemma length_sort_slice [simp]: "length (sort_slice lt xs) = length xs"
  by (metis mset_sort_slice size_mset)

lemma distinct_sort_slice [simp]: "distinct (sort_slice lt xs) = distinct xs"
  by (metis mset_sort_slice mset_eq_imp_distinct_iff)

text \<open>
  The contract of a \<open>less\<close> closure: on the records of the slice it compares a key of a linear
  order.
\<close>

locale key_less =
  fixes lt :: "'a \<Rightarrow> 'a \<Rightarrow> bool"
    and key :: "'a \<Rightarrow> 'k::linorder"
    and ok :: "'a \<Rightarrow> bool"
  assumes lt_key: "ok a \<Longrightarrow> ok b \<Longrightarrow> lt a b \<longleftrightarrow> key a < key b"
begin

lemma insert_by_insort:
  "ok x \<Longrightarrow> \<forall>y\<in>set ys. ok y \<Longrightarrow> insert_by lt x ys = insort_key key x ys"
  by (induction ys) (auto simp: lt_key)

lemma sort_slice_key: "\<forall>x\<in>set xs. ok x \<Longrightarrow> sort_slice lt xs = sort_key key xs"
proof (induction xs)
  case Nil
  then show ?case by (simp add: sort_slice_def)
next
  case (Cons x xs)
  then have "sort_slice lt xs = sort_key key xs" by simp
  then have "sort_slice lt (x # xs) = insert_by lt x (sort_key key xs)"
    by (simp add: sort_slice_def)
  also have "\<dots> = insort_key key x (sort_key key xs)"
    using Cons.prems by (intro insert_by_insort) auto
  finally show ?case by simp
qed

lemma sort_slice_sorted:
  "\<forall>x\<in>set xs. ok x \<Longrightarrow> sorted (map key (sort_slice lt xs))"
  by (simp add: sort_slice_key)

lemma sort_slice_unique:
  assumes "\<forall>x\<in>set xs. ok x" and "inj_on key (set xs)"
    and "mset ys = mset xs" and "sorted (map key ys)"
  shows "ys = sort_slice lt xs"
proof -
  have "sort_key key xs = ys"
    by (rule sort_key_inj_key_eq) (use assms in simp_all)
  with assms(1) show ?thesis by (simp add: sort_slice_key)
qed

end

section \<open>Pages of a list\<close>

text \<open>
  The tail of every listing function: \<open>offset\<close> past the end gives the empty list, otherwise
  the slice from \<open>offset\<close> to \<open>min (offset + limit) len\<close>, with Go's wrapping addition. A Go slice
  expression with bounds out of order panics: \<open>None\<close>.
\<close>

definition go_slice :: "'a list \<Rightarrow> int \<Rightarrow> int \<Rightarrow> 'a list option" where
  "go_slice xs a b =
     (if 0 \<le> a \<and> a \<le> b \<and> b \<le> int (length xs)
      then Some (take (nat (b - a)) (drop (nat a) xs)) else None)"

definition page :: "'a list \<Rightarrow> int \<Rightarrow> int \<Rightarrow> 'a list option" where
  "page xs limit offset =
     (if int (length xs) \<le> offset then Some []
      else let end' = wrap64 (offset + limit);
               end'' = (if int (length xs) < end' then int (length xs) else end')
           in go_slice xs offset end'')"

lemma page_take_drop:
  assumes "0 \<le> limit" "0 \<le> offset" "offset + limit \<le> max_int64"
  shows "page xs limit offset = Some (take (nat limit) (drop (nat offset) xs))"
proof -
  have w: "wrap64 (offset + limit) = offset + limit"
    using assms by (intro wrap64_nonneg_id) auto
  show ?thesis
    using assms
    by (auto simp: page_def go_slice_def w Let_def nat_diff_distrib nat_less_iff nat_add_distrib)
qed

end
