(* ===== verification/Disk.thy ===== *)
theory Disk
  imports Prelude
begin

text \<open>
  The part of Go's package os that the program uses, over a file system below one root
  directory. A path is one of the fixed top-level directories (a type parameter) and a list of
  names below it. Every call takes the next entry of a fault script: with \<open>None\<close> the call runs,
  with \<open>Some k\<close> the operating system reports an error (a failing write stores a prefix of \<open>k\<close>
  bytes first, a failing recursive removal has removed \<open>k\<close> children). A theorem that holds for every
  script covers every combination of I/O failures; a script that fails from one point on is a
  crash at that point, since no later call, clean-up included, has an effect. An empty script is
  a run without failures.
\<close>

datatype os_error = ENOENT | EEXIST | ENOTDIR | EISDIR | ENOTEMPTY | EIO

text \<open>Contents: raw bytes, the JSON text of a record (\<open>json.MarshalIndent\<close>, which
  \<open>json.Unmarshal\<close> reads back), or the prefix of such a text that a failed write leaves.\<close>

datatype 'd content = Blob bytes | Doc 'd | Torn

datatype 'd inode = NFile "'d content" | NDir

type_synonym 'a path = "'a \<times> string list"
type_synonym ('a, 'd) entries = "('a path \<times> 'd inode) list"
type_synonym fault = "nat option"

record ('a, 'd) disk =
  entries :: "('a, 'd) entries"
  script :: "fault list"

section \<open>Paths\<close>

definition parent :: "'a path \<Rightarrow> 'a path" where
  "parent p = (fst p, butlast (snd p))"

definition under :: "'a path \<Rightarrow> 'a path \<Rightarrow> bool" where
  "under p q \<longleftrightarrow> fst p = fst q \<and> prefix (snd p) (snd q)"

definition child :: "'a path \<Rightarrow> string \<Rightarrow> 'a path" where
  "child p n = (fst p, snd p @ [n])"

definition child_name :: "'a path \<Rightarrow> 'a path \<Rightarrow> string option" where
  "child_name p q = (if snd q \<noteq> [] \<and> parent q = p then Some (last (snd q)) else None)"

lemma parent_pair [simp]: "parent (a, ns) = (a, butlast ns)"
  by (simp add: parent_def)

lemma under_refl [simp]: "under p p"
  by (simp add: under_def)

lemma under_pair [simp]: "under (a, ns) (b, ms) \<longleftrightarrow> a = b \<and> prefix ns ms"
  by (simp add: under_def)

lemma child_pair [simp]: "child (a, ns) n = (a, ns @ [n])"
  by (simp add: child_def)

lemma child_name_Some [simp]: "child_name p q = Some n \<longleftrightarrow> q = child p n"
  by (cases p; cases q; cases "snd q" rule: rev_cases)
    (auto simp: child_name_def child_def parent_def)

section \<open>Entries\<close>

definition look :: "('a, 'd, 'z) disk_scheme \<Rightarrow> 'a path \<Rightarrow> 'd inode option" where
  "look s p = map_of (entries s) p"

definition names_in :: "('a, 'd) entries \<Rightarrow> 'a path \<Rightarrow> string list" where
  "names_in es p = sort (remdups (List.map_filter (\<lambda>(q, n). child_name p q) es))"

lemma set_names_in: "set (names_in es p) = {n. map_of es (child p n) \<noteq> None}"
proof -
  have "n \<in> set (names_in es p) \<longleftrightarrow> child p n \<in> fst ` set es" for n
  proof -
    have "n \<in> set (names_in es p) \<longleftrightarrow> (\<exists>x\<in>set es. child_name p (fst x) = Some n)"
      by (force simp: names_in_def List.map_filter_def case_prod_beta image_iff
          simp del: child_name_Some)
    then show ?thesis unfolding image_iff by (metis child_name_Some)
  qed
  then show ?thesis by (auto simp: map_of_eq_None_iff)
qed

lemma sorted_names_in [simp]: "sorted (names_in es p)"
  by (simp add: names_in_def)

lemma distinct_names_in [simp]: "distinct (names_in es p)"
  by (simp add: names_in_def)

lemma names_in_cong:
  assumes "\<And>n. (map_of es (child p n) = None) = (map_of es' (child p n) = None)"
  shows "names_in es p = names_in es' p"
proof -
  have "set (names_in es p) = set (names_in es' p)"
    using assms by (simp add: set_names_in)
  then show ?thesis
    by (metis distinct_names_in sorted_distinct_set_unique sorted_names_in)
qed

section \<open>System calls\<close>

definition tick :: "('a, 'd, 'z) disk_scheme \<Rightarrow> fault \<times> ('a, 'd, 'z) disk_scheme" where
  "tick s = (case script s of [] \<Rightarrow> (None, s) | f # fs \<Rightarrow> (f, s\<lparr>script := fs\<rparr>))"

text \<open>A call without a partial effect: an error of the operating system or its result on the
  entries.\<close>

definition syscall ::
  "(('a, 'd) entries \<Rightarrow> os_error + ('r \<times> ('a, 'd) entries)) \<Rightarrow> ('a, 'd, 'z) disk_scheme \<Rightarrow>
   (os_error + 'r) \<times> ('a, 'd, 'z) disk_scheme" where
  "syscall f s =
     (case tick s of
        (Some _, s1) \<Rightarrow> (Inl EIO, s1)
      | (None, s1) \<Rightarrow>
          (case f (entries s1) of
             Inl e \<Rightarrow> (Inl e, s1)
           | Inr (r, es) \<Rightarrow> (Inr r, s1\<lparr>entries := es\<rparr>)))"

definition os_stat ::
  "'a path \<Rightarrow> ('a, 'd, 'z) disk_scheme \<Rightarrow> (os_error + 'd inode) \<times> ('a, 'd, 'z) disk_scheme" where
  "os_stat p = syscall (\<lambda>es. case map_of es p of None \<Rightarrow> Inl ENOENT | Some n \<Rightarrow> Inr (n, es))"

text \<open>\<open>os.OpenFile\<close> with \<open>O_CREATE|O_EXCL|O_WRONLY\<close>; also \<open>os.CreateTemp\<close>, whose random name is
  the last component of the path.\<close>

definition os_create_excl ::
  "'a path \<Rightarrow> ('a, 'd, 'z) disk_scheme \<Rightarrow> (os_error + unit) \<times> ('a, 'd, 'z) disk_scheme" where
  "os_create_excl p =
     syscall (\<lambda>es.
       if map_of es p \<noteq> None then Inl EEXIST
       else if map_of es (parent p) \<noteq> Some NDir then Inl ENOENT
       else Inr ((), AList.update p (NFile (Blob [])) es))"

text \<open>\<open>os.Create\<close>: an existing file is truncated.\<close>

definition os_create ::
  "'a path \<Rightarrow> ('a, 'd, 'z) disk_scheme \<Rightarrow> (os_error + unit) \<times> ('a, 'd, 'z) disk_scheme" where
  "os_create p =
     syscall (\<lambda>es.
       if map_of es p = Some NDir then Inl EISDIR
       else if map_of es (parent p) \<noteq> Some NDir then Inl ENOENT
       else Inr ((), AList.update p (NFile (Blob [])) es))"

text \<open>Opening an existing file or directory, for reading, appending or \<open>Sync\<close>.\<close>

definition os_open ::
  "'a path \<Rightarrow> ('a, 'd, 'z) disk_scheme \<Rightarrow> (os_error + unit) \<times> ('a, 'd, 'z) disk_scheme" where
  "os_open p = syscall (\<lambda>es. if map_of es p = None then Inl ENOENT else Inr ((), es))"

text \<open>Opening an existing file with \<open>O_WRONLY|O_APPEND\<close>.\<close>

definition os_open_append ::
  "'a path \<Rightarrow> ('a, 'd, 'z) disk_scheme \<Rightarrow> (os_error + unit) \<times> ('a, 'd, 'z) disk_scheme" where
  "os_open_append p =
     syscall (\<lambda>es. case map_of es p of
         None \<Rightarrow> Inl ENOENT
       | Some NDir \<Rightarrow> Inl EISDIR
       | Some (NFile c) \<Rightarrow> Inr ((), es))"

text \<open>\<open>Sync\<close>, \<open>Close\<close> and \<open>Chmod\<close> of an open file: they change no entry and may fail.\<close>

definition os_sync :: "('a, 'd, 'z) disk_scheme \<Rightarrow> (os_error + unit) \<times> ('a, 'd, 'z) disk_scheme" where
  "os_sync = syscall (\<lambda>es. Inr ((), es))"

definition os_close :: "('a, 'd, 'z) disk_scheme \<Rightarrow> (os_error + unit) \<times> ('a, 'd, 'z) disk_scheme" where
  "os_close = syscall (\<lambda>es. Inr ((), es))"

definition os_chmod :: "('a, 'd, 'z) disk_scheme \<Rightarrow> (os_error + unit) \<times> ('a, 'd, 'z) disk_scheme" where
  "os_chmod = syscall (\<lambda>es. Inr ((), es))"

text \<open>What a write that fails after \<open>k\<close> bytes leaves of a content.\<close>

fun tear :: "nat \<Rightarrow> 'd content \<Rightarrow> 'd content" where
  "tear k (Blob b) = Blob (take k b)"
| "tear k (Doc d) = Torn"
| "tear k Torn = Torn"

text \<open>Writing a file that the caller has just created and holds open.\<close>

definition os_write ::
  "'a path \<Rightarrow> 'd content \<Rightarrow> ('a, 'd, 'z) disk_scheme \<Rightarrow>
   (os_error + unit) \<times> ('a, 'd, 'z) disk_scheme" where
  "os_write p c s =
     (case tick s of
        (Some k, s1) \<Rightarrow> (Inl EIO, s1\<lparr>entries := AList.update p (NFile (tear k c)) (entries s1)\<rparr>)
      | (None, s1) \<Rightarrow> (Inr (), s1\<lparr>entries := AList.update p (NFile c) (entries s1)\<rparr>))"

fun blob_of :: "'d inode option \<Rightarrow> bytes" where
  "blob_of (Some (NFile (Blob b))) = b"
| "blob_of _ = []"

text \<open>Writing to a file opened with \<open>O_APPEND\<close>.\<close>

definition os_append ::
  "'a path \<Rightarrow> bytes \<Rightarrow> ('a, 'd, 'z) disk_scheme \<Rightarrow>
   (os_error + unit) \<times> ('a, 'd, 'z) disk_scheme" where
  "os_append p b s =
     (case tick s of
        (Some k, s1) \<Rightarrow>
          (Inl EIO, s1\<lparr>entries :=
             AList.update p (NFile (Blob (blob_of (look s p) @ take k b))) (entries s1)\<rparr>)
      | (None, s1) \<Rightarrow>
          (Inr (), s1\<lparr>entries :=
             AList.update p (NFile (Blob (blob_of (look s p) @ b))) (entries s1)\<rparr>))"

definition os_truncate ::
  "'a path \<Rightarrow> nat \<Rightarrow> ('a, 'd, 'z) disk_scheme \<Rightarrow>
   (os_error + unit) \<times> ('a, 'd, 'z) disk_scheme" where
  "os_truncate p n =
     syscall (\<lambda>es. Inr ((), AList.update p (NFile (Blob (take n (blob_of (map_of es p))))) es))"

text \<open>Replacing the prefix \<open>p\<close> of a path by \<open>q\<close>, for the rename of a directory.\<close>

definition rebase :: "'a path \<Rightarrow> 'a path \<Rightarrow> 'a path \<Rightarrow> 'a path" where
  "rebase p q x = (fst q, snd q @ drop (length (snd p)) (snd x))"

definition os_rename ::
  "'a path \<Rightarrow> 'a path \<Rightarrow> ('a, 'd, 'z) disk_scheme \<Rightarrow>
   (os_error + unit) \<times> ('a, 'd, 'z) disk_scheme" where
  "os_rename p q =
     syscall (\<lambda>es.
       if map_of es (parent q) \<noteq> Some NDir then Inl ENOENT
       else case map_of es p of
         None \<Rightarrow> Inl ENOENT
       | Some (NFile c) \<Rightarrow>
           if map_of es q = Some NDir then Inl EEXIST
           else Inr ((), AList.update q (NFile c) (AList.delete p es))
       | Some NDir \<Rightarrow>
           if map_of es q \<noteq> None then Inl EEXIST
           else Inr ((), map (\<lambda>(x, n). (if under p x then rebase p q x else x, n)) es))"

definition os_remove ::
  "'a path \<Rightarrow> ('a, 'd, 'z) disk_scheme \<Rightarrow> (os_error + unit) \<times> ('a, 'd, 'z) disk_scheme" where
  "os_remove p =
     syscall (\<lambda>es. case map_of es p of
         None \<Rightarrow> Inl ENOENT
       | Some (NFile c) \<Rightarrow> Inr ((), AList.delete p es)
       | Some NDir \<Rightarrow>
           if names_in es p \<noteq> [] then Inl ENOTEMPTY else Inr ((), AList.delete p es))"

definition prune :: "'a path \<Rightarrow> ('a, 'd) entries \<Rightarrow> ('a, 'd) entries" where
  "prune p es = filter (\<lambda>(q, n). \<not> under p q) es"

lemma map_of_prune: "map_of (prune p es) q = (if under p q then None else map_of es q)"
  by (induction es) (auto simp: prune_def)

definition os_remove_all ::
  "'a path \<Rightarrow> ('a, 'd, 'z) disk_scheme \<Rightarrow> (os_error + unit) \<times> ('a, 'd, 'z) disk_scheme" where
  "os_remove_all p s =
     (case tick s of
        (Some k, s1) \<Rightarrow>
          (Inl EIO, s1\<lparr>entries :=
             foldr (\<lambda>n. prune (child p n)) (take k (names_in (entries s1) p)) (entries s1)\<rparr>)
      | (None, s1) \<Rightarrow> (Inr (), s1\<lparr>entries := prune p (entries s1)\<rparr>))"

definition os_mkdir ::
  "'a path \<Rightarrow> ('a, 'd, 'z) disk_scheme \<Rightarrow> (os_error + unit) \<times> ('a, 'd, 'z) disk_scheme" where
  "os_mkdir p =
     syscall (\<lambda>es.
       if map_of es p \<noteq> None then Inl EEXIST
       else if map_of es (parent p) \<noteq> Some NDir then Inl ENOENT
       else Inr ((), AList.update p NDir es))"

fun make_dirs :: "'a path list \<Rightarrow> ('a, 'd) entries \<Rightarrow> os_error + ('a, 'd) entries" where
  "make_dirs [] es = Inr es"
| "make_dirs (p # ps) es =
     (case map_of es p of
        Some (NFile c) \<Rightarrow> Inl ENOTDIR
      | Some NDir \<Rightarrow> make_dirs ps es
      | None \<Rightarrow> make_dirs ps (AList.update p NDir es))"

definition os_mkdir_all ::
  "'a path \<Rightarrow> ('a, 'd, 'z) disk_scheme \<Rightarrow> (os_error + unit) \<times> ('a, 'd, 'z) disk_scheme" where
  "os_mkdir_all p =
     syscall (\<lambda>es. map_sum id (\<lambda>es'. ((), es')) (make_dirs (map (Pair (fst p)) (prefixes (snd p))) es))"

text \<open>\<open>os.ReadDir\<close>: the entries of a directory in the order of their names, with \<open>IsDir\<close>.\<close>

definition os_read_dir ::
  "'a path \<Rightarrow> ('a, 'd, 'z) disk_scheme \<Rightarrow>
   (os_error + (string \<times> bool) list) \<times> ('a, 'd, 'z) disk_scheme" where
  "os_read_dir p =
     syscall (\<lambda>es. case map_of es p of
         None \<Rightarrow> Inl ENOENT
       | Some (NFile c) \<Rightarrow> Inl ENOTDIR
       | Some NDir \<Rightarrow>
           Inr (map (\<lambda>n. (n, map_of es (child p n) = Some NDir)) (names_in es p), es))"

definition os_read_file ::
  "'a path \<Rightarrow> ('a, 'd, 'z) disk_scheme \<Rightarrow>
   (os_error + 'd content) \<times> ('a, 'd, 'z) disk_scheme" where
  "os_read_file p =
     syscall (\<lambda>es. case map_of es p of
         None \<Rightarrow> Inl ENOENT
       | Some (NFile c) \<Rightarrow> Inr (c, es)
       | Some NDir \<Rightarrow> Inl EISDIR)"

text \<open>The size \<open>Stat\<close> reports. Only objects and upload parts are measured, and those are
  \<open>Blob\<close>s.\<close>

fun inode_size :: "'d inode \<Rightarrow> int" where
  "inode_size (NFile (Blob b)) = int (length b)"
| "inode_size _ = 0"

section \<open>The state after a call\<close>

text \<open>The changes the calls make, as functions on the state, with what they leave at each path.\<close>

definition put_entry :: "'a path \<Rightarrow> 'd inode \<Rightarrow> ('a, 'd, 'z) disk_scheme \<Rightarrow> ('a, 'd, 'z) disk_scheme" where
  "put_entry p n s = s\<lparr>entries := AList.update p n (entries s)\<rparr>"

definition del_entry :: "'a path \<Rightarrow> ('a, 'd, 'z) disk_scheme \<Rightarrow> ('a, 'd, 'z) disk_scheme" where
  "del_entry p s = s\<lparr>entries := AList.delete p (entries s)\<rparr>"

definition prune_entry :: "'a path \<Rightarrow> ('a, 'd, 'z) disk_scheme \<Rightarrow> ('a, 'd, 'z) disk_scheme" where
  "prune_entry p s = s\<lparr>entries := prune p (entries s)\<rparr>"

definition names :: "('a, 'd, 'z) disk_scheme \<Rightarrow> 'a path \<Rightarrow> string list" where
  "names s p = names_in (entries s) p"

lemma look_put_entry [simp]: "look (put_entry p n s) = (look s)(p \<mapsto> n)"
  by (auto simp: look_def put_entry_def update_conv' fun_eq_iff)

lemma look_del_entry [simp]: "look (del_entry p s) = (look s)(p := None)"
  by (auto simp: look_def del_entry_def delete_conv' fun_eq_iff)

lemma look_prune_entry [simp]:
  "look (prune_entry p s) q = (if under p q then None else look s q)"
  by (simp add: look_def prune_entry_def map_of_prune)

lemma script_put_entry [simp]: "script (put_entry p n s) = script s"
  by (simp add: put_entry_def)

lemma script_del_entry [simp]: "script (del_entry p s) = script s"
  by (simp add: del_entry_def)

lemma script_prune_entry [simp]: "script (prune_entry p s) = script s"
  by (simp add: prune_entry_def)

lemma look_script [simp]: "look (s\<lparr>script := sc\<rparr>) = look s"
  by (simp add: look_def fun_eq_iff)

lemma set_names: "set (names s p) = {n. look s (child p n) \<noteq> None}"
  by (simp add: names_def set_names_in look_def)

lemma sorted_names [simp]: "sorted (names s p)"
  by (simp add: names_def)

lemma distinct_names [simp]: "distinct (names s p)"
  by (simp add: names_def)

lemma names_script [simp]: "names (s\<lparr>script := sc\<rparr>) = names s"
  by (simp add: names_def fun_eq_iff)

lemma names_cong:
  assumes "\<And>n. (look s (child p n) = None) = (look t (child p n) = None)"
  shows "names s p = names t p"
  using assms unfolding names_def look_def by (rule names_in_cong)

text \<open>A temporary file that is created and renamed away leaves no trace.\<close>

lemma put_put_entry [simp]: "put_entry p a (put_entry p b s) = put_entry p a s"
  by (simp add: put_entry_def)

lemma del_put_entry [simp]: "del_entry p (put_entry p a s) = del_entry p s"
proof -
  have "AList.delete p (AList.update p a es) = AList.delete p es" for es :: "('a, 'b) entries"
    by (induction es) auto
  then show ?thesis by (simp add: del_entry_def put_entry_def)
qed

lemma del_absent_entry [simp]: "look s p = None \<Longrightarrow> del_entry p s = s"
  by (simp add: del_entry_def look_def map_of_eq_None_iff delete_id)

lemma names_put_other:
  "(\<And>n. q \<noteq> child p n) \<Longrightarrow> names (put_entry q x s) p = names s p"
  by (rule names_cong) auto

lemma names_del_other:
  "(\<And>n. q \<noteq> child p n) \<Longrightarrow> names (del_entry q s) p = names s p"
  by (rule names_cong) auto

section \<open>Runs without failures\<close>

text \<open>With an empty script each call is a plain function of what is at the paths it names.\<close>

lemma syscall_calm:
  "script s = [] \<Longrightarrow>
   syscall f s = (case f (entries s) of Inl e \<Rightarrow> (Inl e, s) | Inr (r, es) \<Rightarrow> (Inr r, s\<lparr>entries := es\<rparr>))"
  by (simp add: syscall_def tick_def)

lemma os_stat_calm [go_simps]:
  "script s = [] \<Longrightarrow>
   os_stat p s = (case look s p of None \<Rightarrow> (Inl ENOENT, s) | Some n \<Rightarrow> (Inr n, s))"
  by (simp add: os_stat_def syscall_calm look_def split: option.split)

lemma os_create_excl_calm [go_simps]:
  "script s = [] \<Longrightarrow>
   os_create_excl p s =
     (if look s p \<noteq> None then (Inl EEXIST, s)
      else if look s (parent p) \<noteq> Some NDir then (Inl ENOENT, s)
      else (Inr (), put_entry p (NFile (Blob [])) s))"
  by (simp add: os_create_excl_def syscall_calm look_def put_entry_def)

lemma os_create_calm [go_simps]:
  "script s = [] \<Longrightarrow>
   os_create p s =
     (if look s p = Some NDir then (Inl EISDIR, s)
      else if look s (parent p) \<noteq> Some NDir then (Inl ENOENT, s)
      else (Inr (), put_entry p (NFile (Blob [])) s))"
  by (simp add: os_create_def syscall_calm look_def put_entry_def)

lemma os_open_calm [go_simps]:
  "script s = [] \<Longrightarrow> os_open p s = (if look s p = None then (Inl ENOENT, s) else (Inr (), s))"
  by (simp add: os_open_def syscall_calm look_def)

lemma os_open_append_calm [go_simps]:
  "script s = [] \<Longrightarrow>
   os_open_append p s =
     (case look s p of
        None \<Rightarrow> (Inl ENOENT, s)
      | Some NDir \<Rightarrow> (Inl EISDIR, s)
      | Some (NFile c) \<Rightarrow> (Inr (), s))"
  by (simp add: os_open_append_def syscall_calm look_def split: option.split inode.split)

lemma os_sync_calm [go_simps]: "script s = [] \<Longrightarrow> os_sync s = (Inr (), s)"
  by (simp add: os_sync_def syscall_calm)

lemma os_close_calm [go_simps]: "script s = [] \<Longrightarrow> os_close s = (Inr (), s)"
  by (simp add: os_close_def syscall_calm)

lemma os_chmod_calm [go_simps]: "script s = [] \<Longrightarrow> os_chmod s = (Inr (), s)"
  by (simp add: os_chmod_def syscall_calm)

lemma os_write_calm [go_simps]:
  "script s = [] \<Longrightarrow> os_write p c s = (Inr (), put_entry p (NFile c) s)"
  by (simp add: os_write_def tick_def put_entry_def)

lemma os_append_calm [go_simps]:
  "script s = [] \<Longrightarrow>
   os_append p b s = (Inr (), put_entry p (NFile (Blob (blob_of (look s p) @ b))) s)"
  by (simp add: os_append_def tick_def put_entry_def)

lemma os_truncate_calm [go_simps]:
  "script s = [] \<Longrightarrow>
   os_truncate p n s = (Inr (), put_entry p (NFile (Blob (take n (blob_of (look s p))))) s)"
  by (simp add: os_truncate_def syscall_calm put_entry_def look_def)

lemma os_rename_file_calm [go_simps]:
  "script s = [] \<Longrightarrow> look s p = Some (NFile c) \<Longrightarrow>
   os_rename p q s =
     (if look s (parent q) \<noteq> Some NDir then (Inl ENOENT, s)
      else if look s q = Some NDir then (Inl EEXIST, s)
      else (Inr (), put_entry q (NFile c) (del_entry p s)))"
  by (simp add: os_rename_def syscall_calm put_entry_def del_entry_def look_def)

lemma os_remove_calm [go_simps]:
  "script s = [] \<Longrightarrow>
   os_remove p s =
     (case look s p of
        None \<Rightarrow> (Inl ENOENT, s)
      | Some (NFile c) \<Rightarrow> (Inr (), del_entry p s)
      | Some NDir \<Rightarrow> if names s p \<noteq> [] then (Inl ENOTEMPTY, s) else (Inr (), del_entry p s))"
  by (simp add: os_remove_def syscall_calm del_entry_def look_def names_def
      split: option.split inode.split)

lemma os_remove_all_calm [go_simps]:
  "script s = [] \<Longrightarrow> os_remove_all p s = (Inr (), prune_entry p s)"
  by (simp add: os_remove_all_def tick_def prune_entry_def)

lemma os_mkdir_calm [go_simps]:
  "script s = [] \<Longrightarrow>
   os_mkdir p s =
     (if look s p \<noteq> None then (Inl EEXIST, s)
      else if look s (parent p) \<noteq> Some NDir then (Inl ENOENT, s)
      else (Inr (), put_entry p NDir s))"
  by (simp add: os_mkdir_def syscall_calm put_entry_def look_def)

lemma os_read_dir_calm [go_simps]:
  "script s = [] \<Longrightarrow>
   os_read_dir p s =
     (case look s p of
        None \<Rightarrow> (Inl ENOENT, s)
      | Some (NFile c) \<Rightarrow> (Inl ENOTDIR, s)
      | Some NDir \<Rightarrow> (Inr (map (\<lambda>n. (n, look s (child p n) = Some NDir)) (names s p)), s))"
  by (simp add: os_read_dir_def syscall_calm look_def names_def split: option.split inode.split)

lemma os_read_file_calm [go_simps]:
  "script s = [] \<Longrightarrow>
   os_read_file p s =
     (case look s p of
        None \<Rightarrow> (Inl ENOENT, s)
      | Some (NFile c) \<Rightarrow> (Inr c, s)
      | Some NDir \<Rightarrow> (Inl EISDIR, s))"
  by (simp add: os_read_file_def syscall_calm look_def split: option.split inode.split)

section \<open>Runs with any failures\<close>

text \<open>From \<open>s\<close> to \<open>t\<close> nothing changed outside the trees rooted in \<open>R\<close>. The rules hold for
  every fault script, so they bound what a failing or crashing operation can damage.\<close>

definition touches :: "'a path set \<Rightarrow> ('a, 'd, 'z) disk_scheme \<Rightarrow> ('a, 'd, 'z) disk_scheme \<Rightarrow> bool" where
  "touches R s t \<longleftrightarrow> (\<forall>q. (\<forall>r\<in>R. \<not> under r q) \<longrightarrow> look t q = look s q)"

lemma touches_refl [touch_intros]: "touches R s s"
  by (simp add: touches_def)

lemma touches_trans: "touches R s t \<Longrightarrow> touches R t u \<Longrightarrow> touches R s u"
  by (simp add: touches_def)

lemma touches_mono: "touches R s t \<Longrightarrow> R \<subseteq> R' \<Longrightarrow> touches R' s t"
  unfolding touches_def by blast

lemma touches_look: "touches R s t \<Longrightarrow> (\<And>r. r \<in> R \<Longrightarrow> \<not> under r q) \<Longrightarrow> look t q = look s q"
  unfolding touches_def by blast

lemma touches_tick: "touches R s t \<Longrightarrow> touches R s (snd (tick t))"
  by (auto simp: tick_def touches_def split: list.split)

lemma touches_syscall:
  assumes "touches R s t"
    and "\<And>r es' q. f (entries t) = Inr (r, es') \<Longrightarrow> (\<forall>r\<in>R. \<not> under r q) \<Longrightarrow> map_of es' q = map_of (entries t) q"
  shows "touches R s (snd (syscall f t))"
proof -
  have e: "entries (snd (tick t)) = entries t"
    by (simp add: tick_def split: list.split)
  show ?thesis
    using assms e
    by (auto simp: syscall_def touches_def look_def split: prod.split option.split sum.split)
qed

lemma touches_put_entry [touch_intros]: "touches R s t \<Longrightarrow> p \<in> R \<Longrightarrow> touches R s (put_entry p n t)"
  by (auto simp: touches_def)

lemma touches_del_entry [touch_intros]: "touches R s t \<Longrightarrow> p \<in> R \<Longrightarrow> touches R s (del_entry p t)"
  by (auto simp: touches_def)

lemma touches_readers [touch_intros]:
  assumes "touches R s t"
  shows "touches R s (snd (os_stat p t))" "touches R s (snd (os_open p t))"
    and "touches R s (snd (os_open_append p t))"
    and "touches R s (snd (os_sync t))" "touches R s (snd (os_close t))" "touches R s (snd (os_chmod t))"
    and "touches R s (snd (os_read_dir p t))" "touches R s (snd (os_read_file p t))"
  unfolding os_stat_def os_open_def os_open_append_def os_sync_def os_close_def os_chmod_def os_read_dir_def os_read_file_def
  using assms by (auto intro!: touches_syscall split: option.splits inode.splits if_splits)

lemma touches_writers [touch_intros]:
  assumes "touches R s t" "p \<in> R"
  shows "touches R s (snd (os_create_excl p t))" "touches R s (snd (os_create p t))"
    and "touches R s (snd (os_truncate p n t))" "touches R s (snd (os_remove p t))"
    and "touches R s (snd (os_mkdir p t))"
    and "touches R s (snd (os_write p c t))" "touches R s (snd (os_append p b t))"
proof -
  have eq: "(\<forall>r\<in>R. \<not> under r q) \<Longrightarrow> q \<noteq> p" for q using assms(2) by auto
  show "touches R s (snd (os_create_excl p t))" "touches R s (snd (os_create p t))"
    "touches R s (snd (os_truncate p n t))" "touches R s (snd (os_remove p t))"
    "touches R s (snd (os_mkdir p t))"
    unfolding os_create_excl_def os_create_def os_truncate_def os_remove_def os_mkdir_def
    using assms(1) by (auto intro!: touches_syscall simp: update_conv' delete_conv' dest!: eq
        split: option.splits inode.splits if_splits)
  have k: "entries (snd (tick t)) = entries t" by (simp add: tick_def split: list.split)
  show "touches R s (snd (os_write p c t))" "touches R s (snd (os_append p b t))"
    using assms(1) k eq unfolding os_write_def os_append_def touches_def look_def
    by (auto simp: update_conv' simp del: split_paired_All split: prod.split option.split)
qed

lemma under_rebase: "under p x \<Longrightarrow> under q (rebase p q x)"
  by (simp add: under_def rebase_def)

lemma map_of_rebase:
  "\<not> under p y \<Longrightarrow> \<not> under q y \<Longrightarrow>
   map_of (map (\<lambda>(x, n). (if under p x then rebase p q x else x, n)) es) y = map_of es y"
  by (induction es) (auto simp: under_rebase)

lemma touches_rename [touch_intros]:
  assumes "touches R s t" "p \<in> R" "q \<in> R"
  shows "touches R s (snd (os_rename p q t))"
  unfolding os_rename_def
proof (rule touches_syscall [OF assms(1)])
  fix r es' y
  assume run: "(if map_of (entries t) (parent q) \<noteq> Some NDir then Inl ENOENT
     else case map_of (entries t) p of None \<Rightarrow> Inl ENOENT
          | Some (NFile c) \<Rightarrow>
              if map_of (entries t) q = Some NDir then Inl EEXIST
              else Inr ((), AList.update q (NFile c) (AList.delete p (entries t)))
          | Some NDir \<Rightarrow>
              if map_of (entries t) q \<noteq> None then Inl EEXIST
              else Inr ((), map (\<lambda>(x, n). (if under p x then rebase p q x else x, n)) (entries t)))
     = Inr (r, es')" and "\<forall>r\<in>R. \<not> under r y"
  then have "\<not> under p y" "\<not> under q y" using assms by auto
  then have "y \<noteq> p" "y \<noteq> q" "map_of (map (\<lambda>(x, n). (if under p x then rebase p q x else x, n)) (entries t)) y
      = map_of (entries t) y"
    using map_of_rebase [of p y q "entries t"] by auto
  with run show "map_of es' y = map_of (entries t) y"
    by (auto simp: update_conv' delete_conv' split: option.splits inode.splits if_splits)
qed

lemma touches_remove_all [touch_intros]:
  assumes "touches R s t" "p \<in> R"
  shows "touches R s (snd (os_remove_all p t))"
proof -
  have k: "entries (snd (tick t)) = entries t" by (simp add: tick_def split: list.split)
  have pr: "map_of (foldr (\<lambda>n. prune (child p n)) ns es) y = map_of es y" if "\<not> under p y" for ns es y
  proof (induction ns)
    case (Cons n ns)
    have "\<not> under (child p n) y"
      using that by (cases p; cases y) (auto dest: append_prefixD)
    with Cons show ?case by (simp add: map_of_prune)
  qed simp
  show ?thesis
    using assms k
    by (auto simp: os_remove_all_def touches_def look_def map_of_prune pr split: prod.split option.split)
qed

text \<open>The shape of the model's code after a call.\<close>

lemma touches_result [touch_intros]:
  "touches R s (snd m) \<Longrightarrow>
   (\<And>e t. touches R s t \<Longrightarrow> touches R s (snd (f e t))) \<Longrightarrow>
   (\<And>x t. touches R s t \<Longrightarrow> touches R s (snd (g x t))) \<Longrightarrow>
   touches R s (snd (case m of (Inl e, t) \<Rightarrow> f e t | (Inr x, t) \<Rightarrow> g x t))"
  by (auto split: prod.split sum.split)

lemma touches_test [touch_intros]:
  "touches R s (snd m) \<Longrightarrow>
   (\<And>t. touches R s t \<Longrightarrow> touches R s (snd (f t))) \<Longrightarrow>
   (\<And>t. touches R s t \<Longrightarrow> touches R s (snd (g t))) \<Longrightarrow>
   touches R s (snd (case m of (True, t) \<Rightarrow> f t | (False, t) \<Rightarrow> g t))"
  by (auto split: prod.split bool.split)

lemma touches_if [touch_intros]:
  "(b \<Longrightarrow> touches R s (snd x)) \<Longrightarrow> (\<not> b \<Longrightarrow> touches R s (snd y)) \<Longrightarrow> touches R s (snd (if b then x else y))"
  by simp

lemma touches_pair [touch_intros]: "touches R s t \<Longrightarrow> touches R s (snd (r, t))"
  by simp

lemma touches_option [touch_intros]:
  "touches R s (snd x) \<Longrightarrow> (\<And>v. touches R s (snd (y v))) \<Longrightarrow>
   touches R s (snd (case o' of None \<Rightarrow> x | Some v \<Rightarrow> y v))"
  by (simp split: option.split)

lemma touches_sum [touch_intros]:
  "(\<And>e. touches R s (snd (x e))) \<Longrightarrow> (\<And>v. touches R s (snd (y v))) \<Longrightarrow>
   touches R s (snd (case o' of Inl e \<Rightarrow> x e | Inr v \<Rightarrow> y v))"
  by (simp split: sum.split)

section \<open>Runs with one failure\<close>

text \<open>A call whose script entry is \<open>None\<close> is the call of the failure-free run; with \<open>Some k\<close> it
  fails. With these rules a straight-line operation is evaluated under a concrete script.\<close>

definition with_script :: "fault list \<Rightarrow> 'r \<times> ('a, 'd, 'z) disk_scheme \<Rightarrow> 'r \<times> ('a, 'd, 'z) disk_scheme" where
  "with_script sc m = (fst m, (snd m)\<lparr>script := sc\<rparr>)"

lemma with_script_pair [simp]: "with_script sc (r, t) = (r, t\<lparr>script := sc\<rparr>)"
  by (simp add: with_script_def)

lemma put_entry_script [simp]: "put_entry p n (s\<lparr>script := sc\<rparr>) = (put_entry p n s)\<lparr>script := sc\<rparr>"
  by (simp add: put_entry_def)

lemma del_entry_script [simp]: "del_entry p (s\<lparr>script := sc\<rparr>) = (del_entry p s)\<lparr>script := sc\<rparr>"
  by (simp add: del_entry_def)

lemma prune_entry_script [simp]: "prune_entry p (s\<lparr>script := sc\<rparr>) = (prune_entry p s)\<lparr>script := sc\<rparr>"
  by (simp add: prune_entry_def)

lemma syscall_step:
  "script s = None # sc \<Longrightarrow> syscall f s = with_script sc (syscall f (s\<lparr>script := []\<rparr>))"
  by (simp add: syscall_def tick_def split: sum.split prod.split)

lemma syscall_fault: "script s = Some k # sc \<Longrightarrow> syscall f s = (Inl EIO, s\<lparr>script := sc\<rparr>)"
  by (simp add: syscall_def tick_def)

lemma os_steps [step_simps]:
  assumes "script s = None # sc"
  shows "os_stat p s = with_script sc (os_stat p (s\<lparr>script := []\<rparr>))"
    and "os_create_excl p s = with_script sc (os_create_excl p (s\<lparr>script := []\<rparr>))"
    and "os_create p s = with_script sc (os_create p (s\<lparr>script := []\<rparr>))"
    and "os_open p s = with_script sc (os_open p (s\<lparr>script := []\<rparr>))"
    and "os_open_append p s = with_script sc (os_open_append p (s\<lparr>script := []\<rparr>))"
    and "os_sync s = with_script sc (os_sync (s\<lparr>script := []\<rparr>))"
    and "os_close s = with_script sc (os_close (s\<lparr>script := []\<rparr>))"
    and "os_chmod s = with_script sc (os_chmod (s\<lparr>script := []\<rparr>))"
    and "os_write p c s = with_script sc (os_write p c (s\<lparr>script := []\<rparr>))"
    and "os_append p b s = with_script sc (os_append p b (s\<lparr>script := []\<rparr>))"
    and "os_truncate p n s = with_script sc (os_truncate p n (s\<lparr>script := []\<rparr>))"
    and "os_rename p q s = with_script sc (os_rename p q (s\<lparr>script := []\<rparr>))"
    and "os_remove p s = with_script sc (os_remove p (s\<lparr>script := []\<rparr>))"
    and "os_remove_all p s = with_script sc (os_remove_all p (s\<lparr>script := []\<rparr>))"
    and "os_mkdir p s = with_script sc (os_mkdir p (s\<lparr>script := []\<rparr>))"
    and "os_read_dir p s = with_script sc (os_read_dir p (s\<lparr>script := []\<rparr>))"
    and "os_read_file p s = with_script sc (os_read_file p (s\<lparr>script := []\<rparr>))"
  using assms syscall_step [OF assms]
  by (simp_all add: os_stat_def os_create_excl_def os_create_def os_open_def os_open_append_def
      os_sync_def os_close_def
      os_chmod_def os_truncate_def os_rename_def os_remove_def os_mkdir_def os_read_dir_def
      os_read_file_def os_write_def os_append_def os_remove_all_def tick_def with_script_def look_def)

lemma os_faults [step_simps]:
  assumes "script s = Some k # sc"
  shows "os_stat p s = (Inl EIO, s\<lparr>script := sc\<rparr>)"
    and "os_create_excl p s = (Inl EIO, s\<lparr>script := sc\<rparr>)"
    and "os_create p s = (Inl EIO, s\<lparr>script := sc\<rparr>)"
    and "os_open p s = (Inl EIO, s\<lparr>script := sc\<rparr>)"
    and "os_open_append p s = (Inl EIO, s\<lparr>script := sc\<rparr>)"
    and "os_sync s = (Inl EIO, s\<lparr>script := sc\<rparr>)"
    and "os_close s = (Inl EIO, s\<lparr>script := sc\<rparr>)"
    and "os_chmod s = (Inl EIO, s\<lparr>script := sc\<rparr>)"
    and "os_write p c s = (Inl EIO, (put_entry p (NFile (tear k c)) s)\<lparr>script := sc\<rparr>)"
    and "os_append p b s = (Inl EIO, (put_entry p (NFile (Blob (blob_of (look s p) @ take k b))) s)\<lparr>script := sc\<rparr>)"
    and "os_truncate p n s = (Inl EIO, s\<lparr>script := sc\<rparr>)"
    and "os_rename p q s = (Inl EIO, s\<lparr>script := sc\<rparr>)"
    and "os_remove p s = (Inl EIO, s\<lparr>script := sc\<rparr>)"
    and "os_mkdir p s = (Inl EIO, s\<lparr>script := sc\<rparr>)"
    and "os_read_dir p s = (Inl EIO, s\<lparr>script := sc\<rparr>)"
    and "os_read_file p s = (Inl EIO, s\<lparr>script := sc\<rparr>)"
  using assms syscall_fault [OF assms]
  by (simp_all add: os_stat_def os_create_excl_def os_create_def os_open_def os_open_append_def
      os_sync_def os_close_def
      os_chmod_def os_truncate_def os_rename_def os_remove_def os_mkdir_def os_read_dir_def
      os_read_file_def os_write_def os_append_def tick_def put_entry_def)

text \<open>The position of a single failure among the first calls.\<close>

lemma single_fault_split:
  "sc = replicate m None @ [Some k] \<Longrightarrow>
   m < n \<or> sc = replicate n None @ replicate (m - n) None @ [Some k]"
  by (metis append_assoc le_add_diff_inverse linorder_not_less replicate_add)

section \<open>Recursive directory creation\<close>

lemma make_dirs_look:
  "make_dirs ps es = Inr es' \<Longrightarrow> q \<notin> set ps \<Longrightarrow> map_of es' q = map_of es q"
  by (induction ps arbitrary: es) (auto simp: update_conv' split: option.splits inode.splits)

lemma touches_mkdir_all [touch_intros]:
  assumes "touches R s t" "(fst p, []) \<in> R"
  shows "touches R s (snd (os_mkdir_all p t))"
  unfolding os_mkdir_all_def
proof (rule touches_syscall [OF assms(1)])
  fix r es' q
  assume "map_sum id (Pair ()) (make_dirs (map (Pair (fst p)) (prefixes (snd p))) (entries t)) = Inr (r, es')"
    and q: "\<forall>r\<in>R. \<not> under r q"
  then have "make_dirs (map (Pair (fst p)) (prefixes (snd p))) (entries t) = Inr es'"
    by (cases "make_dirs (map (Pair (fst p)) (prefixes (snd p))) (entries t)") auto
  moreover have "q \<notin> set (map (Pair (fst p)) (prefixes (snd p)))"
    using q assms(2) by (force simp: under_def)
  ultimately show "map_of es' q = map_of (entries t) q" by (rule make_dirs_look)
qed

text \<open>A directory listing names what is there.\<close>

lemma os_read_dir_Inr:
  assumes "os_read_dir p s = (Inr es, t)"
  shows "look t = look s" "set (map fst es) = {n. look s (child p n) \<noteq> None}"
    and "(n, True) \<in> set es \<Longrightarrow> look s (child p n) = Some NDir"
proof -
  have tick: "entries (snd (tick s)) = entries s"
    by (auto simp: tick_def split: list.split)
  have "look t = look s \<and> es = map (\<lambda>n. (n, look s (child p n) = Some NDir)) (names s p)"
    using assms tick
    by (cases "tick s")
      (auto simp: os_read_dir_def syscall_def look_def names_def fun_eq_iff split: option.splits inode.splits)
  then show "look t = look s" "set (map fst es) = {n. look s (child p n) \<noteq> None}"
    "(n, True) \<in> set es \<Longrightarrow> look s (child p n) = Some NDir"
    using set_names [of s p] by (auto simp: comp_def)
qed

section \<open>Runs with any script\<close>

lemma script_cases:
  obtains "script s = []" | sc where "script s = None # sc" | k sc where "script s = Some k # sc"
  by (cases "script s"; cases "hd (script s)") auto

text \<open>The state a call leaves, up to the rest of the script.\<close>

lemma os_effects:
  shows "os_create_excl p s = (r, t) \<Longrightarrow>
      \<exists>sc. t = (case r of Inl e \<Rightarrow> s | Inr _ \<Rightarrow> put_entry p (NFile (Blob [])) s)\<lparr>script := sc\<rparr>"
    and "os_chmod s = (r, t) \<Longrightarrow> \<exists>sc. t = s\<lparr>script := sc\<rparr>"
    and "os_sync s = (r, t) \<Longrightarrow> \<exists>sc. t = s\<lparr>script := sc\<rparr>"
    and "os_close s = (r, t) \<Longrightarrow> \<exists>sc. t = s\<lparr>script := sc\<rparr>"
    and "os_open p s = (r, t) \<Longrightarrow> \<exists>sc. t = s\<lparr>script := sc\<rparr>"
    and "os_write p c s = (r, t) \<Longrightarrow>
      \<exists>sc c'. t = (put_entry p (NFile c') s)\<lparr>script := sc\<rparr> \<and> (r = Inr () \<longrightarrow> c' = c)"
    and "look s p = Some (NFile c) \<Longrightarrow> os_rename p q s = (r, t) \<Longrightarrow>
      \<exists>sc. t = (case r of Inl e \<Rightarrow> s | Inr _ \<Rightarrow> put_entry q (NFile c) (del_entry p s))\<lparr>script := sc\<rparr>"
    and "look s p = Some (NFile c) \<Longrightarrow> os_remove p s = (r, t) \<Longrightarrow>
      \<exists>sc. t = (case r of Inl e \<Rightarrow> s | Inr _ \<Rightarrow> del_entry p s)\<lparr>script := sc\<rparr>"
    and "os_read_file p s = (d, t) \<Longrightarrow> \<exists>sc. t = s\<lparr>script := sc\<rparr> \<and>
      (\<forall>x. d = Inr x \<longrightarrow> look s p = Some (NFile x))"
    and "os_create p s = (r, t) \<Longrightarrow>
      \<exists>sc. t = (case r of Inl e \<Rightarrow> s | Inr _ \<Rightarrow> put_entry p (NFile (Blob [])) s)\<lparr>script := sc\<rparr>"
proof -
  show "os_create p s = (r, t) \<Longrightarrow>
      \<exists>sc. t = (case r of Inl e \<Rightarrow> s | Inr _ \<Rightarrow> put_entry p (NFile (Blob [])) s)\<lparr>script := sc\<rparr>"
    by (cases s rule: script_cases) (auto simp: step_simps go_simps split: if_splits intro: exI [of _ "script s"])
  show "os_create_excl p s = (r, t) \<Longrightarrow>
      \<exists>sc. t = (case r of Inl e \<Rightarrow> s | Inr _ \<Rightarrow> put_entry p (NFile (Blob [])) s)\<lparr>script := sc\<rparr>"
    by (cases s rule: script_cases) (auto simp: step_simps go_simps split: if_splits intro: exI [of _ "script s"])
  show "os_chmod s = (r, t) \<Longrightarrow> \<exists>sc. t = s\<lparr>script := sc\<rparr>"
    by (cases s rule: script_cases) (auto simp: step_simps go_simps split: if_splits intro: exI [of _ "script s"])
  show "os_sync s = (r, t) \<Longrightarrow> \<exists>sc. t = s\<lparr>script := sc\<rparr>"
    by (cases s rule: script_cases) (auto simp: step_simps go_simps split: if_splits intro: exI [of _ "script s"])
  show "os_close s = (r, t) \<Longrightarrow> \<exists>sc. t = s\<lparr>script := sc\<rparr>"
    by (cases s rule: script_cases) (auto simp: step_simps go_simps split: if_splits intro: exI [of _ "script s"])
  show "os_open p s = (r, t) \<Longrightarrow> \<exists>sc. t = s\<lparr>script := sc\<rparr>"
    by (cases s rule: script_cases) (auto simp: step_simps go_simps split: if_splits intro: exI [of _ "script s"])+
  show "os_write p c s = (r, t) \<Longrightarrow>
      \<exists>sc c'. t = (put_entry p (NFile c') s)\<lparr>script := sc\<rparr> \<and> (r = Inr () \<longrightarrow> c' = c)"
    by (cases s rule: script_cases) (auto simp: step_simps go_simps split: if_splits intro: exI [of _ "script s"])
  show "look s p = Some (NFile c) \<Longrightarrow> os_rename p q s = (r, t) \<Longrightarrow>
      \<exists>sc. t = (case r of Inl e \<Rightarrow> s | Inr _ \<Rightarrow> put_entry q (NFile c) (del_entry p s))\<lparr>script := sc\<rparr>"
    by (cases s rule: script_cases) (auto simp: step_simps go_simps split: if_splits intro: exI [of _ "script s"])
  show "look s p = Some (NFile c) \<Longrightarrow> os_remove p s = (r, t) \<Longrightarrow>
      \<exists>sc. t = (case r of Inl e \<Rightarrow> s | Inr _ \<Rightarrow> del_entry p s)\<lparr>script := sc\<rparr>"
    by (cases s rule: script_cases) (auto simp: step_simps go_simps split: if_splits intro: exI [of _ "script s"])
  show "os_read_file p s = (d, t) \<Longrightarrow> \<exists>sc. t = s\<lparr>script := sc\<rparr> \<and>
      (\<forall>x. d = Inr x \<longrightarrow> look s p = Some (NFile x))"
    by (cases s rule: script_cases) (auto simp: step_simps go_simps split: option.splits inode.splits intro: exI [of _ "script s"])
qed

section \<open>The rest of the state\<close>

text \<open>The fields that a program keeps beside its disk are left alone by the calls, and a run without
  failures stays one.\<close>

definition same_rest :: "('a, 'd, 'z) disk_scheme \<Rightarrow> ('a, 'd, 'z) disk_scheme \<Rightarrow> bool" where
  "same_rest s t \<longleftrightarrow> disk.more t = disk.more s \<and> (script s = [] \<longrightarrow> script t = [])"

lemma same_rest_refl [rest_intros]: "same_rest s s"
  by (simp add: same_rest_def)

lemma same_rest_tick: "same_rest s t \<Longrightarrow> same_rest s (snd (tick t))"
  by (simp add: same_rest_def tick_def split: list.split)

lemma same_rest_syscall: "same_rest s t \<Longrightarrow> same_rest s (snd (syscall f t))"
  using same_rest_tick [of s t] by (auto simp: same_rest_def syscall_def split: prod.split option.split sum.split)

lemma same_rest_calls [rest_intros]:
  assumes "same_rest s t"
  shows "same_rest s (snd (os_stat p t))" "same_rest s (snd (os_create_excl p t))" "same_rest s (snd (os_create p t))"
    and "same_rest s (snd (os_open p t))" "same_rest s (snd (os_sync t))" "same_rest s (snd (os_close t))"
    and "same_rest s (snd (os_chmod t))" "same_rest s (snd (os_rename p q t))" "same_rest s (snd (os_remove p t))"
    and "same_rest s (snd (os_mkdir_all p t))" "same_rest s (snd (os_read_file p t))"
  unfolding os_stat_def os_create_excl_def os_create_def os_open_def os_sync_def os_close_def os_chmod_def
    os_rename_def os_remove_def os_mkdir_all_def os_read_file_def
  by (rule same_rest_syscall [OF assms])+

lemma same_rest_write [rest_intros]: "same_rest s t \<Longrightarrow> same_rest s (snd (os_write p c t))"
  using same_rest_tick [of s t] by (auto simp: same_rest_def os_write_def split: prod.split option.split)

lemma same_rest_shape [rest_intros]:
  "same_rest s t \<Longrightarrow> same_rest s (snd (r, t))"
  "same_rest s (snd m) \<Longrightarrow> (\<And>e t. same_rest s t \<Longrightarrow> same_rest s (snd (f e t))) \<Longrightarrow>
   (\<And>x t. same_rest s t \<Longrightarrow> same_rest s (snd (g x t))) \<Longrightarrow>
   same_rest s (snd (case m of (Inl e, t) \<Rightarrow> f e t | (Inr x, t) \<Rightarrow> g x t))"
  "(\<And>e. same_rest s (snd (x e))) \<Longrightarrow> (\<And>v. same_rest s (snd (y v))) \<Longrightarrow>
   same_rest s (snd (case o' of Inl e \<Rightarrow> x e | Inr v \<Rightarrow> y v))"
  by (auto split: prod.split sum.split)

end
