(* ===== verification/FileModel.thy ===== *)
theory FileModel
  imports Disk
begin

text \<open>
  The data of package files (\<open>pkg/files/model.go\<close>): records, error values, validators, the
  directories of a store and the environment its operations read. A Go map from strings to strings
  is an association list; nil and the empty map are both the empty list (the JSON tag
  \<open>omitempty\<close> identifies them on disk, and the only read, of the key \<open>owner\<close>, does not
  distinguish them).
\<close>

section \<open>Errors\<close>

datatype ctx_error = Canceled | DeadlineExceeded

text \<open>
  An error is the sentinel that \<open>errors.Is\<close> finds in its chain: wrapping with \<open>%w\<close> keeps it.
  \<open>ErrFileTooLarge\<close> is the gateway's, \<open>MaxBytesError\<close> and \<open>ReaderError\<close> come from the
  request body, \<open>Unavailable\<close> is the service's error for a store without the wanted capability.
  \<open>OutOfFuel\<close> is no error of the program: it marks a recursion of the model that
  was given too little fuel, which is proved not to happen.
\<close>

datatype err =
    ErrInvalidID | ErrInvalidUpload | ErrNotFound | ErrCorruptMetadata | ErrStoragePaused
  | ErrUploadNotFound | ErrUploadOffsetConflict | ErrUploadIncomplete | ErrUploadChecksumMismatch
  | ErrUploadTooLarge | ErrUploadChunkSize | ErrRestoreConflict | ErrFileExists | ErrQuotaExceeded
  | ErrFileTooLarge | MaxBytesError | ReaderError | OSErr os_error | CtxErr ctx_error | Unavailable
  | OutOfFuel

type_synonym ctx = "ctx_error option"

section \<open>Records\<close>

definition StatusAvailable :: string where
  "StatusAvailable = ''available''"

definition UploadStatusUploading :: string where
  "UploadStatusUploading = ''uploading''"

definition UploadStatusCompleted :: string where
  "UploadStatusCompleted = ''completed''"

type_synonym labels = "(string \<times> string) list"

record file_info =
  fID :: string
  fName :: string
  fContentType :: string
  fSize :: int
  fChecksum :: string
  fStatus :: string
  fCreatedAt :: time
  fMetadata :: labels
  fDeletedAt :: "time option"

text \<open>A request body: the bytes it yields and the error, if any, that ends it.\<close>

record body =
  bData :: bytes
  bErr :: "err option"

record upload_input =
  iID :: string
  iName :: string
  iContentType :: string
  iMetadata :: labels
  iReader :: "body option"

record multipart_start_input =
  mName :: string
  mContentType :: string
  mSize :: int
  mChecksum :: string
  mMetadata :: labels

record upload_session =
  uID :: string
  uFileID :: string
  uName :: string
  uContentType :: string
  uSize :: int
  uChecksum :: string
  uReceivedBytes :: int
  uStatus :: string
  uCreatedAt :: time
  uUpdatedAt :: time
  uMetadata :: labels

record capacity =
  cTotalBytes :: "64 word"
  cUsedBytes :: "64 word"
  cAvailableBytes :: "64 word"
  cUsedPercent :: rat
  cObjectCount :: int
  cObjectBytes :: int
  cMetadataCount :: int
  cTrashCount :: int
  cTrashBytes :: int
  cPauseAtPercent :: int
  cWritesPaused :: bool

record quota =
  qOwner :: string
  qLimitBytes :: int
  qUsedBytes :: int
  qAvailableBytes :: int
  qUsedPercent :: rat

text \<open>\<open>cloneFile\<close> and \<open>cloneUploadSession\<close> copy the metadata map, so that caller and store
  share no storage; a value of the model has no aliases.\<close>

fun clone_labels :: "labels \<Rightarrow> labels" where
  "clone_labels [] = []"
| "clone_labels ((k, v) # m) = (k, v) # clone_labels m"

definition cloneFile :: "file_info \<Rightarrow> file_info" where
  "cloneFile f = (if fMetadata f = [] then f else f\<lparr>fMetadata := clone_labels (fMetadata f)\<rparr>)"

definition cloneUploadSession :: "upload_session \<Rightarrow> upload_session" where
  "cloneUploadSession u = (if uMetadata u = [] then u else u\<lparr>uMetadata := clone_labels (uMetadata u)\<rparr>)"

lemma clone_labels_id [simp]: "clone_labels m = m"
  by (induction m rule: clone_labels.induct) auto

lemma cloneFile_id [simp]: "cloneFile f = f"
  by (simp add: cloneFile_def)

lemma map_cloneFile [simp]: "map cloneFile fs = fs"
  by (simp add: map_idI)

lemma cloneUploadSession_id [simp]: "cloneUploadSession u = u"
  by (simp add: cloneUploadSession_def)

section \<open>Validators\<close>

definition is_lower_hex :: "char \<Rightarrow> bool" where
  "is_lower_hex c \<longleftrightarrow> c \<in> set ''0123456789abcdef''"

definition is_hex :: "char \<Rightarrow> bool" where
  "is_hex c \<longleftrightarrow> c \<in> set ''0123456789abcdefABCDEF''"

text \<open>The regular expression \<open>validFileID\<close>: groups of 8, 4, 4, 4 and 12 lower-case hexadecimal
  digits between hyphens, and nothing else.\<close>

definition validFileID :: "string \<Rightarrow> bool" where
  "validFileID s \<longleftrightarrow>
     map length (split_on CHR ''-'' s) = [8, 4, 4, 4, 12] \<and>
     list_all (list_all is_lower_hex) (split_on CHR ''-'' s)"

definition validateID :: "string \<Rightarrow> err + unit" where
  "validateID s = (if validFileID s then Inr () else Inl ErrInvalidID)"

definition validateUploadID :: "string \<Rightarrow> err + unit" where
  "validateUploadID s = validateID s"

definition isSHA256 :: "string \<Rightarrow> bool" where
  "isSHA256 v \<longleftrightarrow> length v = 64 \<and> list_all is_hex v"

definition cleanDisplayName :: "string \<Rightarrow> string" where
  "cleanDisplayName name =
     (let n = filter (\<lambda>r. r \<noteq> CHR 0x0D \<and> r \<noteq> CHR 0x0A \<and> r \<noteq> CHR 0x00)
                (filepath_base (trim_space name))
      in if n = '''' \<or> n = ''.'' then ''file'' else n)"

definition normalizeOwner :: "string \<Rightarrow> string" where
  "normalizeOwner owner = (let o' = trim_space owner in if o' = '''' then ''_anonymous'' else o')"

definition map_get :: "labels \<Rightarrow> string \<Rightarrow> string" where
  "map_get m k = (case map_of m k of None \<Rightarrow> '''' | Some v \<Rightarrow> v)"

definition ownerFromMetadata :: "labels \<Rightarrow> string" where
  "ownerFromMetadata m =
     (if m = [] then ''_anonymous'' else normalizeOwner (map_get m ''owner''))"

definition maxInt64 :: "int \<Rightarrow> int \<Rightarrow> int" where
  "maxInt64 left right = (if left > right then left else right)"

lemma set_split_on: "set s \<subseteq> insert c (\<Union> (set ` set (split_on c s)))"
proof (induction s)
  case (Cons x s)
  then show ?case by (cases "split_on c s") (auto; blast)+
qed simp

lemma validFileID_chars: "validFileID s \<Longrightarrow> c \<in> set s \<Longrightarrow> is_lower_hex c \<or> c = CHR ''-''"
  using set_split_on [of s "CHR ''-''"] by (auto simp: validFileID_def list_all_iff)

text \<open>A valid identifier is one path component: it has no separator and no dot, so neither it
  nor a name built from it leaves its directory.\<close>

lemma validFileID_safe:
  assumes "validFileID s"
  shows "CHR ''/'' \<notin> set s" "CHR ''.'' \<notin> set s" "s \<noteq> ''''"
  using validFileID_chars [OF assms, of "CHR ''/''"] validFileID_chars [OF assms, of "CHR ''.''"] assms
  by (auto simp: is_lower_hex_def validFileID_def)

lemma trim_space_anonymous [simp]: "trim_space ''_anonymous'' = ''_anonymous''"
  by code_simp

lemma normalizeOwner_idem [simp]: "normalizeOwner (normalizeOwner owner) = normalizeOwner owner"
  by (simp add: normalizeOwner_def Let_def)

lemma normalizeOwner_ownerFromMetadata [simp]:
  "normalizeOwner (ownerFromMetadata m) = ownerFromMetadata m"
  by (simp add: ownerFromMetadata_def) (simp add: normalizeOwner_def)

lemma cleanDisplayName_nonempty [simp]: "cleanDisplayName name \<noteq> ''''"
  by (simp add: cleanDisplayName_def Let_def)

section \<open>The directories of a store\<close>

datatype area = Objects | Metadata | Tmp | Uploads | Trash | Quarantine

datatype doc = FileDoc file_info | SessionDoc upload_session

text \<open>Where \<open>filepath.Join\<close> puts each file of a store.\<close>

definition tmpPath :: "string \<Rightarrow> area path" where
  "tmpPath i = (Tmp, [i @ ''.part''])"

definition objectPath :: "string \<Rightarrow> area path" where
  "objectPath i = (Objects, [i])"

definition manifestPath :: "string \<Rightarrow> area path" where
  "manifestPath i = (Metadata, [i @ ''.json''])"

definition sessionDir :: "string \<Rightarrow> area path" where
  "sessionDir i = (Uploads, [i])"

definition sessionData :: "string \<Rightarrow> area path" where
  "sessionData i = (Uploads, [i, ''data.part''])"

definition sessionManifest :: "string \<Rightarrow> area path" where
  "sessionManifest i = (Uploads, [i, ''manifest.json''])"

definition trashDir :: "string \<Rightarrow> area path" where
  "trashDir i = (Trash, [i])"

definition trashObject :: "string \<Rightarrow> area path" where
  "trashObject i = (Trash, [i, ''object''])"

definition trashManifest :: "string \<Rightarrow> area path" where
  "trashManifest i = (Trash, [i, ''manifest.json''])"

text \<open>The temporary name next to a manifest: \<open>path + ".tmp"\<close>.\<close>

definition tmp_of :: "area path \<Rightarrow> area path" where
  "tmp_of p = (fst p, butlast (snd p) @ [last (snd p) @ ''.tmp''])"

lemmas path_defs =
  tmpPath_def objectPath_def manifestPath_def sessionDir_def sessionData_def sessionManifest_def
  trashDir_def trashObject_def trashManifest_def tmp_of_def

text \<open>\<open>json.Unmarshal\<close> into a \<open>File\<close> or an \<open>UploadSession\<close>.\<close>

fun unmarshal_file :: "doc content \<Rightarrow> file_info option" where
  "unmarshal_file (Doc (FileDoc f)) = Some f"
| "unmarshal_file _ = None"

fun unmarshal_session :: "doc content \<Rightarrow> upload_session option" where
  "unmarshal_session (Doc (SessionDoc u)) = Some u"
| "unmarshal_session _ = None"

section \<open>The environment\<close>

text \<open>
  What an operation reads from outside: the operating system's MIME table
  (\<open>mime.TypeByExtension\<close>), the digest function (SHA-256 in hexadecimal) and the answer of
  \<open>statfs\<close> for the root directory: blocks, block size, free blocks available to the service
  and free blocks. Nothing is assumed of them.
\<close>

record env =
  mimeByExt :: "string \<Rightarrow> string"
  sha256 :: "bytes \<Rightarrow> string"
  statFS :: "os_error + (64 word \<times> 64 word \<times> 64 word \<times> 64 word)"

definition resolveContentType :: "env \<Rightarrow> string \<Rightarrow> string \<Rightarrow> string" where
  "resolveContentType E given name =
     (let ct = trim_space given;
          ct1 = (if ct = '''' then mimeByExt E (filepath_ext name) else ct)
      in if ct1 = '''' then ''application/octet-stream'' else ct1)"

end
