(* ===== verification/Usage.thy ===== *)
theory Usage
  imports FileModel
begin

text \<open>
  The per-owner byte accounting of \<open>pkg/files/store.go\<close> (\<open>usageIndex\<close>): three maps from
  owner to bytes and records. The ledger contract states what a movement does to the balances;
  a client that records every stored item with a movement keeps each balance equal to the sum
  over the items.
\<close>

section \<open>The index\<close>

record usage_entry =
  Bytes :: int
  Records :: int

type_synonym bucket = "(string \<times> usage_entry) list"

record usage_index =
  uiFiles :: bucket
  uiTrash :: bucket
  uiUploads :: bucket

datatype usage_kind = UsageFile | UsageTrash | UsageUpload

definition newUsageIndex :: usage_index where
  "newUsageIndex = \<lparr>uiFiles = [], uiTrash = [], uiUploads = []\<rparr>"

text \<open>Reading a missing key of a Go map gives the zero entry.\<close>

definition entry_of :: "bucket \<Rightarrow> string \<Rightarrow> usage_entry" where
  "entry_of b owner = (case map_of b owner of None \<Rightarrow> \<lparr>Bytes = 0, Records = 0\<rparr> | Some e \<Rightarrow> e)"

definition usage_total :: "usage_index \<Rightarrow> string \<Rightarrow> int" where
  "usage_total u owner =
     wrap64 (wrap64 (Bytes (entry_of (uiFiles u) owner) + Bytes (entry_of (uiTrash u) owner))
             + Bytes (entry_of (uiUploads u) owner))"

text \<open>The loops over a map; wrapping addition makes the order of the iteration irrelevant.\<close>

definition sum_bytes :: "bucket \<Rightarrow> int" where
  "sum_bytes b = foldl (\<lambda>total x. wrap64 (total + Bytes (snd x))) 0 b"

definition sum_records :: "bucket \<Rightarrow> int" where
  "sum_records b = foldl (\<lambda>count x. wrap64 (count + Records (snd x))) 0 b"

definition bytesOf :: "usage_index \<Rightarrow> int" where
  "bytesOf u = sum_bytes (uiFiles u)"

definition activeCount :: "usage_index \<Rightarrow> int" where
  "activeCount u = sum_records (uiFiles u)"

definition bytesInTrash :: "usage_index \<Rightarrow> int" where
  "bytesInTrash u = sum_bytes (uiTrash u)"

definition trashedCount :: "usage_index \<Rightarrow> int" where
  "trashedCount u = sum_records (uiTrash u)"

fun bucket_of :: "usage_index \<Rightarrow> usage_kind \<Rightarrow> bucket" where
  "bucket_of u UsageTrash = uiTrash u"
| "bucket_of u UsageUpload = uiUploads u"
| "bucket_of u UsageFile = uiFiles u"

text \<open>A Go map is a reference: an update of the bucket is an update of the index.\<close>

fun set_bucket :: "usage_kind \<Rightarrow> bucket \<Rightarrow> usage_index \<Rightarrow> usage_index" where
  "set_bucket UsageTrash b u = u\<lparr>uiTrash := b\<rparr>"
| "set_bucket UsageUpload b u = u\<lparr>uiUploads := b\<rparr>"
| "set_bucket UsageFile b u = u\<lparr>uiFiles := b\<rparr>"

text \<open>The two halves of \<open>moveUsage\<close>.\<close>

definition take_from :: "string \<Rightarrow> int \<Rightarrow> int \<Rightarrow> bucket \<Rightarrow> bucket" where
  "take_from owner sz records b =
     (let e = entry_of b owner;
          e' = e\<lparr>Bytes := wrap64 (Bytes e - sz), Records := wrap64 (Records e - records)\<rparr>
      in if Bytes e' \<le> 0 then AList.delete owner b
         else if Records e' < 0 then AList.update owner (e'\<lparr>Records := 0\<rparr>) b
         else AList.update owner e' b)"

definition add_to :: "string \<Rightarrow> int \<Rightarrow> int \<Rightarrow> bucket \<Rightarrow> bucket" where
  "add_to owner sz records b =
     (let e = entry_of b owner
      in AList.update owner
           (e\<lparr>Bytes := wrap64 (Bytes e + sz), Records := wrap64 (Records e + records)\<rparr>) b)"

text \<open>\<open>moveUsage\<close> on a valid index; \<open>None\<close> is \<open>usageKind(-1)\<close>.\<close>

definition move_index ::
  "string \<Rightarrow> usage_kind option \<Rightarrow> usage_kind option \<Rightarrow> int \<Rightarrow> int \<Rightarrow> usage_index \<Rightarrow> usage_index" where
  "move_index owner from to sz records u =
     (if sz \<le> 0 then u
      else let o' = normalizeOwner owner;
               u1 = (case from of None \<Rightarrow> u
                     | Some k \<Rightarrow> set_bucket k (take_from o' sz records (bucket_of u k)) u)
           in (case to of None \<Rightarrow> u1
               | Some k \<Rightarrow> set_bucket k (add_to o' sz records (bucket_of u1 k)) u1))"

text \<open>The closure \<open>add\<close> of \<open>rebuildUsageLocked\<close>, which checks for overflow.\<close>

definition index_add :: "usage_kind \<Rightarrow> string \<Rightarrow> int \<Rightarrow> usage_index \<Rightarrow> err + usage_index" where
  "index_add kind owner sz u =
     (if sz < 0 then Inl ErrCorruptMetadata
      else let o' = normalizeOwner owner; b = bucket_of u kind; e = entry_of b o'
           in if Bytes e > wrap64 (max_int64 - sz) then Inl ErrCorruptMetadata
              else Inr (set_bucket kind
                     (AList.update o' (e\<lparr>Bytes := wrap64 (Bytes e + sz),
                                         Records := wrap64 (Records e + 1)\<rparr>) b) u))"

section \<open>Balances\<close>

definition balance :: "usage_index \<Rightarrow> usage_kind \<Rightarrow> string \<Rightarrow> int" where
  "balance u k owner = Bytes (entry_of (bucket_of u k) owner)"

lemma bucket_of_set_bucket:
  "bucket_of (set_bucket k b u) k' = (if k' = k then b else bucket_of u k')"
  by (cases k; cases k') auto

lemma entry_of_update [simp]:
  "entry_of (AList.update k e b) owner = (if owner = k then e else entry_of b owner)"
  by (simp add: entry_of_def update_conv')

lemma entry_of_delete [simp]:
  "entry_of (AList.delete k b) owner =
     (if owner = k then \<lparr>Bytes = 0, Records = 0\<rparr> else entry_of b owner)"
  by (simp add: entry_of_def delete_conv')

lemma entry_of_Nil [simp]: "entry_of [] owner = \<lparr>Bytes = 0, Records = 0\<rparr>"
  by (simp add: entry_of_def)

lemma balance_set_bucket:
  "balance (set_bucket k b u) k' owner =
     (if k' = k then Bytes (entry_of b owner) else balance u k' owner)"
  by (simp add: balance_def bucket_of_set_bucket)

lemma balance_new [simp]: "balance newUsageIndex k owner = 0"
  by (cases k) (simp_all add: balance_def newUsageIndex_def)

lemma usage_total_balance:
  "usage_total u owner =
     wrap64 (wrap64 (balance u UsageFile owner + balance u UsageTrash owner)
             + balance u UsageUpload owner)"
  by (simp add: usage_total_def balance_def)

text \<open>Taking out at most what is there and adding without overflow are exact.\<close>

lemma Bytes_take_from:
  assumes "0 \<le> sz" "sz \<le> Bytes (entry_of b owner)" "Bytes (entry_of b owner) \<le> max_int64"
  shows "Bytes (entry_of (take_from owner sz records b) owner') =
     (if owner' = owner then Bytes (entry_of b owner) - sz else Bytes (entry_of b owner'))"
proof -
  have "wrap64 (Bytes (entry_of b owner) - sz) = Bytes (entry_of b owner) - sz"
    using assms by (intro wrap64_nonneg_id) auto
  with assms show ?thesis by (simp add: take_from_def Let_def)
qed

lemma Bytes_add_to:
  assumes "0 \<le> Bytes (entry_of b owner) + sz" "Bytes (entry_of b owner) + sz \<le> max_int64"
  shows "Bytes (entry_of (add_to owner sz records b) owner') =
     (if owner' = owner then Bytes (entry_of b owner) + sz else Bytes (entry_of b owner'))"
  using assms by (simp add: add_to_def Let_def wrap64_nonneg_id)

section \<open>The ledger contract\<close>

text \<open>
  An accounting structure with three movements: a charge, a release and a transfer between two
  kinds. The laws say what each does to every balance, as long as nothing overflows and no more
  is taken than is there.
\<close>

locale byte_ledger =
  fixes bal :: "'u \<Rightarrow> 'k \<Rightarrow> string \<Rightarrow> int"
    and move :: "string \<Rightarrow> 'k option \<Rightarrow> 'k option \<Rightarrow> int \<Rightarrow> 'u \<Rightarrow> 'u"
  assumes charge:
      "0 \<le> n \<Longrightarrow> 0 \<le> bal u k (normalizeOwner w) \<Longrightarrow> bal u k (normalizeOwner w) + n \<le> max_int64 \<Longrightarrow>
       bal (move w None (Some k) n u) k' w' =
         bal u k' w' + (if k' = k \<and> w' = normalizeOwner w then n else 0)"
    and release:
      "0 \<le> n \<Longrightarrow> n \<le> bal u k (normalizeOwner w) \<Longrightarrow> bal u k (normalizeOwner w) \<le> max_int64 \<Longrightarrow>
       bal (move w (Some k) None n u) k' w' =
         bal u k' w' - (if k' = k \<and> w' = normalizeOwner w then n else 0)"
    and transfer:
      "0 \<le> n \<Longrightarrow> j \<noteq> k \<Longrightarrow> n \<le> bal u j (normalizeOwner w) \<Longrightarrow> bal u j (normalizeOwner w) \<le> max_int64 \<Longrightarrow>
       0 \<le> bal u k (normalizeOwner w) \<Longrightarrow> bal u k (normalizeOwner w) + n \<le> max_int64 \<Longrightarrow>
       bal (move w (Some j) (Some k) n u) k' w' =
         bal u k' w' - (if k' = j \<and> w' = normalizeOwner w then n else 0)
                     + (if k' = k \<and> w' = normalizeOwner w then n else 0)"
begin

text \<open>The books: the items of each kind, with owner (normalised) and size. They are balanced
  when every balance is the sum of the sizes of the owner's items.\<close>

definition item_sum :: "('i \<Rightarrow> (string \<times> int) option) \<Rightarrow> string \<Rightarrow> int" where
  "item_sum items w = (\<Sum>i\<in>dom items. if fst (the (items i)) = w then snd (the (items i)) else 0)"

definition balanced :: "('k \<Rightarrow> 'i \<Rightarrow> (string \<times> int) option) \<Rightarrow> 'u \<Rightarrow> bool" where
  "balanced books u \<longleftrightarrow>
     (\<forall>k. finite (dom (books k)) \<and> (\<forall>i w n. books k i = Some (w, n) \<longrightarrow> 0 \<le> n)) \<and>
     (\<forall>k w. bal u k w = item_sum (books k) w)"

definition fits :: "('k \<Rightarrow> 'i \<Rightarrow> (string \<times> int) option) \<Rightarrow> bool" where
  "fits books \<longleftrightarrow> (\<forall>k w. item_sum (books k) w \<le> max_int64)"

lemma item_sum_upd:
  assumes "finite (dom items)" "items i = None"
  shows "item_sum (items(i \<mapsto> (w, n))) w' = item_sum items w' + (if w' = w then n else 0)"
proof -
  have "item_sum (items(i \<mapsto> (w, n))) w' =
      (if w = w' then n else 0) +
      (\<Sum>j\<in>dom items - {i}. if fst (the ((items(i \<mapsto> (w, n))) j)) = w'
         then snd (the ((items(i \<mapsto> (w, n))) j)) else 0)"
    unfolding item_sum_def using assms(1) by (simp add: sum.insert_remove)
  also have "(\<Sum>j\<in>dom items - {i}. if fst (the ((items(i \<mapsto> (w, n))) j)) = w'
         then snd (the ((items(i \<mapsto> (w, n))) j)) else 0) = item_sum items w'"
    unfolding item_sum_def using assms(2) by (intro sum.cong) (auto simp: dom_def)
  finally show ?thesis by (auto simp del: fun_upd_apply)
qed

lemma item_sum_del:
  assumes "finite (dom items)" "items i = Some (w, n)"
  shows "item_sum (items(i := None)) w' = item_sum items w' - (if w' = w then n else 0)"
proof -
  have "items = (items(i := None))(i \<mapsto> (w, n))" using assms(2) by auto
  then have "item_sum items w' = item_sum ((items(i := None))(i \<mapsto> (w, n))) w'" by simp
  also have "\<dots> = item_sum (items(i := None)) w' + (if w' = w then n else 0)"
    using assms(1) by (intro item_sum_upd) auto
  finally show ?thesis by simp
qed

lemma item_le_sum:
  assumes "finite (dom items)" "\<And>j v m. items j = Some (v, m) \<Longrightarrow> 0 \<le> m" "items i = Some (w, n)"
  shows "n \<le> item_sum items w"
proof -
  have nn: "0 \<le> snd (the (items j))" if "j \<in> dom items" for j
    using that assms(2) by (metis domD option.sel prod.collapse)
  have "(if fst (the (items i)) = w then snd (the (items i)) else 0) \<le> item_sum items w"
    unfolding item_sum_def using assms
    by (intro member_le_sum) (auto simp: nn)
  with assms(3) show ?thesis by simp
qed

lemma item_sum_nonneg:
  assumes "\<And>j v m. items j = Some (v, m) \<Longrightarrow> 0 \<le> m"
  shows "0 \<le> item_sum items w"
proof -
  have "0 \<le> snd (the (items j))" if "j \<in> dom items" for j
    using that assms by (metis domD option.sel prod.collapse)
  then show ?thesis unfolding item_sum_def by (intro sum_nonneg) auto
qed

lemma balanced_charge:
  assumes "balanced books u" "books k i = None" "0 \<le> n"
    and "fits (books(k := (books k)(i \<mapsto> (normalizeOwner w, n))))"
  shows "balanced (books(k := (books k)(i \<mapsto> (normalizeOwner w, n)))) (move w None (Some k) n u)"
proof -
  let ?w = "normalizeOwner w"
  have fin: "finite (dom (books k))" and nn: "\<And>j v m. books k j = Some (v, m) \<Longrightarrow> 0 \<le> m"
    and eq: "\<And>k w. bal u k w = item_sum (books k) w"
    using assms(1) by (auto simp: balanced_def)
  have upd: "item_sum ((books k)(i \<mapsto> (?w, n))) w' = item_sum (books k) w' + (if w' = ?w then n else 0)" for w'
    by (rule item_sum_upd [OF fin assms(2)])
  have "item_sum ((books k)(i \<mapsto> (?w, n))) ?w \<le> max_int64"
    using assms(4) by (auto simp: fits_def dest: spec [of _ k])
  then have "bal u k ?w + n \<le> max_int64" by (simp add: eq upd)
  moreover have "0 \<le> bal u k ?w" using nn by (simp add: eq item_sum_nonneg)
  ultimately have "bal (move w None (Some k) n u) k' w' =
      bal u k' w' + (if k' = k \<and> w' = ?w then n else 0)" for k' w'
    using assms(3) by (intro charge)
  then show ?thesis
    using assms(1,3) by (auto simp: balanced_def eq upd)
qed

lemma balanced_release:
  assumes "balanced books u" "books k i = Some (normalizeOwner w, n)" "fits books"
  shows "balanced (books(k := (books k)(i := None))) (move w (Some k) None n u)"
proof -
  let ?w = "normalizeOwner w"
  have fin: "finite (dom (books k))" and nn: "\<And>j v m. books k j = Some (v, m) \<Longrightarrow> 0 \<le> m"
    and eq: "\<And>k w. bal u k w = item_sum (books k) w"
    using assms(1) by (auto simp: balanced_def)
  have del: "item_sum ((books k)(i := None)) w' = item_sum (books k) w' - (if w' = ?w then n else 0)" for w'
    by (rule item_sum_del [OF fin assms(2)])
  have "n \<le> bal u k ?w" "bal u k ?w \<le> max_int64" "0 \<le> n"
    using item_le_sum [OF fin nn assms(2)] assms(3) nn [OF assms(2)] by (auto simp: eq fits_def)
  then have "bal (move w (Some k) None n u) k' w' =
      bal u k' w' - (if k' = k \<and> w' = ?w then n else 0)" for k' w'
    by (intro release)
  then show ?thesis
    using assms(1) by (auto simp: balanced_def eq del)
qed

lemma balanced_transfer:
  assumes "balanced books u" "books j i = Some (normalizeOwner w, n)" "books k i' = None" "j \<noteq> k"
    and "fits books"
    and "fits (books(j := (books j)(i := None), k := (books k)(i' \<mapsto> (normalizeOwner w, n))))"
  shows "balanced (books(j := (books j)(i := None), k := (books k)(i' \<mapsto> (normalizeOwner w, n))))
           (move w (Some j) (Some k) n u)"
proof -
  let ?w = "normalizeOwner w"
  have fin: "\<And>k. finite (dom (books k))" and nn: "\<And>k i v m. books k i = Some (v, m) \<Longrightarrow> 0 \<le> m"
    and eq: "\<And>k w. bal u k w = item_sum (books k) w"
    using assms(1) by (auto simp: balanced_def)
  have del: "item_sum ((books j)(i := None)) w' = item_sum (books j) w' - (if w' = ?w then n else 0)" for w'
    by (rule item_sum_del [OF fin assms(2)])
  have upd: "item_sum ((books k)(i' \<mapsto> (?w, n))) w' = item_sum (books k) w' + (if w' = ?w then n else 0)" for w'
    by (rule item_sum_upd [OF fin assms(3)])
  have "n \<le> bal u j ?w" "bal u j ?w \<le> max_int64" "0 \<le> n" "0 \<le> bal u k ?w"
    using item_le_sum [OF fin nn assms(2)] assms(5) nn [OF assms(2)] nn
    by (auto simp: eq fits_def intro: item_sum_nonneg)
  moreover have "item_sum ((books k)(i' \<mapsto> (?w, n))) ?w \<le> max_int64"
    using assms(6) by (auto simp: fits_def dest: spec [of _ k])
  then have "bal u k ?w + n \<le> max_int64" by (simp add: eq upd)
  ultimately have "bal (move w (Some j) (Some k) n u) k' w' =
      bal u k' w' - (if k' = j \<and> w' = ?w then n else 0) + (if k' = k \<and> w' = ?w then n else 0)" for k' w'
    using assms(4) by (intro transfer)
  then show ?thesis
    using assms(1,4) \<open>0 \<le> n\<close> by (auto simp: balanced_def eq del upd)
qed

end

text \<open>\<open>moveUsage\<close> keeps the contract, whatever the number of records it moves.\<close>

lemma balance_move_charge:
  assumes "0 \<le> n" "0 \<le> balance u k (normalizeOwner w)" "balance u k (normalizeOwner w) + n \<le> max_int64"
  shows "balance (move_index w None (Some k) n r u) k' w' =
    balance u k' w' + (if k' = k \<and> w' = normalizeOwner w then n else 0)"
  using assms Bytes_add_to [of "bucket_of u k" "normalizeOwner w" n r]
  by (auto simp: move_index_def Let_def bucket_of_set_bucket balance_def)

lemma balance_move_release:
  assumes "0 \<le> n" "n \<le> balance u k (normalizeOwner w)" "balance u k (normalizeOwner w) \<le> max_int64"
  shows "balance (move_index w (Some k) None n r u) k' w' =
    balance u k' w' - (if k' = k \<and> w' = normalizeOwner w then n else 0)"
  using assms Bytes_take_from [of n "bucket_of u k" "normalizeOwner w" r]
  by (auto simp: move_index_def Let_def bucket_of_set_bucket balance_def)

lemma balance_move_transfer:
  assumes "0 \<le> n" "j \<noteq> k" "n \<le> balance u j (normalizeOwner w)" "balance u j (normalizeOwner w) \<le> max_int64"
    and "0 \<le> balance u k (normalizeOwner w)" "balance u k (normalizeOwner w) + n \<le> max_int64"
  shows "balance (move_index w (Some j) (Some k) n r u) k' w' =
    balance u k' w' - (if k' = j \<and> w' = normalizeOwner w then n else 0)
                    + (if k' = k \<and> w' = normalizeOwner w then n else 0)"
  using assms Bytes_take_from [of n "bucket_of u j" "normalizeOwner w" r]
    Bytes_add_to [of "bucket_of u k" "normalizeOwner w" n r]
  by (auto simp: move_index_def Let_def bucket_of_set_bucket balance_def)

interpretation ledger: byte_ledger balance "\<lambda>w from to n. move_index w from to n 1"
proof unfold_locales
qed (rule balance_move_charge balance_move_release balance_move_transfer; assumption)+

end
