(* ===== verification/StoreCore.thy ===== *)
theory StoreCore
  imports Usage
begin

text \<open>
  The state of a \<open>DiskStore\<close> (\<open>pkg/files/store.go\<close>) and the routines every operation shares:
  reading and writing manifests, the usage index with its one-time load, the pause threshold and
  the owner quota. The store's mutex makes each operation of the later theories one step, so the
  model runs them one after the other; an operation's clock readings are arguments.
\<close>

record store = "(area, doc) disk" +
  sUsage :: usage_index
  sUsageValid :: bool
  sLoaded :: bool
  sLoadErr :: "err option"
  sPauseAtPercent :: int
  sOwnerQuotaBytes :: int
  sUploadTTL :: int

text \<open>The result of a system call as the result of a store routine.\<close>

abbreviation lift_err :: "os_error + 'r \<Rightarrow> err + 'r" where
  "lift_err \<equiv> map_sum OSErr id"

section \<open>Construction\<close>

record options =
  oPauseAtPercent :: int
  oOwnerQuotaBytes :: int
  oUploadTTL :: int

definition all_areas :: "area list" where
  "all_areas = [Objects, Metadata, Tmp, Uploads, Trash, Quarantine]"

text \<open>\<open>os.MkdirAll\<close> of the root directory, which is above the model's paths.\<close>

definition os_mkdir_root :: "store \<Rightarrow> (os_error + unit) \<times> store" where
  "os_mkdir_root = syscall (\<lambda>es. Inr ((), es))"

fun make_areas :: "area list \<Rightarrow> store \<Rightarrow> (err + unit) \<times> store" where
  "make_areas [] s = (Inr (), s)"
| "make_areas (a # as) s =
     (case os_mkdir_all (a, []) s of
        (Inl e, s) \<Rightarrow> (Inl (OSErr e), s)
      | (Inr _, s) \<Rightarrow> make_areas as s)"

text \<open>\<open>absErr\<close> is the error of \<open>filepath.Abs\<close>, if the working directory is unknown.\<close>

definition newDiskStoreWithOptions ::
  "string \<Rightarrow> os_error option \<Rightarrow> options \<Rightarrow> (area, doc) disk \<Rightarrow> (err + unit) \<times> store" where
  "newDiskStoreWithOptions rootPath absErr options d =
     (let s = \<lparr>entries = entries d, script = script d, sUsage = newUsageIndex, sUsageValid = False,
               sLoaded = False, sLoadErr = None, sPauseAtPercent = oPauseAtPercent options,
               sOwnerQuotaBytes = oOwnerQuotaBytes options, sUploadTTL = oUploadTTL options\<rparr>
      in if trim_space rootPath = '''' then (Inl ErrInvalidUpload, s)
         else if oPauseAtPercent options < 0 \<or> oPauseAtPercent options > 100 then (Inl ErrInvalidUpload, s)
         else if oOwnerQuotaBytes options < 0 then (Inl ErrInvalidUpload, s)
         else case absErr of
           Some e \<Rightarrow> (Inl (OSErr e), s)
         | None \<Rightarrow>
             (case os_mkdir_root s of
                (Inl e, s) \<Rightarrow> (Inl (OSErr e), s)
              | (Inr _, s) \<Rightarrow> make_areas all_areas s))"

definition setUploadTTL :: "int \<Rightarrow> store \<Rightarrow> store" where
  "setUploadTTL ttl s = s\<lparr>sUploadTTL := (if ttl < 0 then 0 else ttl)\<rparr>"

section \<open>Files and manifests\<close>

text \<open>A removal whose result the code discards (\<open>_ = os.Remove(path)\<close>).\<close>

definition remove_quiet :: "area path \<Rightarrow> store \<Rightarrow> store" where
  "remove_quiet p s = snd (os_remove p s)"

definition rename_quiet :: "area path \<Rightarrow> area path \<Rightarrow> store \<Rightarrow> store" where
  "rename_quiet p q s = snd (os_rename p q s)"

definition remove_all_quiet :: "area path \<Rightarrow> store \<Rightarrow> store" where
  "remove_all_quiet p s = snd (os_remove_all p s)"

text \<open>\<open>os.Stat\<close> succeeding; any error, also of the device, reads as absence.\<close>

definition pathExists :: "area path \<Rightarrow> store \<Rightarrow> bool \<times> store" where
  "pathExists p s = (case os_stat p s of (Inl _, s) \<Rightarrow> (False, s) | (Inr _, s) \<Rightarrow> (True, s))"

definition syncDirectory :: "area path \<Rightarrow> store \<Rightarrow> (os_error + unit) \<times> store" where
  "syncDirectory p s = (case os_open p s of (Inl e, s) \<Rightarrow> (Inl e, s) | (Inr _, s) \<Rightarrow> os_sync s)"

definition sync_quiet :: "area path \<Rightarrow> store \<Rightarrow> store" where
  "sync_quiet p s = snd (syncDirectory p s)"

text \<open>Write the JSON text to \<open>path + ".tmp"\<close>, sync, close and rename; a failure removes the
  temporary file. The deferred second \<open>Close\<close> has no effect.\<close>

definition write_doc :: "area path \<Rightarrow> doc \<Rightarrow> store \<Rightarrow> (err + unit) \<times> store" where
  "write_doc p d s =
     (case os_create_excl (tmp_of p) s of
        (Inl e, s) \<Rightarrow> (Inl (OSErr e), s)
      | (Inr _, s) \<Rightarrow>
     (case os_write (tmp_of p) (Doc d) s of
        (Inl e, s) \<Rightarrow> (Inl (OSErr e), remove_quiet (tmp_of p) s)
      | (Inr _, s) \<Rightarrow>
     (case os_sync s of
        (Inl e, s) \<Rightarrow> (Inl (OSErr e), remove_quiet (tmp_of p) s)
      | (Inr _, s) \<Rightarrow>
     (case os_close s of
        (Inl e, s) \<Rightarrow> (Inl (OSErr e), remove_quiet (tmp_of p) s)
      | (Inr _, s) \<Rightarrow>
     (case os_rename (tmp_of p) p s of
        (Inl e, s) \<Rightarrow> (Inl (OSErr e), remove_quiet (tmp_of p) s)
      | (Inr _, s) \<Rightarrow> (Inr (), s))))))"

definition writeManifest :: "area path \<Rightarrow> file_info \<Rightarrow> store \<Rightarrow> (err + unit) \<times> store" where
  "writeManifest p f s = write_doc p (FileDoc f) s"

definition writeUploadManifest :: "area path \<Rightarrow> upload_session \<Rightarrow> store \<Rightarrow> (err + unit) \<times> store" where
  "writeUploadManifest p u s = write_doc p (SessionDoc u) s"

definition live_file_ok :: "string \<Rightarrow> file_info \<Rightarrow> bool" where
  "live_file_ok i f \<longleftrightarrow> fID f = i \<and> fStatus f = StatusAvailable \<and> 0 \<le> fSize f \<and> fChecksum f \<noteq> ''''"

definition getUnlocked :: "string \<Rightarrow> store \<Rightarrow> (err + file_info) \<times> store" where
  "getUnlocked i s =
     (case os_read_file (manifestPath i) s of
        (Inl e, s) \<Rightarrow> (Inl (if e = ENOENT then ErrNotFound else OSErr e), s)
      | (Inr data, s) \<Rightarrow>
          (case unmarshal_file data of
             None \<Rightarrow> (Inl ErrCorruptMetadata, s)
           | Some stored \<Rightarrow>
               if \<not> live_file_ok i stored then (Inl ErrCorruptMetadata, s)
               else (Inr (cloneFile stored), s)))"

definition getTrashUnlocked :: "string \<Rightarrow> store \<Rightarrow> (err + file_info) \<times> store" where
  "getTrashUnlocked i s =
     (case os_read_file (trashManifest i) s of
        (Inl e, s) \<Rightarrow> (Inl (if e = ENOENT then ErrNotFound else OSErr e), s)
      | (Inr data, s) \<Rightarrow>
          (case unmarshal_file data of
             None \<Rightarrow> (Inl ErrCorruptMetadata, s)
           | Some stored \<Rightarrow>
               if \<not> live_file_ok i stored \<or> fDeletedAt stored = None then (Inl ErrCorruptMetadata, s)
               else (case os_stat (trashObject i) s of
                   (Inl e, s) \<Rightarrow> (Inl (if e = ENOENT then ErrCorruptMetadata else OSErr e), s)
                 | (Inr info, s) \<Rightarrow>
                     if inode_size info \<noteq> fSize stored then (Inl ErrCorruptMetadata, s)
                     else (Inr (cloneFile stored), s))))"

definition session_ok :: "string \<Rightarrow> upload_session \<Rightarrow> bool" where
  "session_ok i u \<longleftrightarrow>
     uID u = i \<and> (uStatus u = UploadStatusUploading \<or> uStatus u = UploadStatusCompleted) \<and>
     0 < uSize u \<and> 0 \<le> uReceivedBytes u \<and> uReceivedBytes u \<le> uSize u"

definition completed_ok :: "upload_session \<Rightarrow> bool" where
  "completed_ok u \<longleftrightarrow>
     \<not> (uStatus u = UploadStatusCompleted \<and> (uFileID u = '''' \<or> \<not> validFileID (uFileID u)))"

definition getUploadUnlocked :: "string \<Rightarrow> store \<Rightarrow> (err + upload_session) \<times> store" where
  "getUploadUnlocked i s =
     (case os_read_file (sessionManifest i) s of
        (Inl e, s) \<Rightarrow> (Inl (if e = ENOENT then ErrUploadNotFound else OSErr e), s)
      | (Inr data, s) \<Rightarrow>
          (case unmarshal_session data of
             None \<Rightarrow> (Inl ErrCorruptMetadata, s)
           | Some session \<Rightarrow>
               if \<not> session_ok i session then (Inl ErrCorruptMetadata, s)
               else if uStatus session = UploadStatusUploading then
                 (case os_stat (sessionData i) s of
                    (Inl e, s) \<Rightarrow> (Inl (if e = ENOENT then ErrCorruptMetadata else OSErr e), s)
                  | (Inr info, s) \<Rightarrow>
                      if inode_size info \<noteq> uReceivedBytes session then (Inl ErrCorruptMetadata, s)
                      else (Inr (cloneUploadSession session), s))
               else if \<not> completed_ok session then (Inl ErrCorruptMetadata, s)
               else (Inr (cloneUploadSession session), s)))"

section \<open>The usage index of a store\<close>

fun rebuild_files :: "(string \<times> bool) list \<Rightarrow> usage_index \<Rightarrow> store \<Rightarrow> (err + usage_index) \<times> store" where
  "rebuild_files [] index s = (Inr index, s)"
| "rebuild_files ((name, isDir) # es) index s =
     (if isDir \<or> filepath_ext name \<noteq> ''.json'' then rebuild_files es index s
      else let i = trim_suffix ''.json'' name in
        if \<not> validFileID i then (Inl ErrCorruptMetadata, s)
        else (case getUnlocked i s of
            (Inl e, s) \<Rightarrow> (Inl e, s)
          | (Inr f, s) \<Rightarrow>
              (case index_add UsageFile (ownerFromMetadata (fMetadata f)) (fSize f) index of
                 Inl e \<Rightarrow> (Inl e, s)
               | Inr index \<Rightarrow> rebuild_files es index s)))"

fun rebuild_trash :: "(string \<times> bool) list \<Rightarrow> usage_index \<Rightarrow> store \<Rightarrow> (err + usage_index) \<times> store" where
  "rebuild_trash [] index s = (Inr index, s)"
| "rebuild_trash ((name, isDir) # es) index s =
     (if \<not> isDir then rebuild_trash es index s
      else (case getTrashUnlocked name s of
          (Inl e, s) \<Rightarrow> (Inl e, s)
        | (Inr f, s) \<Rightarrow>
            (case index_add UsageTrash (ownerFromMetadata (fMetadata f)) (fSize f) index of
               Inl e \<Rightarrow> (Inl e, s)
             | Inr index \<Rightarrow> rebuild_trash es index s)))"

fun rebuild_uploads :: "(string \<times> bool) list \<Rightarrow> usage_index \<Rightarrow> store \<Rightarrow> (err + usage_index) \<times> store" where
  "rebuild_uploads [] index s = (Inr index, s)"
| "rebuild_uploads ((name, isDir) # es) index s =
     (if \<not> isDir then rebuild_uploads es index s
      else (case getUploadUnlocked name s of
          (Inl e, s) \<Rightarrow> (Inl e, s)
        | (Inr u, s) \<Rightarrow>
            if uStatus u \<noteq> UploadStatusUploading then rebuild_uploads es index s
            else (case index_add UsageUpload (ownerFromMetadata (uMetadata u)) (uSize u) index of
               Inl e \<Rightarrow> (Inl e, s)
             | Inr index \<Rightarrow> rebuild_uploads es index s)))"

definition rebuildUsageLocked :: "store \<Rightarrow> (err + unit) \<times> store" where
  "rebuildUsageLocked s =
     (case os_read_dir (Metadata, []) s of
        (Inl e, s) \<Rightarrow> (Inl (OSErr e), s)
      | (Inr dataFiles, s) \<Rightarrow>
     (case os_read_dir (Trash, []) s of
        (Inl e, s) \<Rightarrow> (Inl (OSErr e), s)
      | (Inr trashEntries, s) \<Rightarrow>
     (case os_read_dir (Uploads, []) s of
        (Inl e, s) \<Rightarrow> (Inl (OSErr e), s)
      | (Inr uploadEntries, s) \<Rightarrow>
     (case rebuild_files dataFiles newUsageIndex s of
        (Inl e, s) \<Rightarrow> (Inl e, s)
      | (Inr index, s) \<Rightarrow>
     (case rebuild_trash trashEntries index s of
        (Inl e, s) \<Rightarrow> (Inl e, s)
      | (Inr index, s) \<Rightarrow>
     (case rebuild_uploads uploadEntries index s of
        (Inl e, s) \<Rightarrow> (Inl e, s)
      | (Inr index, s) \<Rightarrow> (Inr (), s\<lparr>sUsage := index, sUsageValid := True\<rparr>)))))))"

text \<open>\<open>sync.Once\<close>: the first call's outcome is kept for the life of the store.\<close>

definition ensureUsageLocked :: "store \<Rightarrow> (err + unit) \<times> store" where
  "ensureUsageLocked s =
     (if sLoaded s then (case sLoadErr s of None \<Rightarrow> (Inr (), s) | Some e \<Rightarrow> (Inl e, s))
      else (case rebuildUsageLocked s of
          (Inl e, s) \<Rightarrow> (Inl e, s\<lparr>sLoaded := True, sLoadErr := Some e\<rparr>)
        | (Inr _, s) \<Rightarrow> (Inr (), s\<lparr>sLoaded := True, sLoadErr := None\<rparr>)))"

definition rebuildUsage :: "ctx \<Rightarrow> store \<Rightarrow> (err + unit) \<times> store" where
  "rebuildUsage cx s = (case cx of Some e \<Rightarrow> (Inl (CtxErr e), s) | None \<Rightarrow> rebuildUsageLocked s)"

definition ownerUsageLocked :: "string \<Rightarrow> store \<Rightarrow> (err + int) \<times> store" where
  "ownerUsageLocked owner s =
     (case ensureUsageLocked s of
        (Inl e, s) \<Rightarrow> (Inl e, s)
      | (Inr _, s) \<Rightarrow> (Inr (usage_total (sUsage s) (normalizeOwner owner)), s))"

definition ownerUsageUnlocked :: "string \<Rightarrow> store \<Rightarrow> (err + int) \<times> store" where
  "ownerUsageUnlocked owner s =
     (case rebuildUsageLocked s of
        (Inl e, s) \<Rightarrow> (Inl e, s)
      | (Inr _, s) \<Rightarrow> (Inr (usage_total (sUsage s) (normalizeOwner owner)), s))"

definition moveUsage ::
  "string \<Rightarrow> usage_kind option \<Rightarrow> usage_kind option \<Rightarrow> int \<Rightarrow> int \<Rightarrow> store \<Rightarrow> store" where
  "moveUsage owner from to sz records s =
     (if \<not> sUsageValid s \<or> sz \<le> 0 then s
      else s\<lparr>sUsage := move_index owner from to sz records (sUsage s)\<rparr>)"

definition releaseUsage :: "string \<Rightarrow> usage_kind \<Rightarrow> int \<Rightarrow> store \<Rightarrow> store" where
  "releaseUsage owner kind sz s = moveUsage owner (Some kind) None sz 1 s"

section \<open>Quota and capacity\<close>

definition enforceQuotaUnlocked :: "string \<Rightarrow> int \<Rightarrow> store \<Rightarrow> (err + unit) \<times> store" where
  "enforceQuotaUnlocked owner incoming s =
     (if sOwnerQuotaBytes s = 0 then (Inr (), s)
      else if incoming < 0 then (Inl ErrInvalidUpload, s)
      else (case ownerUsageLocked owner s of
          (Inl e, s) \<Rightarrow> (Inl e, s)
        | (Inr used, s) \<Rightarrow>
            if used > sOwnerQuotaBytes s \<or> incoming > wrap64 (sOwnerQuotaBytes s - used)
            then (Inl ErrQuotaExceeded, s) else (Inr (), s)))"

definition quotaOf :: "ctx \<Rightarrow> string \<Rightarrow> store \<Rightarrow> (err + quota) \<times> store" where
  "quotaOf cx owner s =
     (case cx of Some e \<Rightarrow> (Inl (CtxErr e), s)
      | None \<Rightarrow>
         (let owner = normalizeOwner owner
          in case ownerUsageLocked owner s of
               (Inl e, s) \<Rightarrow> (Inl e, s)
             | (Inr used, s) \<Rightarrow>
                 (let limit = sOwnerQuotaBytes s;
                      available = (if limit > used then wrap64 (limit - used) else 0);
                      usedPercent = (if limit > 0 then f64_percent used limit else 0)
                  in (Inr \<lparr>qOwner = owner, qLimitBytes = limit, qUsedBytes = used,
                           qAvailableBytes = available, qUsedPercent = usedPercent\<rparr>, s))))"

definition capacityUnlocked :: "env \<Rightarrow> store \<Rightarrow> (err + capacity) \<times> store" where
  "capacityUnlocked E s =
     (case statFS E of
        Inl e \<Rightarrow> (Inl (OSErr e), s)
      | Inr (blocks, bsize, bavail, bfree) \<Rightarrow>
         (let total = blocks * bsize;
              available = bavail * bsize;
              used = total - bfree * bsize;
              usedPercent = (if total > 0 then f64_percent (uint used) (uint total) else 0)
          in case ensureUsageLocked s of
               (Inl e, s) \<Rightarrow> (Inl e, s)
             | (Inr _, s) \<Rightarrow>
                 (let paused = (sPauseAtPercent s > 0 \<and> usedPercent \<ge> f64 (of_int (sPauseAtPercent s)))
                  in (Inr \<lparr>cTotalBytes = total, cUsedBytes = used, cAvailableBytes = available,
                           cUsedPercent = usedPercent, cObjectCount = activeCount (sUsage s),
                           cObjectBytes = bytesOf (sUsage s), cMetadataCount = activeCount (sUsage s),
                           cTrashCount = trashedCount (sUsage s), cTrashBytes = bytesInTrash (sUsage s),
                           cPauseAtPercent = sPauseAtPercent s, cWritesPaused = paused\<rparr>, s))))"

definition capacityOf :: "env \<Rightarrow> ctx \<Rightarrow> store \<Rightarrow> (err + capacity) \<times> store" where
  "capacityOf E cx s = (case cx of Some e \<Rightarrow> (Inl (CtxErr e), s) | None \<Rightarrow> capacityUnlocked E s)"

definition writesPausedUnlocked :: "env \<Rightarrow> store \<Rightarrow> (err + bool) \<times> store" where
  "writesPausedUnlocked E s =
     (if sPauseAtPercent s = 0 then (Inr False, s)
      else (case capacityUnlocked E s of
          (Inl e, s) \<Rightarrow> (Inl e, s)
        | (Inr c, s) \<Rightarrow> (Inr (cWritesPaused c), s)))"

section \<open>Runs without failures\<close>

text \<open>The fields of the store that are not the disk, and the disk under their updates.\<close>

lemma look_update [simp]:
  "look (s\<lparr>sUsage := u\<rparr>) = look s" "look (s\<lparr>sUsageValid := v\<rparr>) = look s"
  "look (s\<lparr>sLoaded := l\<rparr>) = look s" "look (s\<lparr>sLoadErr := e\<rparr>) = look s"
  "look (s\<lparr>sUploadTTL := t\<rparr>) = look s"
  by (simp_all add: look_def fun_eq_iff)

lemma names_update [simp]:
  "names (s\<lparr>sUsage := u\<rparr>) = names s" "names (s\<lparr>sUsageValid := v\<rparr>) = names s"
  "names (s\<lparr>sLoaded := l\<rparr>) = names s" "names (s\<lparr>sLoadErr := e\<rparr>) = names s"
  "names (s\<lparr>sUploadTTL := t\<rparr>) = names s"
  by (simp_all add: names_def fun_eq_iff)

lemma sfields_put_entry [simp]:
  "sUsage (put_entry p n s) = sUsage s" "sUsageValid (put_entry p n s) = sUsageValid s"
  "sLoaded (put_entry p n s) = sLoaded s" "sLoadErr (put_entry p n s) = sLoadErr s"
  "sPauseAtPercent (put_entry p n s) = sPauseAtPercent s"
  "sOwnerQuotaBytes (put_entry p n s) = sOwnerQuotaBytes s"
  "sUploadTTL (put_entry p n s) = sUploadTTL s"
  by (simp_all add: put_entry_def)

lemma sfields_del_entry [simp]:
  "sUsage (del_entry p s) = sUsage s" "sUsageValid (del_entry p s) = sUsageValid s"
  "sLoaded (del_entry p s) = sLoaded s" "sLoadErr (del_entry p s) = sLoadErr s"
  "sPauseAtPercent (del_entry p s) = sPauseAtPercent s"
  "sOwnerQuotaBytes (del_entry p s) = sOwnerQuotaBytes s"
  "sUploadTTL (del_entry p s) = sUploadTTL s"
  by (simp_all add: del_entry_def)

lemma sfields_prune_entry [simp]:
  "sUsage (prune_entry p s) = sUsage s" "sUsageValid (prune_entry p s) = sUsageValid s"
  "sLoaded (prune_entry p s) = sLoaded s" "sLoadErr (prune_entry p s) = sLoadErr s"
  "sPauseAtPercent (prune_entry p s) = sPauseAtPercent s"
  "sOwnerQuotaBytes (prune_entry p s) = sOwnerQuotaBytes s"
  "sUploadTTL (prune_entry p s) = sUploadTTL s"
  by (simp_all add: prune_entry_def)

lemma moveUsage_frame [simp]:
  "look (moveUsage w from to n r s) = look s" "names (moveUsage w from to n r s) = names s"
  "script (moveUsage w from to n r s) = script s"
  "sUsageValid (moveUsage w from to n r s) = sUsageValid s"
  "sLoaded (moveUsage w from to n r s) = sLoaded s"
  "sLoadErr (moveUsage w from to n r s) = sLoadErr s"
  "sPauseAtPercent (moveUsage w from to n r s) = sPauseAtPercent s"
  "sOwnerQuotaBytes (moveUsage w from to n r s) = sOwnerQuotaBytes s"
  "sUploadTTL (moveUsage w from to n r s) = sUploadTTL s"
  by (simp_all add: moveUsage_def)

lemma releaseUsage_frame [simp]:
  "look (releaseUsage w k n s) = look s" "names (releaseUsage w k n s) = names s"
  "script (releaseUsage w k n s) = script s"
  "sUsageValid (releaseUsage w k n s) = sUsageValid s"
  "sLoaded (releaseUsage w k n s) = sLoaded s"
  "sLoadErr (releaseUsage w k n s) = sLoadErr s"
  "sPauseAtPercent (releaseUsage w k n s) = sPauseAtPercent s"
  "sOwnerQuotaBytes (releaseUsage w k n s) = sOwnerQuotaBytes s"
  "sUploadTTL (releaseUsage w k n s) = sUploadTTL s"
  by (simp_all add: releaseUsage_def)

lemma pathExists_calm [go_simps]:
  "script s = [] \<Longrightarrow> pathExists p s = (look s p \<noteq> None, s)"
  by (simp add: pathExists_def go_simps split: option.split)

lemma syncDirectory_calm [go_simps]:
  "script s = [] \<Longrightarrow> syncDirectory p s = (if look s p = None then (Inl ENOENT, s) else (Inr (), s))"
  by (simp add: syncDirectory_def go_simps)

lemma sync_quiet_calm [go_simps]: "script s = [] \<Longrightarrow> sync_quiet p s = s"
  by (simp add: sync_quiet_def go_simps)

lemma remove_quiet_file_calm [go_simps]:
  "script s = [] \<Longrightarrow> look s p \<noteq> Some NDir \<Longrightarrow> remove_quiet p s = del_entry p s"
  by (simp add: remove_quiet_def go_simps split: option.split inode.split)

lemma remove_all_quiet_calm [go_simps]:
  "script s = [] \<Longrightarrow> remove_all_quiet p s = prune_entry p s"
  by (simp add: remove_all_quiet_def go_simps)

lemma tmp_of_neq [simp]: "snd p \<noteq> [] \<Longrightarrow> tmp_of p \<noteq> p"
  by (cases p; cases "snd p" rule: rev_cases) (auto simp: tmp_of_def)

lemma parent_tmp_of [simp]: "snd p \<noteq> [] \<Longrightarrow> parent (tmp_of p) = parent p"
  by (cases p) (simp add: tmp_of_def)

lemma parent_neq [simp]: "snd p \<noteq> [] \<Longrightarrow> parent p \<noteq> p"
  by (cases p; cases "snd p" rule: rev_cases) auto

lemma parent_neq_tmp_of [simp]: "snd p \<noteq> [] \<Longrightarrow> parent p \<noteq> tmp_of p"
  by (cases p; cases "snd p" rule: rev_cases) (auto simp: tmp_of_def dest: arg_cong [of _ _ length])

text \<open>Writing a manifest whose temporary name is free puts the record at its path.\<close>

lemma write_doc_calm:
  assumes "script s = []" "snd p \<noteq> []" "look s (tmp_of p) = None" "look s (parent p) = Some NDir"
    and "look s p \<noteq> Some NDir"
  shows "write_doc p d s = (Inr (), put_entry p (NFile (Doc d)) s)"
  using assms tmp_of_neq [OF assms(2)] by (simp add: write_doc_def go_simps)

section \<open>Runs with any failures\<close>

lemma touches_fields [simp]:
  "touches R s (t\<lparr>sUsage := u\<rparr>) = touches R s t" "touches R s (t\<lparr>sUsageValid := v\<rparr>) = touches R s t"
  "touches R s (t\<lparr>sLoaded := l\<rparr>) = touches R s t" "touches R s (t\<lparr>sLoadErr := e\<rparr>) = touches R s t"
  "touches R s (moveUsage w from to n r t) = touches R s t"
  "touches R s (releaseUsage w k n t) = touches R s t"
  by (simp_all add: touches_def)

lemma touches_quiet [touch_intros]:
  "touches R s t \<Longrightarrow> p \<in> R \<Longrightarrow> touches R s (remove_quiet p t)"
  "touches R s t \<Longrightarrow> p \<in> R \<Longrightarrow> touches R s (remove_all_quiet p t)"
  "touches R s t \<Longrightarrow> p \<in> R \<Longrightarrow> q \<in> R \<Longrightarrow> touches R s (rename_quiet p q t)"
  by (simp_all add: remove_quiet_def remove_all_quiet_def rename_quiet_def touch_intros)

lemma touches_pathExists [touch_intros]: "touches R s t \<Longrightarrow> touches R s (snd (pathExists p t))"
  unfolding pathExists_def by (intro touch_intros)

lemma touches_syncDirectory [touch_intros]: "touches R s t \<Longrightarrow> touches R s (snd (syncDirectory p t))"
  unfolding syncDirectory_def by (intro touch_intros)

lemma touches_sync_quiet [touch_intros]: "touches R s t \<Longrightarrow> touches R s (sync_quiet p t)"
  by (simp add: sync_quiet_def touch_intros)

lemma touches_write_doc [touch_intros]:
  assumes "touches R s t" "p \<in> R" "tmp_of p \<in> R"
  shows "touches R s (snd (write_doc p d t))" "touches R s (snd (writeManifest p f t))"
    and "touches R s (snd (writeUploadManifest p u t))"
proof -
  show *: "touches R s (snd (write_doc p d t))" for d
    unfolding write_doc_def using assms by (intro touch_intros)
  show "touches R s (snd (writeManifest p f t))" "touches R s (snd (writeUploadManifest p u t))"
    by (simp_all add: writeManifest_def writeUploadManifest_def *)
qed

lemma touches_get [touch_intros]:
  assumes "touches R s t"
  shows "touches R s (snd (getUnlocked i t))" "touches R s (snd (getTrashUnlocked i t))"
    and "touches R s (snd (getUploadUnlocked i t))"
  unfolding getUnlocked_def getTrashUnlocked_def getUploadUnlocked_def
  using assms by (intro touch_intros; simp)+

lemma touches_rebuild_loops:
  "touches R s t \<Longrightarrow> touches R s (snd (rebuild_files es u t))"
  "touches R s t \<Longrightarrow> touches R s (snd (rebuild_trash es u t))"
  "touches R s t \<Longrightarrow> touches R s (snd (rebuild_uploads es u t))"
proof -
  show "touches R s t \<Longrightarrow> touches R s (snd (rebuild_files es u t))"
  proof (induction es arbitrary: u t)
    case (Cons e es)
    then show ?case by (cases e) (auto simp: Let_def intro!: touch_intros)
  qed simp
  show "touches R s t \<Longrightarrow> touches R s (snd (rebuild_trash es u t))"
  proof (induction es arbitrary: u t)
    case (Cons e es)
    then show ?case by (cases e) (auto simp: Let_def intro!: touch_intros)
  qed simp
  show "touches R s t \<Longrightarrow> touches R s (snd (rebuild_uploads es u t))"
  proof (induction es arbitrary: u t)
    case (Cons e es)
    then show ?case by (cases e) (auto simp: Let_def intro!: touch_intros)
  qed simp
qed

lemma touches_rebuild [touch_intros]:
  "touches R s t \<Longrightarrow> touches R s (snd (rebuildUsageLocked t))"
  unfolding rebuildUsageLocked_def by (intro touch_intros touches_rebuild_loops; simp)

lemma touches_ensure [touch_intros]: "touches R s t \<Longrightarrow> touches R s (snd (ensureUsageLocked t))"
  unfolding ensureUsageLocked_def by (intro touch_intros; simp add: touches_rebuild)

lemma touches_quota [touch_intros]:
  "touches R s t \<Longrightarrow> touches R s (snd (enforceQuotaUnlocked w n t))"
  unfolding enforceQuotaUnlocked_def ownerUsageLocked_def by (intro touch_intros)

lemma touches_paused [touch_intros]:
  "touches R s t \<Longrightarrow> touches R s (snd (writesPausedUnlocked E t))"
  unfolding writesPausedUnlocked_def capacityUnlocked_def Let_def
  by (auto intro!: touch_intros split: sum.split prod.split dest: touches_ensure)

end
