(* ===== verification/StoreAbs.thy ===== *)
theory StoreAbs
  imports StoreCore
begin

text \<open>
  The abstract store: which file, trash entry and upload session exist, each with its record and
  its bytes. \<open>disk_of\<close> lays it out in the directories of \<open>pkg/files/store.go\<close>; a store state
  represents an abstract store when its disk is exactly that layout and its usage index balances
  the books. The operations of the later theories are proved to act on the abstract store.
\<close>

record astore =
  aFiles :: "string \<rightharpoonup> file_info \<times> bytes"
  aTrash :: "string \<rightharpoonup> file_info \<times> bytes"
  aUploads :: "string \<rightharpoonup> upload_session \<times> bytes"

definition empty_astore :: astore where
  "empty_astore = \<lparr>aFiles = Map.empty, aTrash = Map.empty, aUploads = Map.empty\<rparr>"

section \<open>Layout on disk\<close>

fun objects_of :: "astore \<Rightarrow> string list \<Rightarrow> doc inode option" where
  "objects_of a [] = Some NDir"
| "objects_of a [n] = map_option (\<lambda>x. NFile (Blob (snd x))) (aFiles a n)"
| "objects_of a _ = None"

fun metadata_of :: "astore \<Rightarrow> string list \<Rightarrow> doc inode option" where
  "metadata_of a [] = Some NDir"
| "metadata_of a [n] =
     (if suffix ''.json'' n
      then map_option (\<lambda>x. NFile (Doc (FileDoc (fst x)))) (aFiles a (trim_suffix ''.json'' n)) else None)"
| "metadata_of a _ = None"

fun tmp_files_of :: "astore \<Rightarrow> string list \<Rightarrow> doc inode option" where
  "tmp_files_of a [] = Some NDir"
| "tmp_files_of a _ = None"

definition session_child :: "upload_session \<times> bytes \<Rightarrow> string \<Rightarrow> doc inode option" where
  "session_child x m =
     (if m = ''manifest.json'' then Some (NFile (Doc (SessionDoc (fst x))))
      else if m = ''data.part'' \<and> uStatus (fst x) = UploadStatusUploading then Some (NFile (Blob (snd x)))
      else None)"

fun uploads_of :: "astore \<Rightarrow> string list \<Rightarrow> doc inode option" where
  "uploads_of a [] = Some NDir"
| "uploads_of a [n] = map_option (\<lambda>_. NDir) (aUploads a n)"
| "uploads_of a [n, m] = Option.bind (aUploads a n) (\<lambda>x. session_child x m)"
| "uploads_of a _ = None"

definition trash_child :: "file_info \<times> bytes \<Rightarrow> string \<Rightarrow> doc inode option" where
  "trash_child x m =
     (if m = ''object'' then Some (NFile (Blob (snd x)))
      else if m = ''manifest.json'' then Some (NFile (Doc (FileDoc (fst x))))
      else None)"

fun trash_of :: "astore \<Rightarrow> string list \<Rightarrow> doc inode option" where
  "trash_of a [] = Some NDir"
| "trash_of a [n] = map_option (\<lambda>_. NDir) (aTrash a n)"
| "trash_of a [n, m] = Option.bind (aTrash a n) (\<lambda>x. trash_child x m)"
| "trash_of a _ = None"

fun disk_of :: "astore \<Rightarrow> area path \<Rightarrow> doc inode option" where
  "disk_of a (Objects, ns) = objects_of a ns"
| "disk_of a (Metadata, ns) = metadata_of a ns"
| "disk_of a (Tmp, ns) = tmp_files_of a ns"
| "disk_of a (Uploads, ns) = uploads_of a ns"
| "disk_of a (Trash, ns) = trash_of a ns"
| "disk_of a (Quarantine, ns) = None"

text \<open>The quarantine keeps evidence; only its groups are constrained.\<close>

definition quarantine_groups :: "string set" where
  "quarantine_groups = {''partials'', ''metadata'', ''uploads''}"

definition quarantine_ok :: "store \<Rightarrow> bool" where
  "quarantine_ok s \<longleftrightarrow>
     look s (Quarantine, []) = Some NDir \<and>
     (\<forall>n. look s (Quarantine, [n]) \<noteq> None \<longrightarrow>
        n \<in> quarantine_groups \<and> look s (Quarantine, [n]) = Some NDir)"

definition on_disk :: "astore \<Rightarrow> store \<Rightarrow> bool" where
  "on_disk a s \<longleftrightarrow> (\<forall>p. fst p \<noteq> Quarantine \<longrightarrow> look s p = disk_of a p) \<and> quarantine_ok s"

section \<open>Well-formed abstract stores\<close>

definition file_ok :: "string \<Rightarrow> file_info \<times> bytes \<Rightarrow> bool" where
  "file_ok i x \<longleftrightarrow>
     validFileID i \<and> live_file_ok i (fst x) \<and> fDeletedAt (fst x) = None \<and>
     fSize (fst x) = int (length (snd x))"

definition trash_ok :: "string \<Rightarrow> file_info \<times> bytes \<Rightarrow> bool" where
  "trash_ok i x \<longleftrightarrow>
     validFileID i \<and> live_file_ok i (fst x) \<and> fDeletedAt (fst x) \<noteq> None \<and>
     fSize (fst x) = int (length (snd x))"

definition upload_ok :: "string \<Rightarrow> upload_session \<times> bytes \<Rightarrow> bool" where
  "upload_ok i x \<longleftrightarrow>
     validFileID i \<and> session_ok i (fst x) \<and> completed_ok (fst x) \<and>
     (uStatus (fst x) = UploadStatusUploading \<longrightarrow> uReceivedBytes (fst x) = int (length (snd x)))"

definition good :: "astore \<Rightarrow> bool" where
  "good a \<longleftrightarrow>
     finite (dom (aFiles a)) \<and> finite (dom (aTrash a)) \<and> finite (dom (aUploads a)) \<and>
     (\<forall>i x. aFiles a i = Some x \<longrightarrow> file_ok i x \<and> aTrash a i = None) \<and>
     (\<forall>i x. aTrash a i = Some x \<longrightarrow> trash_ok i x) \<and>
     (\<forall>i x. aUploads a i = Some x \<longrightarrow> upload_ok i x)"

section \<open>The books\<close>

text \<open>Who is charged for what: the bytes of a file or trash entry, the declared size of an
  unfinished upload.\<close>

definition file_item :: "file_info \<times> bytes \<Rightarrow> string \<times> int" where
  "file_item x = (ownerFromMetadata (fMetadata (fst x)), fSize (fst x))"

definition upload_item :: "upload_session \<times> bytes \<Rightarrow> (string \<times> int) option" where
  "upload_item x =
     (if uStatus (fst x) = UploadStatusUploading
      then Some (ownerFromMetadata (uMetadata (fst x)), uSize (fst x)) else None)"

fun books :: "astore \<Rightarrow> usage_kind \<Rightarrow> string \<Rightarrow> (string \<times> int) option" where
  "books a UsageFile i = map_option file_item (aFiles a i)"
| "books a UsageTrash i = map_option file_item (aTrash a i)"
| "books a UsageUpload i = Option.bind (aUploads a i) upload_item"

definition owned :: "astore \<Rightarrow> string \<Rightarrow> int" where
  "owned a w = ledger.item_sum (books a UsageFile) w + ledger.item_sum (books a UsageTrash) w
             + ledger.item_sum (books a UsageUpload) w"

text \<open>Every owner's total is a 64-bit number.\<close>

definition totals_fit :: "astore \<Rightarrow> bool" where
  "totals_fit a \<longleftrightarrow> (\<forall>w. owned a w \<le> max_int64)"

definition accounted :: "astore \<Rightarrow> store \<Rightarrow> bool" where
  "accounted a s \<longleftrightarrow>
     (sUsageValid s \<longrightarrow> ledger.balanced (books a) (sUsage s)) \<and>
     (sLoaded s \<longrightarrow> sUsageValid s \<and> sLoadErr s = None)"

text \<open>The store state \<open>s\<close> represents the abstract store \<open>a\<close>.\<close>

definition represents :: "astore \<Rightarrow> store \<Rightarrow> bool" where
  "represents a s \<longleftrightarrow>
     on_disk a s \<and> good a \<and> totals_fit a \<and> accounted a s \<and>
     0 \<le> sOwnerQuotaBytes s \<and> sOwnerQuotaBytes s \<le> max_int64"

lemmas represents_parts = represents_def good_def accounted_def

lemma usage_kind_all: "(\<forall>k. P k) \<longleftrightarrow> P UsageFile \<and> P UsageTrash \<and> P UsageUpload"
  by (metis usage_kind.exhaust)

lemma goodD:
  assumes "good a"
  shows "aFiles a i = Some x \<Longrightarrow> file_ok i x" "aFiles a i = Some x \<Longrightarrow> aTrash a i = None"
    and "aTrash a i = Some x \<Longrightarrow> trash_ok i x" "aUploads a i = Some z \<Longrightarrow> upload_ok i z"
    and "aTrash a i = Some x \<Longrightarrow> aFiles a i = None"
  using assms unfolding good_def by (blast, blast, blast, blast, metis option.exhaust option.simps(3))

lemma good_pairs:
  assumes "good a"
  shows "aFiles a i = Some (f, b) \<Longrightarrow> validFileID i \<and> 0 \<le> fSize f"
    and "aTrash a i = Some (f, b) \<Longrightarrow> validFileID i \<and> 0 \<le> fSize f"
    and "aUploads a i = Some (u, b) \<Longrightarrow> validFileID i \<and> 0 < uSize u"
proof -
  show "aFiles a i = Some (f, b) \<Longrightarrow> validFileID i \<and> 0 \<le> fSize f"
    using goodD(1) [OF assms] by (auto simp: file_ok_def)
  show "aTrash a i = Some (f, b) \<Longrightarrow> validFileID i \<and> 0 \<le> fSize f"
    using goodD(3) [OF assms] by (auto simp: trash_ok_def)
  show "aUploads a i = Some (u, b) \<Longrightarrow> validFileID i \<and> 0 < uSize u"
    using goodD(4) [OF assms] by (auto simp: upload_ok_def session_ok_def)
qed

lemma books_nonneg: "good a \<Longrightarrow> books a k i = Some (w, n) \<Longrightarrow> 0 \<le> n"
  by (cases k)
    (auto simp: file_item_def upload_item_def bind_eq_Some_conv order_less_imp_le
      dest: good_pairs split: if_splits)

lemma books_finite: "good a \<Longrightarrow> finite (dom (books a k))"
proof (cases k)
  case UsageUpload
  assume "good a"
  moreover have "dom (books a UsageUpload) \<subseteq> dom (aUploads a)"
    by (auto simp: bind_eq_Some_conv)
  ultimately show ?thesis using UsageUpload by (auto simp: good_def dest: finite_subset)
qed (auto simp: good_def dom_def)

lemma item_sum_books_nonneg: "good a \<Longrightarrow> 0 \<le> ledger.item_sum (books a k) w"
  by (rule ledger.item_sum_nonneg) (rule books_nonneg)

lemma item_sum_le_owned: "good a \<Longrightarrow> ledger.item_sum (books a k) w \<le> owned a w"
  using item_sum_books_nonneg [of a UsageFile w] item_sum_books_nonneg [of a UsageTrash w]
    item_sum_books_nonneg [of a UsageUpload w]
  by (cases k) (auto simp: owned_def)

lemma item_sum_submap:
  assumes "good a" "\<And>i x. items i = Some x \<Longrightarrow> books a k i = Some x"
  shows "ledger.item_sum items w \<le> ledger.item_sum (books a k) w"
proof -
  have "ledger.item_sum items w =
    (\<Sum>i\<in>dom items. if fst (the (books a k i)) = w then snd (the (books a k i)) else 0)"
    unfolding ledger.item_sum_def using assms(2) by (intro sum.cong) auto
  also have "\<dots> \<le> ledger.item_sum (books a k) w"
    unfolding ledger.item_sum_def
  proof (rule sum_mono2 [OF books_finite [OF assms(1)]])
    fix i assume "i \<in> dom (books a k) - dom items"
    then obtain v n where "books a k i = Some (v, n)" by auto
    then show "0 \<le> (if fst (the (books a k i)) = w then snd (the (books a k i)) else 0)"
      using books_nonneg [OF assms(1), of k i v n] by simp
  qed (use assms(2) in auto)
  finally show ?thesis .
qed

lemma fits_books: "good a \<Longrightarrow> totals_fit a \<Longrightarrow> ledger.fits (books a)"
  unfolding ledger.fits_def totals_fit_def using item_sum_le_owned order_trans by blast

lemma owned_nonneg: "good a \<Longrightarrow> 0 \<le> owned a w"
  using item_sum_books_nonneg item_sum_le_owned order_trans by blast

text \<open>On a balanced index the total the quota check reads is what the owner has on disk.\<close>

lemma usage_total_owned:
  assumes "good a" "totals_fit a" "ledger.balanced (books a) u"
  shows "usage_total u w = owned a w"
proof -
  have b: "balance u k w = ledger.item_sum (books a k) w" for k
    using assms(3) by (simp add: ledger.balanced_def)
  have le: "owned a w \<le> max_int64" using assms(2) by (simp add: totals_fit_def)
  have "wrap64 (balance u UsageFile w + balance u UsageTrash w)
      = balance u UsageFile w + balance u UsageTrash w"
    using le item_sum_books_nonneg [OF assms(1)] unfolding b
    by (intro wrap64_nonneg_id) (auto simp: owned_def add_increasing intro: order_trans [rotated])
  then show ?thesis
    using le owned_nonneg [OF assms(1), of w]
    by (simp add: usage_total_balance b wrap64_nonneg_id owned_def)
qed

section \<open>Reading a represented store\<close>

lemma on_disk_look: "on_disk a s \<Longrightarrow> fst p \<noteq> Quarantine \<Longrightarrow> look s p = disk_of a p"
  unfolding on_disk_def by blast

lemma json_not_tmp [simp]:
  "\<not> suffix ''.json'' (n @ ''.json.tmp'')" "\<not> suffix ''.json'' (n @ ''.tmp'')"
  by (simp_all add: suffix_to_prefix)

lemma on_disk_dirs [simp]:
  assumes "on_disk a s"
  shows "look s (ar, []) = Some NDir"
  using assms by (cases ar) (auto simp: on_disk_def quarantine_ok_def)

lemma on_disk_paths:
  assumes "on_disk a s"
  shows "look s (objectPath i) = map_option (\<lambda>x. NFile (Blob (snd x))) (aFiles a i)"
    and "look s (manifestPath i) = map_option (\<lambda>x. NFile (Doc (FileDoc (fst x)))) (aFiles a i)"
    and "look s (tmpPath i) = None"
    and "look s (tmp_of (manifestPath i)) = None"
    and "look s (sessionDir i) = map_option (\<lambda>_. NDir) (aUploads a i)"
    and "look s (sessionManifest i) = map_option (\<lambda>x. NFile (Doc (SessionDoc (fst x)))) (aUploads a i)"
    and "look s (tmp_of (sessionManifest i)) = None"
    and "look s (sessionData i) = Option.bind (aUploads a i) (\<lambda>x. session_child x ''data.part'')"
    and "look s (trashDir i) = map_option (\<lambda>_. NDir) (aTrash a i)"
    and "look s (trashObject i) = map_option (\<lambda>x. NFile (Blob (snd x))) (aTrash a i)"
    and "look s (trashManifest i) = map_option (\<lambda>x. NFile (Doc (FileDoc (fst x)))) (aTrash a i)"
    and "look s (tmp_of (trashManifest i)) = None"
  by (simp_all add: on_disk_look [OF assms] path_defs session_child_def trash_child_def
      split: option.splits)
    (auto simp: bind_eq_None_conv map_option_case session_child_def trash_child_def split: option.splits)

lemma on_disk_upd [simp]:
  "on_disk a (s\<lparr>sUsage := u\<rparr>) = on_disk a s" "on_disk a (s\<lparr>sUsageValid := v\<rparr>) = on_disk a s"
  "on_disk a (s\<lparr>sLoaded := l\<rparr>) = on_disk a s" "on_disk a (s\<lparr>sLoadErr := e\<rparr>) = on_disk a s"
  "on_disk a (moveUsage w from to n r s) = on_disk a s"
  "on_disk a (releaseUsage w k n s) = on_disk a s"
  by (simp_all add: on_disk_def quarantine_ok_def)

lemma getUnlocked_calm:
  assumes "script s = []" "on_disk a s" "good a"
  shows "getUnlocked i s =
    (case aFiles a i of None \<Rightarrow> (Inl ErrNotFound, s) | Some x \<Rightarrow> (Inr (fst x), s))"
proof (cases "aFiles a i")
  case (Some x)
  then show ?thesis using assms goodD(1) [OF assms(3) Some]
    by (simp add: getUnlocked_def go_simps on_disk_paths file_ok_def)
qed (use assms in \<open>simp add: getUnlocked_def go_simps on_disk_paths\<close>)

lemma getTrashUnlocked_calm:
  assumes "script s = []" "on_disk a s" "good a"
  shows "getTrashUnlocked i s =
    (case aTrash a i of None \<Rightarrow> (Inl ErrNotFound, s) | Some x \<Rightarrow> (Inr (fst x), s))"
proof (cases "aTrash a i")
  case (Some x)
  then show ?thesis using assms goodD(3) [OF assms(3) Some]
    by (simp add: getTrashUnlocked_def go_simps on_disk_paths trash_ok_def)
qed (use assms in \<open>simp add: getTrashUnlocked_def go_simps on_disk_paths\<close>)

lemma status_distinct [simp]:
  "UploadStatusCompleted \<noteq> UploadStatusUploading" "UploadStatusUploading \<noteq> UploadStatusCompleted"
  by (simp_all add: UploadStatusCompleted_def UploadStatusUploading_def)

lemma getUploadUnlocked_calm:
  assumes "script s = []" "on_disk a s" "good a"
  shows "getUploadUnlocked i s =
    (case aUploads a i of None \<Rightarrow> (Inl ErrUploadNotFound, s) | Some x \<Rightarrow> (Inr (fst x), s))"
proof (cases "aUploads a i")
  case (Some x)
  then show ?thesis using assms goodD(4) [OF assms(3) Some]
    by (auto simp: getUploadUnlocked_def go_simps on_disk_paths upload_ok_def session_child_def)
qed (use assms in \<open>simp add: getUploadUnlocked_def go_simps on_disk_paths\<close>)

section \<open>Names in the directories\<close>

lemma on_disk_names:
  assumes "on_disk a s"
  shows "set (names s (Objects, [])) = dom (aFiles a)"
    and "set (names s (Metadata, [])) = (\<lambda>i. i @ ''.json'') ` dom (aFiles a)"
    and "names s (Tmp, []) = []"
    and "set (names s (Uploads, [])) = dom (aUploads a)"
    and "set (names s (Trash, [])) = dom (aTrash a)"
proof -
  show "set (names s (Objects, [])) = dom (aFiles a)"
    by (auto simp: set_names on_disk_look [OF assms])
  show "set (names s (Metadata, [])) = (\<lambda>i. i @ ''.json'') ` dom (aFiles a)"
    by (auto simp: set_names on_disk_look [OF assms] image_iff suffix_def split: if_splits)
  have "set (names s (Tmp, [])) = {}"
    by (auto simp: set_names on_disk_look [OF assms])
  then show "names s (Tmp, []) = []" by simp
  show "set (names s (Uploads, [])) = dom (aUploads a)"
    by (auto simp: set_names on_disk_look [OF assms])
  show "set (names s (Trash, [])) = dom (aTrash a)"
    by (auto simp: set_names on_disk_look [OF assms])
qed

text \<open>The manifest names with the identifiers they carry.\<close>

definition live_ids :: "store \<Rightarrow> string list" where
  "live_ids s = map (trim_suffix ''.json'') (names s (Metadata, []))"

lemma on_disk_live_ids:
  assumes "on_disk a s"
  shows "names s (Metadata, []) = map (\<lambda>i. i @ ''.json'') (live_ids s)"
    and "set (live_ids s) = dom (aFiles a)" and "distinct (live_ids s)"
proof -
  have n: "n = trim_suffix ''.json'' n @ ''.json''" if "n \<in> set (names s (Metadata, []))" for n
    using that on_disk_names(2) [OF assms] by auto
  show e: "names s (Metadata, []) = map (\<lambda>i. i @ ''.json'') (live_ids s)"
    unfolding live_ids_def map_map comp_def using n by (simp add: map_idI [symmetric])
  have "(\<lambda>i. i @ ''.json'') ` set (live_ids s) = (\<lambda>i. i @ ''.json'') ` dom (aFiles a)"
    using on_disk_names(2) [OF assms] e by (metis image_set)
  then show "set (live_ids s) = dom (aFiles a)"
    by (subst (asm) inj_image_eq_iff) (auto simp: inj_on_def)
  show "distinct (live_ids s)"
    using distinct_names [of s "(Metadata, [])"] unfolding e by (simp add: distinct_map)
qed

lemma read_dirs_calm:
  assumes "script s = []" "on_disk a s"
  shows "os_read_dir (Metadata, []) s = (Inr (map (\<lambda>i. (i @ ''.json'', False)) (live_ids s)), s)"
    and "os_read_dir (Objects, []) s = (Inr (map (\<lambda>i. (i, False)) (names s (Objects, []))), s)"
    and "os_read_dir (Trash, []) s = (Inr (map (\<lambda>i. (i, True)) (names s (Trash, []))), s)"
    and "os_read_dir (Uploads, []) s = (Inr (map (\<lambda>i. (i, True)) (names s (Uploads, []))), s)"
    and "os_read_dir (Tmp, []) s = (Inr [], s)"
  using assms on_disk_live_ids [OF assms(2)] on_disk_names [OF assms(2)]
  by (auto simp: go_simps on_disk_look [OF assms(2)])

section \<open>Loading the usage index\<close>

lemma index_add_ok:
  assumes "0 \<le> n" "balance u k (normalizeOwner w) + n \<le> max_int64" "0 \<le> balance u k (normalizeOwner w)"
  shows "\<exists>u'. index_add k w n u = Inr u' \<and>
    (\<forall>k' w'. balance u' k' w' = balance u k' w' + (if k' = k \<and> w' = normalizeOwner w then n else 0))"
proof -
  have "wrap64 (max_int64 - n) = max_int64 - n" "wrap64 (balance u k (normalizeOwner w) + n) = balance u k (normalizeOwner w) + n"
    using assms by (auto intro!: wrap64_nonneg_id simp: max_int64_def)
  with assms show ?thesis
    by (auto simp: index_add_def Let_def balance_def bucket_of_set_bucket)
qed

text \<open>Scanning a list adds the items of its members, as long as the sums fit.\<close>

locale usage_scan =
  fixes scan :: "'e list \<Rightarrow> usage_index \<Rightarrow> store \<Rightarrow> (err + usage_index) \<times> store"
    and entry :: "string \<Rightarrow> 'e"
    and kind :: usage_kind
    and items :: "string \<Rightarrow> (string \<times> int) option"
    and s :: store
    and present :: "string \<Rightarrow> bool"
  assumes scan_Nil: "scan [] u s = (Inr u, s)"
    and scan_None: "present i \<Longrightarrow> items i = None \<Longrightarrow> scan (entry i # es) u s = scan es u s"
    and scan_Some: "present i \<Longrightarrow> items i = Some (w, n) \<Longrightarrow> index_add kind w n u = Inr u' \<Longrightarrow>
      scan (entry i # es) u s = scan es u' s"
    and item_nonneg: "present i \<Longrightarrow> items i = Some (w, n) \<Longrightarrow> 0 \<le> n"
    and item_owner: "present i \<Longrightarrow> items i = Some (w, n) \<Longrightarrow> normalizeOwner w = w"
begin

lemma scan_adds:
  assumes "\<forall>i\<in>set is. present i" "\<forall>w. 0 \<le> balance u kind w"
    and "\<forall>w. balance u kind w + (\<Sum>i\<leftarrow>is. case items i of None \<Rightarrow> 0 | Some (v, n) \<Rightarrow> if v = w then n else 0) \<le> max_int64"
  shows "\<exists>u'. scan (map entry is) u s = (Inr u', s) \<and>
    (\<forall>k w. balance u' k w = balance u k w +
       (if k = kind then (\<Sum>i\<leftarrow>is. case items i of None \<Rightarrow> 0 | Some (v, n) \<Rightarrow> if v = w then n else 0) else 0))"
  using assms
proof (induction "is" arbitrary: u)
  case Nil
  then show ?case by (simp add: scan_Nil)
next
  case (Cons i "is")
  let ?sum = "\<lambda>w. \<Sum>i\<leftarrow>is. case items i of None \<Rightarrow> 0 | Some (v, n) \<Rightarrow> if v = w then n else 0"
  have nn: "0 \<le> ?sum w" for w
  proof (intro sum_list_nonneg, clarsimp split: option.split)
    fix j n assume "j \<in> set is" "items j = Some (w, n)"
    with Cons.prems(1) show "0 \<le> n" by (intro item_nonneg) auto
  qed
  show ?case
  proof (cases "items i")
    case None
    have "\<exists>u'. scan (map entry is) u s = (Inr u', s) \<and>
      (\<forall>k w. balance u' k w = balance u k w + (if k = kind then ?sum w else 0))"
      using Cons.prems None by (intro Cons.IH) auto
    with None Cons.prems(1) show ?thesis by (auto simp: scan_None)
  next
    case (Some x)
    then obtain v n where x: "items i = Some (v, n)" by (cases x) auto
    have v: "normalizeOwner v = v" and n: "0 \<le> n" using x item_owner item_nonneg Cons.prems(1) by auto
    have "balance u kind v + n \<le> max_int64"
      using Cons.prems(3) x nn [of v] by (auto dest!: spec [of _ v])
    with n v Cons.prems(2) obtain u' where u': "index_add kind v n u = Inr u'"
      and b: "\<And>k w. balance u' k w = balance u k w + (if k = kind \<and> w = v then n else 0)"
      using index_add_ok [of n u kind v] by auto
    have "\<exists>u''. scan (map entry is) u' s = (Inr u'', s) \<and>
      (\<forall>k w. balance u'' k w = balance u' k w + (if k = kind then ?sum w else 0))"
      using Cons.prems x n by (intro Cons.IH) (auto simp: b ac_simps split: if_splits)
    with u' x Cons.prems(1) show ?thesis
      by (auto simp: scan_Some [OF _ x u'] b)
  qed
qed

lemma scan_item_sum:
  assumes "set is = D" "\<forall>i\<in>D. present i" "distinct is" "dom items \<subseteq> D"
    and "\<forall>w. balance u kind w = 0" "\<forall>w. ledger.item_sum items w \<le> max_int64"
  shows "\<exists>u'. scan (map entry is) u s = (Inr u', s) \<and>
    (\<forall>k w. balance u' k w = balance u k w + (if k = kind then ledger.item_sum items w else 0))"
proof -
  have "(\<Sum>i\<leftarrow>is. case items i of None \<Rightarrow> 0 | Some (v, n) \<Rightarrow> if v = w then n else 0)
      = ledger.item_sum items w" for w
  proof -
    have "(\<Sum>i\<leftarrow>is. case items i of None \<Rightarrow> 0 | Some (v, n) \<Rightarrow> if v = w then n else 0)
      = (\<Sum>i\<in>D. case items i of None \<Rightarrow> 0 | Some (v, n) \<Rightarrow> if v = w then n else 0)"
      using assms(1,3) by (simp add: sum_list_distinct_conv_sum_set)
    also have "\<dots> = (\<Sum>i\<in>dom items. case items i of None \<Rightarrow> 0 | Some (v, n) \<Rightarrow> if v = w then n else 0)"
      using assms(1,4) by (intro sum.mono_neutral_right) (auto split: option.split)
    also have "\<dots> = ledger.item_sum items w"
      unfolding ledger.item_sum_def by (intro sum.cong) auto
    finally show ?thesis .
  qed
  with scan_adds [of "is" u] assms show ?thesis by auto
qed

end

definition readable :: "astore \<Rightarrow> store \<Rightarrow> bool" where
  "readable a s \<longleftrightarrow> script s = [] \<and> on_disk a s \<and> good a"

lemma books_owner: "books a k i = Some (w, n) \<Longrightarrow> normalizeOwner w = w"
  by (cases k) (auto simp: file_item_def upload_item_def bind_eq_Some_conv split: if_splits)

interpretation files_scan: usage_scan rebuild_files "\<lambda>i. (i @ ''.json'', False)" UsageFile
    "books a UsageFile" s "\<lambda>i. readable a s \<and> i \<in> dom (aFiles a)" for a s
  by unfold_locales
    (auto simp: readable_def getUnlocked_calm filepath_ext_json file_item_def dest: good_pairs)

interpretation trash_scan: usage_scan rebuild_trash "\<lambda>i. (i, True)" UsageTrash
    "books a UsageTrash" s "\<lambda>i. readable a s \<and> i \<in> dom (aTrash a)" for a s
  by unfold_locales
    (auto simp: readable_def getTrashUnlocked_calm file_item_def dest: good_pairs)

interpretation uploads_scan: usage_scan rebuild_uploads "\<lambda>i. (i, True)" UsageUpload
    "books a UsageUpload" s "\<lambda>i. readable a s \<and> i \<in> dom (aUploads a)" for a s
  by unfold_locales
    (auto simp: readable_def getUploadUnlocked_calm upload_item_def order_less_imp_le dest: good_pairs
      split: if_splits)

lemma rebuildUsageLocked_calm:
  assumes "script s = []" "on_disk a s" "good a" "totals_fit a"
  shows "\<exists>u. rebuildUsageLocked s = (Inr (), s\<lparr>sUsage := u, sUsageValid := True\<rparr>) \<and>
    ledger.balanced (books a) u"
proof -
  have r: "readable a s" using assms by (simp add: readable_def)
  have fit: "\<forall>w. ledger.item_sum (books a k) w \<le> max_int64" for k
    using fits_books [OF assms(3,4)] by (simp add: ledger.fits_def)
  have names: "set (names s (Trash, [])) = dom (aTrash a)" "set (names s (Uploads, [])) = dom (aUploads a)"
    using on_disk_names [OF assms(2)] by auto
  have doms: "dom (books a UsageFile) \<subseteq> dom (aFiles a)" "dom (books a UsageTrash) \<subseteq> dom (aTrash a)"
    "dom (books a UsageUpload) \<subseteq> dom (aUploads a)"
    by (auto simp: bind_eq_Some_conv)
  obtain u1 where u1: "rebuild_files (map (\<lambda>i. (i @ ''.json'', False)) (live_ids s)) newUsageIndex s = (Inr u1, s)"
    and b1: "\<And>k w. balance u1 k w = (if k = UsageFile then ledger.item_sum (books a UsageFile) w else 0)"
    using files_scan.scan_item_sum [of "live_ids s" "dom (aFiles a)" a s newUsageIndex]
      on_disk_live_ids [OF assms(2)] r fit doms by auto
  obtain u2 where u2: "rebuild_trash (map (\<lambda>i. (i, True)) (names s (Trash, []))) u1 s = (Inr u2, s)"
    and b2: "\<And>k w. balance u2 k w = balance u1 k w + (if k = UsageTrash then ledger.item_sum (books a UsageTrash) w else 0)"
    using trash_scan.scan_item_sum [of "names s (Trash, [])" "dom (aTrash a)" a s u1] names r fit doms b1 by auto
  obtain u3 where u3: "rebuild_uploads (map (\<lambda>i. (i, True)) (names s (Uploads, []))) u2 s = (Inr u3, s)"
    and b3: "\<And>k w. balance u3 k w = balance u2 k w + (if k = UsageUpload then ledger.item_sum (books a UsageUpload) w else 0)"
    using uploads_scan.scan_item_sum [of "names s (Uploads, [])" "dom (aUploads a)" a s u2] names r fit doms b1 b2 by auto
  have "balance u3 k w = ledger.item_sum (books a k) w" for k w
    by (cases k) (simp_all add: b1 b2 b3)
  then have "ledger.balanced (books a) u3"
    using books_finite [OF assms(3)] books_nonneg [OF assms(3)] unfolding ledger.balanced_def by blast
  with u1 u2 u3 show ?thesis
    by (intro exI [of _ u3]) (simp add: rebuildUsageLocked_def read_dirs_calm [OF assms(1,2)])
qed

text \<open>Every operation starts by making sure the index is loaded.\<close>

definition loaded :: "store \<Rightarrow> store" where
  "loaded s = snd (ensureUsageLocked s)"

lemma ensureUsageLocked_calm:
  assumes "script s = []" "represents a s"
  shows "ensureUsageLocked s = (Inr (), loaded s)" "represents a (loaded s)" "script (loaded s) = []"
    and "look (loaded s) = look s" "sLoaded (loaded s)" "sUsageValid (loaded s)"
    and "sPauseAtPercent (loaded s) = sPauseAtPercent s"
    and "sOwnerQuotaBytes (loaded s) = sOwnerQuotaBytes s" "sUploadTTL (loaded s) = sUploadTTL s"
proof -
  obtain u where u: "rebuildUsageLocked s = (Inr (), s\<lparr>sUsage := u, sUsageValid := True\<rparr>)"
    and b: "ledger.balanced (books a) u"
    using rebuildUsageLocked_calm [of s a] assms unfolding represents_def by blast
  show "ensureUsageLocked s = (Inr (), loaded s)" "represents a (loaded s)" "script (loaded s) = []"
    "look (loaded s) = look s" "sLoaded (loaded s)" "sUsageValid (loaded s)"
    "sPauseAtPercent (loaded s) = sPauseAtPercent s"
    "sOwnerQuotaBytes (loaded s) = sOwnerQuotaBytes s" "sUploadTTL (loaded s) = sUploadTTL s"
    using assms u b by (auto simp: loaded_def ensureUsageLocked_def represents_def accounted_def)
qed

lemma loaded_loaded [simp]: "sLoaded s \<Longrightarrow> sLoadErr s = None \<Longrightarrow> loaded s = s"
  by (simp add: loaded_def ensureUsageLocked_def)

lemma loaded_idem: "script s = [] \<Longrightarrow> represents a s \<Longrightarrow> loaded (loaded s) = loaded s"
  using ensureUsageLocked_calm [of s a] by (auto simp: represents_def accounted_def)

text \<open>The quota check of \<open>enforceQuotaUnlocked\<close> once the index is loaded.\<close>

definition over_quota :: "store \<Rightarrow> string \<Rightarrow> int \<Rightarrow> bool" where
  "over_quota s owner n \<longleftrightarrow>
     sOwnerQuotaBytes s \<noteq> 0 \<and>
     (usage_total (sUsage s) (normalizeOwner owner) > sOwnerQuotaBytes s \<or>
      n > wrap64 (sOwnerQuotaBytes s - usage_total (sUsage s) (normalizeOwner owner)))"

lemma enforceQuotaUnlocked_loaded:
  assumes "sLoaded s" "sLoadErr s = None" "0 \<le> n"
  shows "enforceQuotaUnlocked owner n s = ((if over_quota s owner n then Inl ErrQuotaExceeded else Inr ()), s)"
  using assms
  by (simp add: enforceQuotaUnlocked_def ownerUsageLocked_def ensureUsageLocked_def over_quota_def)

lemma over_quota_owned:
  assumes "represents a s" "sLoaded s" "0 \<le> n"
  shows "over_quota s owner n \<longleftrightarrow>
    sOwnerQuotaBytes s \<noteq> 0 \<and> owned a (normalizeOwner owner) + n > sOwnerQuotaBytes s"
proof -
  have t: "usage_total (sUsage s) (normalizeOwner owner) = owned a (normalizeOwner owner)"
    and g: "good a"
    using assms usage_total_owned by (auto simp: represents_def accounted_def)
  have "wrap64 (sOwnerQuotaBytes s - owned a (normalizeOwner owner))
      = sOwnerQuotaBytes s - owned a (normalizeOwner owner)"
    if "owned a (normalizeOwner owner) \<le> sOwnerQuotaBytes s"
    using that assms owned_nonneg [OF g]
    by (intro wrap64_nonneg_id) (auto simp: represents_def intro: order_trans [rotated])
  then show ?thesis using assms(3)
    by (cases "owned a (normalizeOwner owner) \<le> sOwnerQuotaBytes s") (auto simp: over_quota_def t)
qed

text \<open>The pause check reads the file system and may load the index.\<close>

lemma writesPausedUnlocked_calm:
  assumes "script s = []" "represents a s"
  shows "snd (writesPausedUnlocked E s) = s \<or> snd (writesPausedUnlocked E s) = loaded s"
  using ensureUsageLocked_calm(1) [OF assms]
  by (auto simp: writesPausedUnlocked_def capacityUnlocked_def Let_def split: sum.split prod.split)

section \<open>Changing the layout\<close>

lemma layout_frame [simp]:
  "uploads_of (a\<lparr>aFiles := m\<rparr>) ns = uploads_of a ns" "trash_of (a\<lparr>aFiles := m\<rparr>) ns = trash_of a ns"
  "objects_of (a\<lparr>aTrash := m\<rparr>) ns = objects_of a ns" "metadata_of (a\<lparr>aTrash := m\<rparr>) ns = metadata_of a ns"
  "uploads_of (a\<lparr>aTrash := m\<rparr>) ns = uploads_of a ns"
  "objects_of (a\<lparr>aUploads := k\<rparr>) ns = objects_of a ns" "metadata_of (a\<lparr>aUploads := k\<rparr>) ns = metadata_of a ns"
  "trash_of (a\<lparr>aUploads := k\<rparr>) ns = trash_of a ns"
  by (cases "(a, ns)" rule: objects_of.cases; cases "(a, ns)" rule: uploads_of.cases; simp)+

lemma disk_of_put_file:
  "disk_of (a\<lparr>aFiles := (aFiles a)(i \<mapsto> x)\<rparr>) =
     (disk_of a)(objectPath i \<mapsto> NFile (Blob (snd x)), manifestPath i \<mapsto> NFile (Doc (FileDoc (fst x))))"
proof (rule ext)
  fix p show "disk_of (a\<lparr>aFiles := (aFiles a)(i \<mapsto> x)\<rparr>) p =
     ((disk_of a)(objectPath i \<mapsto> NFile (Blob (snd x)), manifestPath i \<mapsto> NFile (Doc (FileDoc (fst x))))) p"
    by (cases "(a, p)" rule: disk_of.cases; cases "(a, snd p)" rule: objects_of.cases)
      (auto simp: path_defs suffix_def)
qed

lemma disk_of_del_file:
  "disk_of (a\<lparr>aFiles := (aFiles a)(i := None)\<rparr>) =
     (disk_of a)(objectPath i := None, manifestPath i := None)"
proof (rule ext)
  fix p show "disk_of (a\<lparr>aFiles := (aFiles a)(i := None)\<rparr>) p =
     ((disk_of a)(objectPath i := None, manifestPath i := None)) p"
    by (cases "(a, p)" rule: disk_of.cases; cases "(a, snd p)" rule: objects_of.cases)
      (auto simp: path_defs suffix_def)
qed

lemma disk_of_put_trash:
  "disk_of (a\<lparr>aTrash := (aTrash a)(i \<mapsto> x)\<rparr>) =
     (disk_of a)(trashDir i \<mapsto> NDir, trashObject i \<mapsto> NFile (Blob (snd x)),
                 trashManifest i \<mapsto> NFile (Doc (FileDoc (fst x))))"
  if "aTrash a i = None"
proof (rule ext)
  fix p show "disk_of (a\<lparr>aTrash := (aTrash a)(i \<mapsto> x)\<rparr>) p =
     ((disk_of a)(trashDir i \<mapsto> NDir, trashObject i \<mapsto> NFile (Blob (snd x)),
                 trashManifest i \<mapsto> NFile (Doc (FileDoc (fst x))))) p"
    using that by (cases "(a, p)" rule: disk_of.cases; cases "(a, snd p)" rule: trash_of.cases)
      (auto simp: path_defs trash_child_def)
qed

lemma disk_of_del_trash:
  "disk_of (a\<lparr>aTrash := (aTrash a)(i := None)\<rparr>) =
     (disk_of a)(trashDir i := None, trashObject i := None, trashManifest i := None)"
proof (rule ext)
  fix p show "disk_of (a\<lparr>aTrash := (aTrash a)(i := None)\<rparr>) p =
     ((disk_of a)(trashDir i := None, trashObject i := None, trashManifest i := None)) p"
    by (cases "(a, p)" rule: disk_of.cases; cases "(a, snd p)" rule: trash_of.cases)
      (auto simp: path_defs trash_child_def bind_eq_None_conv split: option.splits)
qed

lemma disk_of_put_upload:
  "disk_of (a\<lparr>aUploads := (aUploads a)(i \<mapsto> x)\<rparr>) =
     (disk_of a)(sessionDir i \<mapsto> NDir, sessionManifest i \<mapsto> NFile (Doc (SessionDoc (fst x))),
                 sessionData i := session_child x ''data.part'')"
proof (rule ext)
  fix p show "disk_of (a\<lparr>aUploads := (aUploads a)(i \<mapsto> x)\<rparr>) p =
     ((disk_of a)(sessionDir i \<mapsto> NDir, sessionManifest i \<mapsto> NFile (Doc (SessionDoc (fst x))),
                 sessionData i := session_child x ''data.part'')) p"
    by (cases "(a, p)" rule: disk_of.cases; cases "(a, snd p)" rule: uploads_of.cases)
      (auto simp: path_defs session_child_def bind_eq_None_conv split: option.splits)
qed

lemma disk_of_del_upload:
  "disk_of (a\<lparr>aUploads := (aUploads a)(i := None)\<rparr>) =
     (disk_of a)(sessionDir i := None, sessionManifest i := None, sessionData i := None)"
proof (rule ext)
  fix p show "disk_of (a\<lparr>aUploads := (aUploads a)(i := None)\<rparr>) p =
     ((disk_of a)(sessionDir i := None, sessionManifest i := None, sessionData i := None)) p"
    by (cases "(a, p)" rule: disk_of.cases; cases "(a, snd p)" rule: uploads_of.cases)
      (auto simp: path_defs session_child_def bind_eq_None_conv split: option.splits)
qed

text \<open>A state change that follows a change of the layout.\<close>

lemma on_disk_step:
  assumes "on_disk a s" "\<And>p. fst p \<noteq> Quarantine \<Longrightarrow> disk_of a p = look s p \<Longrightarrow> look s' p = disk_of a' p"
    and "\<And>ns. look s' (Quarantine, ns) = look s (Quarantine, ns)"
  shows "on_disk a' s'"
  using assms unfolding on_disk_def quarantine_ok_def by simp

lemma on_disk_put_file:
  assumes "on_disk a s"
    and "look s' = (look s)(objectPath i \<mapsto> NFile (Blob (snd x)), manifestPath i \<mapsto> NFile (Doc (FileDoc (fst x))))"
  shows "on_disk (a\<lparr>aFiles := (aFiles a)(i \<mapsto> x)\<rparr>) s'"
  using assms(1) by (rule on_disk_step) (auto simp: assms(2) disk_of_put_file path_defs)

lemma on_disk_del_file:
  assumes "on_disk a s" "look s' = (look s)(objectPath i := None, manifestPath i := None)"
  shows "on_disk (a\<lparr>aFiles := (aFiles a)(i := None)\<rparr>) s'"
  using assms(1) by (rule on_disk_step) (auto simp: assms(2) disk_of_del_file path_defs)

lemma on_disk_put_upload:
  assumes "on_disk a s"
    and "look s' = (look s)(sessionDir i \<mapsto> NDir, sessionManifest i \<mapsto> NFile (Doc (SessionDoc (fst x))),
                 sessionData i := session_child x ''data.part'')"
  shows "on_disk (a\<lparr>aUploads := (aUploads a)(i \<mapsto> x)\<rparr>) s'"
  using assms(1) by (rule on_disk_step) (auto simp: assms(2) disk_of_put_upload path_defs)

lemma on_disk_del_upload:
  assumes "on_disk a s"
    and "look s' = (look s)(sessionDir i := None, sessionManifest i := None, sessionData i := None)"
  shows "on_disk (a\<lparr>aUploads := (aUploads a)(i := None)\<rparr>) s'"
  using assms(1) by (rule on_disk_step) (auto simp: assms(2) disk_of_del_upload path_defs)

lemma on_disk_put_trash:
  assumes "on_disk a s" "aTrash a i = None"
    and "look s' = (look s)(trashDir i \<mapsto> NDir, trashObject i \<mapsto> NFile (Blob (snd x)),
                 trashManifest i \<mapsto> NFile (Doc (FileDoc (fst x))))"
  shows "on_disk (a\<lparr>aTrash := (aTrash a)(i \<mapsto> x)\<rparr>) s'"
  using assms(1) by (rule on_disk_step) (auto simp: assms(3) disk_of_put_trash [OF assms(2)] path_defs)

lemma on_disk_del_trash:
  assumes "on_disk a s"
    and "look s' = (look s)(trashDir i := None, trashObject i := None, trashManifest i := None)"
  shows "on_disk (a\<lparr>aTrash := (aTrash a)(i := None)\<rparr>) s'"
  using assms(1) by (rule on_disk_step) (auto simp: assms(2) disk_of_del_trash path_defs)

section \<open>The books after a change\<close>

lemma books_upd:
  "books (a\<lparr>aFiles := (aFiles a)(i \<mapsto> x)\<rparr>) =
     (books a)(UsageFile := (books a UsageFile)(i \<mapsto> file_item x))"
  "books (a\<lparr>aFiles := (aFiles a)(i := None)\<rparr>) =
     (books a)(UsageFile := (books a UsageFile)(i := None))"
  "books (a\<lparr>aTrash := (aTrash a)(i \<mapsto> x)\<rparr>) =
     (books a)(UsageTrash := (books a UsageTrash)(i \<mapsto> file_item x))"
  "books (a\<lparr>aTrash := (aTrash a)(i := None)\<rparr>) =
     (books a)(UsageTrash := (books a UsageTrash)(i := None))"
  "books (a\<lparr>aUploads := (aUploads a)(i \<mapsto> y)\<rparr>) =
     (books a)(UsageUpload := (books a UsageUpload)(i := upload_item y))"
  "books (a\<lparr>aUploads := (aUploads a)(i := None)\<rparr>) =
     (books a)(UsageUpload := (books a UsageUpload)(i := None))"
proof -
  have eq: "f = g \<longleftrightarrow> (\<forall>i. f UsageFile i = g UsageFile i \<and> f UsageTrash i = g UsageTrash i \<and> f UsageUpload i = g UsageUpload i)"
    for f g :: "usage_kind \<Rightarrow> string \<Rightarrow> (string \<times> int) option"
    unfolding fun_eq_iff using usage_kind_all [of "\<lambda>k. \<forall>i. f k i = g k i"] by blast
  show "books (a\<lparr>aFiles := (aFiles a)(i \<mapsto> x)\<rparr>) =
      (books a)(UsageFile := (books a UsageFile)(i \<mapsto> file_item x))"
    "books (a\<lparr>aFiles := (aFiles a)(i := None)\<rparr>) = (books a)(UsageFile := (books a UsageFile)(i := None))"
    "books (a\<lparr>aTrash := (aTrash a)(i \<mapsto> x)\<rparr>) =
      (books a)(UsageTrash := (books a UsageTrash)(i \<mapsto> file_item x))"
    "books (a\<lparr>aTrash := (aTrash a)(i := None)\<rparr>) = (books a)(UsageTrash := (books a UsageTrash)(i := None))"
    "books (a\<lparr>aUploads := (aUploads a)(i \<mapsto> y)\<rparr>) =
      (books a)(UsageUpload := (books a UsageUpload)(i := upload_item y))"
    "books (a\<lparr>aUploads := (aUploads a)(i := None)\<rparr>) =
      (books a)(UsageUpload := (books a UsageUpload)(i := None))"
    by (simp_all add: eq)
qed

lemma books_frame [simp]:
  "books (a\<lparr>aFiles := m\<rparr>) UsageTrash = books a UsageTrash" "books (a\<lparr>aFiles := m\<rparr>) UsageUpload = books a UsageUpload"
  "books (a\<lparr>aTrash := m\<rparr>) UsageFile = books a UsageFile" "books (a\<lparr>aTrash := m\<rparr>) UsageUpload = books a UsageUpload"
  "books (a\<lparr>aUploads := k\<rparr>) UsageFile = books a UsageFile" "books (a\<lparr>aUploads := k\<rparr>) UsageTrash = books a UsageTrash"
  by (simp_all add: fun_eq_iff)

lemma owned_put_file:
  assumes "good a" "aFiles a i = None"
  shows "owned (a\<lparr>aFiles := (aFiles a)(i \<mapsto> x)\<rparr>) w =
    owned a w + (if w = ownerFromMetadata (fMetadata (fst x)) then fSize (fst x) else 0)"
  using ledger.item_sum_upd [of "books a UsageFile" i] books_finite [OF assms(1)] assms(2)
  by (simp add: owned_def books_upd file_item_def)

lemma owned_put_upload:
  assumes "good a" "aUploads a i = None" "uStatus (fst y) = UploadStatusUploading"
  shows "owned (a\<lparr>aUploads := (aUploads a)(i \<mapsto> y)\<rparr>) w =
    owned a w + (if w = ownerFromMetadata (uMetadata (fst y)) then uSize (fst y) else 0)"
  using ledger.item_sum_upd [of "books a UsageUpload" i] books_finite [OF assms(1)] assms(2,3)
  by (simp add: owned_def books_upd upload_item_def)

lemma item_sum_del_le:
  assumes "good a"
  shows "ledger.item_sum ((books a k)(i := None)) w \<le> ledger.item_sum (books a k) w"
proof (cases "books a k i")
  case (Some x)
  then show ?thesis
    using ledger.item_sum_del [OF books_finite [OF assms], of k i "fst x" "snd x" w]
      books_nonneg [OF assms, of k i "fst x" "snd x"] by simp
qed (simp add: fun_upd_idem)

lemma owned_del_trash:
  "good a \<Longrightarrow> owned (a\<lparr>aTrash := (aTrash a)(i := None)\<rparr>) w \<le> owned a w"
  using item_sum_del_le [of a UsageTrash i w] by (simp add: owned_def books_upd)

lemma owned_del_upload:
  "good a \<Longrightarrow> owned (a\<lparr>aUploads := (aUploads a)(i := None)\<rparr>) w \<le> owned a w"
  using item_sum_del_le [of a UsageUpload i w] by (simp add: owned_def books_upd)

text \<open>The state after a change with its movement of the index.\<close>

definition same_index :: "store \<Rightarrow> store \<Rightarrow> bool" where
  "same_index s s' \<longleftrightarrow> sUsage s' = sUsage s \<and> sUsageValid s' = sUsageValid s \<and>
     sLoaded s' = sLoaded s \<and> sLoadErr s' = sLoadErr s \<and>
     sOwnerQuotaBytes s' = sOwnerQuotaBytes s"

lemma same_index_refl [simp]: "same_index s s"
  by (simp add: same_index_def)

lemma same_index_entry [simp]:
  "same_index s (put_entry p n t) = same_index s t" "same_index s (del_entry p t) = same_index s t"
  "same_index s (prune_entry p t) = same_index s t"
  by (simp_all add: same_index_def)

lemma moveUsage_zero [simp]: "n \<le> 0 \<Longrightarrow> move_index w from to n r u = u"
  by (simp add: move_index_def)

lemma sUsage_moveUsage:
  "sUsage (moveUsage w from to n r s) =
     (if sUsageValid s then move_index w from to n r (sUsage s) else sUsage s)"
  by (simp add: moveUsage_def)

lemma represents_moveUsage:
  assumes "same_index s s'" "represents a s" "on_disk a' s'" "good a'" "totals_fit a'"
    and "ledger.balanced (books a) (sUsage s) \<Longrightarrow>
         ledger.balanced (books a') (move_index w from to n 1 (sUsage s))"
  shows "represents a' (moveUsage w from to n 1 s')"
  using assms
  by (auto simp: represents_def accounted_def same_index_def sUsage_moveUsage)

lemma represents_put_file:
  assumes "represents a s" "same_index s s'" "aFiles a i = None" "aTrash a i = None" "file_ok i x"
    and "look s' = (look s)(objectPath i \<mapsto> NFile (Blob (snd x)), manifestPath i \<mapsto> NFile (Doc (FileDoc (fst x))))"
    and "totals_fit (a\<lparr>aFiles := (aFiles a)(i \<mapsto> x)\<rparr>)"
  shows "represents (a\<lparr>aFiles := (aFiles a)(i \<mapsto> x)\<rparr>)
    (moveUsage (ownerFromMetadata (fMetadata (fst x))) None (Some UsageFile) (fSize (fst x)) 1 s')"
proof (rule represents_moveUsage [OF assms(2)])
  have good: "good (a\<lparr>aFiles := (aFiles a)(i \<mapsto> x)\<rparr>)"
    using assms(1,4,5) by (auto simp: represents_def good_def)
  then show "good (a\<lparr>aFiles := (aFiles a)(i \<mapsto> x)\<rparr>)" .
  show "on_disk (a\<lparr>aFiles := (aFiles a)(i \<mapsto> x)\<rparr>) s'"
    using assms(1,6) by (intro on_disk_put_file) (auto simp: represents_def)
  assume "ledger.balanced (books a) (sUsage s)"
  then show "ledger.balanced (books (a\<lparr>aFiles := (aFiles a)(i \<mapsto> x)\<rparr>))
      (move_index (ownerFromMetadata (fMetadata (fst x))) None (Some UsageFile) (fSize (fst x)) 1 (sUsage s))"
    using ledger.balanced_charge [of "books a" "sUsage s" UsageFile i "fSize (fst x)"
        "ownerFromMetadata (fMetadata (fst x))"] fits_books [OF good assms(7)] assms(3,5)
    by (simp add: books_upd file_item_def file_ok_def live_file_ok_def)
qed fact+

section \<open>Opening a store\<close>

definition valid_options :: "options \<Rightarrow> bool" where
  "valid_options opts \<longleftrightarrow> 0 \<le> oPauseAtPercent opts \<and> oPauseAtPercent opts \<le> 100 \<and>
     0 \<le> oOwnerQuotaBytes opts \<and> oOwnerQuotaBytes opts \<le> max_int64"

text \<open>The store \<open>NewDiskStoreWithOptions\<close> allocates.\<close>

definition new_state :: "options \<Rightarrow> (area, doc) entries \<Rightarrow> store" where
  "new_state opts es =
     \<lparr>entries = es, script = [], sUsage = newUsageIndex, sUsageValid = False,
      sLoaded = False, sLoadErr = None, sPauseAtPercent = oPauseAtPercent opts,
      sOwnerQuotaBytes = oOwnerQuotaBytes opts, sUploadTTL = oUploadTTL opts\<rparr>"

definition fresh_entries :: "(area, doc) entries" where
  "fresh_entries = map (\<lambda>ar. ((ar, []), NDir)) all_areas"

lemma os_mkdir_area_calm [go_simps]:
  "script s = [] \<Longrightarrow> look s (ar, []) = Some NDir \<Longrightarrow> os_mkdir_all (ar, []) s = (Inr (), s)"
  by (simp add: os_mkdir_all_def syscall_calm look_def)

lemma make_areas_calm:
  "script s = [] \<Longrightarrow> \<forall>ar\<in>set ars. look s (ar, []) = Some NDir \<Longrightarrow> make_areas ars s = (Inr (), s)"
  by (induction ars) (simp_all add: go_simps)

lemma look_new_state: "look (new_state opts es) = map_of es"
  by (simp add: look_def new_state_def fun_eq_iff)

text \<open>On an empty directory the constructor makes the empty layout; on an existing layout it
  changes nothing.\<close>

lemma new_store_empty:
  assumes "trim_space rootPath \<noteq> ''''" "valid_options opts"
  shows "newDiskStoreWithOptions rootPath None opts \<lparr>entries = [], script = []\<rparr> =
    (Inr (), new_state opts fresh_entries)"
  using assms
  by (simp add: newDiskStoreWithOptions_def valid_options_def os_mkdir_root_def syscall_calm
      all_areas_def os_mkdir_all_def fresh_entries_def new_state_def Let_def)

lemma new_store_existing:
  assumes "trim_space rootPath \<noteq> ''''" "valid_options opts" "\<forall>ar. map_of es (ar, []) = Some NDir"
  shows "newDiskStoreWithOptions rootPath None opts \<lparr>entries = es, script = []\<rparr> =
    (Inr (), new_state opts es)"
proof -
  have "make_areas all_areas (new_state opts es) = (Inr (), new_state opts es)"
    using assms(3) by (intro make_areas_calm) (simp_all add: look_new_state, simp add: new_state_def)
  with assms show ?thesis
    by (simp add: newDiskStoreWithOptions_def valid_options_def os_mkdir_root_def syscall_calm
        new_state_def Let_def)
qed

lemma represents_new_state:
  assumes "on_disk a (new_state opts es)" "good a" "totals_fit a" "valid_options opts"
  shows "represents a (new_state opts es)"
  using assms by (simp add: represents_def accounted_def valid_options_def) (simp add: new_state_def)

lemma represents_fresh:
  assumes "valid_options opts"
  shows "represents empty_astore (new_state opts fresh_entries)"
proof (rule represents_new_state [OF _ _ _ assms])
  have "map_of fresh_entries p = disk_of empty_astore p" if "fst p \<noteq> Quarantine" for p
    using that
    by (cases "(empty_astore, p)" rule: disk_of.cases; cases "snd p"; cases "tl (snd p)"; cases "tl (tl (snd p))")
      (auto simp: fresh_entries_def all_areas_def empty_astore_def)
  then show "on_disk empty_astore (new_state opts fresh_entries)"
    by (auto simp: on_disk_def look_new_state quarantine_ok_def fresh_entries_def all_areas_def)
  show "good empty_astore" by (simp add: good_def empty_astore_def)
  show "totals_fit empty_astore"
  proof -
    have "dom (books empty_astore k) = {}" for k
      by (cases k) (auto simp: empty_astore_def)
    then show ?thesis by (simp add: totals_fit_def owned_def ledger.item_sum_def max_int64_def)
  qed
qed

section \<open>Removing trash entries and sessions\<close>

lemma disk_of_below:
  "under (sessionDir i) p \<Longrightarrow> disk_of (a\<lparr>aUploads := (aUploads a)(i := None)\<rparr>) p = None"
  "under (trashDir i) p \<Longrightarrow> disk_of (a\<lparr>aTrash := (aTrash a)(i := None)\<rparr>) p = None"
proof -
  show "under (sessionDir i) p \<Longrightarrow> disk_of (a\<lparr>aUploads := (aUploads a)(i := None)\<rparr>) p = None"
    by (cases "(a, p)" rule: disk_of.cases; cases "(a, snd p)" rule: uploads_of.cases)
      (auto simp: path_defs)
  show "under (trashDir i) p \<Longrightarrow> disk_of (a\<lparr>aTrash := (aTrash a)(i := None)\<rparr>) p = None"
    by (cases "(a, p)" rule: disk_of.cases; cases "(a, snd p)" rule: trash_of.cases)
      (auto simp: path_defs)
qed

lemma on_disk_prune_upload:
  assumes "on_disk a s"
  shows "on_disk (a\<lparr>aUploads := (aUploads a)(i := None)\<rparr>) (prune_entry (sessionDir i) s)"
  using assms
proof (rule on_disk_step)
  fix p assume "disk_of a p = look s p"
  then show "look (prune_entry (sessionDir i) s) p = disk_of (a\<lparr>aUploads := (aUploads a)(i := None)\<rparr>) p"
    using disk_of_below(1) [of i p a] by (auto simp: disk_of_del_upload) (auto simp: path_defs)
qed (simp add: path_defs)

lemma on_disk_prune_trash:
  assumes "on_disk a s"
  shows "on_disk (a\<lparr>aTrash := (aTrash a)(i := None)\<rparr>) (prune_entry (trashDir i) s)"
  using assms
proof (rule on_disk_step)
  fix p assume "disk_of a p = look s p"
  then show "look (prune_entry (trashDir i) s) p = disk_of (a\<lparr>aTrash := (aTrash a)(i := None)\<rparr>) p"
    using disk_of_below(2) [of i p a] by (auto simp: disk_of_del_trash) (auto simp: path_defs)
qed (simp add: path_defs)

lemma totals_fit_mono: "totals_fit a \<Longrightarrow> (\<And>w. owned a' w \<le> owned a w) \<Longrightarrow> totals_fit a'"
  unfolding totals_fit_def using order_trans by blast

lemma good_del_upload: "good a \<Longrightarrow> good (a\<lparr>aUploads := (aUploads a)(i := None)\<rparr>)"
  by (auto simp: good_def)

lemma good_del_trash: "good a \<Longrightarrow> good (a\<lparr>aTrash := (aTrash a)(i := None)\<rparr>)"
  by (auto simp: good_def)

lemma represents_release_upload:
  assumes "represents a s" "aUploads a i = Some x" "uStatus (fst x) = UploadStatusUploading"
  shows "represents (a\<lparr>aUploads := (aUploads a)(i := None)\<rparr>)
    (releaseUsage (ownerFromMetadata (uMetadata (fst x))) UsageUpload (uSize (fst x))
       (prune_entry (sessionDir i) s))"
  unfolding releaseUsage_def
proof (rule represents_moveUsage [of s])
  have g: "good a" "totals_fit a" "on_disk a s" using assms(1) by (auto simp: represents_def)
  show "good (a\<lparr>aUploads := (aUploads a)(i := None)\<rparr>)" using g(1) by (rule good_del_upload)
  show "totals_fit (a\<lparr>aUploads := (aUploads a)(i := None)\<rparr>)"
    using g(2) owned_del_upload [OF g(1)] by (rule totals_fit_mono)
  show "on_disk (a\<lparr>aUploads := (aUploads a)(i := None)\<rparr>) (prune_entry (sessionDir i) s)"
    using g(3) by (rule on_disk_prune_upload)
  assume "ledger.balanced (books a) (sUsage s)"
  then show "ledger.balanced (books (a\<lparr>aUploads := (aUploads a)(i := None)\<rparr>))
      (move_index (ownerFromMetadata (uMetadata (fst x))) (Some UsageUpload) None (uSize (fst x)) 1 (sUsage s))"
    using ledger.balanced_release [of "books a" "sUsage s" UsageUpload i
        "ownerFromMetadata (uMetadata (fst x))" "uSize (fst x)"] fits_books [OF g(1,2)] assms(2,3)
    by (simp add: books_upd upload_item_def)
qed (use assms in simp_all)

lemma represents_drop_completed:
  assumes "represents a s" "aUploads a i = Some x" "uStatus (fst x) \<noteq> UploadStatusUploading"
  shows "represents (a\<lparr>aUploads := (aUploads a)(i := None)\<rparr>) (prune_entry (sessionDir i) s)"
proof -
  have g: "good a" "totals_fit a" "on_disk a s" using assms(1) by (auto simp: represents_def)
  have "books (a\<lparr>aUploads := (aUploads a)(i := None)\<rparr>) = books a"
    using assms(2,3) by (simp add: books_upd upload_item_def fun_upd_idem)
  then show ?thesis
    using assms(1) on_disk_prune_upload [OF g(3)] good_del_upload [OF g(1)]
      totals_fit_mono [OF g(2) owned_del_upload [OF g(1)]]
    by (simp add: represents_def accounted_def)
qed

lemma represents_release_trash:
  assumes "represents a s" "aTrash a i = Some x"
  shows "represents (a\<lparr>aTrash := (aTrash a)(i := None)\<rparr>)
    (releaseUsage (ownerFromMetadata (fMetadata (fst x))) UsageTrash (fSize (fst x))
       (prune_entry (trashDir i) s))"
  unfolding releaseUsage_def
proof (rule represents_moveUsage [of s])
  have g: "good a" "totals_fit a" "on_disk a s" using assms(1) by (auto simp: represents_def)
  show "good (a\<lparr>aTrash := (aTrash a)(i := None)\<rparr>)" using g(1) by (rule good_del_trash)
  show "totals_fit (a\<lparr>aTrash := (aTrash a)(i := None)\<rparr>)"
    using g(2) owned_del_trash [OF g(1)] by (rule totals_fit_mono)
  show "on_disk (a\<lparr>aTrash := (aTrash a)(i := None)\<rparr>) (prune_entry (trashDir i) s)"
    using g(3) by (rule on_disk_prune_trash)
  assume "ledger.balanced (books a) (sUsage s)"
  then show "ledger.balanced (books (a\<lparr>aTrash := (aTrash a)(i := None)\<rparr>))
      (move_index (ownerFromMetadata (fMetadata (fst x))) (Some UsageTrash) None (fSize (fst x)) 1 (sUsage s))"
    using ledger.balanced_release [of "books a" "sUsage s" UsageTrash i
        "ownerFromMetadata (fMetadata (fst x))" "fSize (fst x)"] fits_books [OF g(1,2)] assms(2)
    by (simp add: books_upd file_item_def)
qed (use assms in simp_all)

end
