(* ===== verification/StorePut.thy ===== *)
theory StorePut
  imports StoreAbs
begin

text \<open>
  \<open>Put\<close>, \<open>Open\<close>, \<open>Get\<close>, \<open>Count\<close> and \<open>List\<close> of \<open>pkg/files/store.go\<close>. The identifier a
  \<open>Put\<close> without one generates and its clock reading are arguments. A context that is cancelled
  while the body is read is a body that ends in that error.
\<close>

section \<open>Put\<close>

text \<open>\<open>io.Copy\<close> of a body to a file the caller has open; the number of bytes.\<close>

definition copy_body :: "area path \<Rightarrow> body \<Rightarrow> store \<Rightarrow> (err + int) \<times> store" where
  "copy_body p bd s =
     (case os_append p (bData bd) s of
        (Inl e, s) \<Rightarrow> (Inl (OSErr e), s)
      | (Inr _, s) \<Rightarrow>
          (case bErr bd of
             Some e \<Rightarrow> (Inl e, s)
           | None \<Rightarrow> (Inr (int (length (bData bd))), s)))"

definition stored_file :: "env \<Rightarrow> string \<Rightarrow> int \<Rightarrow> time \<Rightarrow> upload_input \<Rightarrow> body \<Rightarrow> file_info" where
  "stored_file E i sz now input bd =
     (let name = cleanDisplayName (iName input)
      in \<lparr>fID = i, fName = name, fContentType = resolveContentType E (iContentType input) name,
          fSize = sz, fChecksum = sha256 E (bData bd), fStatus = StatusAvailable,
          fCreatedAt = now, fMetadata = clone_labels (iMetadata input), fDeletedAt = None\<rparr>)"

text \<open>From the rename of the complete temporary file on.\<close>

definition put_commit ::
  "env \<Rightarrow> string \<Rightarrow> int \<Rightarrow> time \<Rightarrow> upload_input \<Rightarrow> body \<Rightarrow> store \<Rightarrow> (err + file_info) \<times> store" where
  "put_commit E i sz now input bd s =
     (case os_rename (tmpPath i) (objectPath i) s of
        (Inl e, s) \<Rightarrow> (Inl (OSErr e), remove_quiet (tmpPath i) s)
      | (Inr _, s) \<Rightarrow>
     (case syncDirectory (Objects, []) s of
        (Inl e, s) \<Rightarrow> (Inl (OSErr e), remove_quiet (objectPath i) s)
      | (Inr _, s) \<Rightarrow>
     (let stored = stored_file E i sz now input bd in
      case writeManifest (manifestPath i) stored s of
        (Inl e, s) \<Rightarrow> (Inl e, sync_quiet (Objects, []) (remove_quiet (objectPath i) s))
      | (Inr _, s) \<Rightarrow>
     (case syncDirectory (Metadata, []) s of
        (Inl e, s) \<Rightarrow>
          (Inl (OSErr e),
           sync_quiet (Objects, []) (sync_quiet (Metadata, [])
             (remove_quiet (objectPath i) (remove_quiet (manifestPath i) s))))
      | (Inr _, s) \<Rightarrow>
          (Inr (cloneFile stored),
           moveUsage (ownerFromMetadata (iMetadata input)) None (Some UsageFile) sz 1 s)))))"

text \<open>From the creation of the temporary file on; a failure before the rename removes it.\<close>

definition put_write ::
  "env \<Rightarrow> string \<Rightarrow> time \<Rightarrow> upload_input \<Rightarrow> body \<Rightarrow> store \<Rightarrow> (err + file_info) \<times> store" where
  "put_write E i now input bd s =
     (case os_create_excl (tmpPath i) s of
        (Inl e, s) \<Rightarrow> (Inl (OSErr e), s)
      | (Inr _, s) \<Rightarrow>
     (case copy_body (tmpPath i) bd s of
        (Inl e, s) \<Rightarrow> (Inl e, remove_quiet (tmpPath i) s)
      | (Inr sz, s) \<Rightarrow>
     (case os_sync s of
        (Inl e, s) \<Rightarrow> (Inl (OSErr e), remove_quiet (tmpPath i) s)
      | (Inr _, s) \<Rightarrow>
     (case os_close s of
        (Inl e, s) \<Rightarrow> (Inl (OSErr e), remove_quiet (tmpPath i) s)
      | (Inr _, s) \<Rightarrow>
     (case enforceQuotaUnlocked (ownerFromMetadata (iMetadata input)) sz s of
        (Inl e, s) \<Rightarrow> (Inl e, remove_quiet (tmpPath i) s)
      | (Inr _, s) \<Rightarrow> put_commit E i sz now input bd s)))))"

text \<open>\<open>pathExists(objectPath) || pathExists(manifestPath) || pathExists(trash entry)\<close>.\<close>

definition put_exists :: "string \<Rightarrow> store \<Rightarrow> bool \<times> store" where
  "put_exists i s =
     (case pathExists (objectPath i) s of
        (True, s) \<Rightarrow> (True, s)
      | (False, s) \<Rightarrow>
          (case pathExists (manifestPath i) s of
             (True, s) \<Rightarrow> (True, s)
           | (False, s) \<Rightarrow> pathExists (trashDir i) s))"

definition put_locked ::
  "env \<Rightarrow> string \<Rightarrow> time \<Rightarrow> upload_input \<Rightarrow> body \<Rightarrow> store \<Rightarrow> (err + file_info) \<times> store" where
  "put_locked E i now input bd s =
     (case writesPausedUnlocked E s of
        (Inl e, s) \<Rightarrow> (Inl e, s)
      | (Inr paused, s) \<Rightarrow>
          if paused then (Inl ErrStoragePaused, s)
          else (case ensureUsageLocked s of
              (Inl e, s) \<Rightarrow> (Inl e, s)
            | (Inr _, s) \<Rightarrow>
                (case put_exists i s of
                   (True, s) \<Rightarrow> (Inl ErrFileExists, s)
                 | (False, s) \<Rightarrow> put_write E i now input bd s)))"

definition put_id :: "string \<Rightarrow> upload_input \<Rightarrow> err + string" where
  "put_id newID input =
     (let given = trim_space (iID input)
      in if given = '''' then Inr newID
         else case validateID given of Inl e \<Rightarrow> Inl e | Inr _ \<Rightarrow> Inr given)"

definition put ::
  "env \<Rightarrow> ctx \<Rightarrow> string \<Rightarrow> time \<Rightarrow> upload_input \<Rightarrow> store \<Rightarrow> (err + file_info) \<times> store" where
  "put E cx newID now input s =
     (case iReader input of
        None \<Rightarrow> (Inl ErrInvalidUpload, s)
      | Some bd \<Rightarrow>
     (case cx of
        Some e \<Rightarrow> (Inl (CtxErr e), s)
      | None \<Rightarrow>
     (case put_id newID input of
        Inl e \<Rightarrow> (Inl e, s)
      | Inr i \<Rightarrow> put_locked E i now input bd s)))"

section \<open>Open, Get, Count and List\<close>

definition getFile :: "ctx \<Rightarrow> string \<Rightarrow> store \<Rightarrow> (err + file_info) \<times> store" where
  "getFile cx i s =
     (case validateID i of
        Inl e \<Rightarrow> (Inl e, s)
      | Inr _ \<Rightarrow> (case cx of Some e \<Rightarrow> (Inl (CtxErr e), s) | None \<Rightarrow> getUnlocked i s))"

text \<open>The body an \<open>Open\<close> returns is the open object: it is read from the content it has then.\<close>

definition openFile :: "ctx \<Rightarrow> string \<Rightarrow> store \<Rightarrow> (err + file_info \<times> bytes) \<times> store" where
  "openFile cx i s =
     (case validateID i of
        Inl e \<Rightarrow> (Inl e, s)
      | Inr _ \<Rightarrow>
     (case cx of
        Some e \<Rightarrow> (Inl (CtxErr e), s)
      | None \<Rightarrow>
     (case getUnlocked i s of
        (Inl e, s) \<Rightarrow> (Inl e, s)
      | (Inr stored, s) \<Rightarrow>
     (case os_open (objectPath i) s of
        (Inl e, s) \<Rightarrow> (Inl (if e = ENOENT then ErrNotFound else OSErr e), s)
      | (Inr _, s) \<Rightarrow> (Inr (cloneFile stored, blob_of (look s (objectPath i))), s)))))"

fun count_entries :: "(string \<times> bool) list \<Rightarrow> int \<Rightarrow> err + int" where
  "count_entries [] n = Inr n"
| "count_entries ((name, isDir) # es) n =
     (if isDir \<or> filepath_ext name \<noteq> ''.json'' then count_entries es n
      else case validateID (trim_suffix ''.json'' name) of
        Inl _ \<Rightarrow> Inl ErrCorruptMetadata
      | Inr _ \<Rightarrow> count_entries es (n + 1))"

definition countFiles :: "ctx \<Rightarrow> store \<Rightarrow> (err + int) \<times> store" where
  "countFiles cx s =
     (case cx of Some e \<Rightarrow> (Inl (CtxErr e), s)
      | None \<Rightarrow>
          (case os_read_dir (Metadata, []) s of
             (Inl e, s) \<Rightarrow> (Inl (OSErr e), s)
           | (Inr es, s) \<Rightarrow> (count_entries es 0, s)))"

fun list_entries :: "(string \<times> bool) list \<Rightarrow> store \<Rightarrow> (err + file_info list) \<times> store" where
  "list_entries [] s = (Inr [], s)"
| "list_entries ((name, isDir) # es) s =
     (if isDir \<or> filepath_ext name \<noteq> ''.json'' then list_entries es s
      else let i = trim_suffix ''.json'' name in
        case validateID i of
          Inl _ \<Rightarrow> (Inl ErrCorruptMetadata, s)
        | Inr _ \<Rightarrow>
            (case getUnlocked i s of
               (Inl e, s) \<Rightarrow> (Inl e, s)
             | (Inr f, s) \<Rightarrow>
                 (case list_entries es s of
                    (Inl e, s) \<Rightarrow> (Inl e, s)
                  | (Inr fs, s) \<Rightarrow> (Inr (f # fs), s))))"

definition page_limit :: "int \<Rightarrow> int" where
  "page_limit limit = (if limit \<le> 0 then 100 else if limit > 1000 then 1000 else limit)"

definition page_offset :: "int \<Rightarrow> int" where
  "page_offset offset = (if offset < 0 then 0 else offset)"

text \<open>Newest first, then by identifier.\<close>

definition file_before :: "file_info \<Rightarrow> file_info \<Rightarrow> bool" where
  "file_before f g =
     (if fCreatedAt f = fCreatedAt g then fID f < fID g else fCreatedAt f > fCreatedAt g)"

text \<open>The inner \<open>None\<close> would be the panic of a slice out of range.\<close>

definition listFiles :: "ctx \<Rightarrow> int \<Rightarrow> int \<Rightarrow> store \<Rightarrow> (err + file_info list option) \<times> store" where
  "listFiles cx limit offset s =
     (case cx of Some e \<Rightarrow> (Inl (CtxErr e), s)
      | None \<Rightarrow>
          (case os_read_dir (Metadata, []) s of
             (Inl e, s) \<Rightarrow> (Inl (OSErr e), s)
           | (Inr es, s) \<Rightarrow>
               (case list_entries es s of
                  (Inl e, s) \<Rightarrow> (Inl e, s)
                | (Inr stored, s) \<Rightarrow>
                    (Inr (map_option (map cloneFile)
                       (page (sort_slice file_before stored) (page_limit limit) (page_offset offset))), s))))"

section \<open>Put without failures\<close>

lemma json_neq [simp]: "i @ ''.json'' \<noteq> i" "i @ ''.json'' \<noteq> i @ ''.json.tmp''" "i @ ''.json.tmp'' \<noteq> i @ ''.json''"
  by simp_all

lemma put_exists_calm:
  assumes "script s = []" "on_disk a s"
  shows "put_exists i s = (aFiles a i \<noteq> None \<or> aTrash a i \<noteq> None, s)"
  using assms by (auto simp: put_exists_def go_simps on_disk_paths split: bool.split)

lemma put_write_calm:
  assumes "script s = []" "on_disk a s" "sLoaded s" "sLoadErr s = None"
    and "aFiles a i = None" "aTrash a i = None" "bErr bd = None"
  shows "put_write E i now input bd s =
    (let sz = int (length (bData bd)); f = stored_file E i sz now input bd
     in if over_quota s (ownerFromMetadata (iMetadata input)) sz then (Inl ErrQuotaExceeded, s)
        else (Inr f, moveUsage (ownerFromMetadata (iMetadata input)) None (Some UsageFile) sz 1
               (put_entry (manifestPath i) (NFile (Doc (FileDoc f)))
                 (put_entry (objectPath i) (NFile (Blob (bData bd))) s))))"
proof -
  have p: "parent (tmpPath i) = (Tmp, [])" "parent (objectPath i) = (Objects, [])"
    "parent (manifestPath i) = (Metadata, [])" by (simp_all add: path_defs)
  have d: "tmpPath i \<noteq> objectPath i" "objectPath i \<noteq> tmpPath i" "manifestPath i \<noteq> objectPath i"
    "tmp_of (manifestPath i) \<noteq> objectPath i" "snd (manifestPath i) \<noteq> []"
    "(Metadata, []) \<noteq> objectPath i" "(Metadata, []) \<noteq> manifestPath i" "(Objects, []) \<noteq> objectPath i"
    "(Tmp, []) \<noteq> tmpPath i" "(Objects, []) \<noteq> tmpPath i"
    by (simp_all add: path_defs)
  have q: "over_quota (put_entry (tmpPath i) n s) w m = over_quota s w m" for n w m
    by (simp add: over_quota_def)
  show ?thesis
    using assms on_disk_paths [OF assms(2), of i]
    by (simp add: put_write_def put_commit_def copy_body_def go_simps p d q Let_def
        enforceQuotaUnlocked_loaded writeManifest_def write_doc_calm)
qed

text \<open>A body that ends in an error leaves no trace.\<close>

lemma put_write_body_error:
  assumes "script s = []" "on_disk a s" "bErr bd = Some e"
  shows "put_write E i now input bd s = (Inl e, s)"
proof -
  have p: "parent (tmpPath i) = (Tmp, [])" by (simp add: path_defs)
  show ?thesis
    using assms on_disk_paths(3) [OF assms(2), of i]
    by (simp add: put_write_def copy_body_def go_simps p)
qed

text \<open>The pause check, and the state it leaves: the index is loaded if the threshold is set.\<close>

definition not_paused :: "env \<Rightarrow> store \<Rightarrow> bool" where
  "not_paused E s \<longleftrightarrow> fst (writesPausedUnlocked E s) = Inr False"

lemma writes_allowed:
  assumes "script s = []" "represents a s" "not_paused E s"
  obtains t where "writesPausedUnlocked E s = (Inr False, t)" "ensureUsageLocked t = (Inr (), loaded s)"
proof -
  obtain t where t: "writesPausedUnlocked E s = (Inr False, t)" "t = s \<or> t = loaded s"
    using assms(3) writesPausedUnlocked_calm [OF assms(1,2), of E]
    by (cases "writesPausedUnlocked E s") (auto simp: not_paused_def)
  have "ensureUsageLocked t = (Inr (), loaded s)"
    using t(2) ensureUsageLocked_calm [OF assms(1,2)] loaded_idem [OF assms(1,2)]
      ensureUsageLocked_calm(1) [of "loaded s" a] by auto
  with t(1) that show thesis by blast
qed

section \<open>The specification of Put\<close>

definition abs_put ::
  "env \<Rightarrow> int \<Rightarrow> string \<Rightarrow> time \<Rightarrow> upload_input \<Rightarrow> body \<Rightarrow> astore \<Rightarrow> err + file_info \<times> astore" where
  "abs_put E limit i now input bd a =
     (let sz = int (length (bData bd)); f = stored_file E i sz now input bd
      in if aFiles a i \<noteq> None \<or> aTrash a i \<noteq> None then Inl ErrFileExists
         else if bErr bd \<noteq> None then Inl (the (bErr bd))
         else if limit \<noteq> 0 \<and> owned a (ownerFromMetadata (iMetadata input)) + sz > limit
         then Inl ErrQuotaExceeded
         else Inr (f, a\<lparr>aFiles := (aFiles a)(i \<mapsto> (f, bData bd))\<rparr>))"

text \<open>The digest function never returns the empty string (it returns 64 hexadecimal digits).\<close>

definition digest_nonempty :: "env \<Rightarrow> bool" where
  "digest_nonempty E \<longleftrightarrow> (\<forall>b. sha256 E b \<noteq> '''')"

lemma fields_stored_file [simp]:
  "fMetadata (stored_file E i sz now input bd) = iMetadata input"
  "fSize (stored_file E i sz now input bd) = sz" "fID (stored_file E i sz now input bd) = i"
  "fStatus (stored_file E i sz now input bd) = StatusAvailable"
  "fChecksum (stored_file E i sz now input bd) = sha256 E (bData bd)"
  "fCreatedAt (stored_file E i sz now input bd) = now"
  "fDeletedAt (stored_file E i sz now input bd) = None"
  by (simp_all add: stored_file_def Let_def)

lemma stored_file_ok:
  "validFileID i \<Longrightarrow> digest_nonempty E \<Longrightarrow>
   file_ok i (stored_file E i (int (length (bData bd))) now input bd, bData bd)"
  by (simp add: file_ok_def live_file_ok_def digest_nonempty_def)

text \<open>A new charge within the limit keeps every total a 64-bit number.\<close>

lemma totals_fit_charge:
  assumes "represents a s" "owned a' = (\<lambda>w. owned a w + (if w = v then n else 0))"
    and "limit = sOwnerQuotaBytes s" "limit \<noteq> 0" "owned a v + n \<le> limit"
  shows "totals_fit a'"
  using assms by (auto simp: totals_fit_def represents_def)

lemma put_locked_refines:
  assumes "script s = []" "represents a s" "not_paused E s" "validFileID i" "digest_nonempty E"
    and "sOwnerQuotaBytes s = 0 \<Longrightarrow>
      owned a (ownerFromMetadata (iMetadata input)) + int (length (bData bd)) \<le> max_int64"
  shows "\<exists>t. script t = [] \<and>
    (case abs_put E (sOwnerQuotaBytes s) i now input bd a of
       Inl e \<Rightarrow> put_locked E i now input bd s = (Inl e, t) \<and> represents a t
     | Inr (f, a') \<Rightarrow> put_locked E i now input bd s = (Inr f, t) \<and> represents a' t)"
proof -
  let ?w = "ownerFromMetadata (iMetadata input)" and ?sz = "int (length (bData bd))"
  let ?f = "stored_file E i ?sz now input bd"
  let ?a = "a\<lparr>aFiles := (aFiles a)(i \<mapsto> (?f, bData bd))\<rparr>"
  note ld = ensureUsageLocked_calm [OF assms(1,2)]
  have parts: "on_disk a (loaded s)" "good a" "sLoadErr (loaded s) = None"
    using ld by (auto simp: represents_def accounted_def)
  obtain t where t: "writesPausedUnlocked E s = (Inr False, t)" "ensureUsageLocked t = (Inr (), loaded s)"
    using writes_allowed [OF assms(1-3)] .
  have run: "put_locked E i now input bd s =
     (if aFiles a i \<noteq> None \<or> aTrash a i \<noteq> None then (Inl ErrFileExists, loaded s)
      else put_write E i now input bd (loaded s))"
    using t put_exists_calm [OF ld(3) parts(1), of i] by (simp add: put_locked_def)
  consider "aFiles a i \<noteq> None \<or> aTrash a i \<noteq> None"
    | e where "\<not> (aFiles a i \<noteq> None \<or> aTrash a i \<noteq> None)" "bErr bd = Some e"
    | "\<not> (aFiles a i \<noteq> None \<or> aTrash a i \<noteq> None)" "bErr bd = None" by blast
  then show ?thesis
  proof cases
    case 1
    then show ?thesis using run ld by (auto simp: abs_put_def Let_def)
  next
    case 2
    then have none: "aFiles a i = None" "aTrash a i = None" by blast+
    show ?thesis
      using run none 2 ld put_write_body_error [OF ld(3) parts(1) 2(2), of E i now input]
      by (auto simp: abs_put_def Let_def)
  next
    case 3
    then have none: "aFiles a i = None" "aTrash a i = None" by blast+
    let ?t = "put_entry (manifestPath i) (NFile (Doc (FileDoc ?f)))
                (put_entry (objectPath i) (NFile (Blob (bData bd))) (loaded s))"
    have quota: "over_quota (loaded s) ?w ?sz \<longleftrightarrow>
        sOwnerQuotaBytes s \<noteq> 0 \<and> owned a ?w + ?sz > sOwnerQuotaBytes s"
      using over_quota_owned [OF ld(2,5), of ?sz ?w] ld by simp
    have new: "represents ?a (moveUsage ?w None (Some UsageFile) ?sz 1 ?t)"
      if "\<not> over_quota (loaded s) ?w ?sz"
    proof -
      have owned: "owned ?a = (\<lambda>w. owned a w + (if w = ?w then ?sz else 0))"
        using owned_put_file [OF parts(2) none(1), of "(?f, bData bd)"] by (simp add: fun_eq_iff)
      have "totals_fit ?a"
      proof (cases "sOwnerQuotaBytes s = 0")
        case True
        then show ?thesis using assms(2) assms(6) by (auto simp: totals_fit_def owned represents_def)
      next
        case False
        with that quota show ?thesis by (intro totals_fit_charge [OF assms(2) owned]) auto
      qed
      then show ?thesis
        using represents_put_file [OF ld(2), of ?t i "(?f, bData bd)"] none stored_file_ok [OF assms(4,5)]
        by simp
    qed
    show ?thesis
      using run none new put_write_calm [OF ld(3) parts(1) ld(5) parts(3) none 3(2), of E now input] quota ld 3(2)
      by (auto simp: abs_put_def Let_def)
  qed
qed

section \<open>Reading without failures\<close>

lemma validateID_simps [simp]:
  "validFileID i \<Longrightarrow> validateID i = Inr ()" "\<not> validFileID i \<Longrightarrow> validateID i = Inl ErrInvalidID"
  by (simp_all add: validateID_def)

lemma getFile_calm:
  assumes "script s = []" "on_disk a s" "good a"
  shows "getFile None i s =
    (if \<not> validFileID i then (Inl ErrInvalidID, s)
     else case aFiles a i of None \<Rightarrow> (Inl ErrNotFound, s) | Some x \<Rightarrow> (Inr (fst x), s))"
  using assms by (simp add: getFile_def getUnlocked_calm split: option.split)

lemma openFile_calm:
  assumes "script s = []" "on_disk a s" "good a"
  shows "openFile None i s =
    (if \<not> validFileID i then (Inl ErrInvalidID, s)
     else case aFiles a i of None \<Rightarrow> (Inl ErrNotFound, s) | Some x \<Rightarrow> (Inr x, s))"
  using assms by (simp add: openFile_def getUnlocked_calm go_simps on_disk_paths split: option.split)

lemma count_entries_live:
  "\<forall>i\<in>set is. validFileID i \<Longrightarrow>
   count_entries (map (\<lambda>i. (i @ ''.json'', False)) is) n = Inr (n + int (length is))"
  by (induction "is" arbitrary: n) (auto simp: filepath_ext_json)

lemma live_ids_valid:
  "on_disk a s \<Longrightarrow> good a \<Longrightarrow> i \<in> set (live_ids s) \<Longrightarrow> \<exists>x. aFiles a i = Some x \<and> validFileID i"
  using on_disk_live_ids(2) [of a s] goodD(1) [of a i] by (auto simp: file_ok_def)

lemma length_live_ids: "on_disk a s \<Longrightarrow> length (live_ids s) = card (dom (aFiles a))"
  using on_disk_live_ids [of a s] by (metis distinct_card)

lemma countFiles_calm:
  assumes "script s = []" "on_disk a s" "good a"
  shows "countFiles None s = (Inr (int (card (dom (aFiles a)))), s)"
proof -
  have "\<forall>i\<in>set (live_ids s). validFileID i" using live_ids_valid [OF assms(2,3)] by blast
  then show ?thesis
    using assms by (simp add: countFiles_def read_dirs_calm count_entries_live length_live_ids)
qed

definition live_files :: "astore \<Rightarrow> store \<Rightarrow> file_info list" where
  "live_files a s = map (\<lambda>i. fst (the (aFiles a i))) (live_ids s)"

lemma list_entries_live:
  assumes "script s = []" "on_disk a s" "good a" "set is \<subseteq> set (live_ids s)"
  shows "list_entries (map (\<lambda>i. (i @ ''.json'', False)) is) s =
    (Inr (map (\<lambda>i. fst (the (aFiles a i))) is), s)"
  using assms(4)
proof (induction "is")
  case (Cons i "is")
  then obtain x where "aFiles a i = Some x" "validFileID i"
    using live_ids_valid [OF assms(2,3), of i] by auto
  with Cons show ?case
    by (simp add: filepath_ext_json getUnlocked_calm [OF assms(1-3)])
qed simp

lemma live_files_ids:
  assumes "on_disk a s" "good a"
  shows "map fID (live_files a s) = live_ids s" "set (live_files a s) = fst ` ran (aFiles a)"
proof -
  have "fID (fst (the (aFiles a i))) = i" if i: "i \<in> set (live_ids s)" for i
  proof -
    obtain x where "aFiles a i = Some x" using live_ids_valid [OF assms i] by blast
    then show ?thesis using goodD(1) [OF assms(2), of i x] by (simp add: file_ok_def live_file_ok_def)
  qed
  then show "map fID (live_files a s) = live_ids s"
    by (simp add: live_files_def comp_def map_idI)
  have "set (live_files a s) = (\<lambda>i. fst (the (aFiles a i))) ` dom (aFiles a)"
    by (simp add: live_files_def on_disk_live_ids(2) [OF assms(1)])
  then show "set (live_files a s) = fst ` ran (aFiles a)"
    by (force simp: ran_def image_iff)
qed

interpretation file_order: key_less file_before "\<lambda>f. (- fCreatedAt f, fID f)" "\<lambda>_. True"
  by unfold_locales (auto simp: file_before_def)

lemma page_full:
  assumes "0 \<le> limit" "0 \<le> offset" "int (length xs) + limit \<le> max_int64"
  shows "page xs limit offset = Some (take (nat limit) (drop (nat offset) xs))"
proof (cases "int (length xs) \<le> offset")
  case False
  with assms show ?thesis by (intro page_take_drop) auto
qed (simp add: page_def)

lemma page_limit_bounds: "0 < page_limit limit" "page_limit limit \<le> 1000"
  by (simp_all add: page_limit_def)

lemma page_offset_nonneg: "0 \<le> page_offset offset"
  by (simp add: page_offset_def)

lemma sorted_distinct_before:
  "sorted (map (\<lambda>f. (- fCreatedAt f, fID f)) ys) \<Longrightarrow> distinct (map fID ys) \<Longrightarrow> sorted_wrt file_before ys"
proof (induction ys)
  case (Cons y ys)
  have "file_before y z" if "z \<in> set ys" for z
  proof -
    have "(- fCreatedAt y, fID y) \<le> (- fCreatedAt z, fID z)" "fID y \<noteq> fID z"
      using Cons.prems that by auto
    then show ?thesis by (auto simp: file_before_def)
  qed
  with Cons show ?case by simp
qed simp

lemma sorted_file_list:
  "distinct (map fID xs) \<Longrightarrow> sorted_wrt file_before (sort_slice file_before xs)"
proof -
  assume d: "distinct (map fID xs)"
  let ?ys = "sort_slice file_before xs"
  have "sorted (map (\<lambda>f. (- fCreatedAt f, fID f)) ?ys)"
    by (rule file_order.sort_slice_sorted) simp
  moreover have "distinct (map fID ?ys)"
    using d by (metis mset_map mset_eq_imp_distinct_iff mset_sort_slice)
  ultimately show ?thesis by (rule sorted_distinct_before)
qed

lemma listFiles_calm:
  assumes "script s = []" "on_disk a s" "good a" "int (card (dom (aFiles a))) + 1000 \<le> max_int64"
  shows "listFiles None limit offset s =
    (Inr (Some (take (nat (page_limit limit)) (drop (nat (page_offset offset))
       (sort_slice file_before (live_files a s))))), s)"
proof -
  have "list_entries (map (\<lambda>i. (i @ ''.json'', False)) (live_ids s)) s = (Inr (live_files a s), s)"
    using list_entries_live [OF assms(1-3)] by (simp add: live_files_def)
  moreover have "page (sort_slice file_before (live_files a s)) (page_limit limit) (page_offset offset) =
    Some (take (nat (page_limit limit)) (drop (nat (page_offset offset)) (sort_slice file_before (live_files a s))))"
    using assms(4) page_limit_bounds [of limit] length_live_ids [OF assms(2)]
    by (intro page_full) (auto simp: page_offset_nonneg live_files_def)
  ultimately show ?thesis
    using assms by (simp add: listFiles_def read_dirs_calm comp_def)
qed

section \<open>What Put promises\<close>

text \<open>A concrete store and environment, at which the properties are applied.\<close>

definition example_env :: env where
  "example_env = \<lparr>mimeByExt = (\<lambda>ext. if ext = ''.txt'' then ''text/plain'' else ''''),
     sha256 = (\<lambda>b. replicate 63 CHR ''0'' @ [if even (length b) then CHR ''a'' else CHR ''b'']),
     statFS = Inr (100, 4096, 50, 60)\<rparr>"

definition example_options :: options where
  "example_options = \<lparr>oPauseAtPercent = 0, oOwnerQuotaBytes = 1000, oUploadTTL = 60\<rparr>"

definition example_store :: store where
  "example_store = new_state example_options fresh_entries"

definition example_id :: string where
  "example_id = ''01234567-89ab-cdef-0123-456789abcdef''"

definition example_input :: upload_input where
  "example_input = \<lparr>iID = '''', iName = ''notes.txt'', iContentType = '''',
     iMetadata = [(''owner'', ''alice'')], iReader = Some \<lparr>bData = ''hello'', bErr = None\<rparr>\<rparr>"

lemma example_id_valid: "validFileID example_id"
  by code_simp

lemma example_digest: "digest_nonempty example_env"
  by (simp add: digest_nonempty_def example_env_def)

lemma example_represents: "represents empty_astore example_store"
  unfolding example_store_def
  by (rule represents_fresh) (simp add: valid_options_def example_options_def max_int64_def)

lemma example_calm [simp]: "script example_store = []"
  by (simp add: example_store_def new_state_def)

lemma example_fields:
  "sPauseAtPercent example_store = 0" "sOwnerQuotaBytes example_store = 1000"
  "sUploadTTL example_store = 60" "sLoadErr example_store = None" "sLoaded example_store = False"
  by (simp_all add: example_store_def new_state_def example_options_def)

lemma example_not_paused: "not_paused example_env example_store"
  by (simp add: not_paused_def writesPausedUnlocked_def example_store_def new_state_def example_options_def)

lemma put_id_cases:
  "put_id newID input = Inr i \<Longrightarrow> validFileID newID \<Longrightarrow> validFileID i"
  by (auto simp: put_id_def Let_def validateID_def split: if_splits)

lemma put_run:
  "iReader input = Some bd \<Longrightarrow> put_id newID input = Inr i \<Longrightarrow>
   put E None newID now input s = put_locked E i now input bd s"
  by (simp add: put_def)

lemma owned_empty: "owned empty_astore w = 0"
proof -
  have "dom (books empty_astore k) = {}" for k by (cases k) (auto simp: empty_astore_def)
  then show ?thesis by (simp add: owned_def ledger.item_sum_def)
qed

lemma example_abs_put:
  "\<exists>f. abs_put example_env (sOwnerQuotaBytes example_store) example_id 7 example_input
     \<lparr>bData = ''hello'', bErr = None\<rparr> empty_astore
   = Inr (f, empty_astore\<lparr>aFiles := [example_id \<mapsto> (f, ''hello'')]\<rparr>)"
  by (simp add: abs_put_def Let_def owned_empty example_store_def new_state_def example_options_def)
     (simp add: empty_astore_def)

lemma example_put:
  "\<exists>f t. put example_env None example_id 7 example_input example_store = (Inr f, t)"
proof -
  have "put_id example_id example_input = Inr example_id"
    and "iReader example_input = Some \<lparr>bData = ''hello'', bErr = None\<rparr>" by code_simp+
  then show ?thesis
    using put_locked_refines [OF example_calm example_represents example_not_paused example_id_valid
        example_digest, of example_input "\<lparr>bData = ''hello'', bErr = None\<rparr>" 7] example_abs_put
    by (auto simp: put_run owned_empty example_store_def new_state_def example_options_def)
qed



lemma abs_put_Inr:
  "abs_put E limit i now input bd a = Inr (f, a') \<Longrightarrow>
   f = stored_file E i (int (length (bData bd))) now input bd \<and> bErr bd = None \<and>
   aFiles a i = None \<and> aTrash a i = None \<and> a' = a\<lparr>aFiles := (aFiles a)(i \<mapsto> (f, bData bd))\<rparr> \<and>
   (limit \<noteq> 0 \<longrightarrow> owned a (ownerFromMetadata (iMetadata input)) + int (length (bData bd)) \<le> limit)"
  by (auto simp: abs_put_def Let_def split: if_splits)

lemma represents_openFile:
  "script s = [] \<Longrightarrow> represents a s \<Longrightarrow>
   openFile None i s =
     (if \<not> validFileID i then (Inl ErrInvalidID, s)
      else case aFiles a i of None \<Rightarrow> (Inl ErrNotFound, s) | Some x \<Rightarrow> (Inr x, s))"
  by (simp add: openFile_calm represents_def)

text \<open>Upload then download: after a successful Put, Open returns the record Put returned
  with the bytes that were sent; the record has their length and digest; every other identifier
  opens as before.\<close>

theorem open_after_put:
  assumes "script s = []" "represents a s" "not_paused E s"
    and "iReader input = Some bd" "put_id newID input = Inr i" "validFileID newID"
    and "digest_nonempty E"
    and "sOwnerQuotaBytes s = 0 \<Longrightarrow>
      owned a (ownerFromMetadata (iMetadata input)) + int (length (bData bd)) \<le> max_int64"
    and "put E None newID now input s = (Inr f, t)"
  shows "openFile None i t = (Inr (f, bData bd), t) \<and> fID f = i \<and>
    fSize f = int (length (bData bd)) \<and> fChecksum f = sha256 E (bData bd) \<and>
    (\<forall>j. j \<noteq> i \<longrightarrow> fst (openFile None j t) = fst (openFile None j s))"
proof -
  have i: "validFileID i" by (rule put_id_cases [OF assms(5,6)])
  obtain a' where a': "abs_put E (sOwnerQuotaBytes s) i now input bd a = Inr (f, a')"
    and t: "represents a' t" "script t = []"
    using put_locked_refines [OF assms(1-3) i assms(7,8), of now] assms(9) put_run [OF assms(4,5), of E now s]
    by (cases "abs_put E (sOwnerQuotaBytes s) i now input bd a") auto
  note f = abs_put_Inr [OF a']
  show ?thesis
    using f i represents_openFile [OF t(2,1)] represents_openFile [OF assms(1,2)]
    by (auto split: option.split)
qed

theorem open_after_put_witness:
  "\<exists>f t. put example_env None example_id 7 example_input example_store = (Inr f, t) \<and>
     openFile None example_id t = (Inr (f, ''hello''), t)"
proof -
  have id: "put_id example_id example_input = Inr example_id" by code_simp
  have rd: "iReader example_input = Some \<lparr>bData = ''hello'', bErr = None\<rparr>" by code_simp
  obtain f t where p: "put example_env None example_id 7 example_input example_store = (Inr f, t)"
    using example_put by blast
  show ?thesis
    using open_after_put [OF example_calm example_represents example_not_paused rd id example_id_valid
      example_digest _ p] p by (auto simp: example_store_def new_state_def example_options_def)
qed

text \<open>List is the directory in one fixed order: there is one duplicate-free sequence of all
  stored records, newest first and by identifier among equals, and every call returns its page
  of it, with the limit clamped to 1..1000 and a negative offset read as 0.\<close>

theorem list_pages:
  assumes "script s = []" "represents a s" "int (card (dom (aFiles a))) + 1000 \<le> max_int64"
  shows "\<exists>all. set all = fst ` ran (aFiles a) \<and> distinct all \<and> sorted_wrt file_before all \<and>
    countFiles None s = (Inr (int (length all)), s) \<and>
    (\<forall>limit offset. listFiles None limit offset s =
       (Inr (Some (take (nat (page_limit limit)) (drop (nat (page_offset offset)) all))), s))"
proof (intro exI conjI allI)
  have d: "on_disk a s" "good a" using assms(2) by (auto simp: represents_def)
  let ?all = "sort_slice file_before (live_files a s)"
  show "set ?all = fst ` ran (aFiles a)" by (simp add: live_files_ids(2) [OF d])
  have ids: "distinct (map fID (live_files a s))"
    by (simp add: live_files_ids(1) [OF d] on_disk_live_ids [OF d(1)])
  then show "distinct ?all" by (simp add: distinct_map)
  show "sorted_wrt file_before ?all" using ids by (rule sorted_file_list)
  show "countFiles None s = (Inr (int (length ?all)), s)"
    using countFiles_calm [OF assms(1) d] length_live_ids [OF d(1)] by (simp add: live_files_def)
  show "listFiles None limit offset s =
       (Inr (Some (take (nat (page_limit limit)) (drop (nat (page_offset offset)) ?all))), s)"
    for limit offset
    using listFiles_calm [OF assms(1) d assms(3)] .
qed

theorem list_pages_witness:
  "\<exists>all. set all = {} \<and> (\<forall>limit offset. listFiles None limit offset example_store =
     (Inr (Some (take (nat (page_limit limit)) (drop (nat (page_offset offset)) all))), example_store))"
  using list_pages [OF example_calm example_represents]
  by (auto simp: empty_astore_def max_int64_def)

section \<open>Put with failures\<close>

text \<open>The paths a Put of \<open>i\<close> works on.\<close>

definition put_paths :: "string \<Rightarrow> area path set" where
  "put_paths i = {tmpPath i, objectPath i, manifestPath i, tmp_of (manifestPath i)}"

lemma touches_put_write:
  "touches R s t \<Longrightarrow> put_paths i \<subseteq> R \<Longrightarrow> touches R s (snd (put_write E i now input bd t))"
  unfolding put_write_def put_commit_def copy_body_def Let_def put_paths_def
  by (intro touch_intros; simp)

lemma touches_put_exists [touch_intros]: "touches R s t \<Longrightarrow> touches R s (snd (put_exists i t))"
  unfolding put_exists_def by (intro touch_intros)

lemma touches_put_locked: "touches (put_paths i) s (snd (put_locked E i now input bd s))"
  unfolding put_locked_def by (intro touch_intros touches_put_write; simp)

lemma put_paths_other:
  "j \<noteq> i \<Longrightarrow> r \<in> put_paths i \<Longrightarrow> \<not> under r (objectPath j) \<and> \<not> under r (manifestPath j) \<and>
     \<not> under r (trashObject k) \<and> \<not> under r (trashManifest k) \<and>
     \<not> under r (sessionManifest k) \<and> \<not> under r (sessionData k)"
  by (auto simp: put_paths_def path_defs)

text \<open>Containment: whatever fails during a Put, in whatever combination, up to a crash at any
  point, it changes nothing outside its own temporary file, object and manifest: every other
  file, every trash entry and every upload session keeps its record and its bytes.\<close>

theorem put_contained:
  assumes "put E cx newID now input s = (r, t)" "put_id newID input = Inr i" "j \<noteq> i"
  shows "look t (objectPath j) = look s (objectPath j) \<and> look t (manifestPath j) = look s (manifestPath j) \<and>
    look t (trashObject k) = look s (trashObject k) \<and> look t (trashManifest k) = look s (trashManifest k) \<and>
    look t (sessionManifest k) = look s (sessionManifest k) \<and> look t (sessionData k) = look s (sessionData k)"
proof -
  have "touches (put_paths i) s (snd (put E cx newID now input s))"
    using assms(2) touches_put_locked by (auto simp: put_def touches_refl split: option.split)
  then have t: "touches (put_paths i) s t" by (simp add: assms(1))
  show ?thesis
    using put_paths_other [OF assms(3)] by (auto intro!: touches_look [OF t])
qed

definition other_id :: string where
  "other_id = ''ffffffff-ffff-ffff-ffff-ffffffffffff''"

theorem put_contained_witness:
  "\<exists>r t. put example_env None example_id 7 example_input
       (example_store\<lparr>script := [None, None, None, None, None, None, None, Some 2, Some 0]\<rparr>) = (r, t) \<and>
     look t (objectPath other_id) = None"
proof -
  let ?s = "example_store\<lparr>script := [None, None, None, None, None, None, None, Some 2, Some 0]\<rparr>"
  have i: "put_id example_id example_input = Inr example_id" by code_simp
  have j: "other_id \<noteq> example_id" by code_simp
  have "look ?s (objectPath other_id) = None"
    by (simp add: example_store_def look_new_state fresh_entries_def all_areas_def objectPath_def)
  moreover obtain r t where p: "put example_env None example_id 7 example_input ?s = (r, t)"
    by (cases "put example_env None example_id 7 example_input ?s") blast
  ultimately show ?thesis
    using put_contained [OF p i j] p by auto
qed

lemma numeral_replicate [simp]: "replicate (numeral n) x = x # replicate (pred_numeral n) x"
  by (simp add: numeral_eq_Suc)

lemma less_nat_10: "(m::nat) < 10 \<Longrightarrow>
  m = 0 \<or> m = 1 \<or> m = 2 \<or> m = 3 \<or> m = 4 \<or> m = 5 \<or> m = 6 \<or> m = 7 \<or> m = 8 \<or> m = 9"
  by presburger

lemma put_path_facts:
  "parent (tmpPath i) = (Tmp, [])" "parent (objectPath i) = (Objects, [])"
  "parent (manifestPath i) = (Metadata, [])"
  "tmpPath i \<noteq> objectPath i" "objectPath i \<noteq> tmpPath i" "manifestPath i \<noteq> objectPath i"
  "objectPath i \<noteq> manifestPath i" "tmpPath i \<noteq> manifestPath i" "manifestPath i \<noteq> tmpPath i"
  "tmp_of (manifestPath i) \<noteq> objectPath i" "tmp_of (manifestPath i) \<noteq> manifestPath i"
  "tmp_of (manifestPath i) \<noteq> tmpPath i" "tmpPath i \<noteq> tmp_of (manifestPath i)"
  "objectPath i \<noteq> tmp_of (manifestPath i)" "manifestPath i \<noteq> tmp_of (manifestPath i)"
  "(Metadata, []) \<noteq> tmp_of (manifestPath i)" "(Objects, []) \<noteq> tmp_of (manifestPath i)"
  "(Objects, []) \<noteq> manifestPath i" "snd (manifestPath i) \<noteq> []"
  "(Metadata, []) \<noteq> objectPath i" "(Metadata, []) \<noteq> manifestPath i" "(Objects, []) \<noteq> objectPath i"
  "(Tmp, []) \<noteq> tmpPath i" "(Objects, []) \<noteq> tmpPath i" "(Metadata, []) \<noteq> tmpPath i"
  by (simp_all add: path_defs)

lemma over_quota_frame:
  "over_quota (put_entry p n t) w m = over_quota t w m" "over_quota (t\<lparr>script := sc\<rparr>) w m = over_quota t w m"
  by (simp_all add: over_quota_def)

lemmas put_commit_code =
  put_commit_def writeManifest_def write_doc_def syncDirectory_def remove_quiet_def sync_quiet_def Let_def

lemma put_commit_single_fault:
  assumes "script s = replicate m None @ [Some k]"
    and "look s (tmpPath i) = Some (NFile (Blob b))" "look s (objectPath i) = None"
    and "look s (manifestPath i) = None" "look s (tmp_of (manifestPath i)) = None"
    and "look s (Objects, []) = Some NDir" "look s (Metadata, []) = Some NDir"
  shows "case put_commit E i sz now input bd s of
     (Inl e, t) \<Rightarrow> look t = (look s)(tmpPath i := None)
   | (Inr f, t) \<Rightarrow> look t = (look s)(tmpPath i := None, objectPath i \<mapsto> NFile (Blob b),
                                   manifestPath i \<mapsto> NFile (Doc (FileDoc f)))"
proof -
  note eval = put_commit_code go_simps step_simps put_path_facts
  consider "m < 10" | sc where "script s = replicate 10 None @ sc"
    using single_fault_split [OF assms(1), of 10] by blast
  then show ?thesis
  proof cases
    case 1
    from less_nat_10 [OF this] show ?thesis
      by (elim disjE; use assms in \<open>simp add: eval\<close>)
  next
    case 2
    then show ?thesis using assms(2-) by (simp add: eval)
  qed
qed


text \<open>C20. All or nothing: if exactly one system call of a Put fails, wherever it is, either
  the Put reports an error and the disk is what it was, or it succeeds and has added exactly its
  object and its manifest.\<close>

theorem put_single_fault:
  assumes "script s = replicate m None @ [Some k]" "on_disk a s" "sLoaded s" "sLoadErr s = None"
    and "sPauseAtPercent s = 0"
    and "aFiles a i = None" "aTrash a i = None" "bErr bd = None"
    and "\<not> over_quota s (ownerFromMetadata (iMetadata input)) (int (length (bData bd)))"
  shows "case put_locked E i now input bd s of
     (Inl e, t) \<Rightarrow> look t = look s
   | (Inr f, t) \<Rightarrow> look t = (look s)(objectPath i \<mapsto> NFile (Blob (bData bd)), manifestPath i \<mapsto> NFile (Doc (FileDoc f)))"
proof -
  note eval = put_locked_def writesPausedUnlocked_def ensureUsageLocked_def put_exists_def
    pathExists_def put_write_def copy_body_def remove_quiet_def go_simps step_simps put_path_facts
    enforceQuotaUnlocked_loaded over_quota_frame
  note here = assms on_disk_paths [OF assms(2), of i]
  let ?P = "\<lambda>r. case r of
     (Inl e, t) \<Rightarrow> look t = look s
   | (Inr f, t) \<Rightarrow> look t = (look s)(objectPath i \<mapsto> NFile (Blob (bData bd)), manifestPath i \<mapsto> NFile (Doc (FileDoc f)))"
  consider "m < 7" | "script s = replicate 7 None @ replicate (m - 7) None @ [Some k]"
    using single_fault_split [OF assms(1), of 7] by blast
  then show ?thesis
  proof cases
    case 1
    then have "m = 0 \<or> m = 1 \<or> m = 2 \<or> m = 3 \<or> m = 4 \<or> m = 5 \<or> m = 6" by presburger
    then show ?thesis by (elim disjE; use here in \<open>simp add: eval put_commit_code\<close>)
  next
    case 2
    let ?t = "put_entry (tmpPath i) (NFile (Blob (bData bd))) s\<lparr>script := replicate (m - 7) None @ [Some k]\<rparr>"
    have run: "put_locked E i now input bd s = put_commit E i (int (length (bData bd))) now input bd ?t"
      using 2 here(2-) by (simp add: eval)
    have same: "(look s)(tmpPath i := None) = look s"
      using here by (simp add: fun_upd_idem)
    show ?thesis unfolding run
      using put_commit_single_fault [of ?t "m - 7" k i "bData bd" E "int (length (bData bd))" now input bd]
        here same by (simp add: put_path_facts split: prod.splits sum.splits)
  qed
qed

text \<open>The write of the manifest fails after five bytes.\<close>

theorem put_single_fault_witness:
  "case put_locked example_env example_id 7 example_input \<lparr>bData = ''hello'', bErr = None\<rparr>
      (example_store\<lparr>sLoaded := True, script := replicate 15 None @ [Some 5]\<rparr>) of
     (Inl e, t) \<Rightarrow> look t = look example_store
   | (Inr f, t) \<Rightarrow> False"
proof -
  let ?s = "example_store\<lparr>sLoaded := True, script := replicate 15 None @ [Some 5]\<rparr>"
  have d: "on_disk empty_astore ?s"
    using example_represents by (simp add: represents_def on_disk_def quarantine_ok_def)
  have q: "\<not> over_quota ?s w 5" for w
    by (simp add: over_quota_def example_store_def new_state_def example_options_def usage_total_def
        newUsageIndex_def wrap64_def)
  have "isl (fst (put_locked example_env example_id 7 example_input \<lparr>bData = ''hello'', bErr = None\<rparr> ?s))"
    by code_simp
  then show ?thesis
    using put_single_fault [of ?s 15 5 empty_astore example_id "\<lparr>bData = ''hello'', bErr = None\<rparr>"
        example_input example_env 7] d q example_fields
    by (auto simp: empty_astore_def split: prod.splits sum.splits)
qed

end
