(* ===== verification/StoreUpload.thy ===== *)
theory StoreUpload
  imports StorePut
begin

text \<open>
  Resumable uploads: the expiry sweep of \<open>pkg/files/recovery.go\<close> and \<open>StartUpload\<close>,
  \<open>GetUpload\<close>, \<open>AppendUpload\<close>, \<open>CompleteUpload\<close> and \<open>AbortUpload\<close> of \<open>pkg/files/store.go\<close>.
\<close>

section \<open>Expiry\<close>

text \<open>The Go function returns a count and an error; an error carries the count reached.\<close>

fun sweep_entries ::
  "time \<Rightarrow> (string \<times> bool) list \<Rightarrow> int \<Rightarrow> store \<Rightarrow> ((err \<times> int) + int) \<times> store" where
  "sweep_entries now [] removed s = (Inr removed, s)"
| "sweep_entries now ((name, isDir) # es) removed s =
     (if \<not> isDir \<or> \<not> validFileID name then sweep_entries now es removed s
      else (case getUploadUnlocked name s of
          (Inl e, s) \<Rightarrow>
            if e = ErrUploadNotFound \<or> e = ErrCorruptMetadata then sweep_entries now es removed s
            else (Inl (e, removed), s)
        | (Inr session, s) \<Rightarrow>
            if uStatus session = UploadStatusCompleted then
              (case os_remove_all (sessionDir name) s of
                 (Inl e, s) \<Rightarrow> (Inl (OSErr e, removed), s)
               | (Inr _, s) \<Rightarrow> sweep_entries now es (removed + 1) s)
            else if time_sub now (uUpdatedAt session) < sUploadTTL s then sweep_entries now es removed s
            else
              (case os_remove_all (sessionDir name) s of
                 (Inl e, s) \<Rightarrow> (Inl (OSErr e, removed), s)
               | (Inr _, s) \<Rightarrow>
                   sweep_entries now es (removed + 1)
                     (releaseUsage (ownerFromMetadata (uMetadata session)) UsageUpload (uSize session) s))))"

definition sweepUploadsUnlocked :: "time \<Rightarrow> store \<Rightarrow> ((err \<times> int) + int) \<times> store" where
  "sweepUploadsUnlocked now s =
     (if sUploadTTL s \<le> 0 then (Inr 0, s)
      else (case os_read_dir (Uploads, []) s of
          (Inl e, s) \<Rightarrow> (Inl (OSErr e, 0), s)
        | (Inr es, s) \<Rightarrow>
            (case sweep_entries now es 0 s of
               (Inl x, s) \<Rightarrow> (Inl x, s)
             | (Inr removed, s) \<Rightarrow>
                 if removed > 0 then
                   (case syncDirectory (Uploads, []) s of
                      (Inl e, s) \<Rightarrow> (Inl (OSErr e, removed), s)
                    | (Inr _, s) \<Rightarrow> (Inr removed, s))
                 else (Inr removed, s))))"

definition sweepUploads :: "ctx \<Rightarrow> time \<Rightarrow> store \<Rightarrow> ((err \<times> int) + int) \<times> store" where
  "sweepUploads cx now s =
     (case cx of Some e \<Rightarrow> (Inl (CtxErr e, 0), s) | None \<Rightarrow> sweepUploadsUnlocked now s)"

section \<open>StartUpload\<close>

definition new_session :: "env \<Rightarrow> string \<Rightarrow> time \<Rightarrow> multipart_start_input \<Rightarrow> upload_session" where
  "new_session E i now input =
     (let name = cleanDisplayName (mName input)
      in \<lparr>uID = i, uFileID = '''', uName = name,
          uContentType = resolveContentType E (mContentType input) name, uSize = mSize input,
          uChecksum = to_lower (trim_space (mChecksum input)), uReceivedBytes = 0,
          uStatus = UploadStatusUploading, uCreatedAt = now, uUpdatedAt = now,
          uMetadata = clone_labels (mMetadata input)\<rparr>)"

text \<open>From the creation of the session directory on; a failure removes it.\<close>

definition start_create :: "string \<Rightarrow> upload_session \<Rightarrow> store \<Rightarrow> (err + upload_session) \<times> store" where
  "start_create i session s =
     (case os_mkdir (sessionDir i) s of
        (Inl e, s) \<Rightarrow> (Inl (OSErr e), s)
      | (Inr _, s) \<Rightarrow>
     (case os_create_excl (sessionData i) s of
        (Inl e, s) \<Rightarrow> (Inl (OSErr e), remove_all_quiet (sessionDir i) s)
      | (Inr _, s) \<Rightarrow>
     (case os_close s of
        (Inl e, s) \<Rightarrow> (Inl (OSErr e), remove_all_quiet (sessionDir i) s)
      | (Inr _, s) \<Rightarrow>
     (case writeUploadManifest (sessionManifest i) session s of
        (Inl e, s) \<Rightarrow> (Inl e, remove_all_quiet (sessionDir i) s)
      | (Inr _, s) \<Rightarrow>
     (case syncDirectory (sessionDir i) s of
        (Inl e, s) \<Rightarrow> (Inl (OSErr e), remove_all_quiet (sessionDir i) s)
      | (Inr _, s) \<Rightarrow>
          (Inr (cloneUploadSession session),
           moveUsage (ownerFromMetadata (uMetadata session)) None (Some UsageUpload) (uSize session) 1 s))))))"

text \<open>\<open>now\<close> is the clock when the session is made up, \<open>later\<close> when the sweep runs.\<close>

definition start_locked ::
  "env \<Rightarrow> string \<Rightarrow> upload_session \<Rightarrow> time \<Rightarrow> multipart_start_input \<Rightarrow> store \<Rightarrow>
   (err + upload_session) \<times> store" where
  "start_locked E i session later input s =
     (case writesPausedUnlocked E s of
        (Inl e, s) \<Rightarrow> (Inl e, s)
      | (Inr paused, s) \<Rightarrow>
          if paused then (Inl ErrStoragePaused, s)
          else
     (case sweepUploadsUnlocked later s of
        (Inl x, s) \<Rightarrow> (Inl (fst x), s)
      | (Inr _, s) \<Rightarrow>
     (case ensureUsageLocked s of
        (Inl e, s) \<Rightarrow> (Inl e, s)
      | (Inr _, s) \<Rightarrow>
     (case enforceQuotaUnlocked (ownerFromMetadata (mMetadata input)) (mSize input) s of
        (Inl e, s) \<Rightarrow> (Inl e, s)
      | (Inr _, s) \<Rightarrow> start_create i session s))))"

definition startUpload ::
  "env \<Rightarrow> ctx \<Rightarrow> string \<Rightarrow> time \<Rightarrow> time \<Rightarrow> multipart_start_input \<Rightarrow> store \<Rightarrow>
   (err + upload_session) \<times> store" where
  "startUpload E cx newID now later input s =
     (case cx of
        Some e \<Rightarrow> (Inl (CtxErr e), s)
      | None \<Rightarrow>
          if mSize input \<le> 0 then (Inl ErrInvalidUpload, s)
          else if mChecksum input \<noteq> '''' \<and> \<not> isSHA256 (mChecksum input) then (Inl ErrInvalidUpload, s)
          else start_locked E newID (new_session E newID now input) later input s)"

section \<open>GetUpload and AppendUpload\<close>

definition getUpload :: "ctx \<Rightarrow> string \<Rightarrow> store \<Rightarrow> (err + upload_session) \<times> store" where
  "getUpload cx i s =
     (case validateUploadID i of
        Inl e \<Rightarrow> (Inl e, s)
      | Inr _ \<Rightarrow> (case cx of Some e \<Rightarrow> (Inl (CtxErr e), s) | None \<Rightarrow> getUploadUnlocked i s))"

text \<open>\<open>io.Copy\<close> from \<open>io.LimitReader(body, n)\<close>: the limit is reached before the body's error if
  the body has at least \<open>n\<close> bytes.\<close>

definition copy_limited :: "area path \<Rightarrow> body \<Rightarrow> int \<Rightarrow> store \<Rightarrow> (err + bytes) \<times> store" where
  "copy_limited p bd n s =
     (let data = take (nat n) (bData bd)
      in case os_append p data s of
           (Inl e, s) \<Rightarrow> (Inl (OSErr e), s)
         | (Inr _, s) \<Rightarrow>
             (case bErr bd of
                Some e \<Rightarrow> if int (length (bData bd)) < n then (Inl e, s) else (Inr data, s)
              | None \<Rightarrow> (Inr data, s)))"

text \<open>The closure \<open>rollback\<close>; its failures are logged.\<close>

definition append_rollback :: "string \<Rightarrow> nat \<Rightarrow> store \<Rightarrow> store" where
  "append_rollback i n s = snd (os_sync (snd (os_truncate (sessionData i) n s)))"

text \<open>From the copy on, with the part open at \<open>initialSize\<close> bytes.\<close>

definition append_copy ::
  "env \<Rightarrow> string \<Rightarrow> int \<Rightarrow> body \<Rightarrow> string \<Rightarrow> time \<Rightarrow> upload_session \<Rightarrow> nat \<Rightarrow> int \<Rightarrow> store \<Rightarrow>
   (err + upload_session) \<times> store" where
  "append_copy E i chunkSize bd checksum now session initialSize remaining s =
     (case copy_limited (sessionData i) bd (wrap64 (chunkSize + 1)) s of
        (Inl e, s) \<Rightarrow> (Inl e, append_rollback i initialSize s)
      | (Inr data, s) \<Rightarrow>
          (let written = int (length data) in
           if written > remaining then (Inl ErrUploadTooLarge, append_rollback i initialSize s)
           else if written \<noteq> chunkSize then (Inl ErrUploadChunkSize, append_rollback i initialSize s)
           else if checksum \<noteq> '''' \<and> \<not> equal_fold (trim_space checksum) (sha256 E data)
           then (Inl ErrUploadChecksumMismatch, append_rollback i initialSize s)
           else
     (case os_sync s of
        (Inl e, s) \<Rightarrow> (Inl (OSErr e), append_rollback i initialSize s)
      | (Inr _, s) \<Rightarrow>
          (let session' = session\<lparr>uReceivedBytes := wrap64 (uReceivedBytes session + written), uUpdatedAt := now\<rparr> in
     (case writeUploadManifest (sessionManifest i) session' s of
        (Inl e, s) \<Rightarrow> (Inl e, append_rollback i initialSize s)
      | (Inr _, s) \<Rightarrow>
     (case syncDirectory (sessionDir i) s of
        (Inl e, s) \<Rightarrow> (Inl (OSErr e), append_rollback i initialSize s)
      | (Inr _, s) \<Rightarrow> (Inr (cloneUploadSession session'), s)))))))"

definition append_locked ::
  "env \<Rightarrow> string \<Rightarrow> int \<Rightarrow> int \<Rightarrow> body \<Rightarrow> string \<Rightarrow> time \<Rightarrow> store \<Rightarrow> (err + upload_session) \<times> store" where
  "append_locked E i offset chunkSize bd checksum now s =
     (case getUploadUnlocked i s of
        (Inl e, s) \<Rightarrow> (Inl e, s)
      | (Inr session, s) \<Rightarrow>
          if uStatus session \<noteq> UploadStatusUploading then (Inl ErrUploadOffsetConflict, s)
          else if offset \<noteq> uReceivedBytes session then (Inl ErrUploadOffsetConflict, s)
          else
     (case writesPausedUnlocked E s of
        (Inl e, s) \<Rightarrow> (Inl e, s)
      | (Inr paused, s) \<Rightarrow>
          if paused then (Inl ErrStoragePaused, s)
          else
     (case os_open_append (sessionData i) s of
        (Inl e, s) \<Rightarrow> (Inl (if e = ENOENT then ErrCorruptMetadata else OSErr e), s)
      | (Inr _, s) \<Rightarrow>
     (case os_stat (sessionData i) s of
        (Inl e, s) \<Rightarrow> (Inl (OSErr e), s)
      | (Inr info, s) \<Rightarrow>
          if inode_size info \<noteq> uReceivedBytes session then (Inl ErrCorruptMetadata, s)
          else let remaining = wrap64 (uSize session - uReceivedBytes session) in
            if remaining < 0 then (Inl ErrCorruptMetadata, s)
            else if chunkSize > remaining then (Inl ErrUploadTooLarge, s)
            else append_copy E i chunkSize bd checksum now session (nat (inode_size info)) remaining s))))"

definition appendUpload ::
  "env \<Rightarrow> ctx \<Rightarrow> string \<Rightarrow> int \<Rightarrow> int \<Rightarrow> body option \<Rightarrow> string \<Rightarrow> time \<Rightarrow> store \<Rightarrow>
   (err + upload_session) \<times> store" where
  "appendUpload E cx i offset chunkSize reader checksum now s =
     (case validateUploadID i of
        Inl e \<Rightarrow> (Inl e, s)
      | Inr _ \<Rightarrow>
     (case reader of
        None \<Rightarrow> (Inl ErrInvalidUpload, s)
      | Some bd \<Rightarrow>
          if offset < 0 \<or> chunkSize \<le> 0 then (Inl ErrInvalidUpload, s)
          else if checksum \<noteq> '''' \<and> \<not> isSHA256 checksum then (Inl ErrInvalidUpload, s)
          else
     (case cx of
        Some e \<Rightarrow> (Inl (CtxErr e), s)
      | None \<Rightarrow> append_locked E i offset chunkSize bd checksum now s)))"

section \<open>CompleteUpload and AbortUpload\<close>

definition completed_file :: "string \<Rightarrow> string \<Rightarrow> upload_session \<Rightarrow> file_info" where
  "completed_file i checksum session =
     \<lparr>fID = i, fName = uName session, fContentType = uContentType session, fSize = uSize session,
      fChecksum = checksum, fStatus = StatusAvailable, fCreatedAt = uCreatedAt session,
      fMetadata = clone_labels (uMetadata session), fDeletedAt = None\<rparr>"

text \<open>The deferred clean-up of a failure after the rename.\<close>

definition complete_cleanup :: "string \<Rightarrow> store \<Rightarrow> store" where
  "complete_cleanup fileID s = remove_quiet (manifestPath fileID) (remove_quiet (objectPath fileID) s)"

definition complete_commit ::
  "string \<Rightarrow> string \<Rightarrow> string \<Rightarrow> time \<Rightarrow> upload_session \<Rightarrow> store \<Rightarrow> (err + file_info) \<times> store" where
  "complete_commit i fileID checksum now session s =
     (case os_rename (sessionData i) (objectPath fileID) s of
        (Inl e, s) \<Rightarrow> (Inl (OSErr e), s)
      | (Inr _, s) \<Rightarrow>
     (case syncDirectory (Objects, []) s of
        (Inl e, s) \<Rightarrow> (Inl (OSErr e), complete_cleanup fileID s)
      | (Inr _, s) \<Rightarrow>
     (let stored = completed_file fileID checksum session in
      case writeManifest (manifestPath fileID) stored s of
        (Inl e, s) \<Rightarrow> (Inl e, complete_cleanup fileID s)
      | (Inr _, s) \<Rightarrow>
     (case syncDirectory (Metadata, []) s of
        (Inl e, s) \<Rightarrow> (Inl (OSErr e), complete_cleanup fileID s)
      | (Inr _, s) \<Rightarrow>
     (let session' = session\<lparr>uFileID := fileID, uStatus := UploadStatusCompleted, uUpdatedAt := now\<rparr> in
      case writeUploadManifest (sessionManifest i) session' s of
        (Inl e, s) \<Rightarrow> (Inl e, complete_cleanup fileID s)
      | (Inr _, s) \<Rightarrow>
     (case syncDirectory (sessionDir i) s of
        (Inl e, s) \<Rightarrow> (Inl (OSErr e), complete_cleanup fileID s)
      | (Inr _, s) \<Rightarrow>
          (Inr (cloneFile stored),
           remove_quiet (sessionData i)
             (moveUsage (ownerFromMetadata (uMetadata session)) (Some UsageUpload) (Some UsageFile)
                (uSize session) 1 s))))))))"

text \<open>Hashing the part reads it once; the close error is looked at after the read error.\<close>

definition complete_locked :: "env \<Rightarrow> string \<Rightarrow> string \<Rightarrow> time \<Rightarrow> store \<Rightarrow> (err + file_info) \<times> store" where
  "complete_locked E i fileID now s =
     (case getUploadUnlocked i s of
        (Inl e, s) \<Rightarrow> (Inl e, s)
      | (Inr session, s) \<Rightarrow>
          if uStatus session = UploadStatusCompleted \<and> uFileID session \<noteq> ''''
          then getUnlocked (uFileID session) s
          else if uReceivedBytes session \<noteq> uSize session then (Inl ErrUploadIncomplete, s)
          else
     (case os_open (sessionData i) s of
        (Inl e, s) \<Rightarrow> (Inl (if e = ENOENT then ErrCorruptMetadata else OSErr e), s)
      | (Inr _, s) \<Rightarrow>
     (case os_read_file (sessionData i) s of
        (Inl e, s) \<Rightarrow> (Inl (OSErr e), snd (os_close s))
      | (Inr content, s) \<Rightarrow>
     (case os_close s of
        (Inl e, s) \<Rightarrow> (Inl (OSErr e), s)
      | (Inr _, s) \<Rightarrow>
          (let checksum = sha256 E (blob_of (Some (NFile content))) in
           if uChecksum session \<noteq> '''' \<and> \<not> equal_fold (uChecksum session) checksum
           then (Inl ErrUploadChecksumMismatch, s)
           else complete_commit i fileID checksum now session s)))))"

definition completeUpload ::
  "env \<Rightarrow> ctx \<Rightarrow> string \<Rightarrow> string \<Rightarrow> time \<Rightarrow> store \<Rightarrow> (err + file_info) \<times> store" where
  "completeUpload E cx i newID now s =
     (case validateUploadID i of
        Inl e \<Rightarrow> (Inl e, s)
      | Inr _ \<Rightarrow>
     (case cx of
        Some e \<Rightarrow> (Inl (CtxErr e), s)
      | None \<Rightarrow> complete_locked E i newID now s))"

definition abortUpload :: "ctx \<Rightarrow> string \<Rightarrow> store \<Rightarrow> (err + unit) \<times> store" where
  "abortUpload cx i s =
     (case validateUploadID i of
        Inl e \<Rightarrow> (Inl e, s)
      | Inr _ \<Rightarrow>
     (case cx of
        Some e \<Rightarrow> (Inl (CtxErr e), s)
      | None \<Rightarrow>
     (case getUploadUnlocked i s of
        (Inl e, s) \<Rightarrow> if e = ErrUploadNotFound then (Inr (), s) else (Inl e, s)
      | (Inr session, s) \<Rightarrow>
          if uStatus session = UploadStatusCompleted then (Inl ErrInvalidUpload, s)
          else
     (case os_remove_all (sessionDir i) s of
        (Inl e, s) \<Rightarrow> (Inl (OSErr e), s)
      | (Inr _, s) \<Rightarrow>
     (case syncDirectory (Uploads, []) s of
        (Inl e, s) \<Rightarrow> (Inl (OSErr e), s)
      | (Inr _, s) \<Rightarrow>
          (Inr (), releaseUsage (ownerFromMetadata (uMetadata session)) UsageUpload (uSize session) s))))))"

section \<open>The sweep without failures\<close>

definition expired :: "int \<Rightarrow> time \<Rightarrow> upload_session \<Rightarrow> bool" where
  "expired ttl now u \<longleftrightarrow> uStatus u = UploadStatusCompleted \<or> ttl \<le> time_sub now (uUpdatedAt u)"

definition swept :: "int \<Rightarrow> time \<Rightarrow> astore \<Rightarrow> string set" where
  "swept ttl now a = {i. \<exists>x. aUploads a i = Some x \<and> 0 < ttl \<and> expired ttl now (fst x)}"

definition drop_uploads :: "string set \<Rightarrow> astore \<Rightarrow> astore" where
  "drop_uploads D a = a\<lparr>aUploads := aUploads a |` (- D)\<rparr>"

lemma owned_drop_uploads:
  assumes "good a"
  shows "owned (drop_uploads D a) w \<le> owned a w"
proof -
  have "ledger.item_sum (books (drop_uploads D a) UsageUpload) w \<le> ledger.item_sum (books a UsageUpload) w"
    by (rule item_sum_submap [OF assms]) (auto simp: drop_uploads_def restrict_map_def split: if_splits)
  then show ?thesis by (simp add: owned_def drop_uploads_def)
qed

definition same_config :: "store \<Rightarrow> store \<Rightarrow> bool" where
  "same_config s t \<longleftrightarrow> sPauseAtPercent t = sPauseAtPercent s \<and> sOwnerQuotaBytes t = sOwnerQuotaBytes s \<and>
     sUploadTTL t = sUploadTTL s"

lemma drop_uploads_empty [simp]: "drop_uploads {} a = a"
  by (simp add: drop_uploads_def restrict_map_def)

lemma drop_uploads_insert:
  "drop_uploads D (a\<lparr>aUploads := (aUploads a)(i := None)\<rparr>) = drop_uploads (insert i D) a"
  by (auto simp: drop_uploads_def restrict_map_def fun_eq_iff)

lemma session_status:
  "good a \<Longrightarrow> aUploads a i = Some x \<Longrightarrow>
   validFileID i \<and> (uStatus (fst x) = UploadStatusUploading \<or> uStatus (fst x) = UploadStatusCompleted)"
  using goodD(4) [of a i x] by (auto simp: upload_ok_def session_ok_def)

lemma sweep_entries_calm:
  assumes "script s = []" "represents a s" "distinct is" "set is \<subseteq> dom (aUploads a)"
  shows "\<exists>t. sweep_entries now (map (\<lambda>i. (i, True)) is) n s =
      (Inr (n + int (card {i\<in>set is. expired (sUploadTTL s) now (fst (the (aUploads a i)))})), t) \<and>
    represents (drop_uploads {i\<in>set is. expired (sUploadTTL s) now (fst (the (aUploads a i)))} a) t \<and>
    script t = [] \<and> same_config s t"
  using assms
proof (induction "is" arbitrary: n s a)
  case Nil
  then show ?case by (simp add: same_config_def)
next
  case (Cons i "is")
  obtain x where x: "aUploads a i = Some x" using Cons.prems(4) by auto
  have g: "good a" "on_disk a s" using Cons.prems(2) by (auto simp: represents_def)
  note st = session_status [OF g(1) x]
  let ?P = "\<lambda>a i. expired (sUploadTTL s) now (fst (the (aUploads a i)))"
  have get: "getUploadUnlocked i s = (Inr (fst x), s)"
    using getUploadUnlocked_calm [OF Cons.prems(1) g(2,1), of i] x by simp
  show ?case
  proof (cases "?P a i")
    case False
    have "{j \<in> set (i # is). ?P a j} = {j \<in> set is. ?P a j}" using False by auto
    moreover have "sweep_entries now (map (\<lambda>i. (i, True)) (i # is)) n s = sweep_entries now (map (\<lambda>i. (i, True)) is) n s"
      using False st get x by (simp add: expired_def)
    ultimately show ?thesis using Cons.IH [of s a n] Cons.prems by simp
  next
    case True
    let ?a = "a\<lparr>aUploads := (aUploads a)(i := None)\<rparr>"
    let ?t = "if uStatus (fst x) = UploadStatusCompleted then prune_entry (sessionDir i) s
              else releaseUsage (ownerFromMetadata (uMetadata (fst x))) UsageUpload (uSize (fst x))
                     (prune_entry (sessionDir i) s)"
    have run: "sweep_entries now (map (\<lambda>i. (i, True)) (i # is)) n s = sweep_entries now (map (\<lambda>i. (i, True)) is) (n + 1) ?t"
      using True st get x Cons.prems(1) by (auto simp: expired_def go_simps)
    have rep: "represents ?a ?t"
      using represents_drop_completed [OF Cons.prems(2) x] represents_release_upload [OF Cons.prems(2) x] st
      by auto
    have cfg: "script ?t = []" "same_config s ?t" "sUploadTTL ?t = sUploadTTL s"
      using Cons.prems(1) by (auto simp: same_config_def)
    have ni: "i \<notin> set is" and dist: "distinct is" using Cons.prems(3) by auto
    have sub: "set is \<subseteq> dom (aUploads ?a)" using Cons.prems(4) ni by auto
    have P: "{j \<in> set is. ?P ?a j} = {j \<in> set is. ?P a j}" using ni by auto
    have ins: "{j \<in> set (i # is). ?P a j} = insert i {j \<in> set is. ?P a j}" using True by auto
    have "\<exists>u. sweep_entries now (map (\<lambda>i. (i, True)) is) (n + 1) ?t =
        (Inr (n + 1 + int (card {j \<in> set is. ?P ?a j})), u) \<and>
        represents (drop_uploads {j \<in> set is. ?P ?a j} ?a) u \<and> script u = [] \<and> same_config ?t u"
      using Cons.IH [OF cfg(1) rep dist sub, of "n + 1"] unfolding cfg(3) .
    moreover have "int (card (insert i {j \<in> set is. ?P a j})) = 1 + int (card {j \<in> set is. ?P a j})"
      using ni by simp
    ultimately show ?thesis
      unfolding run P ins drop_uploads_insert using cfg(2) by (auto simp: same_config_def ac_simps)
  qed
qed

lemma sweepUploadsUnlocked_calm:
  assumes "script s = []" "represents a s"
  shows "\<exists>t. sweepUploadsUnlocked now s = (Inr (int (card (swept (sUploadTTL s) now a))), t) \<and>
    represents (drop_uploads (swept (sUploadTTL s) now a) a) t \<and> script t = [] \<and> same_config s t"
proof (cases "sUploadTTL s \<le> 0")
  case True
  then have "swept (sUploadTTL s) now a = {}" by (auto simp: swept_def)
  with True assms show ?thesis by (simp add: sweepUploadsUnlocked_def same_config_def)
next
  case False
  have d: "on_disk a s" using assms(2) by (simp add: represents_def)
  let ?is = "names s (Uploads, [])"
  have eq: "{i\<in>set ?is. expired (sUploadTTL s) now (fst (the (aUploads a i)))} = swept (sUploadTTL s) now a"
    using False on_disk_names(4) [OF d] by (auto simp: swept_def)
  obtain t where t: "sweep_entries now (map (\<lambda>i. (i, True)) ?is) 0 s = (Inr (int (card (swept (sUploadTTL s) now a))), t)"
    and rep: "represents (drop_uploads (swept (sUploadTTL s) now a) a) t" "script t = []" "same_config s t"
    using sweep_entries_calm [OF assms distinct_names [of s "(Uploads, [])"], of now 0] on_disk_names(4) [OF d]
    unfolding eq by auto
  have "on_disk (drop_uploads (swept (sUploadTTL s) now a) a) t" using rep(1) by (simp add: represents_def)
  then have "syncDirectory (Uploads, []) t = (Inr (), t)"
    using rep(2) by (simp add: go_simps)
  with False t rep show ?thesis
    by (simp add: sweepUploadsUnlocked_def read_dirs_calm [OF assms(1) d])
qed

section \<open>StartUpload without failures\<close>

lemma session_path_facts [simp]:
  "parent (sessionDir i) = (Uploads, [])" "parent (sessionData i) = sessionDir i"
  "parent (sessionManifest i) = sessionDir i" "snd (sessionManifest i) \<noteq> []"
  "sessionDir i \<noteq> sessionData i" "sessionDir i \<noteq> sessionManifest i" "sessionDir i \<noteq> (Uploads, [])"
  "sessionData i \<noteq> sessionDir i" "sessionManifest i \<noteq> sessionDir i"
  "sessionData i \<noteq> sessionManifest i" "sessionManifest i \<noteq> sessionData i"
  "tmp_of (sessionManifest i) \<noteq> sessionData i" "tmp_of (sessionManifest i) \<noteq> sessionDir i"
  "tmp_of (sessionManifest i) \<noteq> sessionManifest i" "sessionData i \<noteq> tmp_of (sessionManifest i)"
  "sessionDir i \<noteq> tmp_of (sessionManifest i)" "sessionManifest i \<noteq> tmp_of (sessionManifest i)"
  by (simp_all add: path_defs)

lemma start_create_calm:
  assumes "script s = []" "on_disk a s" "aUploads a i = None"
  shows "start_create i u s =
    (Inr u, moveUsage (ownerFromMetadata (uMetadata u)) None (Some UsageUpload) (uSize u) 1
       (put_entry (sessionManifest i) (NFile (Doc (SessionDoc u)))
         (put_entry (sessionData i) (NFile (Blob [])) (put_entry (sessionDir i) NDir s))))"
  using assms on_disk_paths [OF assms(2), of i]
  by (simp add: start_create_def go_simps writeUploadManifest_def write_doc_calm)

lemma represents_put_upload:
  assumes "represents a s" "same_index s s'" "aUploads a i = None" "upload_ok i x"
    and "uStatus (fst x) = UploadStatusUploading"
    and "look s' = (look s)(sessionDir i \<mapsto> NDir, sessionManifest i \<mapsto> NFile (Doc (SessionDoc (fst x))),
                 sessionData i := session_child x ''data.part'')"
    and "totals_fit (a\<lparr>aUploads := (aUploads a)(i \<mapsto> x)\<rparr>)"
  shows "represents (a\<lparr>aUploads := (aUploads a)(i \<mapsto> x)\<rparr>)
    (moveUsage (ownerFromMetadata (uMetadata (fst x))) None (Some UsageUpload) (uSize (fst x)) 1 s')"
proof (rule represents_moveUsage [OF assms(2)])
  have good: "good (a\<lparr>aUploads := (aUploads a)(i \<mapsto> x)\<rparr>)"
    using assms(1,4) by (auto simp: represents_def good_def)
  then show "good (a\<lparr>aUploads := (aUploads a)(i \<mapsto> x)\<rparr>)" .
  show "on_disk (a\<lparr>aUploads := (aUploads a)(i \<mapsto> x)\<rparr>) s'"
    using assms(1,6) by (intro on_disk_put_upload) (auto simp: represents_def)
  assume "ledger.balanced (books a) (sUsage s)"
  then show "ledger.balanced (books (a\<lparr>aUploads := (aUploads a)(i \<mapsto> x)\<rparr>))
      (move_index (ownerFromMetadata (uMetadata (fst x))) None (Some UsageUpload) (uSize (fst x)) 1 (sUsage s))"
    using ledger.balanced_charge [of "books a" "sUsage s" UsageUpload i "uSize (fst x)"
        "ownerFromMetadata (uMetadata (fst x))"] fits_books [OF good assms(7)] assms(3,4,5)
    by (simp add: books_upd upload_item_def upload_ok_def session_ok_def)
qed fact+

definition abs_start ::
  "env \<Rightarrow> int \<Rightarrow> int \<Rightarrow> string \<Rightarrow> time \<Rightarrow> time \<Rightarrow> multipart_start_input \<Rightarrow> astore \<Rightarrow>
   (err + upload_session) \<times> astore" where
  "abs_start E limit ttl i now later input a =
     (let a' = drop_uploads (swept ttl later a) a; u = new_session E i now input
      in if limit \<noteq> 0 \<and> owned a' (ownerFromMetadata (mMetadata input)) + mSize input > limit
         then (Inl ErrQuotaExceeded, a')
         else (Inr u, a'\<lparr>aUploads := (aUploads a')(i \<mapsto> (u, []))\<rparr>))"

lemma fields_new_session [simp]:
  "uID (new_session E i now input) = i" "uSize (new_session E i now input) = mSize input"
  "uReceivedBytes (new_session E i now input) = 0"
  "uStatus (new_session E i now input) = UploadStatusUploading"
  "uMetadata (new_session E i now input) = mMetadata input"
  "uUpdatedAt (new_session E i now input) = now" "uCreatedAt (new_session E i now input) = now"
  by (simp_all add: new_session_def Let_def)

lemma new_session_ok:
  "validFileID i \<Longrightarrow> 0 < mSize input \<Longrightarrow> upload_ok i (new_session E i now input, [])"
  by (simp add: upload_ok_def session_ok_def completed_ok_def)

lemma start_locked_refines:
  assumes "script s = []" "represents a s" "not_paused E s" "validFileID i" "0 < mSize input"
    and "aUploads a i = None"
    and "sOwnerQuotaBytes s = 0 \<Longrightarrow>
      owned a (ownerFromMetadata (mMetadata input)) + mSize input \<le> max_int64"
  shows "\<exists>t. start_locked E i (new_session E i now input) later input s =
      (fst (abs_start E (sOwnerQuotaBytes s) (sUploadTTL s) i now later input a), t) \<and>
    represents (snd (abs_start E (sOwnerQuotaBytes s) (sUploadTTL s) i now later input a)) t \<and> script t = []"
proof -
  let ?D = "swept (sUploadTTL s) later a"
  let ?a = "drop_uploads ?D a" and ?w = "ownerFromMetadata (mMetadata input)" and ?u = "new_session E i now input"
  obtain t0 where t0: "writesPausedUnlocked E s = (Inr False, t0)" "t0 = s \<or> t0 = loaded s"
    using assms(3) writesPausedUnlocked_calm [OF assms(1,2), of E]
    by (cases "writesPausedUnlocked E s") (auto simp: not_paused_def)
  have s0: "script t0 = []" "represents a t0" "same_config s t0"
    using t0(2) assms ensureUsageLocked_calm [OF assms(1,2)] by (auto simp: same_config_def)
  obtain t1 where t1: "sweepUploadsUnlocked later t0 = (Inr (int (card ?D)), t1)"
    and s1: "represents ?a t1" "script t1 = []" "same_config t0 t1"
    using sweepUploadsUnlocked_calm [OF s0(1,2), of later] s0(3) by (auto simp: same_config_def)
  note ld = ensureUsageLocked_calm [OF s1(2,1)]
  have q: "sOwnerQuotaBytes t1 = sOwnerQuotaBytes s" using s0(3) s1(3) by (simp add: same_config_def)
  have g: "on_disk ?a (loaded t1)" "good ?a" "sLoadErr (loaded t1) = None" "totals_fit ?a"
    using ld by (auto simp: represents_def accounted_def)
  have none: "aUploads ?a i = None" using assms(6) by (simp add: drop_uploads_def restrict_map_def)
  have quota: "over_quota (loaded t1) ?w (mSize input) \<longleftrightarrow>
      sOwnerQuotaBytes s \<noteq> 0 \<and> owned ?a ?w + mSize input > sOwnerQuotaBytes s"
    using over_quota_owned [OF ld(2,5), of "mSize input" ?w] ld q assms(5) by simp
  have run: "start_locked E i ?u later input s =
      (if over_quota (loaded t1) ?w (mSize input) then (Inl ErrQuotaExceeded, loaded t1)
       else start_create i ?u (loaded t1))"
    using t0 t1 ld g enforceQuotaUnlocked_loaded [of "loaded t1" "mSize input" ?w] assms(5)
    by (simp add: start_locked_def)
  show ?thesis
  proof (cases "over_quota (loaded t1) ?w (mSize input)")
    case True
    then show ?thesis using run quota ld by (auto simp: abs_start_def Let_def)
  next
    case False
    let ?a' = "?a\<lparr>aUploads := (aUploads ?a)(i \<mapsto> (?u, []))\<rparr>"
    let ?t = "put_entry (sessionManifest i) (NFile (Doc (SessionDoc ?u)))
         (put_entry (sessionData i) (NFile (Blob [])) (put_entry (sessionDir i) NDir (loaded t1)))"
    have owned: "owned ?a' = (\<lambda>w. owned ?a w + (if w = ?w then mSize input else 0))"
      using owned_put_upload [OF g(2) none, of "(?u, [])"] by (simp add: fun_eq_iff)
    have "owned ?a ?w \<le> owned a ?w"
      using assms(2) by (intro owned_drop_uploads) (simp add: represents_def)
    then have "owned ?a ?w + mSize input \<le> max_int64"
      using False quota assms(2,7) by (cases "sOwnerQuotaBytes s = 0") (auto simp: represents_def)
    then have "totals_fit ?a'"
      using g(4) unfolding totals_fit_def owned by auto
    then have "represents ?a' (moveUsage ?w None (Some UsageUpload) (mSize input) 1 ?t)"
      using represents_put_upload [OF ld(2), of ?t i "(?u, [])"] none new_session_ok [OF assms(4,5)]
      by (simp add: session_child_def fun_upd_twist)
    then show ?thesis
      using run False quota start_create_calm [OF ld(3) g(1) none, of ?u] ld
      by (auto simp: abs_start_def Let_def)
  qed
qed

section \<open>AppendUpload without failures\<close>

text \<open>What a chunk contributes: the bytes to add, or why it is refused. \<open>remaining\<close> is what the
  declared size leaves.\<close>

definition accept_chunk :: "env \<Rightarrow> int \<Rightarrow> body \<Rightarrow> string \<Rightarrow> int \<Rightarrow> err + bytes" where
  "accept_chunk E chunkSize bd checksum remaining =
     (let data = take (nat (chunkSize + 1)) (bData bd)
      in if bErr bd \<noteq> None \<and> int (length (bData bd)) \<le> chunkSize then Inl (the (bErr bd))
         else if int (length data) > remaining then Inl ErrUploadTooLarge
         else if int (length data) \<noteq> chunkSize then Inl ErrUploadChunkSize
         else if checksum \<noteq> '''' \<and> \<not> equal_fold (trim_space checksum) (sha256 E data)
         then Inl ErrUploadChecksumMismatch
         else Inr data)"

definition extend_session :: "int \<Rightarrow> time \<Rightarrow> upload_session \<Rightarrow> upload_session" where
  "extend_session n now u = u\<lparr>uReceivedBytes := uReceivedBytes u + n, uUpdatedAt := now\<rparr>"

definition abs_append ::
  "env \<Rightarrow> string \<Rightarrow> int \<Rightarrow> int \<Rightarrow> body \<Rightarrow> string \<Rightarrow> time \<Rightarrow> astore \<Rightarrow> err + upload_session \<times> astore" where
  "abs_append E i offset chunkSize bd checksum now a =
     (case aUploads a i of
        None \<Rightarrow> Inl ErrUploadNotFound
      | Some (u, b) \<Rightarrow>
          if uStatus u \<noteq> UploadStatusUploading \<or> offset \<noteq> uReceivedBytes u then Inl ErrUploadOffsetConflict
          else if chunkSize > uSize u - uReceivedBytes u then Inl ErrUploadTooLarge
          else (case accept_chunk E chunkSize bd checksum (uSize u - uReceivedBytes u) of
              Inl e \<Rightarrow> Inl e
            | Inr data \<Rightarrow>
                (let u' = extend_session (int (length data)) now u
                 in Inr (u', a\<lparr>aUploads := (aUploads a)(i \<mapsto> (u', b @ data))\<rparr>))))"

lemma put_entry_same [simp]: "look s p = Some n \<Longrightarrow> put_entry p n s = s"
  by (simp add: put_entry_def look_def update_triv)

lemma append_rollback_calm:
  assumes "script s = []" "look s (sessionData i) = Some (NFile (Blob (b @ c)))"
  shows "append_rollback i (length b) s = put_entry (sessionData i) (NFile (Blob b)) s"
  using assms by (simp add: append_rollback_def go_simps)

lemma copy_limited_calm:
  "script s = [] \<Longrightarrow>
   copy_limited p bd n s =
     (if bErr bd \<noteq> None \<and> int (length (bData bd)) < n then Inl (the (bErr bd)) else Inr (take (nat n) (bData bd)),
      put_entry p (NFile (Blob (blob_of (look s p) @ take (nat n) (bData bd)))) s)"
  by (auto simp: copy_limited_def go_simps Let_def split: option.split)

lemma append_copy_calm:
  assumes "script s = []" "on_disk a s" "aUploads a i = Some (u, b)"
    and "uStatus u = UploadStatusUploading" "uReceivedBytes u = int (length b)"
    and "0 < chunkSize" "chunkSize < max_int64" "uSize u \<le> max_int64"
  shows "append_copy E i chunkSize bd checksum now u (length b) (uSize u - uReceivedBytes u) s =
    (case accept_chunk E chunkSize bd checksum (uSize u - uReceivedBytes u) of
       Inl e \<Rightarrow> (Inl e, s)
     | Inr data \<Rightarrow>
         (let u' = extend_session (int (length data)) now u
          in (Inr u', put_entry (sessionManifest i) (NFile (Doc (SessionDoc u')))
                (put_entry (sessionData i) (NFile (Blob (b @ data))) s))))"
proof -
  define d where "d = take (nat (chunkSize + 1)) (bData bd)"
  let ?left = "uSize u - uReceivedBytes u"
  let ?t = "put_entry (sessionData i) (NFile (Blob (b @ d))) s"
  have data: "look s (sessionData i) = Some (NFile (Blob b))"
    using on_disk_paths(8) [OF assms(2), of i] assms(3,4) by (simp add: session_child_def)
  have w: "wrap64 (chunkSize + 1) = chunkSize + 1"
    using assms(6,7) by (intro wrap64_nonneg_id) auto
  have copy: "copy_limited (sessionData i) bd (chunkSize + 1) s =
      (if bErr bd \<noteq> None \<and> int (length (bData bd)) \<le> chunkSize then Inl (the (bErr bd)) else Inr d, ?t)"
    using copy_limited_calm [OF assms(1), of "sessionData i" bd "chunkSize + 1"] data by (simp add: d_def)
  have undone: "append_rollback i (length b) ?t = s"
    using append_rollback_calm [of ?t i b d] assms(1) data by simp
  have sync: "os_sync ?t = (Inr (), ?t)" using assms(1) by (simp add: go_simps)
  have accept: "accept_chunk E chunkSize bd checksum ?left =
      (if bErr bd \<noteq> None \<and> int (length (bData bd)) \<le> chunkSize then Inl (the (bErr bd))
       else if int (length d) > ?left then Inl ErrUploadTooLarge
       else if int (length d) \<noteq> chunkSize then Inl ErrUploadChunkSize
       else if checksum \<noteq> '''' \<and> \<not> equal_fold (trim_space checksum) (sha256 E d)
       then Inl ErrUploadChecksumMismatch else Inr d)"
    unfolding accept_chunk_def Let_def d_def by (rule refl)
  show ?thesis
  proof (cases "accept_chunk E chunkSize bd checksum ?left")
    case (Inl e)
    then show ?thesis
      unfolding accept append_copy_def w copy by (auto simp: undone Let_def split: if_splits)
  next
    case (Inr d')
    then have d: "d' = d" and len: "int (length d) \<le> ?left" "int (length d) = chunkSize"
      and ok: "\<not> (bErr bd \<noteq> None \<and> int (length (bData bd)) \<le> chunkSize)"
        "\<not> (checksum \<noteq> '''' \<and> \<not> equal_fold (trim_space checksum) (sha256 E d))"
      unfolding accept by (auto split: if_splits)
    have w': "wrap64 (uReceivedBytes u + int (length d)) = uReceivedBytes u + int (length d)"
      using len assms(5,8) by (intro wrap64_nonneg_id) auto
    have u': "extend_session (int (length d)) now u =
        u\<lparr>uReceivedBytes := wrap64 (uReceivedBytes u + int (length d)), uUpdatedAt := now\<rparr>"
      by (simp add: extend_session_def w')
    have "writeUploadManifest (sessionManifest i) v ?t = (Inr (), put_entry (sessionManifest i) (NFile (Doc (SessionDoc v))) ?t)" for v
      using assms(1,3) on_disk_paths [OF assms(2), of i]
      by (simp add: writeUploadManifest_def write_doc_calm)
    moreover have "syncDirectory (sessionDir i) (put_entry (sessionManifest i) n ?t) = (Inr (), put_entry (sessionManifest i) n ?t)" for n
      using assms(1,3) on_disk_paths [OF assms(2), of i] by (simp add: go_simps)
    ultimately show ?thesis
      unfolding Inr d using ok len
      by (auto simp: append_copy_def w copy sync u' Let_def)
  qed
qed

lemma represents_update_upload:
  assumes "represents a s" "same_index s s'" "aUploads a i = Some y" "upload_ok i x"
    and "upload_item x = upload_item y"
    and "look s' = (look s)(sessionDir i \<mapsto> NDir, sessionManifest i \<mapsto> NFile (Doc (SessionDoc (fst x))),
                 sessionData i := session_child x ''data.part'')"
  shows "represents (a\<lparr>aUploads := (aUploads a)(i \<mapsto> x)\<rparr>) s'"
proof -
  have "books (a\<lparr>aUploads := (aUploads a)(i \<mapsto> x)\<rparr>) = books a"
    using assms(3,5) by (simp add: books_upd fun_upd_idem)
  moreover have "good (a\<lparr>aUploads := (aUploads a)(i \<mapsto> x)\<rparr>)"
    using assms(1,4) by (auto simp: represents_def good_def)
  moreover have "on_disk (a\<lparr>aUploads := (aUploads a)(i \<mapsto> x)\<rparr>) s'"
    using assms(1,6) by (intro on_disk_put_upload) (auto simp: represents_def)
  ultimately show ?thesis
    using assms(1,2) by (simp add: represents_def accounted_def same_index_def totals_fit_def owned_def)
qed

lemma same_config_simps [simp]:
  "same_config s s" "same_config s (put_entry p n t) = same_config s t"
  "same_config s (del_entry p t) = same_config s t" "same_config s (prune_entry p t) = same_config s t"
  "same_config s (moveUsage w from to m r t) = same_config s t"
  by (simp_all add: same_config_def)

lemma paused_state:
  assumes "script s = []" "represents a s" "not_paused E s"
  obtains t where "writesPausedUnlocked E s = (Inr False, t)" "script t = []" "represents a t" "same_config s t"
proof -
  obtain t where t: "writesPausedUnlocked E s = (Inr False, t)" "t = s \<or> t = loaded s"
    using assms(3) writesPausedUnlocked_calm [OF assms(1,2), of E]
    by (cases "writesPausedUnlocked E s") (auto simp: not_paused_def)
  then show thesis
    using that assms ensureUsageLocked_calm [OF assms(1,2)] by (auto simp: same_config_def)
qed

text \<open>The declared size of an unfinished upload is charged, so it is a 64-bit number.\<close>

lemma upload_size_fits:
  assumes "represents a s" "aUploads a i = Some (u, b)" "uStatus u = UploadStatusUploading"
  shows "uSize u \<le> max_int64"
proof -
  let ?w = "ownerFromMetadata (uMetadata u)"
  have g: "good a" "totals_fit a" using assms(1) by (auto simp: represents_def)
  have "books a UsageUpload i = Some (?w, uSize u)" using assms(2,3) by (simp add: upload_item_def)
  then have "uSize u \<le> ledger.item_sum (books a UsageUpload) ?w"
    using books_finite [OF g(1)] books_nonneg [OF g(1)] by (intro ledger.item_le_sum)
  also have "\<dots> \<le> owned a ?w" by (rule item_sum_le_owned [OF g(1)])
  also have "\<dots> \<le> max_int64" using g(2) by (simp add: totals_fit_def)
  finally show ?thesis .
qed

lemma append_locked_refines:
  assumes "script s = []" "represents a s" "not_paused E s"
    and "0 < chunkSize" "chunkSize < max_int64"
  shows "\<exists>t. (script t = [] \<and> same_config s t) \<and>
    (case abs_append E i offset chunkSize bd checksum now a of
       Inl e \<Rightarrow> append_locked E i offset chunkSize bd checksum now s = (Inl e, t) \<and> represents a t
     | Inr (u, a') \<Rightarrow> append_locked E i offset chunkSize bd checksum now s = (Inr u, t) \<and> represents a' t)"
proof -
  have d: "on_disk a s" "good a" using assms(2) by (auto simp: represents_def)
  note get = getUploadUnlocked_calm [OF assms(1) d, of i]
  show ?thesis
  proof (cases "aUploads a i")
    case None
    then show ?thesis using get assms(1,2) by (auto simp: append_locked_def abs_append_def)
  next
    case (Some x)
    obtain u b where x: "aUploads a i = Some (u, b)" using Some by (cases x) auto
    have uok: "upload_ok i (u, b)" using goodD(4) [OF d(2) x] .
    show ?thesis
    proof (cases "uStatus u \<noteq> UploadStatusUploading \<or> offset \<noteq> uReceivedBytes u")
      case True
      then show ?thesis using get x assms(1,2) by (auto simp: append_locked_def abs_append_def)
    next
      case False
      obtain t where t: "writesPausedUnlocked E s = (Inr False, t)" "script t = []" "represents a t"
          "same_config s t"
        using paused_state [OF assms(1-3)] by blast
      have td: "on_disk a t" using t(3) by (simp add: represents_def)
      have data: "look t (sessionData i) = Some (NFile (Blob b))"
        using on_disk_paths(8) [OF td, of i] x False by (simp add: session_child_def)
      have fits: "uSize u \<le> max_int64" using upload_size_fits [OF assms(2) x] False by simp
      have rcv: "uReceivedBytes u = int (length b)" and sz: "0 \<le> uReceivedBytes u" "uReceivedBytes u \<le> uSize u"
        using uok False by (auto simp: upload_ok_def session_ok_def)
      have w: "wrap64 (uSize u - uReceivedBytes u) = uSize u - uReceivedBytes u"
        using sz fits by (intro wrap64_nonneg_id) auto
      have run: "append_locked E i offset chunkSize bd checksum now s =
          (if chunkSize > uSize u - uReceivedBytes u then (Inl ErrUploadTooLarge, t)
           else append_copy E i chunkSize bd checksum now u (length b) (uSize u - uReceivedBytes u) t)"
        using get x False t data rcv sz w by (simp add: append_locked_def go_simps Let_def)
      note copy = append_copy_calm [OF t(2) td x _ rcv assms(4,5), of E bd checksum now]
      show ?thesis
      proof (cases "accept_chunk E chunkSize bd checksum (uSize u - uReceivedBytes u)")
        case (Inl e)
        then show ?thesis
          using run copy False x t fits by (auto simp: abs_append_def)
      next
        case (Inr dat)
        let ?u = "extend_session (int (length dat)) now u"
        let ?t = "put_entry (sessionManifest i) (NFile (Doc (SessionDoc ?u)))
                (put_entry (sessionData i) (NFile (Blob (b @ dat))) t)"
        have len: "int (length dat) \<le> uSize u - uReceivedBytes u"
          using Inr by (auto simp: accept_chunk_def Let_def split: if_splits)
        have "represents (a\<lparr>aUploads := (aUploads a)(i \<mapsto> (?u, b @ dat))\<rparr>) ?t"
        proof (rule represents_update_upload [OF t(3) _ x])
          show "upload_ok i (?u, b @ dat)"
            using uok False len rcv by (auto simp: upload_ok_def session_ok_def completed_ok_def extend_session_def)
          show "upload_item (?u, b @ dat) = upload_item (u, b)"
            by (simp add: upload_item_def extend_session_def)
          show "look ?t = (look t)(sessionDir i \<mapsto> NDir, sessionManifest i \<mapsto> NFile (Doc (SessionDoc (fst (?u, b @ dat)))),
                 sessionData i := session_child (?u, b @ dat) ''data.part'')"
            using on_disk_paths(5) [OF td, of i] x False
            by (simp add: session_child_def extend_session_def fun_upd_idem fun_upd_twist)
        qed simp
        then show ?thesis
          using Inr run copy False x t fits by (auto simp: abs_append_def Let_def)
      qed
    qed
  qed
qed

section \<open>CompleteUpload and AbortUpload without failures\<close>

definition abs_complete ::
  "env \<Rightarrow> string \<Rightarrow> string \<Rightarrow> time \<Rightarrow> astore \<Rightarrow> err + file_info \<times> astore" where
  "abs_complete E i fileID now a =
     (case aUploads a i of
        None \<Rightarrow> Inl ErrUploadNotFound
      | Some (u, b) \<Rightarrow>
          if uStatus u = UploadStatusCompleted
          then (case aFiles a (uFileID u) of None \<Rightarrow> Inl ErrNotFound | Some x \<Rightarrow> Inr (fst x, a))
          else if uReceivedBytes u \<noteq> uSize u then Inl ErrUploadIncomplete
          else if uChecksum u \<noteq> '''' \<and> \<not> equal_fold (uChecksum u) (sha256 E b) then Inl ErrUploadChecksumMismatch
          else let f = completed_file fileID (sha256 E b) u;
                   u' = u\<lparr>uFileID := fileID, uStatus := UploadStatusCompleted, uUpdatedAt := now\<rparr>
               in Inr (f, a\<lparr>aFiles := (aFiles a)(fileID \<mapsto> (f, b)), aUploads := (aUploads a)(i \<mapsto> (u', []))\<rparr>))"

definition abs_abort :: "string \<Rightarrow> astore \<Rightarrow> err + astore" where
  "abs_abort i a =
     (case aUploads a i of
        None \<Rightarrow> Inr a
      | Some (u, b) \<Rightarrow>
          if uStatus u = UploadStatusCompleted then Inl ErrInvalidUpload
          else Inr (a\<lparr>aUploads := (aUploads a)(i := None)\<rparr>))"

lemma abort_refines:
  assumes "script s = []" "represents a s" "validFileID i"
  shows "\<exists>t. script t = [] \<and>
    (case abs_abort i a of
       Inl e \<Rightarrow> abortUpload None i s = (Inl e, t) \<and> represents a t
     | Inr a' \<Rightarrow> abortUpload None i s = (Inr (), t) \<and> represents a' t)"
proof -
  have d: "on_disk a s" "good a" using assms(2) by (auto simp: represents_def)
  note get = getUploadUnlocked_calm [OF assms(1) d, of i]
  show ?thesis
  proof (cases "aUploads a i")
    case None
    then show ?thesis using get assms by (auto simp: abortUpload_def abs_abort_def validateUploadID_def)
  next
    case (Some x)
    let ?t = "prune_entry (sessionDir i) s"
    have "on_disk (a\<lparr>aUploads := (aUploads a)(i := None)\<rparr>) ?t" by (rule on_disk_prune_upload [OF d(1)])
    then have "syncDirectory (Uploads, []) ?t = (Inr (), ?t)"
      using assms(1) by (simp add: go_simps del: look_prune_entry)
    then show ?thesis
      using Some get assms represents_release_upload [OF assms(2) Some] session_status [OF d(2) Some]
      by (auto simp: abortUpload_def abs_abort_def validateUploadID_def go_simps split: prod.split)
  qed
qed

text \<open>The reservation of the session becomes a file of the same size.\<close>

lemma represents_complete:
  assumes "represents a s" "same_index s s'" "aUploads a i = Some (u, b)"
    and "uStatus u = UploadStatusUploading" "aFiles a j = None" "aTrash a j = None"
    and "file_ok j x" "fSize (fst x) = uSize u" "fMetadata (fst x) = uMetadata u"
    and "upload_ok i y" "uStatus (fst y) = UploadStatusCompleted"
    and "look s' = (look s)(objectPath j \<mapsto> NFile (Blob (snd x)), manifestPath j \<mapsto> NFile (Doc (FileDoc (fst x))),
           sessionManifest i \<mapsto> NFile (Doc (SessionDoc (fst y))), sessionData i := None)"
  shows "represents (a\<lparr>aFiles := (aFiles a)(j \<mapsto> x), aUploads := (aUploads a)(i \<mapsto> y)\<rparr>)
    (moveUsage (ownerFromMetadata (uMetadata u)) (Some UsageUpload) (Some UsageFile) (uSize u) 1 s')"
proof (rule represents_moveUsage [OF assms(2)])
  let ?a = "a\<lparr>aFiles := (aFiles a)(j \<mapsto> x), aUploads := (aUploads a)(i \<mapsto> y)\<rparr>"
  let ?w = "ownerFromMetadata (uMetadata u)"
  have g: "good a" "totals_fit a" "on_disk a s" using assms(1) by (auto simp: represents_def)
  show good: "good ?a" using g(1) assms(6,7,10) by (auto simp: good_def)
  have it: "books a UsageUpload i = Some (?w, uSize u)"
    using assms(3,4) by (simp add: upload_item_def)
  have books: "books ?a = (books a)(UsageUpload := (books a UsageUpload)(i := None),
      UsageFile := (books a UsageFile)(j \<mapsto> (?w, uSize u)))"
  proof -
    have "books ?a = (books (a\<lparr>aFiles := (aFiles a)(j \<mapsto> x)\<rparr>))
        (UsageUpload := (books (a\<lparr>aFiles := (aFiles a)(j \<mapsto> x)\<rparr>) UsageUpload)(i := upload_item y))"
      using books_upd(5) [of "a\<lparr>aFiles := (aFiles a)(j \<mapsto> x)\<rparr>" i y] by simp
    then show ?thesis
      using assms(8,9,11) by (simp add: books_upd(1) upload_item_def file_item_def fun_upd_twist)
  qed
  have owned: "owned ?a w = owned a w" for w
    using ledger.item_sum_upd [of "books a UsageFile" j ?w "uSize u" w] books_finite [OF g(1)] assms(5)
      ledger.item_sum_del [of "books a UsageUpload" i ?w "uSize u" w] it
    by (simp add: owned_def books)
  show fit: "totals_fit ?a" using g(2) by (simp add: totals_fit_def owned)
  have "on_disk (a\<lparr>aFiles := (aFiles a)(j \<mapsto> x)\<rparr>) (put_entry (manifestPath j) (NFile (Doc (FileDoc (fst x))))
      (put_entry (objectPath j) (NFile (Blob (snd x))) s))"
    by (rule on_disk_put_file [OF g(3)]) simp
  then have "on_disk (a\<lparr>aFiles := (aFiles a)(j \<mapsto> x),
      aUploads := (aUploads (a\<lparr>aFiles := (aFiles a)(j \<mapsto> x)\<rparr>))(i \<mapsto> y)\<rparr>) s'"
    using assms(11,12) on_disk_paths(5) [OF g(3), of i] assms(3)
    by (intro on_disk_put_upload) (auto simp: session_child_def path_defs fun_eq_iff)
  then show "on_disk ?a s'" by simp
  assume "ledger.balanced (books a) (sUsage s)"
  then have "ledger.balanced ((books a)(UsageUpload := (books a UsageUpload)(i := None),
      UsageFile := (books a UsageFile)(j \<mapsto> (normalizeOwner ?w, uSize u))))
      (move_index ?w (Some UsageUpload) (Some UsageFile) (uSize u) 1 (sUsage s))"
    using it assms(5) fits_books [OF g(1,2)] fits_books [OF good fit] books
    by (intro ledger.balanced_transfer) auto
  then show "ledger.balanced (books ?a)
      (move_index ?w (Some UsageUpload) (Some UsageFile) (uSize u) 1 (sUsage s))"
    by (simp add: books)
qed (use assms(1) in simp)

lemma complete_commit_calm:
  assumes "script s = []" "on_disk a s" "aUploads a i = Some (u, b)" "uStatus u = UploadStatusUploading"
    and "aFiles a j = None"
  shows "complete_commit i j checksum now u s =
    (let f = completed_file j checksum u;
         u' = u\<lparr>uFileID := j, uStatus := UploadStatusCompleted, uUpdatedAt := now\<rparr>
     in (Inr f, moveUsage (ownerFromMetadata (uMetadata u)) (Some UsageUpload) (Some UsageFile) (uSize u) 1
          (put_entry (sessionManifest i) (NFile (Doc (SessionDoc u')))
            (put_entry (manifestPath j) (NFile (Doc (FileDoc f)))
              (put_entry (objectPath j) (NFile (Blob b)) (del_entry (sessionData i) s))))))"
proof -
  have data: "look s (sessionData i) = Some (NFile (Blob b))"
    using on_disk_paths(8) [OF assms(2), of i] assms(3,4) by (simp add: session_child_def)
  have ne: "sessionData i \<noteq> objectPath j" "sessionData i \<noteq> manifestPath j"
    "sessionManifest i \<noteq> objectPath j" "sessionManifest i \<noteq> manifestPath j"
    "sessionDir i \<noteq> objectPath j" "sessionDir i \<noteq> manifestPath j"
    "objectPath j \<noteq> sessionData i" "manifestPath j \<noteq> sessionData i"
    "tmp_of (sessionManifest i) \<noteq> objectPath j" "tmp_of (sessionManifest i) \<noteq> manifestPath j"
    "tmp_of (manifestPath j) \<noteq> sessionData i" "(Objects, []) \<noteq> sessionData i" "(Metadata, []) \<noteq> sessionData i"
    by (simp_all add: path_defs)
  show ?thesis
    using assms(1,3,4,5) data on_disk_paths [OF assms(2), of i] on_disk_paths [OF assms(2), of j] assms(2) ne
    by (simp add: complete_commit_def go_simps put_path_facts writeManifest_def writeUploadManifest_def
        write_doc_calm Let_def)
qed

lemma complete_locked_refines:
  assumes "script s = []" "represents a s" "validFileID j" "digest_nonempty E"
    and "aFiles a j = None" "aTrash a j = None"
  shows "\<exists>t. script t = [] \<and>
    (case abs_complete E i j now a of
       Inl e \<Rightarrow> complete_locked E i j now s = (Inl e, t) \<and> represents a t
     | Inr (f, a') \<Rightarrow> complete_locked E i j now s = (Inr f, t) \<and> represents a' t)"
proof -
  have d: "on_disk a s" "good a" using assms(2) by (auto simp: represents_def)
  note get = getUploadUnlocked_calm [OF assms(1) d, of i]
  show ?thesis
  proof (cases "aUploads a i")
    case None
    then show ?thesis using get assms(1,2) by (auto simp: complete_locked_def abs_complete_def)
  next
    case (Some x)
    obtain u b where x: "aUploads a i = Some (u, b)" using Some by (cases x) auto
    have uok: "upload_ok i (u, b)" using goodD(4) [OF d(2) x] .
    show ?thesis
    proof (cases "uStatus u = UploadStatusCompleted")
      case True
      then have "uFileID u \<noteq> ''''" using uok by (auto simp: upload_ok_def completed_ok_def)
      with True show ?thesis
        using get x assms(1,2) getUnlocked_calm [OF assms(1) d, of "uFileID u"]
        by (auto simp: complete_locked_def abs_complete_def split: option.split)
    next
      case False
      then have st: "uStatus u = UploadStatusUploading" and rcv: "uReceivedBytes u = int (length b)"
        using uok by (auto simp: upload_ok_def session_ok_def)
      have data: "look s (sessionData i) = Some (NFile (Blob b))"
        using on_disk_paths(8) [OF d(1), of i] x st by (simp add: session_child_def)
      let ?bad = "uChecksum u \<noteq> '''' \<and> \<not> equal_fold (uChecksum u) (sha256 E b)"
      have run: "complete_locked E i j now s =
         (if uReceivedBytes u \<noteq> uSize u then (Inl ErrUploadIncomplete, s)
          else if ?bad then (Inl ErrUploadChecksumMismatch, s)
          else complete_commit i j (sha256 E b) now u s)"
        using get x st data assms(1) by (simp add: complete_locked_def go_simps Let_def)
      show ?thesis
      proof (cases "uReceivedBytes u \<noteq> uSize u \<or> ?bad")
        case True
        then show ?thesis using run x st assms(1,2) by (auto simp: abs_complete_def)
      next
        case False
        let ?f = "completed_file j (sha256 E b) u"
        let ?u = "u\<lparr>uFileID := j, uStatus := UploadStatusCompleted, uUpdatedAt := now\<rparr>"
        have f: "file_ok j (?f, b)"
          using False rcv assms(3,4) by (auto simp: file_ok_def live_file_ok_def completed_file_def digest_nonempty_def)
        have u: "upload_ok i (?u, [])"
          using uok assms(3) validFileID_safe(3) [OF assms(3)]
          by (auto simp: upload_ok_def session_ok_def completed_ok_def)
        have "represents (a\<lparr>aFiles := (aFiles a)(j \<mapsto> (?f, b)), aUploads := (aUploads a)(i \<mapsto> (?u, []))\<rparr>)
          (moveUsage (ownerFromMetadata (uMetadata u)) (Some UsageUpload) (Some UsageFile) (uSize u) 1
            (put_entry (sessionManifest i) (NFile (Doc (SessionDoc ?u)))
              (put_entry (manifestPath j) (NFile (Doc (FileDoc ?f)))
                (put_entry (objectPath j) (NFile (Blob b)) (del_entry (sessionData i) s)))))"
          using st assms(5,6) f u
          by (intro represents_complete [OF assms(2) _ x]) (auto simp: completed_file_def path_defs fun_eq_iff)
        then show ?thesis
          using run False x st assms(1) complete_commit_calm [OF assms(1) d(1) x st assms(5), of "sha256 E b" now]
          by (auto simp: abs_complete_def Let_def)
      qed
    qed
  qed
qed

section \<open>What resumable uploads promise\<close>

text \<open>A store with one unfinished upload of ten bytes, five of them received.\<close>

definition example_session :: upload_session where
  "example_session = \<lparr>uID = example_id, uFileID = '''', uName = ''notes.txt'',
     uContentType = ''text/plain'', uSize = 10, uChecksum = '''', uReceivedBytes = 5,
     uStatus = UploadStatusUploading, uCreatedAt = 7, uUpdatedAt = 7, uMetadata = [(''owner'', ''alice'')]\<rparr>"

definition upload_astore :: astore where
  "upload_astore = empty_astore\<lparr>aUploads := [example_id \<mapsto> (example_session, ''hello'')]\<rparr>"

definition upload_store :: store where
  "upload_store = new_state example_options
     (fresh_entries @ [(sessionDir example_id, NDir),
        (sessionManifest example_id, NFile (Doc (SessionDoc example_session))),
        (sessionData example_id, NFile (Blob ''hello''))])"

lemma empty_fields [simp]:
  "aFiles empty_astore = Map.empty" "aTrash empty_astore = Map.empty" "aUploads empty_astore = Map.empty"
  by (simp_all add: empty_astore_def)

lemma owned_upload_astore: "owned upload_astore w = (if w = ''alice'' then 10 else 0)"
proof -
  have "ownerFromMetadata [(''owner'', ''alice'')] = ''alice''" by code_simp
  moreover have "good empty_astore" using example_represents by (simp add: represents_def)
  ultimately show ?thesis
    using owned_put_upload [of empty_astore example_id "(example_session, ''hello'')" w]
    by (simp add: owned_empty upload_astore_def example_session_def)
qed

lemma map_of_snoc:
  "fst ` set es \<inter> {p} = {} \<Longrightarrow> map_of (es @ (p, n) # ys) = (map_of (es @ ys))(p \<mapsto> n)"
  by (induction es) (auto simp: fun_eq_iff)

lemma represents_reopened:
  assumes "represents a (new_state opts es)" "on_disk a' (new_state opts es')" "good a'" "totals_fit a'"
  shows "represents a' (new_state opts es')"
  using assms by (simp add: represents_def accounted_def new_state_def)

lemma upload_represents: "represents upload_astore upload_store"
proof -
  let ?x = "(example_session, ''hello'')"
  have d: "on_disk empty_astore example_store" using example_represents by (simp add: represents_def)
  have look: "look upload_store = (look example_store)(sessionDir example_id \<mapsto> NDir,
      sessionManifest example_id \<mapsto> NFile (Doc (SessionDoc example_session)),
      sessionData example_id \<mapsto> NFile (Blob ''hello''))"
    unfolding upload_store_def example_store_def look_new_state
    by (subst map_of_snoc, force simp: fresh_entries_def path_defs)+ (simp add: fun_upd_twist)
  have ok: "upload_ok example_id ?x"
    using example_id_valid
    by (simp add: upload_ok_def session_ok_def completed_ok_def example_session_def)
  have "good upload_astore"
    using ok by (auto simp: good_def upload_astore_def empty_astore_def)
  moreover have "totals_fit upload_astore"
    by (simp add: totals_fit_def owned_upload_astore max_int64_def)
  moreover have "on_disk upload_astore upload_store"
    using on_disk_put_upload [OF d, of upload_store example_id ?x] look
    by (simp add: session_child_def example_session_def upload_astore_def)
  ultimately show ?thesis
    using example_represents represents_reopened unfolding upload_store_def example_store_def by blast
qed

lemma upload_fields [simp]:
  "script upload_store = []" "sUploadTTL upload_store = 60" "sOwnerQuotaBytes upload_store = 1000"
  "sPauseAtPercent upload_store = 0" "sLoaded upload_store = False" "sLoadErr upload_store = None"
  by (simp_all add: upload_store_def new_state_def example_options_def)

lemma upload_lookup [simp]: "aUploads upload_astore example_id = Some (example_session, ''hello'')"
  "aFiles upload_astore = Map.empty" "aTrash upload_astore = Map.empty"
  by (simp_all add: upload_astore_def empty_astore_def)

lemma upload_other: "aUploads upload_astore other_id = None"
proof -
  have "other_id \<noteq> example_id" by code_simp
  then show ?thesis by (simp add: upload_astore_def)
qed

lemma upload_not_paused: "not_paused E upload_store"
  by (simp add: not_paused_def writesPausedUnlocked_def)

text \<open>StartUpload reserves the declared size: after the expiry sweep it creates an empty
  session if the owner's total stays within the quota, and refuses otherwise.\<close>

theorem start_refines:
  assumes "script s = []" "represents a s" "not_paused E s" "validFileID newID" "0 < mSize input"
    and "mChecksum input = '''' \<or> isSHA256 (mChecksum input)" "aUploads a newID = None"
    and "sOwnerQuotaBytes s = 0 \<Longrightarrow>
      owned a (ownerFromMetadata (mMetadata input)) + mSize input \<le> max_int64"
  shows "\<exists>t. startUpload E None newID now later input s =
      (fst (abs_start E (sOwnerQuotaBytes s) (sUploadTTL s) newID now later input a), t) \<and>
    represents (snd (abs_start E (sOwnerQuotaBytes s) (sUploadTTL s) newID now later input a)) t \<and> script t = []"
  using start_locked_refines [OF assms(1-5,7,8), of now later] assms(5,6) by (auto simp: startUpload_def)

theorem start_refines_witness:
  "\<exists>t. startUpload example_env None other_id 8 9
      \<lparr>mName = ''big.bin'', mContentType = '''', mSize = 991, mChecksum = '''', mMetadata = [(''owner'', ''alice'')]\<rparr>
      upload_store = (Inl ErrQuotaExceeded, t) \<and> represents upload_astore t"
proof -
  let ?in = "\<lparr>mName = ''big.bin'', mContentType = '''', mSize = 991, mChecksum = '''', mMetadata = [(''owner'', ''alice'')]\<rparr>"
  have v: "validFileID other_id" and ne: "other_id \<noteq> example_id"
    and w: "ownerFromMetadata [(''owner'', ''alice'')] = ''alice''" by code_simp+
  have "swept 60 9 upload_astore = {}"
    by (auto simp: swept_def expired_def upload_astore_def empty_astore_def example_session_def
        time_sub_def min_int64_def max_int64_def split: if_splits)
  then show ?thesis
    using start_refines [OF upload_fields(1) upload_represents upload_not_paused v, of ?in example_env 8 9] ne w
      owned_upload_astore upload_other
    by (auto simp: abs_start_def Let_def)
qed

text \<open>C18. AppendUpload accepts a chunk exactly at the received offset, with exactly the announced
  number of bytes, within the declared size and with the announced digest, and then the session's
  bytes are extended by it; every refused chunk leaves bytes and record as they were.\<close>

theorem append_refines:
  assumes "script s = []" "represents a s" "not_paused E s" "validFileID i"
    and "0 \<le> offset" "0 < chunkSize" "chunkSize < max_int64" "checksum = '''' \<or> isSHA256 checksum"
  shows "\<exists>t. script t = [] \<and>
    (case abs_append E i offset chunkSize bd checksum now a of
       Inl e \<Rightarrow> appendUpload E None i offset chunkSize (Some bd) checksum now s = (Inl e, t) \<and> represents a t
     | Inr (u, a') \<Rightarrow> appendUpload E None i offset chunkSize (Some bd) checksum now s = (Inr u, t) \<and> represents a' t)"
proof -
  have run: "appendUpload E None i offset chunkSize (Some bd) checksum now s =
      append_locked E i offset chunkSize bd checksum now s"
    using assms by (auto simp: appendUpload_def validateUploadID_def)
  show ?thesis
    unfolding run
    using append_locked_refines [OF assms(1-3,6,7), of i offset bd checksum now] by blast
qed

theorem append_refines_witness:
  "\<exists>u t. appendUpload example_env None example_id 5 3 (Some \<lparr>bData = ''wor'', bErr = None\<rparr>) '''' 8 upload_store
       = (Inr u, t) \<and>
     represents (upload_astore\<lparr>aUploads := (aUploads upload_astore)(example_id \<mapsto> (u, ''hellowor''))\<rparr>) t"
proof -
  have "abs_append example_env example_id 5 3 \<lparr>bData = ''wor'', bErr = None\<rparr> '''' 8 upload_astore =
    Inr (extend_session 3 8 example_session,
      upload_astore\<lparr>aUploads := (aUploads upload_astore)(example_id \<mapsto> (extend_session 3 8 example_session, ''hellowor''))\<rparr>)"
    by (simp add: abs_append_def accept_chunk_def Let_def example_session_def)
  then show ?thesis
    using append_refines [OF upload_fields(1) upload_represents upload_not_paused example_id_valid, of 5 3 "''''"
        example_env "\<lparr>bData = ''wor'', bErr = None\<rparr>" 8]
    by (auto simp: example_session_def max_int64_def)
qed

text \<open>C19. CompleteUpload turns a fully received session with the declared digest into a file with
  its name, type, owner and bytes, charged once, and marks the session completed; completing it
  again returns the same file. Otherwise nothing changes.\<close>

theorem complete_refines:
  assumes "script s = []" "represents a s" "validFileID i" "validFileID newID" "digest_nonempty E"
    and "aFiles a newID = None" "aTrash a newID = None"
  shows "\<exists>t. script t = [] \<and>
    (case abs_complete E i newID now a of
       Inl e \<Rightarrow> completeUpload E None i newID now s = (Inl e, t) \<and> represents a t
     | Inr (f, a') \<Rightarrow> completeUpload E None i newID now s = (Inr f, t) \<and> represents a' t)"
proof -
  have run: "completeUpload E None i newID now s = complete_locked E i newID now s"
    using assms by (simp add: completeUpload_def validateUploadID_def)
  show ?thesis
    unfolding run using complete_locked_refines [OF assms(1,2,4,5,6,7), of i now] by blast
qed

theorem complete_refines_witness:
  "\<exists>t. completeUpload example_env None example_id other_id 8 upload_store = (Inl ErrUploadIncomplete, t) \<and>
     represents upload_astore t"
proof -
  have "validFileID other_id" by code_simp
  then show ?thesis
    using complete_refines [OF upload_fields(1) upload_represents example_id_valid _ example_digest, of other_id 8]
    by (auto simp: abs_complete_def example_session_def)
qed

section \<open>A whole upload\<close>

text \<open>A client that sends chunks one after the other, each at the offset reached.\<close>

fun send_chunks :: "env \<Rightarrow> string \<Rightarrow> (bytes \<times> time) list \<Rightarrow> int \<Rightarrow> store \<Rightarrow> (err + unit) \<times> store" where
  "send_chunks E i [] offset s = (Inr (), s)"
| "send_chunks E i ((c, now) # cs) offset s =
     (case appendUpload E None i offset (int (length c)) (Some \<lparr>bData = c, bErr = None\<rparr>) '''' now s of
        (Inl e, s) \<Rightarrow> (Inl e, s)
      | (Inr _, s) \<Rightarrow> send_chunks E i cs (offset + int (length c)) s)"

lemma not_paused_off: "sPauseAtPercent s = 0 \<Longrightarrow> not_paused E s"
  by (simp add: not_paused_def writesPausedUnlocked_def)

lemma abs_append_next:
  assumes "aUploads a i = Some (u, b)" "uStatus u = UploadStatusUploading"
    and "int (length c) \<le> uSize u - uReceivedBytes u"
  shows "abs_append E i (uReceivedBytes u) (int (length c)) \<lparr>bData = c, bErr = None\<rparr> '''' now a =
    Inr (extend_session (int (length c)) now u,
         a\<lparr>aUploads := (aUploads a)(i \<mapsto> (extend_session (int (length c)) now u, b @ c))\<rparr>)"
  using assms by (simp add: abs_append_def accept_chunk_def Let_def)

lemma append_next_run:
  assumes "script s = []" "represents a s" "sPauseAtPercent s = 0" "validFileID i"
    and "aUploads a i = Some (u, b)" "uStatus u = UploadStatusUploading" "uSize u < max_int64"
    and "c \<noteq> []" "int (length c) \<le> uSize u - uReceivedBytes u"
  shows "\<exists>t. appendUpload E None i (uReceivedBytes u) (int (length c)) (Some \<lparr>bData = c, bErr = None\<rparr>) '''' now s =
      (Inr (extend_session (int (length c)) now u), t) \<and> script t = [] \<and> sPauseAtPercent t = 0 \<and>
    represents (a\<lparr>aUploads := (aUploads a)(i \<mapsto> (extend_session (int (length c)) now u, b @ c))\<rparr>) t"
proof -
  have g: "good a" using assms(2) by (simp add: represents_def)
  have r: "0 \<le> uReceivedBytes u"
    using goodD(4) [OF g assms(5)] by (simp add: upload_ok_def session_ok_def)
  have "appendUpload E None i (uReceivedBytes u) (int (length c)) (Some \<lparr>bData = c, bErr = None\<rparr>) '''' now s =
      append_locked E i (uReceivedBytes u) (int (length c)) \<lparr>bData = c, bErr = None\<rparr> '''' now s"
    using assms(4,8) r by (simp add: appendUpload_def validateUploadID_def)
  then show ?thesis
    using append_locked_refines [OF assms(1,2) not_paused_off [OF assms(3)], of "int (length c)" E i "uReceivedBytes u"
        "\<lparr>bData = c, bErr = None\<rparr>" "''''" now] abs_append_next [OF assms(5,6,9), of E now] assms r
    by (auto simp: same_config_def)
qed

lemma send_chunks_run:
  assumes "script s = []" "represents a s" "sPauseAtPercent s = 0" "validFileID i"
    and "aUploads a i = Some (u, b)" "uStatus u = UploadStatusUploading" "uSize u < max_int64"
    and "\<forall>c\<in>set cs. fst c \<noteq> []" "int (length (concat (map fst cs))) \<le> uSize u - uReceivedBytes u"
  shows "\<exists>t v. send_chunks E i cs (uReceivedBytes u) s = (Inr (), t) \<and> script t = [] \<and>
    represents (a\<lparr>aUploads := (aUploads a)(i \<mapsto> (v, b @ concat (map fst cs)))\<rparr>) t \<and>
    v = u\<lparr>uReceivedBytes := uReceivedBytes u + int (length (concat (map fst cs))), uUpdatedAt := uUpdatedAt v\<rparr>"
  using assms
proof (induction cs arbitrary: s a u b)
  case Nil
  then show ?case by (intro exI [of _ s] exI [of _ u]) (simp add: fun_upd_idem)
next
  case (Cons x cs)
  obtain c now where x: "x = (c, now)" by (cases x)
  let ?u = "extend_session (int (length c)) now u"
  let ?a = "a\<lparr>aUploads := (aUploads a)(i \<mapsto> (?u, b @ c))\<rparr>"
  obtain t where t: "appendUpload E None i (uReceivedBytes u) (int (length c)) (Some \<lparr>bData = c, bErr = None\<rparr>) '''' now s =
      (Inr ?u, t)" "script t = []" "sPauseAtPercent t = 0" "represents ?a t"
    using append_next_run [OF Cons.prems(1-7), of c E now] Cons.prems(8,9) x by auto
  have u: "aUploads ?a i = Some (?u, b @ c)" "uStatus ?u = UploadStatusUploading" "uSize ?u = uSize u"
    "uReceivedBytes ?u = uReceivedBytes u + int (length c)"
    using Cons.prems(6) by (simp_all add: extend_session_def)
  have sub: "uSize ?u < max_int64" "\<forall>c\<in>set cs. fst c \<noteq> []"
    "int (length (concat (map fst cs))) \<le> uSize ?u - uReceivedBytes ?u"
    using Cons.prems(7,8,9) u(3,4) x by auto
  obtain t' v where run: "send_chunks E i cs (uReceivedBytes ?u) t = (Inr (), t')" "script t' = []"
    and rep: "represents (?a\<lparr>aUploads := (aUploads ?a)(i \<mapsto> (v, (b @ c) @ concat (map fst cs)))\<rparr>) t'"
    and v: "v = ?u\<lparr>uReceivedBytes := uReceivedBytes ?u + int (length (concat (map fst cs))), uUpdatedAt := uUpdatedAt v\<rparr>"
    using Cons.IH [OF t(2,4,3) Cons.prems(4) u(1,2) sub] by blast
  have "?a\<lparr>aUploads := (aUploads ?a)(i \<mapsto> (v, (b @ c) @ concat (map fst cs)))\<rparr>
      = a\<lparr>aUploads := (aUploads a)(i \<mapsto> (v, b @ concat (map fst (x # cs))))\<rparr>"
    using x by simp
  with rep have rep': "represents (a\<lparr>aUploads := (aUploads a)(i \<mapsto> (v, b @ concat (map fst (x # cs))))\<rparr>) t'"
    by (simp only:)
  have "send_chunks E i (x # cs) (uReceivedBytes u) s = (Inr (), t')"
    using t(1) run(1) x u(4) by simp
  moreover have "v = u\<lparr>uReceivedBytes := uReceivedBytes u + int (length (concat (map fst (x # cs)))), uUpdatedAt := uUpdatedAt v\<rparr>"
    using x by (subst v) (simp add: extend_session_def add.assoc)
  ultimately show ?case using rep' run(2) by blast
qed

text \<open>C15. A resumable upload returns what was sent: whatever the sizes of the chunks, if they fill
  the declared size and match the declared digest, CompleteUpload succeeds and the new file opens
  with the concatenation of everything received.\<close>

theorem chunked_upload_roundtrip:
  assumes "script s = []" "represents a s" "sPauseAtPercent s = 0" "validFileID i"
    and "aUploads a i = Some (u, b)" "uStatus u = UploadStatusUploading" "uSize u < max_int64"
    and "\<forall>c\<in>set cs. fst c \<noteq> []" "int (length (b @ concat (map fst cs))) = uSize u"
    and "uChecksum u = '''' \<or> equal_fold (uChecksum u) (sha256 E (b @ concat (map fst cs)))"
    and "validFileID newID" "digest_nonempty E" "aFiles a newID = None" "aTrash a newID = None"
  shows "\<exists>t1 f t2. send_chunks E i cs (uReceivedBytes u) s = (Inr (), t1) \<and>
    completeUpload E None i newID now t1 = (Inr f, t2) \<and>
    openFile None newID t2 = (Inr (f, b @ concat (map fst cs)), t2) \<and> fName f = uName u"
proof -
  have g: "good a" using assms(2) by (simp add: represents_def)
  have r: "uReceivedBytes u = int (length b)"
    using goodD(4) [OF g assms(5)] assms(6) by (simp add: upload_ok_def)
  obtain t v where t: "send_chunks E i cs (uReceivedBytes u) s = (Inr (), t)" "script t = []"
    and rep: "represents (a\<lparr>aUploads := (aUploads a)(i \<mapsto> (v, b @ concat (map fst cs)))\<rparr>) t"
    and v: "v = u\<lparr>uReceivedBytes := uReceivedBytes u + int (length (concat (map fst cs))), uUpdatedAt := uUpdatedAt v\<rparr>"
    using send_chunks_run [OF assms(1-8), of E] assms(9) r by auto
  let ?a = "a\<lparr>aUploads := (aUploads a)(i \<mapsto> (v, b @ concat (map fst cs)))\<rparr>"
  let ?f = "completed_file newID (sha256 E (b @ concat (map fst cs))) v"
  have v': "uStatus v = uStatus u" "uReceivedBytes v = uSize v" "uChecksum v = uChecksum u" "uName v = uName u"
    using assms(9) r by (subst v; simp)+
  have "abs_complete E i newID now ?a = Inr (?f, ?a\<lparr>aFiles := (aFiles ?a)(newID \<mapsto> (?f, b @ concat (map fst cs))),
      aUploads := (aUploads ?a)(i \<mapsto> (v\<lparr>uFileID := newID, uStatus := UploadStatusCompleted, uUpdatedAt := now\<rparr>, []))\<rparr>)"
    using v' assms(6,10) by (auto simp: abs_complete_def Let_def)
  then obtain t2 where t2: "complete_locked E i newID now t = (Inr ?f, t2)" "script t2 = []"
    and rep2: "represents (?a\<lparr>aFiles := (aFiles ?a)(newID \<mapsto> (?f, b @ concat (map fst cs))),
      aUploads := (aUploads ?a)(i \<mapsto> (v\<lparr>uFileID := newID, uStatus := UploadStatusCompleted, uUpdatedAt := now\<rparr>, []))\<rparr>) t2"
    using complete_locked_refines [OF t(2) rep assms(11,12), of i now] assms(13,14) by auto
  have "openFile None newID t2 = (Inr (?f, b @ concat (map fst cs)), t2)"
    using represents_openFile [OF t2(2) rep2] assms(11) by simp
  moreover have "completeUpload E None i newID now t = (Inr ?f, t2)"
    using t2(1) assms(4) by (simp add: completeUpload_def validateUploadID_def)
  ultimately show ?thesis using t(1) v' by (auto simp: completed_file_def)
qed

theorem chunked_upload_roundtrip_witness:
  "\<exists>t1 f t2. send_chunks example_env example_id [(''wor'', 8), (''ld'', 9)] 5 upload_store = (Inr (), t1) \<and>
    completeUpload example_env None example_id other_id 10 t1 = (Inr f, t2) \<and>
    openFile None other_id t2 = (Inr (f, ''helloworld''), t2)"
proof -
  have "validFileID other_id" by code_simp
  then show ?thesis
    using chunked_upload_roundtrip [OF upload_fields(1) upload_represents upload_fields(4) example_id_valid
        upload_lookup(1), of "[(''wor'', 8), (''ld'', 9)]" example_env other_id 10] example_digest
    by (auto simp: example_session_def max_int64_def)
qed

section \<open>Uploads and failing syncs\<close>

text \<open>A failed directory sync breaks the session for good: the new manifest is already in
  place when the sync of the session directory fails, and the rollback shortens the part below the
  size the manifest records, so from then on the session is reported corrupt although every byte
  acknowledged before is still there.\<close>

lemma append_sync_failure_breaks_session:
  "case appendUpload example_env None example_id 5 3 (Some \<lparr>bData = ''wor'', bErr = None\<rparr>) '''' 8
      (upload_store\<lparr>script := replicate 11 None @ [Some 0]\<rparr>) of
     (r, t) \<Rightarrow> r = Inl (OSErr EIO) \<and> script t = [] \<and>
       look t (sessionData example_id) = Some (NFile (Blob ''hello'')) \<and>
       fst (getUpload None example_id t) = Inl ErrCorruptMetadata"
  by code_simp

text \<open>The same session with all of its five bytes.\<close>

definition full_store :: store where
  "full_store = new_state example_options
     (fresh_entries @ [(sessionDir example_id, NDir),
        (sessionManifest example_id, NFile (Doc (SessionDoc (example_session\<lparr>uSize := 5\<rparr>)))),
        (sessionData example_id, NFile (Blob ''hello''))])"

text \<open>A failed directory sync during CompleteUpload destroys the upload: the part was renamed
  to the object, the clean-up deletes the object, and the session is left without its bytes.\<close>

lemma complete_failure_loses_upload:
  "case completeUpload example_env None example_id other_id 8
      (full_store\<lparr>script := replicate 7 None @ [Some 0]\<rparr>) of
     (r, t) \<Rightarrow> r = Inl (OSErr EIO) \<and> script t = [] \<and>
       look t (objectPath other_id) = None \<and> look t (sessionData example_id) = None \<and>
       fst (getUpload None example_id t) = Inl ErrCorruptMetadata"
  by code_simp

end
