(* ===== verification/StoreTrash.thy ===== *)
theory StoreTrash
  imports StoreUpload
begin

text \<open>
  Deletion: \<open>Delete\<close>, \<open>ListTrash\<close> and \<open>Restore\<close> of \<open>pkg/files/store.go\<close> and \<open>PurgeTrash\<close> of
  \<open>pkg/files/recovery.go\<close>. A deleted file is moved to a trash entry, from which it can be
  restored until it is purged.
\<close>

section \<open>Delete\<close>

text \<open>The deferred function: undo the renames and remove the trash entry.\<close>

definition delete_rollback :: "string \<Rightarrow> store \<Rightarrow> store" where
  "delete_rollback i s =
     remove_all_quiet (trashDir i)
       (rename_quiet (trashManifest i) (manifestPath i)
         (rename_quiet (trashObject i) (objectPath i) s))"

definition delete_move :: "string \<Rightarrow> time \<Rightarrow> store \<Rightarrow> (err + unit) \<times> store" where
  "delete_move i now s =
     (case os_mkdir (trashDir i) s of
        (Inl e, s) \<Rightarrow> (Inl (OSErr e), s)
      | (Inr _, s) \<Rightarrow>
     (case os_rename (objectPath i) (trashObject i) s of
        (Inl e, s) \<Rightarrow> (Inl (OSErr e), remove_quiet (trashDir i) s)
      | (Inr _, s) \<Rightarrow>
     (case syncDirectory (Objects, []) s of
        (Inl e, s) \<Rightarrow> (Inl (OSErr e), delete_rollback i s)
      | (Inr _, s) \<Rightarrow>
     (case os_rename (manifestPath i) (trashManifest i) s of
        (Inl e, s) \<Rightarrow> (Inl (OSErr e), delete_rollback i s)
      | (Inr _, s) \<Rightarrow>
     (case syncDirectory (Metadata, []) s of
        (Inl e, s) \<Rightarrow> (Inl (OSErr e), delete_rollback i s)
      | (Inr _, s) \<Rightarrow>
     (case os_read_file (trashManifest i) s of
        (Inl e, s) \<Rightarrow> (Inl (OSErr e), delete_rollback i s)
      | (Inr data, s) \<Rightarrow>
     (case unmarshal_file data of
        None \<Rightarrow> (Inl ErrCorruptMetadata, delete_rollback i s)
      | Some stored \<Rightarrow>
          if fID stored \<noteq> i then (Inl ErrCorruptMetadata, delete_rollback i s)
          else
     (case writeManifest (trashManifest i) (stored\<lparr>fDeletedAt := Some now\<rparr>) s of
        (Inl e, s) \<Rightarrow> (Inl e, delete_rollback i s)
      | (Inr _, s) \<Rightarrow>
     (case syncDirectory (trashDir i) s of
        (Inl e, s) \<Rightarrow> (Inl (OSErr e), delete_rollback i s)
      | (Inr _, s) \<Rightarrow>
     (case syncDirectory (Trash, []) s of
        (Inl e, s) \<Rightarrow> (Inl (OSErr e), s)
      | (Inr _, s) \<Rightarrow>
          (Inr (), moveUsage (ownerFromMetadata (fMetadata stored)) (Some UsageFile) (Some UsageTrash)
                     (fSize stored) 1 s)))))))))))"

definition deleteFile :: "ctx \<Rightarrow> string \<Rightarrow> time \<Rightarrow> store \<Rightarrow> (err + unit) \<times> store" where
  "deleteFile cx i now s =
     (case validateID i of
        Inl e \<Rightarrow> (Inl e, s)
      | Inr _ \<Rightarrow>
     (case cx of
        Some e \<Rightarrow> (Inl (CtxErr e), s)
      | None \<Rightarrow>
          (let (objectExists, s) = pathExists (objectPath i) s;
               (manifestExists, s) = pathExists (manifestPath i) s;
               (trashExists, s) = pathExists (trashDir i) s
           in if \<not> objectExists \<and> \<not> manifestExists then (Inr (), s)
              else if \<not> objectExists \<or> \<not> manifestExists \<or> trashExists then (Inl ErrCorruptMetadata, s)
              else delete_move i now s)))"

section \<open>ListTrash\<close>

fun list_trash_entries :: "(string \<times> bool) list \<Rightarrow> store \<Rightarrow> (err + file_info list) \<times> store" where
  "list_trash_entries [] s = (Inr [], s)"
| "list_trash_entries ((name, isDir) # es) s =
     (if \<not> isDir then (Inl ErrCorruptMetadata, s)
      else case validateID name of
        Inl _ \<Rightarrow> (Inl ErrCorruptMetadata, s)
      | Inr _ \<Rightarrow>
          (case getTrashUnlocked name s of
             (Inl e, s) \<Rightarrow> (Inl e, s)
           | (Inr f, s) \<Rightarrow>
               (case list_trash_entries es s of
                  (Inl e, s) \<Rightarrow> (Inl e, s)
                | (Inr fs, s) \<Rightarrow> (Inr (f # fs), s))))"

text \<open>Most recently deleted first, then by identifier.\<close>

definition trash_before :: "file_info \<Rightarrow> file_info \<Rightarrow> bool" where
  "trash_before f g =
     (case (fDeletedAt f, fDeletedAt g) of
        (Some x, Some y) \<Rightarrow> if x \<noteq> y then x > y else fID f < fID g
      | _ \<Rightarrow> fID f < fID g)"

definition listTrash :: "ctx \<Rightarrow> int \<Rightarrow> int \<Rightarrow> store \<Rightarrow> (err + file_info list option) \<times> store" where
  "listTrash cx limit offset s =
     (case cx of Some e \<Rightarrow> (Inl (CtxErr e), s)
      | None \<Rightarrow>
          (case os_read_dir (Trash, []) s of
             (Inl e, s) \<Rightarrow> (Inl (OSErr e), s)
           | (Inr es, s) \<Rightarrow>
               (case list_trash_entries es s of
                  (Inl e, s) \<Rightarrow> (Inl e, s)
                | (Inr trashed, s) \<Rightarrow>
                    (Inr (map_option (map cloneFile)
                       (page (sort_slice trash_before trashed) (page_limit limit) (page_offset offset))), s))))"

section \<open>Restore\<close>

definition restore_move :: "string \<Rightarrow> file_info \<Rightarrow> store \<Rightarrow> (err + file_info) \<times> store" where
  "restore_move i f s =
     (let f' = f\<lparr>fDeletedAt := None\<rparr> in
      case writeManifest (trashManifest i) f' s of
        (Inl e, s) \<Rightarrow> (Inl e, s)
      | (Inr _, s) \<Rightarrow>
     (case syncDirectory (trashDir i) s of
        (Inl e, s) \<Rightarrow> (Inl (OSErr e), s)
      | (Inr _, s) \<Rightarrow>
     (case os_rename (trashObject i) (objectPath i) s of
        (Inl e, s) \<Rightarrow> (Inl (OSErr e), s)
      | (Inr _, s) \<Rightarrow>
     (case syncDirectory (Objects, []) s of
        (Inl e, s) \<Rightarrow> (Inl (OSErr e), rename_quiet (objectPath i) (trashObject i) s)
      | (Inr _, s) \<Rightarrow>
     (case os_rename (trashManifest i) (manifestPath i) s of
        (Inl e, s) \<Rightarrow> (Inl (OSErr e), rename_quiet (objectPath i) (trashObject i) s)
      | (Inr _, s) \<Rightarrow>
     (case syncDirectory (Metadata, []) s of
        (Inl e, s) \<Rightarrow> (Inl (OSErr e), rename_quiet (objectPath i) (trashObject i) s)
      | (Inr _, s) \<Rightarrow>
     (case os_remove (trashDir i) s of
        (Inl e, s) \<Rightarrow> (Inl (OSErr e), rename_quiet (objectPath i) (trashObject i) s)
      | (Inr _, s) \<Rightarrow>
     (case syncDirectory (Trash, []) s of
        (Inl e, s) \<Rightarrow> (Inl (OSErr e), rename_quiet (objectPath i) (trashObject i) s)
      | (Inr _, s) \<Rightarrow>
          (Inr (cloneFile f'),
           moveUsage (ownerFromMetadata (fMetadata f')) (Some UsageTrash) (Some UsageFile) (fSize f') 1 s)))))))))"

definition restoreFile :: "ctx \<Rightarrow> string \<Rightarrow> store \<Rightarrow> (err + file_info) \<times> store" where
  "restoreFile cx i s =
     (case validateID i of
        Inl e \<Rightarrow> (Inl e, s)
      | Inr _ \<Rightarrow>
     (case cx of
        Some e \<Rightarrow> (Inl (CtxErr e), s)
      | None \<Rightarrow>
     (case getTrashUnlocked i s of
        (Inl e, s) \<Rightarrow> (Inl e, s)
      | (Inr f, s) \<Rightarrow>
     (case pathExists (objectPath i) s of
        (True, s) \<Rightarrow> (Inl ErrRestoreConflict, s)
      | (False, s) \<Rightarrow>
     (case pathExists (manifestPath i) s of
        (True, s) \<Rightarrow> (Inl ErrRestoreConflict, s)
      | (False, s) \<Rightarrow> restore_move i f s)))))"

section \<open>PurgeTrash\<close>

fun purge_entries ::
  "time \<Rightarrow> (string \<times> bool) list \<Rightarrow> int \<Rightarrow> store \<Rightarrow> ((err \<times> int) + int) \<times> store" where
  "purge_entries olderThan [] purged s = (Inr purged, s)"
| "purge_entries olderThan ((name, isDir) # es) purged s =
     (if \<not> isDir then purge_entries olderThan es purged s
      else case validateID name of
        Inl _ \<Rightarrow> (Inl (ErrCorruptMetadata, purged), s)
      | Inr _ \<Rightarrow>
          (case getTrashUnlocked name s of
             (Inl e, s) \<Rightarrow> (Inl (e, purged), s)
           | (Inr stored, s) \<Rightarrow>
               (let deletedAt = (case fDeletedAt stored of None \<Rightarrow> fCreatedAt stored | Some t \<Rightarrow> t) in
                if \<not> is_zero_time olderThan \<and> deletedAt > olderThan then purge_entries olderThan es purged s
                else
                  (case os_remove_all (trashDir name) s of
                     (Inl e, s) \<Rightarrow> (Inl (OSErr e, purged), s)
                   | (Inr _, s) \<Rightarrow>
                       purge_entries olderThan es (purged + 1)
                         (releaseUsage (ownerFromMetadata (fMetadata stored)) UsageTrash (fSize stored) s)))))"

definition purgeTrash :: "ctx \<Rightarrow> time \<Rightarrow> store \<Rightarrow> ((err \<times> int) + int) \<times> store" where
  "purgeTrash cx olderThan s =
     (case cx of
        Some e \<Rightarrow> (Inl (CtxErr e, 0), s)
      | None \<Rightarrow>
     (case os_read_dir (Trash, []) s of
        (Inl e, s) \<Rightarrow> (Inl (OSErr e, 0), s)
      | (Inr es, s) \<Rightarrow>
     (case purge_entries olderThan es 0 s of
        (Inl x, s) \<Rightarrow> (Inl x, s)
      | (Inr purged, s) \<Rightarrow>
          if purged > 0 then
            (case syncDirectory (Trash, []) s of
               (Inl e, s) \<Rightarrow> (Inl (OSErr e, purged), s)
             | (Inr _, s) \<Rightarrow> (Inr purged, s))
          else (Inr purged, s))))"

section \<open>Delete and Restore without failures\<close>

lemma trash_path_facts [simp]:
  "parent (trashDir i) = (Trash, [])" "parent (trashObject i) = trashDir i" "parent (trashManifest i) = trashDir i"
  "snd (trashManifest i) \<noteq> []" "trashDir i \<noteq> trashObject i" "trashDir i \<noteq> trashManifest i"
  "trashObject i \<noteq> trashDir i" "trashManifest i \<noteq> trashDir i"
  "trashObject i \<noteq> trashManifest i" "trashManifest i \<noteq> trashObject i"
  "objectPath j \<noteq> trashDir i" "objectPath j \<noteq> trashObject i" "objectPath j \<noteq> trashManifest i"
  "manifestPath j \<noteq> trashDir i" "manifestPath j \<noteq> trashObject i" "manifestPath j \<noteq> trashManifest i"
  "trashDir i \<noteq> objectPath j" "trashObject i \<noteq> objectPath j" "trashManifest i \<noteq> objectPath j"
  "trashDir i \<noteq> manifestPath j" "trashObject i \<noteq> manifestPath j" "trashManifest i \<noteq> manifestPath j"
  "tmp_of (trashManifest i) \<noteq> objectPath j" "tmp_of (trashManifest i) \<noteq> manifestPath j"
  "tmp_of (trashManifest i) \<noteq> trashDir i" "tmp_of (trashManifest i) \<noteq> trashObject i"
  "tmp_of (trashManifest i) \<noteq> trashManifest i" "trashDir i \<noteq> tmp_of (trashManifest i)"
  "trashObject i \<noteq> tmp_of (trashManifest i)" "trashManifest i \<noteq> tmp_of (trashManifest i)"
  "(ar, []) \<noteq> trashDir i" "(ar, []) \<noteq> trashObject i" "(ar, []) \<noteq> trashManifest i"
  "(ar, []) \<noteq> objectPath i" "(ar, []) \<noteq> manifestPath i"
  "(ar, []) \<noteq> tmp_of (trashManifest i)"
  by (simp_all add: path_defs)

definition trashed_file :: "time \<Rightarrow> file_info \<Rightarrow> file_info" where
  "trashed_file now f = f\<lparr>fDeletedAt := Some now\<rparr>"

lemma delete_move_calm:
  assumes "script s = []" "on_disk a s" "aFiles a i = Some (f, b)" "fID f = i" "aTrash a i = None"
  shows "delete_move i now s =
    (Inr (), moveUsage (ownerFromMetadata (fMetadata f)) (Some UsageFile) (Some UsageTrash) (fSize f) 1
       (put_entry (trashManifest i) (NFile (Doc (FileDoc (trashed_file now f))))
         (del_entry (manifestPath i)
           (put_entry (trashObject i) (NFile (Blob b))
             (del_entry (objectPath i) (put_entry (trashDir i) NDir s))))))"
  using assms on_disk_paths [OF assms(2), of i]
  by (simp add: delete_move_def go_simps writeManifest_def write_doc_calm trashed_file_def put_path_facts)

lemma restore_move_calm:
  assumes "script s = []" "on_disk a s" "aTrash a i = Some (f, b)" "aFiles a i = None"
  shows "\<exists>t. restore_move i f s =
    (Inr (f\<lparr>fDeletedAt := None\<rparr>),
     moveUsage (ownerFromMetadata (fMetadata f)) (Some UsageTrash) (Some UsageFile) (fSize f) 1 t) \<and>
    script t = [] \<and> same_index s t \<and> same_config s t \<and>
    look t = (look s)(objectPath i \<mapsto> NFile (Blob b), manifestPath i \<mapsto> NFile (Doc (FileDoc (f\<lparr>fDeletedAt := None\<rparr>))),
      trashDir i := None, trashObject i := None, trashManifest i := None)"
proof -
  let ?f = "f\<lparr>fDeletedAt := None\<rparr>"
  let ?t = "put_entry (manifestPath i) (NFile (Doc (FileDoc ?f))) (del_entry (trashManifest i)
     (put_entry (objectPath i) (NFile (Blob b)) (del_entry (trashObject i)
       (put_entry (trashManifest i) (NFile (Doc (FileDoc ?f))) s))))"
  have empty: "names ?t (trashDir i) = []"
  proof -
    have "look ?t (child (trashDir i) n) = None" for n
      using on_disk_look [OF assms(2), of "child (trashDir i) n"] assms(3)
      by (auto simp: path_defs trash_child_def)
    then have "set (names ?t (trashDir i)) = {}" by (simp add: set_names)
    then show ?thesis by simp
  qed
  have "restore_move i f s =
    (Inr ?f, moveUsage (ownerFromMetadata (fMetadata f)) (Some UsageTrash) (Some UsageFile) (fSize f) 1
       (del_entry (trashDir i) ?t))"
    using assms on_disk_paths [OF assms(2), of i] empty
    by (simp add: restore_move_def go_simps writeManifest_def write_doc_calm put_path_facts Let_def)
  then show ?thesis
    using assms(1) by (intro exI [of _ "del_entry (trashDir i) ?t"]) (auto simp: fun_eq_iff put_path_facts)
qed

definition abs_delete :: "string \<Rightarrow> time \<Rightarrow> astore \<Rightarrow> astore" where
  "abs_delete i now a =
     (case aFiles a i of
        None \<Rightarrow> a
      | Some (f, b) \<Rightarrow>
          a\<lparr>aFiles := (aFiles a)(i := None), aTrash := (aTrash a)(i \<mapsto> (trashed_file now f, b))\<rparr>)"

definition abs_restore :: "string \<Rightarrow> astore \<Rightarrow> err + file_info \<times> astore" where
  "abs_restore i a =
     (case aTrash a i of
        None \<Rightarrow> Inl ErrNotFound
      | Some (f, b) \<Rightarrow>
          (let f' = f\<lparr>fDeletedAt := None\<rparr>
           in Inr (f', a\<lparr>aTrash := (aTrash a)(i := None), aFiles := (aFiles a)(i \<mapsto> (f', b))\<rparr>)))"

lemma represents_delete:
  assumes "represents a s" "same_index s s'" "aFiles a i = Some (f, b)"
    and "look s' = (look s)(objectPath i := None, manifestPath i := None, trashDir i \<mapsto> NDir,
           trashObject i \<mapsto> NFile (Blob b), trashManifest i \<mapsto> NFile (Doc (FileDoc (trashed_file now f))))"
  shows "represents (abs_delete i now a)
    (moveUsage (ownerFromMetadata (fMetadata f)) (Some UsageFile) (Some UsageTrash) (fSize f) 1 s')"
proof (rule represents_moveUsage [OF assms(2,1)])
  let ?g = "trashed_file now f" and ?w = "ownerFromMetadata (fMetadata f)"
  let ?a = "a\<lparr>aFiles := (aFiles a)(i := None), aTrash := (aTrash a)(i \<mapsto> (?g, b))\<rparr>"
  have g: "good a" "totals_fit a" "on_disk a s" using assms(1) by (auto simp: represents_def)
  have ok: "file_ok i (f, b)" and nt: "aTrash a i = None" using goodD(1,2) [OF g(1) assms(3)] by auto
  have abs: "abs_delete i now a = ?a" using assms(3) by (simp add: abs_delete_def)
  have tok: "trash_ok i (?g, b)"
    using ok by (simp add: trash_ok_def file_ok_def live_file_ok_def trashed_file_def)
  show good: "good (abs_delete i now a)" unfolding abs using g(1) tok by (auto simp: good_def)
  have it: "books a UsageFile i = Some (?w, fSize f)" "file_item (?g, b) = (?w, fSize f)"
    using assms(3) by (simp_all add: file_item_def trashed_file_def)
  have books: "books ?a = (books a)(UsageFile := (books a UsageFile)(i := None),
      UsageTrash := (books a UsageTrash)(i \<mapsto> (?w, fSize f)))"
    using books_upd(3) [of "a\<lparr>aFiles := (aFiles a)(i := None)\<rparr>" i "(?g, b)"] it(2)
    by (simp add: books_upd(2))
  have owned: "owned ?a w = owned a w" for w
    using ledger.item_sum_upd [of "books a UsageTrash" i ?w "fSize f" w] books_finite [OF g(1)] nt
      ledger.item_sum_del [of "books a UsageFile" i ?w "fSize f" w] it
    by (simp add: owned_def books)
  show fit: "totals_fit (abs_delete i now a)" using g(2) by (simp add: totals_fit_def owned abs)
  have "on_disk (a\<lparr>aFiles := (aFiles a)(i := None)\<rparr>) (del_entry (objectPath i) (del_entry (manifestPath i) s))"
    by (rule on_disk_del_file [OF g(3)]) (auto simp: fun_eq_iff)
  then have "on_disk (a\<lparr>aFiles := (aFiles a)(i := None),
      aTrash := (aTrash (a\<lparr>aFiles := (aFiles a)(i := None)\<rparr>))(i \<mapsto> (?g, b))\<rparr>) s'"
    using assms(4) nt by (intro on_disk_put_trash) (auto simp: fun_eq_iff)
  then show "on_disk (abs_delete i now a) s'" by (simp add: abs)
  assume "ledger.balanced (books a) (sUsage s)"
  then have "ledger.balanced ((books a)(UsageFile := (books a UsageFile)(i := None),
      UsageTrash := (books a UsageTrash)(i \<mapsto> (normalizeOwner ?w, fSize f))))
      (move_index ?w (Some UsageFile) (Some UsageTrash) (fSize f) 1 (sUsage s))"
    using it nt fits_books [OF g(1,2)] fits_books [OF good fit] books
    by (intro ledger.balanced_transfer) (auto simp: abs)
  then show "ledger.balanced (books (abs_delete i now a))
      (move_index ?w (Some UsageFile) (Some UsageTrash) (fSize f) 1 (sUsage s))"
    by (simp add: books abs)
qed

lemma represents_restore:
  assumes "represents a s" "same_index s s'" "aTrash a i = Some (f, b)"
    and "look s' = (look s)(objectPath i \<mapsto> NFile (Blob b),
           manifestPath i \<mapsto> NFile (Doc (FileDoc (f\<lparr>fDeletedAt := None\<rparr>))),
           trashDir i := None, trashObject i := None, trashManifest i := None)"
  shows "represents (a\<lparr>aTrash := (aTrash a)(i := None), aFiles := (aFiles a)(i \<mapsto> (f\<lparr>fDeletedAt := None\<rparr>, b))\<rparr>)
    (moveUsage (ownerFromMetadata (fMetadata f)) (Some UsageTrash) (Some UsageFile) (fSize f) 1 s')"
proof (rule represents_moveUsage [OF assms(2,1)])
  let ?g = "f\<lparr>fDeletedAt := None\<rparr>" and ?w = "ownerFromMetadata (fMetadata f)"
  let ?a = "a\<lparr>aTrash := (aTrash a)(i := None), aFiles := (aFiles a)(i \<mapsto> (?g, b))\<rparr>"
  have g: "good a" "totals_fit a" "on_disk a s" using assms(1) by (auto simp: represents_def)
  have ok: "trash_ok i (f, b)" and nf: "aFiles a i = None" using goodD(3,5) [OF g(1) assms(3)] by auto
  have fok: "file_ok i (?g, b)"
    using ok by (simp add: trash_ok_def file_ok_def live_file_ok_def)
  show good: "good ?a" using g(1) fok by (auto simp: good_def)
  have it: "books a UsageTrash i = Some (?w, fSize f)" "file_item (?g, b) = (?w, fSize f)"
    using assms(3) by (simp_all add: file_item_def)
  have books: "books ?a = (books a)(UsageTrash := (books a UsageTrash)(i := None),
      UsageFile := (books a UsageFile)(i \<mapsto> (?w, fSize f)))"
    using books_upd(1) [of "a\<lparr>aTrash := (aTrash a)(i := None)\<rparr>" i "(?g, b)"] it(2)
    by (simp add: books_upd(4))
  have owned: "owned ?a w = owned a w" for w
    using ledger.item_sum_upd [of "books a UsageFile" i ?w "fSize f" w] books_finite [OF g(1)] nf
      ledger.item_sum_del [of "books a UsageTrash" i ?w "fSize f" w] it
    by (simp add: owned_def books)
  show fit: "totals_fit ?a" using g(2) by (simp add: totals_fit_def owned)
  have "on_disk (a\<lparr>aTrash := (aTrash a)(i := None)\<rparr>)
      (del_entry (trashDir i) (del_entry (trashObject i) (del_entry (trashManifest i) s)))"
    by (rule on_disk_del_trash [OF g(3)]) (auto simp: fun_eq_iff)
  then have "on_disk (a\<lparr>aTrash := (aTrash a)(i := None),
      aFiles := (aFiles (a\<lparr>aTrash := (aTrash a)(i := None)\<rparr>))(i \<mapsto> (?g, b))\<rparr>) s'"
    using assms(4) by (intro on_disk_put_file) (auto simp: fun_eq_iff)
  then show "on_disk ?a s'" by simp
  assume "ledger.balanced (books a) (sUsage s)"
  then have "ledger.balanced ((books a)(UsageTrash := (books a UsageTrash)(i := None),
      UsageFile := (books a UsageFile)(i \<mapsto> (normalizeOwner ?w, fSize f))))
      (move_index ?w (Some UsageTrash) (Some UsageFile) (fSize f) 1 (sUsage s))"
    using it nf fits_books [OF g(1,2)] fits_books [OF good fit] books
    by (intro ledger.balanced_transfer) auto
  then show "ledger.balanced (books ?a)
      (move_index ?w (Some UsageTrash) (Some UsageFile) (fSize f) 1 (sUsage s))"
    by (simp add: books)
qed

lemma delete_calm:
  assumes "script s = []" "represents a s" "validFileID i"
  shows "\<exists>t. deleteFile None i now s = (Inr (), t) \<and> script t = [] \<and> same_config s t \<and>
    represents (abs_delete i now a) t"
proof -
  have d: "on_disk a s" "good a" using assms(2) by (auto simp: represents_def)
  note paths = on_disk_paths [OF d(1), of i]
  show ?thesis
  proof (cases "aFiles a i")
    case None
    then show ?thesis using assms paths by (auto simp: deleteFile_def go_simps abs_delete_def)
  next
    case (Some x)
    obtain f b where x: "aFiles a i = Some (f, b)" using Some by (cases x) auto
    have id: "fID f = i" "aTrash a i = None"
      using goodD(1,2) [OF d(2) x] by (auto simp: file_ok_def live_file_ok_def)
    have run: "deleteFile None i now s = delete_move i now s"
      using assms(1,3) paths x id by (simp add: deleteFile_def go_simps)
    let ?t = "put_entry (trashManifest i) (NFile (Doc (FileDoc (trashed_file now f))))
         (del_entry (manifestPath i)
           (put_entry (trashObject i) (NFile (Blob b))
             (del_entry (objectPath i) (put_entry (trashDir i) NDir s))))"
    have "represents (abs_delete i now a)
      (moveUsage (ownerFromMetadata (fMetadata f)) (Some UsageFile) (Some UsageTrash) (fSize f) 1 ?t)"
      by (rule represents_delete [OF assms(2) _ x]) (auto simp: fun_eq_iff put_path_facts)
    then show ?thesis
      using run delete_move_calm [OF assms(1) d(1) x id, of now] assms(1) by auto
  qed
qed

lemma restore_calm:
  assumes "script s = []" "represents a s" "validFileID i"
  shows "\<exists>t. script t = [] \<and> same_config s t \<and>
    (case abs_restore i a of
       Inl e \<Rightarrow> restoreFile None i s = (Inl e, t) \<and> represents a t
     | Inr (f, a') \<Rightarrow> restoreFile None i s = (Inr f, t) \<and> represents a' t)"
proof -
  have d: "on_disk a s" "good a" using assms(2) by (auto simp: represents_def)
  note get = getTrashUnlocked_calm [OF assms(1) d, of i]
  show ?thesis
  proof (cases "aTrash a i")
    case None
    then show ?thesis using assms get by (auto simp: restoreFile_def abs_restore_def)
  next
    case (Some x)
    obtain f b where x: "aTrash a i = Some (f, b)" using Some by (cases x) auto
    have nf: "aFiles a i = None" using goodD(5) [OF d(2) x] .
    have run: "restoreFile None i s = restore_move i f s"
      using assms(1,3) get on_disk_paths [OF d(1), of i] x nf by (simp add: restoreFile_def go_simps)
    obtain t where t: "restore_move i f s = (Inr (f\<lparr>fDeletedAt := None\<rparr>),
        moveUsage (ownerFromMetadata (fMetadata f)) (Some UsageTrash) (Some UsageFile) (fSize f) 1 t)"
      "script t = []" "same_index s t" "same_config s t"
      "look t = (look s)(objectPath i \<mapsto> NFile (Blob b), manifestPath i \<mapsto> NFile (Doc (FileDoc (f\<lparr>fDeletedAt := None\<rparr>))),
      trashDir i := None, trashObject i := None, trashManifest i := None)"
      using restore_move_calm [OF assms(1) d(1) x nf] by blast
    then show ?thesis
      using run x represents_restore [OF assms(2) t(3) x t(5)] by (auto simp: abs_restore_def Let_def)
  qed
qed

section \<open>ListTrash and PurgeTrash without failures\<close>

interpretation trash_order: key_less trash_before "\<lambda>f. (- the (fDeletedAt f), fID f)" "\<lambda>f. fDeletedAt f \<noteq> None"
  by unfold_locales (auto simp: trash_before_def)

lemma trash_pairs:
  "good a \<Longrightarrow> aTrash a i = Some (f, b) \<Longrightarrow> validFileID i \<and> fID f = i \<and> fDeletedAt f \<noteq> None"
  using goodD(3) [of a i "(f, b)"] by (auto simp: trash_ok_def live_file_ok_def)

lemma list_trash_entries_calm:
  assumes "script s = []" "on_disk a s" "good a" "set is \<subseteq> dom (aTrash a)"
  shows "list_trash_entries (map (\<lambda>i. (i, True)) is) s = (Inr (map (\<lambda>i. fst (the (aTrash a i))) is), s)"
  using assms(4)
proof (induction "is")
  case (Cons i "is")
  then obtain f b where "aTrash a i = Some (f, b)" by auto
  with Cons trash_pairs [OF assms(3) this] show ?case
    by (simp add: getTrashUnlocked_calm [OF assms(1-3)])
qed simp

definition trash_files :: "astore \<Rightarrow> store \<Rightarrow> file_info list" where
  "trash_files a s = map (\<lambda>i. fst (the (aTrash a i))) (names s (Trash, []))"

lemma trash_files_props:
  assumes "on_disk a s" "good a"
  shows "set (trash_files a s) = fst ` ran (aTrash a)" "distinct (map fID (trash_files a s))"
    and "\<forall>f\<in>set (trash_files a s). fDeletedAt f \<noteq> None" "length (trash_files a s) = card (dom (aTrash a))"
proof -
  have n: "set (names s (Trash, [])) = dom (aTrash a)" by (rule on_disk_names(5) [OF assms(1)])
  have "set (trash_files a s) = (\<lambda>i. fst (the (aTrash a i))) ` dom (aTrash a)"
    by (simp add: trash_files_def n)
  then show ran: "set (trash_files a s) = fst ` ran (aTrash a)"
    by (force simp: ran_def image_iff)
  have "fID (fst (the (aTrash a i))) = i" if i: "i \<in> set (names s (Trash, []))" for i
    using i trash_pairs [OF assms(2), of i] n by auto
  then have "map fID (trash_files a s) = names s (Trash, [])"
    by (simp add: trash_files_def comp_def map_idI)
  then show "distinct (map fID (trash_files a s))" by simp
  show "\<forall>f\<in>set (trash_files a s). fDeletedAt f \<noteq> None"
    unfolding ran using trash_pairs [OF assms(2)] by (auto simp: ran_def)
  show "length (trash_files a s) = card (dom (aTrash a))"
    using n by (metis distinct_card distinct_names length_map trash_files_def)
qed

lemma sorted_trash:
  "sorted (map (\<lambda>f. (- the (fDeletedAt f), fID f)) ys) \<Longrightarrow> distinct (map fID ys) \<Longrightarrow>
   \<forall>f\<in>set ys. fDeletedAt f \<noteq> None \<Longrightarrow> sorted_wrt trash_before ys"
proof (induction ys)
  case (Cons y ys)
  have "trash_before y z" if z: "z \<in> set ys" for z
  proof -
    have "(- the (fDeletedAt y), fID y) \<le> (- the (fDeletedAt z), fID z)" "fID y \<noteq> fID z"
      using Cons.prems z by auto
    moreover obtain v w where "fDeletedAt y = Some v" "fDeletedAt z = Some w"
      using Cons.prems(3) z by auto
    ultimately show ?thesis by (auto simp: trash_before_def)
  qed
  with Cons show ?case by simp
qed simp

lemma listTrash_calm:
  assumes "script s = []" "on_disk a s" "good a" "int (card (dom (aTrash a))) + 1000 \<le> max_int64"
  shows "listTrash None limit offset s =
    (Inr (Some (take (nat (page_limit limit)) (drop (nat (page_offset offset))
       (sort_slice trash_before (trash_files a s))))), s)"
proof -
  have "list_trash_entries (map (\<lambda>i. (i, True)) (names s (Trash, []))) s = (Inr (trash_files a s), s)"
    using list_trash_entries_calm [OF assms(1-3)] on_disk_names(5) [OF assms(2)] by (simp add: trash_files_def)
  moreover have "page (sort_slice trash_before (trash_files a s)) (page_limit limit) (page_offset offset) =
    Some (take (nat (page_limit limit)) (drop (nat (page_offset offset)) (sort_slice trash_before (trash_files a s))))"
    using assms(4) page_limit_bounds [of limit] trash_files_props(4) [OF assms(2,3)]
    by (intro page_full) (auto simp: page_offset_nonneg)
  ultimately show ?thesis
    using assms by (simp add: listTrash_def read_dirs_calm comp_def)
qed

definition purgeable :: "time \<Rightarrow> file_info \<Rightarrow> bool" where
  "purgeable olderThan f \<longleftrightarrow> is_zero_time olderThan \<or> the (fDeletedAt f) \<le> olderThan"

definition drop_trash :: "string set \<Rightarrow> astore \<Rightarrow> astore" where
  "drop_trash D a = a\<lparr>aTrash := aTrash a |` (- D)\<rparr>"

lemma owned_drop_trash:
  assumes "good a"
  shows "owned (drop_trash D a) w \<le> owned a w"
proof -
  have "ledger.item_sum (books (drop_trash D a) UsageTrash) w \<le> ledger.item_sum (books a UsageTrash) w"
    by (rule item_sum_submap [OF assms]) (auto simp: drop_trash_def restrict_map_def split: if_splits)
  then show ?thesis by (simp add: owned_def drop_trash_def)
qed

lemma drop_trash_empty [simp]: "drop_trash {} a = a"
  by (simp add: drop_trash_def restrict_map_def)

lemma drop_trash_insert:
  "drop_trash D (a\<lparr>aTrash := (aTrash a)(i := None)\<rparr>) = drop_trash (insert i D) a"
  by (auto simp: drop_trash_def restrict_map_def fun_eq_iff)

lemma purge_entries_calm:
  assumes "script s = []" "represents a s" "distinct is" "set is \<subseteq> dom (aTrash a)"
  shows "\<exists>t. purge_entries olderThan (map (\<lambda>i. (i, True)) is) n s =
      (Inr (n + int (card {i\<in>set is. purgeable olderThan (fst (the (aTrash a i)))})), t) \<and>
    represents (drop_trash {i\<in>set is. purgeable olderThan (fst (the (aTrash a i)))} a) t \<and>
    script t = [] \<and> same_config s t"
  using assms
proof (induction "is" arbitrary: n s a)
  case Nil
  then show ?case by simp
next
  case (Cons i "is")
  obtain f b where x: "aTrash a i = Some (f, b)" using Cons.prems(4) by auto
  have g: "good a" "on_disk a s" using Cons.prems(2) by (auto simp: represents_def)
  note st = trash_pairs [OF g(1) x]
  let ?P = "\<lambda>a i. purgeable olderThan (fst (the (aTrash a i)))"
  have get: "getTrashUnlocked i s = (Inr f, s)"
    using getTrashUnlocked_calm [OF Cons.prems(1) g(2,1), of i] x by simp
  show ?case
  proof (cases "?P a i")
    case False
    have "{j \<in> set (i # is). ?P a j} = {j \<in> set is. ?P a j}" using False by auto
    moreover have "purge_entries olderThan (map (\<lambda>i. (i, True)) (i # is)) n s = purge_entries olderThan (map (\<lambda>i. (i, True)) is) n s"
      using False st get x by (auto simp: purgeable_def)
    ultimately show ?thesis using Cons.IH [of s a n] Cons.prems by simp
  next
    case True
    let ?a = "a\<lparr>aTrash := (aTrash a)(i := None)\<rparr>"
    let ?t = "releaseUsage (ownerFromMetadata (fMetadata f)) UsageTrash (fSize f) (prune_entry (trashDir i) s)"
    have run: "purge_entries olderThan (map (\<lambda>i. (i, True)) (i # is)) n s = purge_entries olderThan (map (\<lambda>i. (i, True)) is) (n + 1) ?t"
      using True st get x Cons.prems(1) by (auto simp: purgeable_def go_simps)
    have rep: "represents ?a ?t" using represents_release_trash [OF Cons.prems(2) x] by simp
    have cfg: "script ?t = []" "same_config s ?t"
      using Cons.prems(1) by (auto simp: releaseUsage_def)
    have ni: "i \<notin> set is" and dist: "distinct is" using Cons.prems(3) by auto
    have sub: "set is \<subseteq> dom (aTrash ?a)" using Cons.prems(4) ni by auto
    have P: "{j \<in> set is. ?P ?a j} = {j \<in> set is. ?P a j}" using ni by auto
    have ins: "{j \<in> set (i # is). ?P a j} = insert i {j \<in> set is. ?P a j}" using True by auto
    have "int (card (insert i {j \<in> set is. ?P a j})) = 1 + int (card {j \<in> set is. ?P a j})"
      using ni by simp
    then show ?thesis
      using Cons.IH [OF cfg(1) rep dist sub, of "n + 1"] cfg(2)
      unfolding run P ins drop_trash_insert by (auto simp: same_config_def ac_simps)
  qed
qed

definition purged :: "time \<Rightarrow> astore \<Rightarrow> string set" where
  "purged olderThan a = {i. \<exists>x. aTrash a i = Some x \<and> purgeable olderThan (fst x)}"

lemma purgeTrash_calm:
  assumes "script s = []" "represents a s"
  shows "\<exists>t. purgeTrash None olderThan s = (Inr (int (card (purged olderThan a))), t) \<and>
    represents (drop_trash (purged olderThan a) a) t \<and> script t = [] \<and> same_config s t"
proof -
  have d: "on_disk a s" using assms(2) by (simp add: represents_def)
  let ?is = "names s (Trash, [])"
  have eq: "{i\<in>set ?is. purgeable olderThan (fst (the (aTrash a i)))} = purged olderThan a"
    using on_disk_names(5) [OF d] by (auto simp: purged_def)
  obtain t where t: "purge_entries olderThan (map (\<lambda>i. (i, True)) ?is) 0 s = (Inr (int (card (purged olderThan a))), t)"
    and rep: "represents (drop_trash (purged olderThan a) a) t" "script t = []" "same_config s t"
    using purge_entries_calm [OF assms distinct_names [of s "(Trash, [])"], of olderThan 0] on_disk_names(5) [OF d]
    unfolding eq by auto
  have "on_disk (drop_trash (purged olderThan a) a) t" using rep(1) by (simp add: represents_def)
  then have "syncDirectory (Trash, []) t = (Inr (), t)"
    using rep(2) by (simp add: go_simps)
  with t rep show ?thesis
    by (simp add: purgeTrash_def read_dirs_calm [OF assms(1) d])
qed

section \<open>What deletion promises\<close>

text \<open>A store with one file of five bytes.\<close>

definition example_file :: file_info where
  "example_file = \<lparr>fID = example_id, fName = ''notes.txt'', fContentType = ''text/plain'', fSize = 5,
     fChecksum = sha256 example_env ''hello'', fStatus = StatusAvailable, fCreatedAt = 7,
     fMetadata = [(''owner'', ''alice'')], fDeletedAt = None\<rparr>"

definition file_astore :: astore where
  "file_astore = empty_astore\<lparr>aFiles := [example_id \<mapsto> (example_file, ''hello'')]\<rparr>"

definition file_store :: store where
  "file_store = new_state example_options
     (fresh_entries @ [(objectPath example_id, NFile (Blob ''hello'')),
        (manifestPath example_id, NFile (Doc (FileDoc example_file)))])"

lemma owned_file_astore: "owned file_astore w = (if w = ''alice'' then 5 else 0)"
proof -
  have "ownerFromMetadata [(''owner'', ''alice'')] = ''alice''" by code_simp
  moreover have "good empty_astore" using example_represents by (simp add: represents_def)
  ultimately show ?thesis
    using owned_put_file [of empty_astore example_id "(example_file, ''hello'')" w]
    by (simp add: owned_empty file_astore_def example_file_def)
qed

lemma file_represents: "represents file_astore file_store"
proof -
  let ?x = "(example_file, ''hello'')"
  have d: "on_disk empty_astore example_store" using example_represents by (simp add: represents_def)
  have look: "look file_store = (look example_store)(objectPath example_id \<mapsto> NFile (Blob ''hello''),
      manifestPath example_id \<mapsto> NFile (Doc (FileDoc example_file)))"
    unfolding file_store_def example_store_def look_new_state
    by (subst map_of_snoc, force simp: fresh_entries_def path_defs)+ (simp add: fun_upd_twist put_path_facts)
  have "file_ok example_id ?x"
    using example_id_valid example_digest
    by (simp add: file_ok_def live_file_ok_def example_file_def digest_nonempty_def)
  then have "good file_astore"
    by (auto simp: good_def file_astore_def)
  moreover have "totals_fit file_astore"
    by (simp add: totals_fit_def owned_file_astore max_int64_def)
  moreover have "on_disk file_astore file_store"
    using on_disk_put_file [OF d, of file_store example_id ?x] look by (simp add: file_astore_def)
  ultimately show ?thesis
    using example_represents represents_reopened unfolding file_store_def example_store_def by blast
qed

lemma file_fields [simp]:
  "script file_store = []" "aFiles file_astore example_id = Some (example_file, ''hello'')"
  "aTrash file_astore = Map.empty" "sPauseAtPercent file_store = 0"
  by (simp_all add: file_store_def new_state_def file_astore_def example_options_def)

lemma abs_restore_delete:
  assumes "good a" "aFiles a i = Some (f, b)"
  shows "abs_restore i (abs_delete i now a) = Inr (f, a)"
proof -
  have "fDeletedAt f = None" "aTrash a i = None"
    using goodD(1,2) [OF assms] by (auto simp: file_ok_def)
  then have "f\<lparr>fDeletedAt := None\<rparr> = f" "(aTrash a)(i := None) = aTrash a" "(aFiles a)(i \<mapsto> (f, b)) = aFiles a"
    using assms(2) by (auto simp: fun_upd_idem)
  then show ?thesis using assms(2) by (simp add: abs_restore_def abs_delete_def trashed_file_def Let_def)
qed

text \<open>C16. Delete is a reversible move: the file is gone from Open, deleting it again succeeds and
  changes nothing, and Restore brings back the same record and bytes and leaves the whole store,
  accounting included, as it was before the deletion.\<close>

theorem delete_restore_roundtrip:
  assumes "script s = []" "represents a s" "aFiles a i = Some (f, b)"
  shows "\<exists>t1 t2. deleteFile None i now s = (Inr (), t1) \<and> openFile None i t1 = (Inl ErrNotFound, t1) \<and>
    deleteFile None i later t1 = (Inr (), t1) \<and>
    restoreFile None i t1 = (Inr f, t2) \<and> openFile None i t2 = (Inr (f, b), t2) \<and> represents a t2"
proof -
  have g: "good a" using assms(2) by (simp add: represents_def)
  have v: "validFileID i" using goodD(1) [OF g assms(3)] by (simp add: file_ok_def)
  obtain t1 where t1: "deleteFile None i now s = (Inr (), t1)" "script t1 = []" "represents (abs_delete i now a) t1"
    using delete_calm [OF assms(1,2) v] by blast
  have gone: "aFiles (abs_delete i now a) i = None" using assms(3) by (simp add: abs_delete_def)
  have "openFile None i t1 = (Inl ErrNotFound, t1)"
    using represents_openFile [OF t1(2,3)] v gone by simp
  moreover have "deleteFile None i later t1 = (Inr (), t1)"
  proof -
    have "on_disk (abs_delete i now a) t1" using t1(3) by (simp add: represents_def)
    then show ?thesis using t1(2) v gone by (simp add: deleteFile_def go_simps on_disk_paths)
  qed
  moreover obtain t2 where t2: "restoreFile None i t1 = (Inr f, t2)" "script t2 = []" "represents a t2"
    using restore_calm [OF t1(2,3) v] abs_restore_delete [OF g assms(3)] by auto
  moreover have "openFile None i t2 = (Inr (f, b), t2)"
    using represents_openFile [OF t2(2,3)] v assms(3) by simp
  ultimately show ?thesis using t1(1) by blast
qed

theorem delete_restore_roundtrip_witness:
  "\<exists>t1 t2. deleteFile None example_id 20 file_store = (Inr (), t1) \<and>
    restoreFile None example_id t1 = (Inr example_file, t2) \<and> represents file_astore t2"
  using delete_restore_roundtrip [OF file_fields(1) file_represents file_fields(2), of 20 30] by blast

text \<open>PurgeTrash destroys exactly the trash entries deleted at or before the given time, or all
  of them for the zero time, reports their number and gives their bytes back to the owners' quota;
  live files, uploads and younger entries stay.\<close>

theorem purge_exact:
  assumes "script s = []" "represents a s"
  shows "\<exists>t. purgeTrash None olderThan s = (Inr (int (card (purged olderThan a))), t) \<and>
    represents (drop_trash (purged olderThan a) a) t"
  using purgeTrash_calm [OF assms, of olderThan] by blast

theorem purge_exact_witness:
  "\<exists>t1 t2. deleteFile None example_id 20 file_store = (Inr (), t1) \<and>
     purgeTrash None 20 t1 = (Inr 1, t2) \<and> represents empty_astore t2"
proof -
  obtain t1 where t1: "deleteFile None example_id 20 file_store = (Inr (), t1)" "script t1 = []"
    "represents (abs_delete example_id 20 file_astore) t1"
    using delete_calm [OF file_fields(1) file_represents example_id_valid] by blast
  let ?a = "abs_delete example_id 20 file_astore"
  have a: "?a = empty_astore\<lparr>aTrash := [example_id \<mapsto> (trashed_file 20 example_file, ''hello'')]\<rparr>"
    by (simp add: abs_delete_def file_astore_def)
  have p: "purged 20 ?a = {example_id}"
    by (auto simp: purged_def a purgeable_def trashed_file_def)
  have "drop_trash {example_id} ?a = empty_astore"
    by (simp add: drop_trash_def a restrict_map_def fun_eq_iff)
  then show ?thesis
    using purge_exact [OF t1(2,3), of 20] t1(1) p by auto
qed

text \<open>ListTrash pages through the trash in one fixed order: most recently deleted first, by
  identifier among equals.\<close>

lemma list_trash_pages:
  assumes "script s = []" "represents a s" "int (card (dom (aTrash a))) + 1000 \<le> max_int64"
  shows "\<exists>all. set all = fst ` ran (aTrash a) \<and> distinct all \<and> sorted_wrt trash_before all \<and>
    (\<forall>limit offset. listTrash None limit offset s =
       (Inr (Some (take (nat (page_limit limit)) (drop (nat (page_offset offset)) all))), s))"
proof (intro exI conjI allI)
  have d: "on_disk a s" "good a" using assms(2) by (auto simp: represents_def)
  let ?all = "sort_slice trash_before (trash_files a s)"
  note props = trash_files_props [OF d]
  show "set ?all = fst ` ran (aTrash a)" by (simp add: props(1))
  show "distinct ?all" using props(2) by (simp add: distinct_map)
  have "distinct (map fID ?all)"
    using props(2) by (metis mset_map mset_eq_imp_distinct_iff mset_sort_slice)
  then show "sorted_wrt trash_before ?all"
    using trash_order.sort_slice_sorted [OF props(3)] props(3) by (intro sorted_trash) auto
  show "listTrash None limit offset s =
       (Inr (Some (take (nat (page_limit limit)) (drop (nat (page_offset offset)) ?all))), s)"
    for limit offset
    using listTrash_calm [OF assms(1) d assms(3)] .
qed

section \<open>Deletion and failing syncs\<close>

text \<open>The example file after its deletion.\<close>

definition trash_store :: store where
  "trash_store = snd (deleteFile None example_id 20 file_store)"

text \<open>A Restore that fails after rewriting the trash manifest cannot be repeated: the manifest
  no longer says when the file was deleted, the entry is reported corrupt from then on, and
  with it every listing of the trash.\<close>

lemma restore_failure_breaks_trash:
  "case restoreFile None example_id (trash_store\<lparr>script := replicate 10 None @ [Some 0]\<rparr>) of
     (r, t) \<Rightarrow> r = Inl (OSErr EIO) \<and> script t = [] \<and>
       look t (trashObject example_id) = Some (NFile (Blob ''hello'')) \<and>
       fst (restoreFile None example_id t) = Inl ErrCorruptMetadata \<and>
       fst (listTrash None 10 0 t) = Inl ErrCorruptMetadata"
  by code_simp

text \<open>A Delete that is rolled back because the sync of the trash entry failed leaves the file in
  place but marked as deleted in its record.\<close>

lemma delete_rollback_keeps_mark:
  "case deleteFile None example_id 20 (file_store\<lparr>script := replicate 17 None @ [Some 0]\<rparr>) of
     (r, t) \<Rightarrow> r = Inl (OSErr EIO) \<and> script t = [] \<and>
       fst (openFile None example_id t) = Inr (example_file\<lparr>fDeletedAt := Some 20\<rparr>, ''hello'')"
  by code_simp


end
