(* ===== verification/StoreRecovery.thy ===== *)
theory StoreRecovery
  imports StoreTrash
begin

text \<open>
  Crash recovery of \<open>pkg/files/recovery.go\<close>: \<open>Recover\<close> with \<open>quarantinePath\<close>, \<open>copyTree\<close> and
  \<open>copyFile\<close>, and \<open>ListUploads\<close> with its sort. Leftovers are moved to the quarantine area.
\<close>

section \<open>Quarantine\<close>

definition copyFile :: "area path \<Rightarrow> area path \<Rightarrow> store \<Rightarrow> (err + unit) \<times> store" where
  "copyFile source target s =
     (case os_open source s of
        (Inl e, s) \<Rightarrow> (Inl (OSErr e), s)
      | (Inr _, s) \<Rightarrow>
     (case os_create_excl target s of
        (Inl e, s) \<Rightarrow> (Inl (OSErr e), s)
      | (Inr _, s) \<Rightarrow>
     (case os_read_file source s of
        (Inl e, s) \<Rightarrow> (Inl (OSErr e), snd (os_close s))
      | (Inr data, s) \<Rightarrow>
     (case os_write target data s of
        (Inl e, s) \<Rightarrow> (Inl (OSErr e), snd (os_close s))
      | (Inr _, s) \<Rightarrow>
     (case os_sync s of
        (Inl e, s) \<Rightarrow> (Inl (OSErr e), snd (os_close s))
      | (Inr _, s) \<Rightarrow>
     (case os_close s of
        (Inl e, s) \<Rightarrow> (Inl (OSErr e), s)
      | (Inr _, s) \<Rightarrow> (Inr (), s)))))))"

text \<open>The recursion descends the directory tree; \<open>n\<close> bounds its depth.\<close>

fun copyTree :: "nat \<Rightarrow> area path \<Rightarrow> area path \<Rightarrow> store \<Rightarrow> (err + unit) \<times> store"
and copyEntries :: "nat \<Rightarrow> (string \<times> bool) list \<Rightarrow> area path \<Rightarrow> area path \<Rightarrow> store \<Rightarrow> (err + unit) \<times> store" where
  "copyTree 0 source target s = (Inl OutOfFuel, s)"
| "copyTree (Suc n) source target s =
     (case os_mkdir_all target s of
        (Inl e, s) \<Rightarrow> (Inl (OSErr e), s)
      | (Inr _, s) \<Rightarrow>
     (case os_read_dir source s of
        (Inl e, s) \<Rightarrow> (Inl (OSErr e), s)
      | (Inr es, s) \<Rightarrow>
     (case copyEntries n es source target s of
        (Inl e, s) \<Rightarrow> (Inl e, s)
      | (Inr _, s) \<Rightarrow>
          (case syncDirectory target s of
             (Inl e, s) \<Rightarrow> (Inl (OSErr e), s)
           | (Inr _, s) \<Rightarrow> (Inr (), s)))))"
| "copyEntries n [] source target s = (Inr (), s)"
| "copyEntries n ((name, isDir) # es) source target s =
     (case (if isDir then copyTree n (child source name) (child target name) s
            else copyFile (child source name) (child target name) s) of
        (Inl e, s) \<Rightarrow> (Inl e, s)
      | (Inr _, s) \<Rightarrow> copyEntries n es source target s)"

text \<open>One more than the longest path: more than the depth of any tree on the disk.\<close>

definition tree_fuel :: "store \<Rightarrow> nat" where
  "tree_fuel s = Suc (fold (\<lambda>x m. max m (length (snd (fst x)))) (entries s) 0)"

text \<open>\<open>UnixNano\<close>: nanoseconds since 1970.\<close>

definition unixNano :: "time \<Rightarrow> int" where
  "unixNano t = wrap64 (t - 62135596800000000000)"

definition quarantinePath ::
  "time \<Rightarrow> area path \<Rightarrow> string \<Rightarrow> string \<Rightarrow> store \<Rightarrow> (err + unit) \<times> store" where
  "quarantinePath now path grp name s =
     (case os_mkdir_all (Quarantine, [grp]) s of
        (Inl e, s) \<Rightarrow> (Inl (OSErr e), s)
      | (Inr _, s) \<Rightarrow>
          (let (exists, s) = pathExists (Quarantine, [grp, filepath_base name]) s;
               target = (Quarantine,
                 [grp, if exists then show_int (unixNano now) @ ''-'' @ filepath_base name else filepath_base name])
           in case os_stat path s of
                (Inl e, s) \<Rightarrow> (Inl (OSErr e), s)
              | (Inr info, s) \<Rightarrow>
                  (case (if info = NDir
                         then (case copyTree (tree_fuel s) path target s of
                                 (Inl e, s) \<Rightarrow> (Inl e, s)
                               | (Inr _, s) \<Rightarrow> apfst lift_err (os_remove_all path s))
                         else apfst lift_err (os_rename path target s)) of
                     (Inl e, s) \<Rightarrow> (Inl e, s)
                   | (Inr _, s) \<Rightarrow> apfst lift_err (syncDirectory (Quarantine, []) s))))"

section \<open>Recover\<close>

record report =
  rPartialObjects :: int
  rMetadataManifests :: int
  rUploadManifests :: int
  rUploadSessions :: int
  rExpiredUploads :: int
  rExpiredTrash :: int

definition no_report :: report where
  "no_report = \<lparr>rPartialObjects = 0, rMetadataManifests = 0, rUploadManifests = 0, rUploadSessions = 0,
     rExpiredUploads = 0, rExpiredTrash = 0\<rparr>"

definition recovered :: "report \<Rightarrow> bool" where
  "recovered r \<longleftrightarrow> rPartialObjects r + rMetadataManifests r + rUploadManifests r + rUploadSessions r +
     rExpiredUploads r + rExpiredTrash r > 0"

text \<open>The three loops; a failure carries the report so far.\<close>

fun recover_partials ::
  "time \<Rightarrow> (string \<times> bool) list \<Rightarrow> report \<Rightarrow> store \<Rightarrow> ((err \<times> report) + report) \<times> store" where
  "recover_partials now [] r s = (Inr r, s)"
| "recover_partials now ((name, isDir) # es) r s =
     (if isDir \<or> \<not> suffix ''.part'' name then recover_partials now es r s
      else (case quarantinePath now (Tmp, [name]) ''partials'' name s of
          (Inl e, s) \<Rightarrow> (Inl (e, r), s)
        | (Inr _, s) \<Rightarrow> recover_partials now es (r\<lparr>rPartialObjects := rPartialObjects r + 1\<rparr>) s))"

fun recover_metadata ::
  "time \<Rightarrow> (string \<times> bool) list \<Rightarrow> report \<Rightarrow> store \<Rightarrow> ((err \<times> report) + report) \<times> store" where
  "recover_metadata now [] r s = (Inr r, s)"
| "recover_metadata now ((name, isDir) # es) r s =
     (if isDir \<or> \<not> suffix ''.json.tmp'' name then recover_metadata now es r s
      else (case quarantinePath now (Metadata, [name]) ''metadata'' name s of
          (Inl e, s) \<Rightarrow> (Inl (e, r), s)
        | (Inr _, s) \<Rightarrow> recover_metadata now es (r\<lparr>rMetadataManifests := rMetadataManifests r + 1\<rparr>) s))"

fun recover_children ::
  "time \<Rightarrow> string \<Rightarrow> (string \<times> bool) list \<Rightarrow> bool \<Rightarrow> report \<Rightarrow> store \<Rightarrow>
   ((err \<times> report) + (bool \<times> report)) \<times> store" where
  "recover_children now session [] hasManifest r s = (Inr (hasManifest, r), s)"
| "recover_children now session ((name, isDir) # es) hasManifest r s =
     (if name = ''manifest.json'' then recover_children now session es True r s
      else if suffix ''.json.tmp'' name then
        (case quarantinePath now (Uploads, [session, name]) ''uploads'' (session @ ''-'' @ name) s of
           (Inl e, s) \<Rightarrow> (Inl (e, r), s)
         | (Inr _, s) \<Rightarrow>
             recover_children now session es hasManifest (r\<lparr>rUploadManifests := rUploadManifests r + 1\<rparr>) s)
      else recover_children now session es hasManifest r s)"

fun recover_uploads ::
  "time \<Rightarrow> (string \<times> bool) list \<Rightarrow> report \<Rightarrow> store \<Rightarrow> ((err \<times> report) + report) \<times> store" where
  "recover_uploads now [] r s = (Inr r, s)"
| "recover_uploads now ((name, isDir) # es) r s =
     (if \<not> isDir then recover_uploads now es r s
      else (case os_read_dir (sessionDir name) s of
          (Inl e, s) \<Rightarrow> (Inl (OSErr e, r), s)
        | (Inr children, s) \<Rightarrow>
            (case recover_children now name children False r s of
               (Inl x, s) \<Rightarrow> (Inl x, s)
             | (Inr (hasManifest, r), s) \<Rightarrow>
                 if hasManifest then recover_uploads now es r s
                 else (case quarantinePath now (sessionDir name) ''uploads'' name s of
                     (Inl e, s) \<Rightarrow> (Inl (e, r), s)
                   | (Inr _, s) \<Rightarrow>
                       recover_uploads now es (r\<lparr>rUploadSessions := rUploadSessions r + 1\<rparr>) s))))"

definition recover :: "ctx \<Rightarrow> time \<Rightarrow> store \<Rightarrow> ((err \<times> report) + report) \<times> store" where
  "recover cx now s =
     (case cx of
        Some e \<Rightarrow> (Inl (CtxErr e, no_report), s)
      | None \<Rightarrow>
     (case os_read_dir (Tmp, []) s of
        (Inl e, s) \<Rightarrow> (Inl (OSErr e, no_report), s)
      | (Inr partials, s) \<Rightarrow>
     (case recover_partials now partials no_report s of
        (Inl x, s) \<Rightarrow> (Inl x, s)
      | (Inr r, s) \<Rightarrow>
     (case os_read_dir (Metadata, []) s of
        (Inl e, s) \<Rightarrow> (Inl (OSErr e, r), s)
      | (Inr manifests, s) \<Rightarrow>
     (case recover_metadata now manifests r s of
        (Inl x, s) \<Rightarrow> (Inl x, s)
      | (Inr r, s) \<Rightarrow>
     (case os_read_dir (Uploads, []) s of
        (Inl e, s) \<Rightarrow> (Inl (OSErr e, r), s)
      | (Inr sessions, s) \<Rightarrow>
     (case recover_uploads now sessions r s of
        (Inl x, s) \<Rightarrow> (Inl x, s)
      | (Inr r, s) \<Rightarrow>
     (case sweepUploadsUnlocked now s of
        (Inl x, s) \<Rightarrow> (Inl (fst x, r), s)
      | (Inr n, s) \<Rightarrow>
          (let r = r\<lparr>rExpiredUploads := n\<rparr> in
           if recovered r
           then (case rebuildUsageLocked s of
                   (Inl e, s) \<Rightarrow> (Inl (e, r), s)
                 | (Inr _, s) \<Rightarrow> (Inr r, s))
           else (Inr r, s))))))))))"

section \<open>ListUploads\<close>

definition session_before :: "upload_session \<Rightarrow> upload_session \<Rightarrow> bool" where
  "session_before right left \<longleftrightarrow>
     uUpdatedAt right > uUpdatedAt left \<or> (uUpdatedAt right = uUpdatedAt left \<and> uID right < uID left)"

text \<open>The inner loop: swap the element at \<open>j\<close> to the left while it belongs there.\<close>

fun sink :: "nat \<Rightarrow> upload_session list \<Rightarrow> upload_session list" where
  "sink 0 xs = xs"
| "sink (Suc j) xs =
     (if session_before (xs ! Suc j) (xs ! j)
      then sink j (xs[j := xs ! Suc j, Suc j := xs ! j]) else xs)"

definition sortSessionsByUpdated :: "upload_session list \<Rightarrow> upload_session list" where
  "sortSessionsByUpdated xs = fold sink [1..<length xs] xs"

fun list_upload_entries :: "(string \<times> bool) list \<Rightarrow> store \<Rightarrow> (err + upload_session list) \<times> store" where
  "list_upload_entries [] s = (Inr [], s)"
| "list_upload_entries ((name, isDir) # es) s =
     (if \<not> isDir \<or> \<not> validFileID name then list_upload_entries es s
      else (case getUploadUnlocked name s of
          (Inl e, s) \<Rightarrow> (Inl e, s)
        | (Inr u, s) \<Rightarrow>
            (case list_upload_entries es s of
               (Inl e, s) \<Rightarrow> (Inl e, s)
             | (Inr us, s) \<Rightarrow> (Inr (cloneUploadSession u # us), s))))"

definition listUploads :: "ctx \<Rightarrow> store \<Rightarrow> (err + upload_session list) \<times> store" where
  "listUploads cx s =
     (case cx of Some e \<Rightarrow> (Inl (CtxErr e), s)
      | None \<Rightarrow>
          (case os_read_dir (Uploads, []) s of
             (Inl e, s) \<Rightarrow> (Inl (OSErr e), s)
           | (Inr es, s) \<Rightarrow>
               (case list_upload_entries es s of
                  (Inl e, s) \<Rightarrow> (Inl e, s)
                | (Inr us, s) \<Rightarrow> (Inr (sortSessionsByUpdated us), s))))"

section \<open>Copying without failures\<close>

lemma make_dirs_existing:
  "\<forall>p\<in>set ps. map_of es p = Some NDir \<Longrightarrow> make_dirs (ps @ qs) es = make_dirs qs es"
  by (induction ps) auto

lemma os_mkdir_all_calm:
  assumes "script s = []" "\<forall>d. strict_prefix d (snd p) \<longrightarrow> look s (fst p, d) = Some NDir"
    and "look s p = None \<or> look s p = Some NDir"
  shows "os_mkdir_all p s = (Inr (), if look s p = None then put_entry p NDir s else s)"
proof (cases "snd p" rule: rev_cases)
  case Nil
  then show ?thesis using assms(1,3)
    by (cases p) (auto simp: os_mkdir_all_def syscall_calm look_def put_entry_def)
next
  case (snoc ds d)
  have ex: "\<forall>q\<in>set (map (Pair (fst p)) (prefixes ds)). map_of (entries s) q = Some NDir"
  proof
    fix q assume "q \<in> set (map (Pair (fst p)) (prefixes ds))"
    then obtain d' where "q = (fst p, d')" "prefix d' ds" by auto
    moreover from this(2) have "strict_prefix d' (snd p)" using snoc by (auto simp: strict_prefix_def)
    ultimately show "map_of (entries s) q = Some NDir" using assms(2) by (auto simp: look_def)
  qed
  have "make_dirs (map (Pair (fst p)) (prefixes (snd p))) (entries s) = make_dirs [p] (entries s)"
    using make_dirs_existing [OF ex, of "[p]"] snoc by (cases p) (auto simp: prefixes_snoc)
  then show ?thesis using assms(1,3)
    by (auto simp: os_mkdir_all_def syscall_calm look_def put_entry_def)
qed

definition only_entries :: "store \<Rightarrow> store \<Rightarrow> bool" where
  "only_entries s t \<longleftrightarrow> script t = script s \<and> same_index s t \<and> same_config s t"

lemma only_entries_refl [simp]: "only_entries s s"
  by (simp add: only_entries_def)

lemma only_entries_trans: "only_entries s t \<Longrightarrow> only_entries t u \<Longrightarrow> only_entries s u"
  by (simp add: only_entries_def same_index_def same_config_def)

lemma only_entries_entry [simp]:
  "only_entries s (put_entry p n s)" "only_entries s (del_entry p s)" "only_entries s (prune_entry p s)"
  by (simp_all add: only_entries_def same_config_def)

lemma copyFile_calm:
  assumes "script s = []" "look s source = Some (NFile c)" "look s target = None" "source \<noteq> target"
    and "look s (parent target) = Some NDir"
  shows "copyFile source target s = (Inr (), put_entry target (NFile c) s)"
  using assms by (simp add: copyFile_def go_simps)

text \<open>A complete tree of depth at most \<open>n\<close>, a free place for it, and what a copy is.\<close>

definition tree_at :: "store \<Rightarrow> area path \<Rightarrow> nat \<Rightarrow> bool" where
  "tree_at s p n \<longleftrightarrow>
     look s p = Some NDir \<and>
     (\<forall>q. under p q \<and> look s q \<noteq> None \<longrightarrow>
        length (snd q) < length (snd p) + n \<and> (q \<noteq> p \<longrightarrow> look s (parent q) = Some NDir))"

definition free_below :: "store \<Rightarrow> area path \<Rightarrow> bool" where
  "free_below s p \<longleftrightarrow> (\<forall>q. under p q \<longrightarrow> look s q = None)"

definition dirs_above :: "store \<Rightarrow> area path \<Rightarrow> bool" where
  "dirs_above s p \<longleftrightarrow> (\<forall>d. strict_prefix d (snd p) \<longrightarrow> look s (fst p, d) = Some NDir)"

definition copied :: "area path \<Rightarrow> area path \<Rightarrow> store \<Rightarrow> store \<Rightarrow> bool" where
  "copied source target s t \<longleftrightarrow>
     (\<forall>p. look t p = (if under target p then look s (rebase target source p) else look s p))"

lemma tree_at_cong:
  assumes "tree_at s p n" "\<And>q. fst q = fst p \<Longrightarrow> look t q = look s q"
  shows "tree_at t p n"
  using assms(1) unfolding tree_at_def
  by (metis (no_types, lifting) assms(2) fst_conv parent_pair prod.collapse under_pair)

lemma tree_at_child:
  assumes "tree_at s p (Suc n)" "look s (child p x) = Some NDir"
  shows "tree_at s (child p x) n"
  unfolding tree_at_def
proof (intro conjI allI impI)
  fix q assume q: "under (child p x) q \<and> look s q \<noteq> None"
  have u: "under p q" "q \<noteq> p"
    using q by (cases p; cases q; auto simp: prefix_def)+
  have "length (snd q) < length (snd p) + Suc n \<and> look s (parent q) = Some NDir"
    using u q assms(1) unfolding tree_at_def by blast
  then show "length (snd q) < length (snd (child p x)) + n" "look s (parent q) = Some NDir"
    by (cases p; simp)+
qed fact

lemma tree_at_file:
  assumes "tree_at s p n" "look s f \<noteq> Some NDir" "under p f"
  shows "r \<noteq> [] \<Longrightarrow> look s (fst f, snd f @ r) = None"
proof (induction r rule: rev_induct)
  case (snoc y r)
  have "under p (fst f, snd f @ r @ [y])" "(fst f, snd f @ r @ [y]) \<noteq> p"
    using assms(3) by (cases p; cases f; auto simp: prefix_def)+
  then have "look s (fst f, snd f @ r) = Some NDir" if "look s (fst f, snd f @ r @ [y]) \<noteq> None"
    using that assms(1) unfolding tree_at_def by (metis butlast_snoc parent_pair append_assoc)
  moreover have "look s (fst f, snd f @ r) \<noteq> Some NDir"
    using snoc.IH assms(2) by (cases "r = []") auto
  ultimately show ?case by (cases "look s (fst f, snd f @ r @ [y])") auto
qed simp

lemma rebase_child:
  "under (child q x) p \<Longrightarrow> rebase (child q x) (child r x) p = rebase q r p"
  by (cases q; cases r; cases p) (auto simp: rebase_def prefix_def)

lemma child_disjoint: "x \<noteq> y \<Longrightarrow> under (child q x) p \<Longrightarrow> \<not> under (child q y) p"
  by (cases q; cases p) (auto simp: prefix_def)

lemma copyEntries_calm:
  assumes IH: "\<And>source target s. script s = [] \<Longrightarrow> tree_at s source n \<Longrightarrow> fst source \<noteq> fst target \<Longrightarrow>
      free_below s target \<Longrightarrow> dirs_above s target \<Longrightarrow>
      \<exists>t. copyTree n source target s = (Inr (), t) \<and> only_entries s t \<and> copied source target s t"
    and "fst source \<noteq> fst target"
  shows "script s = [] \<Longrightarrow> tree_at s source (Suc n) \<Longrightarrow> distinct (map fst es) \<Longrightarrow>
    \<forall>(x, d)\<in>set es. look s (child source x) \<noteq> None \<and> (d \<longleftrightarrow> look s (child source x) = Some NDir) \<and>
      free_below s (child target x) \<Longrightarrow>
    look s target = Some NDir \<Longrightarrow> dirs_above s target \<Longrightarrow>
    \<exists>t. copyEntries n es source target s = (Inr (), t) \<and> only_entries s t \<and>
      (\<forall>p. look t p = (if \<exists>x\<in>fst ` set es. under (child target x) p
                       then look s (rebase target source p) else look s p))"
proof (induction es arbitrary: s)
  case (Cons e es)
  obtain x d where e: "e = (x, d)" by (cases e)
  let ?c = "child source x" and ?t = "child target x"
  have x: "look s ?c \<noteq> None" "d \<longleftrightarrow> look s ?c = Some NDir" "free_below s ?t"
    using Cons.prems(4) by (auto simp: e)
  have above: "dirs_above s ?t"
    using Cons.prems(5,6) by (cases target) (auto simp: dirs_above_def strict_prefix_def)
  have ar: "fst ?c \<noteq> fst ?t" using assms(2) by (cases source; cases target) simp
  obtain s1 where s1: "(if d then copyTree n ?c ?t s else copyFile ?c ?t s) = (Inr (), s1)"
    "only_entries s s1" "copied ?c ?t s s1"
  proof (cases d)
    case True
    with x have "tree_at s ?c n" using tree_at_child [OF Cons.prems(2)] by simp
    from IH [OF Cons.prems(1) this ar x(3) above] True that show ?thesis by auto
  next
    case False
    then obtain c where c: "look s ?c = Some (NFile c)" using x(1,2) by (metis inode.exhaust option.exhaust)
    have run: "copyFile ?c ?t s = (Inr (), put_entry ?t (NFile c) s)"
      using x(3) above c ar Cons.prems(1,5)
      by (intro copyFile_calm) (cases target; cases source; auto simp: free_below_def)+
    have below: "look s (rebase ?t ?c p) = (if p = ?t then Some (NFile c) else None)" if u: "under ?t p" for p
    proof -
      obtain r where p: "p = (fst ?t, snd ?t @ r)" using u by (cases p; cases target) (auto simp: prefix_def)
      have "under source ?c" by (cases source) simp
      then show ?thesis
        using tree_at_file [OF Cons.prems(2), of ?c r] c
        by (cases "r = []") (auto simp: p rebase_def prod_eq_iff)
    qed
    have "copied ?c ?t s (put_entry ?t (NFile c) s)"
      using below x(3) by (auto simp: copied_def free_below_def)
    with run False that show ?thesis by simp
  qed
  have keep: "look s1 q = look s q" if "\<not> under ?t q" for q using s1(3) that unfolding copied_def by metis
  have src: "look s1 q = look s q" if "fst q = fst source" for q
    using that ar by (intro keep) (cases q; cases target; cases source; auto)
  have "\<exists>t. copyEntries n es source target s1 = (Inr (), t) \<and> only_entries s1 t \<and>
      (\<forall>p. look t p = (if \<exists>x\<in>fst ` set es. under (child target x) p
                       then look s1 (rebase target source p) else look s1 p))"
  proof (rule Cons.IH)
    show "script s1 = []" using s1(2) Cons.prems(1) by (simp add: only_entries_def)
    show "tree_at s1 source (Suc n)" using Cons.prems(2) src by (rule tree_at_cong)
    show "distinct (map fst es)" using Cons.prems(3) by simp
    show "look s1 target = Some NDir" using Cons.prems(5) by (subst keep) (cases target; auto)
    show "dirs_above s1 target" unfolding dirs_above_def
    proof (intro allI impI)
      fix ds assume "strict_prefix ds (snd target)"
      then have "look s (fst target, ds) = Some NDir" "length ds < length (snd target)"
        using Cons.prems(6) by (simp_all add: dirs_above_def prefix_length_less)
      moreover from this(2) have "\<not> under ?t (fst target, ds)"
        by (cases target) (auto dest: prefix_length_le)
      ultimately show "look s1 (fst target, ds) = Some NDir" using keep by metis
    qed
    show "\<forall>(y, d)\<in>set es. look s1 (child source y) \<noteq> None \<and> (d \<longleftrightarrow> look s1 (child source y) = Some NDir) \<and>
      free_below s1 (child target y)"
    proof (clarify, intro conjI)
      fix y d assume y: "(y, d) \<in> set es"
      then have ne: "y \<noteq> x" using Cons.prems(3) by (force simp: e)
      have "look s1 (child source y) = look s (child source y)" by (rule src) (cases source; simp)
      with y Cons.prems(4) show "look s1 (child source y) \<noteq> None" "d \<longleftrightarrow> look s1 (child source y) = Some NDir"
        by (auto simp: e)
      have "free_below s (child target y)" using y Cons.prems(4) by (auto simp: e)
      then show "free_below s1 (child target y)"
        unfolding free_below_def using keep child_disjoint [OF ne] by metis
    qed
  qed
  then obtain t where t: "copyEntries n es source target s1 = (Inr (), t)" "only_entries s1 t"
    "\<And>p. look t p = (if \<exists>x\<in>fst ` set es. under (child target x) p
                       then look s1 (rebase target source p) else look s1 p)" by blast
  have rb: "look s1 (rebase target source p) = look s (rebase target source p)" for p
    by (rule src) (simp add: rebase_def)
  have "look t p = (if \<exists>x\<in>fst ` set (e # es). under (child target x) p
                       then look s (rebase target source p) else look s p)" for p
  proof -
    have "look s1 p = (if under ?t p then look s (rebase target source p) else look s p)"
      using s1(3) rebase_child [of target x p source] unfolding copied_def by metis
    then show ?thesis by (auto simp: t(3) rb e)
  qed
  with t(1,2) s1(1) only_entries_trans [OF s1(2) t(2)] show ?case
    by (intro exI [of _ t]) (auto simp: e split: if_splits)
qed simp

lemma children_names: "fst ` set (map (\<lambda>n. (n, f n)) (names s p)) = {m. look s (child p m) \<noteq> None}"
  by (simp add: image_image set_names)

lemma copyTree_calm:
  "script s = [] \<Longrightarrow> tree_at s source n \<Longrightarrow> fst source \<noteq> fst target \<Longrightarrow> free_below s target \<Longrightarrow>
   dirs_above s target \<Longrightarrow>
   \<exists>t. copyTree n source target s = (Inr (), t) \<and> only_entries s t \<and> copied source target s t"
proof (induction n arbitrary: source target s)
  case 0
  then have False unfolding tree_at_def by (metis add_0_right less_irrefl option.distinct(1) under_refl)
  then show ?case ..
next
  case (Suc n)
  let ?s = "put_entry target NDir s"
  let ?es = "map (\<lambda>m. (m, look ?s (child source m) = Some NDir)) (names ?s source)"
  have free: "look s target = None" using Suc.prems(4) by (cases target) (auto simp: free_below_def)
  have mk: "os_mkdir_all target s = (Inr (), ?s)"
    using os_mkdir_all_calm [OF Suc.prems(1)] Suc.prems(5) free by (simp add: dirs_above_def)
  have src: "look ?s q = look s q" if "fst q = fst source" for q
    using that Suc.prems(3) by auto
  have rd: "os_read_dir source ?s = (Inr ?es, ?s)"
    using Suc.prems(1,2,3) by (auto simp: go_simps tree_at_def)
  have below: "under (child target x) p \<Longrightarrow> under target p \<and> p \<noteq> target" for x p
    by (cases target; cases p) (auto simp: prefix_def)
  have "\<exists>t. copyEntries n ?es source target ?s = (Inr (), t) \<and> only_entries ?s t \<and>
      (\<forall>p. look t p = (if \<exists>x\<in>fst ` set ?es. under (child target x) p
                       then look ?s (rebase target source p) else look ?s p))"
  proof (rule copyEntries_calm [OF Suc.IH Suc.prems(3)])
    show "script ?s = []" using Suc.prems(1) by simp
    show "tree_at ?s source (Suc n)" using Suc.prems(2) src by (rule tree_at_cong)
    show "distinct (map fst ?es)" by (simp add: comp_def)
    show "look ?s target = Some NDir" by simp
    show "dirs_above ?s target" using Suc.prems(5) by (cases target) (auto simp: dirs_above_def)
    show "\<forall>(x, d)\<in>set ?es. look ?s (child source x) \<noteq> None \<and> (d \<longleftrightarrow> look ?s (child source x) = Some NDir) \<and>
        free_below ?s (child target x)"
      using Suc.prems(4) below by (auto simp: set_names free_below_def)
  qed
  then obtain t where t: "copyEntries n ?es source target ?s = (Inr (), t)" "only_entries ?s t"
    "\<And>p. look t p = (if \<exists>x. look ?s (child source x) \<noteq> None \<and> under (child target x) p
                      then look ?s (rebase target source p) else look ?s p)"
    unfolding children_names by auto
  have sync: "syncDirectory target t = (Inr (), t)"
    using t Suc.prems(1) below [of _ target] by (auto simp: go_simps only_entries_def)
  have "copied source target s t" unfolding copied_def
  proof
    fix p
    have rb: "look ?s (rebase target source p) = look s (rebase target source p)"
      by (rule src) (simp add: rebase_def)
    show "look t p = (if under target p then look s (rebase target source p) else look s p)"
    proof (cases "under target p \<and> p \<noteq> target")
      case True
      then obtain x r where p: "p = (fst target, snd target @ x # r)"
        by (cases target; cases p) (auto simp: prefix_def, metis neq_Nil_conv)
      have ux: "under (child target x) p" by (cases target) (simp add: p)
      have "under source (child source x)" by (cases source) simp
      then have none: "look s (rebase target source p) = None" if "look s (child source x) = None"
        using that tree_at_file [OF Suc.prems(2), of "child source x" r]
        by (cases source; cases "r = []") (auto simp: p rebase_def)
      have "look s p = None" using True Suc.prems(4) unfolding free_below_def by blast
      moreover have "(\<exists>y. look ?s (child source y) \<noteq> None \<and> under (child target y) p) \<longleftrightarrow>
          look s (child source x) \<noteq> None"
      proof -
        have "look ?s (child source x) = look s (child source x)" by (rule src) (cases source; simp)
        moreover have "y = x" if "under (child target y) p" for y
          using ux that child_disjoint by blast
        ultimately show ?thesis using ux by (metis (no_types))
      qed
      ultimately show ?thesis
        using none True rb unfolding t(3) by auto
    next
      case False
      then have "\<not> under (child target x) p" for x using below by blast
      then have "look t p = look ?s p" unfolding t(3) by (auto split del: if_split)
      moreover have "rebase target source target = source"
        by (cases source; cases target) (simp add: rebase_def)
      moreover have "p = target" if "under target p" using that False by blast
      ultimately show ?thesis using Suc.prems(2) by (auto simp: tree_at_def)
    qed
  qed
  moreover have "only_entries s t" using only_entries_trans [OF only_entries_entry(1) t(2)] .
  ultimately show ?case using mk rd t(1) sync by auto
qed

section \<open>The descent ends\<close>

text \<open>Under any failures the copy writes in the quarantine only, so the source keeps its depth and
  the recursion never runs out.\<close>

definition quarantine_paths :: "area path set" where
  "quarantine_paths = {p. fst p = Quarantine}"

lemma quarantine_path [simp]: "p \<in> quarantine_paths \<longleftrightarrow> fst p = Quarantine"
  by (simp add: quarantine_paths_def)

lemma touches_copyFile:
  "touches R s t \<Longrightarrow> target \<in> R \<Longrightarrow> touches R s (snd (copyFile source target t))"
  unfolding copyFile_def by (intro touch_intros)

lemma touches_copyTree:
  assumes "fst target = Quarantine" "touches quarantine_paths s t"
  shows "touches quarantine_paths s (snd (copyTree n source target t))"
  using assms
proof (induction n arbitrary: source target t)
  case (Suc n)
  have sub: "touches quarantine_paths s t \<Longrightarrow> touches quarantine_paths s (snd (copyEntries n es source target t))"
    for es t
  proof (induction es arbitrary: t)
    case (Cons e es)
    have c: "fst (child target x) = Quarantine" for x using Suc.prems(1) by (cases target) simp
    show ?case using Cons.prems
      by (cases e) (auto intro!: touch_intros Cons.IH Suc.IH touches_copyFile simp: c)
  qed simp
  show ?case
    using Suc.prems by (auto intro!: touch_intros sub)
qed simp

lemma source_kept:
  "touches quarantine_paths s t \<Longrightarrow> fst q \<noteq> Quarantine \<Longrightarrow> look t q = look s q"
  by (erule touches_look) (auto simp: Disk.under_def)

definition depth_below :: "store \<Rightarrow> area path \<Rightarrow> nat \<Rightarrow> bool" where
  "depth_below s p n \<longleftrightarrow> (\<forall>q. under p q \<and> look s q \<noteq> None \<longrightarrow> length (snd q) < length (snd p) + n)"

lemma copyTree_fuel:
  assumes "fst source \<noteq> Quarantine" "fst target = Quarantine" "touches quarantine_paths s0 s"
    and "look s0 source \<noteq> None" "depth_below s0 source n"
  shows "fst (copyTree n source target s) \<noteq> Inl OutOfFuel"
  using assms
proof (induction n arbitrary: source target s)
  case 0
  then show ?case unfolding depth_below_def by (metis add_0_right less_irrefl under_refl)
next
  case (Suc n)
  have sub: "fst (copyEntries n es source target t) \<noteq> Inl OutOfFuel"
    if "touches quarantine_paths s0 t" "\<forall>(x, d)\<in>set es. look s0 (child source x) \<noteq> None" for es t
    using that
  proof (induction es arbitrary: t)
    case (Cons e es)
    obtain x d where e: "e = (x, d)" by (cases e)
    have ar: "fst (child source x) \<noteq> Quarantine" "fst (child target x) = Quarantine"
      using Suc.prems(1,2) by (cases source; cases target; simp)+
    have deep: "depth_below s0 (child source x) n"
      using Suc.prems(5) by (cases source) (auto simp: depth_below_def prefix_def)
    have tree: "fst (copyTree n (child source x) (child target x) t) \<noteq> Inl OutOfFuel"
      using Suc.IH [OF ar Cons.prems(1) _ deep] Cons.prems(2) by (simp add: e)
    have "fst (copyFile (child source x) (child target x) t) \<noteq> Inl OutOfFuel"
      by (auto simp: copyFile_def split: prod.split sum.split)
    with tree have one: "fst (if d then copyTree n (child source x) (child target x) t
        else copyFile (child source x) (child target x) t) \<noteq> Inl OutOfFuel" by simp
    have next_: "touches quarantine_paths s0 (snd (if d then copyTree n (child source x) (child target x) t
        else copyFile (child source x) (child target x) t))"
      using Cons.prems(1) ar by (simp add: touches_copyTree touches_copyFile)
    show ?case
      using one Cons.IH [OF next_] Cons.prems(2)
      by (auto simp: e split: prod.split sum.split)
  qed simp
  have mk: "touches quarantine_paths s0 (snd (os_mkdir_all target s))"
    using Suc.prems(2,3) by (intro touch_intros) auto
  show ?case
  proof (cases "os_mkdir_all target s")
    case mkdir: (Pair r1 s1)
    show ?thesis
    proof (cases "os_read_dir source s1")
      case (Pair r t)
      have s1: "touches quarantine_paths s0 s1" using mk mkdir by simp
      have t: "touches quarantine_paths s0 t"
        using touches_readers [OF s1] Pair by (metis snd_conv)
      have ex: "look s0 (child source x) \<noteq> None" if "r = Inr es" "(x, d) \<in> set es" for es x d
      proof -
        have "look s1 (child source x) \<noteq> None"
          using os_read_dir_Inr(2) [of source s1 es t] Pair that by force
        moreover have "fst (child source x) \<noteq> Quarantine" using Suc.prems(1) by (cases source) simp
        then have "look s1 (child source x) = look s0 (child source x)" by (rule source_kept [OF s1])
        ultimately show ?thesis by simp
      qed
      have names: "\<forall>(x, d)\<in>set es. look s0 (child source x) \<noteq> None" if "r = Inr es" for es
        using ex [OF that] by blast
      show ?thesis
        using mkdir Pair sub [OF t names] by (auto split: sum.split prod.split)
    qed
  qed
qed

end
