(* ===== verification/StoreReady.thy ===== *)
theory StoreReady
  imports StoreRecovery
begin

text \<open>
  The readiness check of \<open>pkg/files/store.go\<close>: \<open>Ready\<close> with \<open>readyQuarantineUnlocked\<close>. It probes
  the temporary directory and walks every area; \<open>consistent\<close> says what it accepts, in terms of what
  is on disk.
\<close>

section \<open>Ready\<close>

fun ready_manifests :: "(string \<times> bool) list \<Rightarrow> string list \<Rightarrow> store \<Rightarrow> (err + string list) \<times> store" where
  "ready_manifests [] ids s = (Inr ids, s)"
| "ready_manifests ((name, isDir) # es) ids s =
     (if isDir \<or> filepath_ext name \<noteq> ''.json'' then (Inl ErrCorruptMetadata, s)
      else let i = trim_suffix ''.json'' name in
        if \<not> validFileID i then (Inl ErrCorruptMetadata, s)
        else (case getUnlocked i s of
            (Inl e, s) \<Rightarrow> (Inl e, s)
          | (Inr _, s) \<Rightarrow>
              (case os_stat (objectPath i) s of
                 (Inl e, s) \<Rightarrow> (Inl (if e = ENOENT then ErrCorruptMetadata else OSErr e), s)
               | (Inr _, s) \<Rightarrow> ready_manifests es (i # ids) s)))"

fun ready_objects :: "(string \<times> bool) list \<Rightarrow> string list \<Rightarrow> err + unit" where
  "ready_objects [] ids = Inr ()"
| "ready_objects ((name, isDir) # es) ids =
     (if isDir \<or> \<not> validFileID name then Inl ErrCorruptMetadata
      else if name \<notin> set ids then Inl ErrCorruptMetadata
      else ready_objects es ids)"

fun ready_session_children :: "(string \<times> bool) list \<Rightarrow> bool \<Rightarrow> err + bool" where
  "ready_session_children [] hasManifest = Inr hasManifest"
| "ready_session_children ((name, isDir) # es) hasManifest =
     (if name = ''manifest.json'' then ready_session_children es True
      else if name \<noteq> ''data.part'' then Inl ErrCorruptMetadata
      else ready_session_children es hasManifest)"

fun ready_uploads :: "(string \<times> bool) list \<Rightarrow> store \<Rightarrow> (err + unit) \<times> store" where
  "ready_uploads [] s = (Inr (), s)"
| "ready_uploads ((name, isDir) # es) s =
     (if \<not> isDir \<or> \<not> validFileID name then (Inl ErrCorruptMetadata, s)
      else (case os_read_dir (sessionDir name) s of
          (Inl e, s) \<Rightarrow> (Inl (OSErr e), s)
        | (Inr children, s) \<Rightarrow>
            (case ready_session_children children False of
               Inl e \<Rightarrow> (Inl e, s)
             | Inr hasManifest \<Rightarrow>
                 if \<not> hasManifest then (Inl ErrCorruptMetadata, s)
                 else (case getUploadUnlocked name s of
                     (Inl _, s) \<Rightarrow> (Inl ErrCorruptMetadata, s)
                   | (Inr session, s) \<Rightarrow>
                       if uStatus session = UploadStatusCompleted \<and> ''data.part'' \<in> fst ` set children
                       then (Inl ErrCorruptMetadata, s)
                       else ready_uploads es s))))"

fun ready_trash_children :: "(string \<times> bool) list \<Rightarrow> bool \<Rightarrow> bool \<Rightarrow> err + bool \<times> bool" where
  "ready_trash_children [] hasObject hasManifest = Inr (hasObject, hasManifest)"
| "ready_trash_children ((name, isDir) # es) hasObject hasManifest =
     (if name = ''object'' then ready_trash_children es True hasManifest
      else if name = ''manifest.json'' then ready_trash_children es hasObject True
      else Inl ErrCorruptMetadata)"

fun ready_trash :: "(string \<times> bool) list \<Rightarrow> store \<Rightarrow> (err + unit) \<times> store" where
  "ready_trash [] s = (Inr (), s)"
| "ready_trash ((name, isDir) # es) s =
     (if \<not> isDir \<or> \<not> validFileID name then (Inl ErrCorruptMetadata, s)
      else (case os_read_dir (trashDir name) s of
          (Inl e, s) \<Rightarrow> (Inl (OSErr e), s)
        | (Inr children, s) \<Rightarrow>
            (case ready_trash_children children False False of
               Inl e \<Rightarrow> (Inl e, s)
             | Inr (hasObject, hasManifest) \<Rightarrow>
                 if \<not> hasObject \<or> \<not> hasManifest then (Inl ErrCorruptMetadata, s)
                 else (case getTrashUnlocked name s of
                     (Inl e, s) \<Rightarrow> (Inl e, s)
                   | (Inr _, s) \<Rightarrow> ready_trash es s))))"

fun ready_groups :: "(string \<times> bool) list \<Rightarrow> err + unit" where
  "ready_groups [] = Inr ()"
| "ready_groups ((name, isDir) # es) =
     (if \<not> isDir then Inl ErrCorruptMetadata
      else if name = ''partials'' \<or> name = ''metadata'' \<or> name = ''uploads'' then ready_groups es
      else Inl ErrCorruptMetadata)"

definition readyQuarantineUnlocked :: "store \<Rightarrow> (err + unit) \<times> store" where
  "readyQuarantineUnlocked s =
     (case os_read_dir (Quarantine, []) s of
        (Inl e, s) \<Rightarrow> (Inl (OSErr e), s)
      | (Inr groups, s) \<Rightarrow> (ready_groups groups, s))"

text \<open>\<open>rnd\<close> is the random part of the name \<open>os.CreateTemp\<close> found free.\<close>

definition probe_path :: "string \<Rightarrow> area path" where
  "probe_path rnd = (Tmp, [''.ready-'' @ rnd])"

definition ready_probe :: "string \<Rightarrow> store \<Rightarrow> (err + unit) \<times> store" where
  "ready_probe rnd s =
     (case os_create_excl (probe_path rnd) s of
        (Inl e, s) \<Rightarrow> (Inl (OSErr e), s)
      | (Inr _, s) \<Rightarrow>
     (case os_close s of
        (Inl e, s) \<Rightarrow> (Inl (OSErr e), remove_quiet (probe_path rnd) s)
      | (Inr _, s) \<Rightarrow> apfst lift_err (os_remove (probe_path rnd) s)))"

definition ready_walk :: "store \<Rightarrow> (err + unit) \<times> store" where
  "ready_walk s =
     (case os_read_dir (Metadata, []) s of
        (Inl e, s) \<Rightarrow> (Inl (OSErr e), s)
      | (Inr manifests, s) \<Rightarrow>
     (case ready_manifests manifests [] s of
        (Inl e, s) \<Rightarrow> (Inl e, s)
      | (Inr manifestIDs, s) \<Rightarrow>
     (case os_read_dir (Objects, []) s of
        (Inl e, s) \<Rightarrow> (Inl (OSErr e), s)
      | (Inr objects, s) \<Rightarrow>
     (case ready_objects objects manifestIDs of
        Inl e \<Rightarrow> (Inl e, s)
      | Inr _ \<Rightarrow>
     (case os_read_dir (Uploads, []) s of
        (Inl e, s) \<Rightarrow> (Inl (OSErr e), s)
      | (Inr uploads, s) \<Rightarrow>
     (case ready_uploads uploads s of
        (Inl e, s) \<Rightarrow> (Inl e, s)
      | (Inr _, s) \<Rightarrow>
     (case os_read_dir (Trash, []) s of
        (Inl e, s) \<Rightarrow> (Inl (OSErr e), s)
      | (Inr trash, s) \<Rightarrow>
     (case ready_trash trash s of
        (Inl e, s) \<Rightarrow> (Inl e, s)
      | (Inr _, s) \<Rightarrow>
     (case readyQuarantineUnlocked s of
        (Inl e, s) \<Rightarrow> (Inl e, s)
      | (Inr _, s) \<Rightarrow>
     (case os_read_dir (Tmp, []) s of
        (Inl e, s) \<Rightarrow> (Inl (OSErr e), s)
      | (Inr partials, s) \<Rightarrow>
          (if partials \<noteq> [] then Inl ErrCorruptMetadata else Inr (), s)))))))))))"

definition ready :: "ctx \<Rightarrow> string \<Rightarrow> store \<Rightarrow> (err + unit) \<times> store" where
  "ready cx rnd s =
     (case cx of Some e \<Rightarrow> (Inl (CtxErr e), s)
      | None \<Rightarrow>
          (case ready_probe rnd s of
             (Inl e, s) \<Rightarrow> (Inl e, s)
           | (Inr _, s) \<Rightarrow> ready_walk s))"

section \<open>What it accepts\<close>

definition readable_file :: "store \<Rightarrow> string \<Rightarrow> bool" where
  "readable_file s i \<longleftrightarrow> (\<exists>f. fst (getUnlocked i s) = Inr f)"

definition manifest_name_ok :: "store \<Rightarrow> string \<Rightarrow> bool" where
  "manifest_name_ok s n \<longleftrightarrow>
     (\<exists>i. n = i @ ''.json'' \<and> validFileID i \<and> readable_file s i \<and> look s (objectPath i) \<noteq> None)"

definition object_name_ok :: "store \<Rightarrow> string \<Rightarrow> bool" where
  "object_name_ok s n \<longleftrightarrow>
     validFileID n \<and> look s (objectPath n) \<noteq> Some NDir \<and> look s (manifestPath n) \<noteq> None"

definition session_names :: "string set" where
  "session_names = {''manifest.json'', ''data.part''}"

definition trash_names :: "string set" where
  "trash_names = {''object'', ''manifest.json''}"

definition session_name_ok :: "store \<Rightarrow> string \<Rightarrow> bool" where
  "session_name_ok s n \<longleftrightarrow>
     look s (sessionDir n) = Some NDir \<and> validFileID n \<and>
     (\<forall>m. look s (child (sessionDir n) m) \<noteq> None \<longrightarrow> m \<in> session_names) \<and>
     (\<exists>u. fst (getUploadUnlocked n s) = Inr u \<and>
        (uStatus u = UploadStatusCompleted \<longrightarrow> look s (sessionData n) = None))"

definition trash_name_ok :: "store \<Rightarrow> string \<Rightarrow> bool" where
  "trash_name_ok s n \<longleftrightarrow>
     look s (trashDir n) = Some NDir \<and> validFileID n \<and>
     (\<forall>m. look s (child (trashDir n) m) \<noteq> None \<longrightarrow> m \<in> trash_names) \<and>
     (\<exists>f. fst (getTrashUnlocked n s) = Inr f)"

definition group_name_ok :: "store \<Rightarrow> string \<Rightarrow> bool" where
  "group_name_ok s n \<longleftrightarrow> n \<in> quarantine_groups \<and> look s (Quarantine, [n]) = Some NDir"

text \<open>Every name in an area satisfies the area's rule; the temporary directory is empty.\<close>

definition consistent :: "store \<Rightarrow> bool" where
  "consistent s \<longleftrightarrow>
     (\<forall>n. look s (Metadata, [n]) \<noteq> None \<longrightarrow> manifest_name_ok s n) \<and>
     (\<forall>n. look s (Objects, [n]) \<noteq> None \<longrightarrow> object_name_ok s n) \<and>
     (\<forall>n. look s (Uploads, [n]) \<noteq> None \<longrightarrow> session_name_ok s n) \<and>
     (\<forall>n. look s (Trash, [n]) \<noteq> None \<longrightarrow> trash_name_ok s n) \<and>
     (\<forall>n. look s (Quarantine, [n]) \<noteq> None \<longrightarrow> group_name_ok s n) \<and>
     (\<forall>n. look s (Tmp, [n]) = None)"

section \<open>The walk without failures\<close>

lemma gets_calm:
  assumes "script s = []"
  shows "snd (getUnlocked i s) = s" "snd (getUploadUnlocked i s) = s" "snd (getTrashUnlocked i s) = s"
  using assms
  by (auto simp: getUnlocked_def getUploadUnlocked_def getTrashUnlocked_def go_simps
      split: option.split inode.split)

lemma trash_object_present:
  "script s = [] \<Longrightarrow> fst (getTrashUnlocked i s) = Inr f \<Longrightarrow>
   look s (trashObject i) \<noteq> None \<and> look s (trashManifest i) \<noteq> None"
  by (auto simp: getTrashUnlocked_def go_simps split: option.splits inode.splits if_splits)

lemma session_manifest_present:
  "script s = [] \<Longrightarrow> fst (getUploadUnlocked i s) = Inr u \<Longrightarrow> look s (sessionManifest i) \<noteq> None"
  by (auto simp: getUploadUnlocked_def go_simps split: option.splits inode.splits if_splits)

lemma readable_manifest:
  "script s = [] \<Longrightarrow> readable_file s i \<Longrightarrow> \<exists>c. look s (manifestPath i) = Some (NFile c)"
  by (auto simp: readable_file_def getUnlocked_def go_simps split: option.splits inode.splits if_splits)

lemma filepath_ext_suffix: "suffix (filepath_ext s) s"
proof -
  let ?r = "takeWhile (\<lambda>c. c \<noteq> CHR ''.'' \<and> c \<noteq> CHR ''/'') (rev s)"
  show ?thesis
  proof (cases "drop (length ?r) (rev s)")
    case (Cons c cs)
    then have "rev s = ?r @ c # cs"
      by (metis append_take_drop_id takeWhile_eq_take)
    then have "s = rev cs @ c # rev ?r"
      by (metis rev_append rev_rev_ident rev.simps(2) append_assoc append_Cons append_Nil)
    with Cons show ?thesis by (auto simp: filepath_ext_def Let_def suffix_def)
  qed (simp add: filepath_ext_def)
qed

lemma json_ext: "filepath_ext n = ''.json'' \<longleftrightarrow> (\<exists>i. n = i @ ''.json'')"
  using filepath_ext_json filepath_ext_suffix by (metis suffix_def)

lemma ready_manifests_calm:
  assumes "script s = []" "\<forall>(n, d)\<in>set es. d \<longleftrightarrow> look s (Metadata, [n]) = Some NDir"
  shows "\<exists>r. ready_manifests es ids s = (r, s) \<and>
    (case r of Inl _ \<Rightarrow> \<not> (\<forall>n\<in>fst ` set es. manifest_name_ok s n)
     | Inr ids' \<Rightarrow> (\<forall>n\<in>fst ` set es. manifest_name_ok s n) \<and>
         set ids' = set ids \<union> trim_suffix ''.json'' ` fst ` set es)"
  using assms(2)
proof (induction es arbitrary: ids)
  case (Cons e es)
  obtain n d where e: "e = (n, d)" by (cases e)
  let ?i = "trim_suffix ''.json'' n"
  have name: "manifest_name_ok s n \<longleftrightarrow>
      filepath_ext n = ''.json'' \<and> validFileID ?i \<and> readable_file s ?i \<and> look s (objectPath ?i) \<noteq> None"
    by (auto simp: manifest_name_ok_def json_ext)
  have dir: "\<not> manifest_name_ok s n" if d
  proof
    assume "manifest_name_ok s n"
    then obtain i where "n = i @ ''.json''" "readable_file s i" by (auto simp: manifest_name_ok_def)
    with that Cons.prems readable_manifest [OF assms(1), of i] show False
      by (auto simp: e path_defs)
  qed
  have IH: "\<exists>r. ready_manifests es ids' s = (r, s) \<and>
    (case r of Inl _ \<Rightarrow> \<not> (\<forall>n\<in>fst ` set es. manifest_name_ok s n)
     | Inr ids'' \<Rightarrow> (\<forall>n\<in>fst ` set es. manifest_name_ok s n) \<and>
         set ids'' = set ids' \<union> trim_suffix ''.json'' ` fst ` set es)" for ids'
    using Cons by auto
  show ?case
  proof (cases "manifest_name_ok s n")
    case True
    then obtain f where "getUnlocked ?i s = (Inr f, s)"
      using gets_calm(1) [OF assms(1), of ?i] by (cases "getUnlocked ?i s") (auto simp: name readable_file_def)
    with True dir IH [of "?i # ids"] assms(1) show ?thesis
      by (auto simp: e name Let_def go_simps split: sum.splits)
  next
    case False
    then show ?thesis
      using gets_calm(1) [OF assms(1), of ?i] assms(1)
      by (cases "getUnlocked ?i s")
        (auto simp: e name Let_def go_simps readable_file_def split: sum.splits option.splits)
  qed
qed simp

lemma ready_objects_result:
  "ready_objects es ids = Inr () \<longleftrightarrow> (\<forall>(n, d)\<in>set es. \<not> d \<and> validFileID n \<and> n \<in> set ids)"
  by (induction es ids rule: ready_objects.induct) auto

lemma ready_session_children_result:
  "ready_session_children es h = Inr h' \<longleftrightarrow>
   (\<forall>n\<in>fst ` set es. n \<in> session_names) \<and> h' = (h \<or> ''manifest.json'' \<in> fst ` set es)"
  by (induction es h rule: ready_session_children.induct) (auto simp: session_names_def)

lemma ready_trash_children_result:
  "ready_trash_children es h m = Inr r \<longleftrightarrow>
   (\<forall>n\<in>fst ` set es. n \<in> trash_names) \<and>
   r = (h \<or> ''object'' \<in> fst ` set es, m \<or> ''manifest.json'' \<in> fst ` set es)"
  by (induction es h m rule: ready_trash_children.induct) (auto simp: trash_names_def)

lemma ready_groups_result:
  "ready_groups es = Inr () \<longleftrightarrow> (\<forall>(n, d)\<in>set es. d \<and> n \<in> quarantine_groups)"
  by (induction es rule: ready_groups.induct) (auto simp: quarantine_groups_def)

text \<open>Walking the sessions and the trash stops at the first entry that breaks its rule.\<close>

lemma ready_uploads_calm:
  assumes "script s = []" "\<forall>(n, d)\<in>set es. d \<longleftrightarrow> look s (sessionDir n) = Some NDir"
  shows "\<exists>r. ready_uploads es s = (r, s) \<and> (r = Inr () \<longleftrightarrow> (\<forall>n\<in>fst ` set es. session_name_ok s n))"
  using assms(2)
proof (induction es)
  case (Cons e es)
  obtain n d where e: "e = (n, d)" by (cases e)
  obtain r where r: "ready_uploads es s = (r, s)" "r = Inr () \<longleftrightarrow> (\<forall>n\<in>fst ` set es. session_name_ok s n)"
    using Cons by auto
  show ?case
  proof (cases "d \<and> validFileID n")
    case True
    then have dir: "look s (sessionDir n) = Some NDir" using Cons.prems e by auto
    let ?cs = "map (\<lambda>m. (m, look s (child (sessionDir n) m) = Some NDir)) (names s (sessionDir n))"
    have read: "os_read_dir (sessionDir n) s = (Inr ?cs, s)" using assms(1) dir by (simp add: go_simps)
    show ?thesis
    proof (cases "ready_session_children ?cs False")
      case (Inl x)
      have "\<not> session_name_ok s n"
      proof
        assume "session_name_ok s n"
        then have "ready_session_children ?cs False = Inr (''manifest.json'' \<in> fst ` set ?cs)"
          unfolding ready_session_children_result children_names session_name_ok_def by blast
        with Inl show False by simp
      qed
      with Inl True read show ?thesis by (auto simp: e)
    next
      case (Inr h)
      then have kids: "\<forall>m. look s (child (sessionDir n) m) \<noteq> None \<longrightarrow> m \<in> session_names"
        and h: "h \<longleftrightarrow> look s (sessionManifest n) \<noteq> None"
        using ready_session_children_result [of ?cs False h] unfolding children_names by (auto simp: path_defs)
      have part: "''data.part'' \<in> fst ` set ?cs \<longleftrightarrow> look s (sessionData n) \<noteq> None"
        unfolding children_names by (simp add: path_defs)
      obtain g where g: "getUploadUnlocked n s = (g, s)"
        using gets_calm(2) [OF assms(1), of n] by (cases "getUploadUnlocked n s") auto
      show ?thesis
      proof (cases g)
        case Inl
        then have "\<not> session_name_ok s n" by (simp add: session_name_ok_def g)
        with Inl Inr True read g show ?thesis by (auto simp: e)
      next
        case (Inr u)
        then have "h" using h session_manifest_present [OF assms(1), of n u] g by simp
        moreover have "session_name_ok s n \<longleftrightarrow> \<not> (uStatus u = UploadStatusCompleted \<and> look s (sessionData n) \<noteq> None)"
          using True dir kids g Inr by (auto simp: session_name_ok_def)
        ultimately show ?thesis
          using True read g Inr \<open>ready_session_children ?cs False = Inr h\<close> r part
          by (simp add: e del: set_map)
      qed
    qed
  next
    case False
    then show ?thesis using Cons.prems by (auto simp: e session_name_ok_def)
  qed
qed simp

lemma ready_trash_calm:
  assumes "script s = []" "\<forall>(n, d)\<in>set es. d \<longleftrightarrow> look s (trashDir n) = Some NDir"
  shows "\<exists>r. ready_trash es s = (r, s) \<and> (r = Inr () \<longleftrightarrow> (\<forall>n\<in>fst ` set es. trash_name_ok s n))"
  using assms(2)
proof (induction es)
  case (Cons e es)
  obtain n d where e: "e = (n, d)" by (cases e)
  obtain r where r: "ready_trash es s = (r, s)" "r = Inr () \<longleftrightarrow> (\<forall>n\<in>fst ` set es. trash_name_ok s n)"
    using Cons by auto
  show ?case
  proof (cases "d \<and> validFileID n")
    case True
    then have dir: "look s (trashDir n) = Some NDir" using Cons.prems e by auto
    let ?cs = "map (\<lambda>m. (m, look s (child (trashDir n) m) = Some NDir)) (names s (trashDir n))"
    have read: "os_read_dir (trashDir n) s = (Inr ?cs, s)" using assms(1) dir by (simp add: go_simps)
    obtain g where g: "getTrashUnlocked n s = (g, s)"
      using gets_calm(3) [OF assms(1), of n] by (cases "getTrashUnlocked n s") auto
    show ?thesis
    proof (cases "ready_trash_children ?cs False False")
      case (Inl x)
      have "\<not> trash_name_ok s n"
      proof
        assume "trash_name_ok s n"
        then have "ready_trash_children ?cs False False =
            Inr (''object'' \<in> fst ` set ?cs, ''manifest.json'' \<in> fst ` set ?cs)"
          unfolding ready_trash_children_result children_names trash_name_ok_def by blast
        with Inl show False by simp
      qed
      with Inl True read show ?thesis by (auto simp: e)
    next
      case (Inr h)
      then have kids: "\<forall>m. look s (child (trashDir n) m) \<noteq> None \<longrightarrow> m \<in> trash_names"
        and h: "h = (look s (trashObject n) \<noteq> None, look s (trashManifest n) \<noteq> None)"
        using ready_trash_children_result [of ?cs False False h] unfolding children_names
        by (auto simp: path_defs)
      have "trash_name_ok s n \<longleftrightarrow> (\<exists>f. g = Inr f)"
        using True dir kids g by (auto simp: trash_name_ok_def)
      moreover have "g = Inr f \<Longrightarrow> h = (True, True)" for f
        using h trash_object_present [OF assms(1), of n f] g by simp
      ultimately show ?thesis
        using True read g Inr r by (cases g; cases h) (auto simp: e)
    qed
  next
    case False
    then show ?thesis using Cons.prems by (auto simp: e trash_name_ok_def)
  qed
qed simp

lemma dir_flags:
  "\<forall>(n, d)\<in>set (map (\<lambda>n. (n, look s (child p n) = Some NDir)) (names s p)). d \<longleftrightarrow> look s (child p n) = Some NDir"
  by auto

lemma readyQuarantineUnlocked_calm:
  assumes "script s = []" "look s (Quarantine, []) = Some NDir"
  shows "\<exists>r. readyQuarantineUnlocked s = (r, s) \<and>
    (r = Inr () \<longleftrightarrow> (\<forall>n. look s (Quarantine, [n]) \<noteq> None \<longrightarrow> group_name_ok s n))"
  using assms
  by (auto simp: readyQuarantineUnlocked_def go_simps ready_groups_result group_name_ok_def set_names)

lemma objects_listed:
  assumes "\<forall>n. look s (Metadata, [n]) \<noteq> None \<longrightarrow> manifest_name_ok s n" "validFileID n"
  shows "n \<in> trim_suffix ''.json'' ` {n. look s (Metadata, [n]) \<noteq> None} \<longleftrightarrow> look s (manifestPath n) \<noteq> None"
proof
  assume "n \<in> trim_suffix ''.json'' ` {n. look s (Metadata, [n]) \<noteq> None}"
  then obtain m where m: "look s (Metadata, [m]) \<noteq> None" "n = trim_suffix ''.json'' m" by blast
  with assms(1) obtain i where "m = i @ ''.json''" by (auto simp: manifest_name_ok_def)
  with m show "look s (manifestPath n) \<noteq> None" by (simp add: path_defs)
next
  assume "look s (manifestPath n) \<noteq> None"
  then show "n \<in> trim_suffix ''.json'' ` {n. look s (Metadata, [n]) \<noteq> None}"
    by (intro image_eqI [of _ _ "n @ ''.json''"]) (simp_all add: path_defs)
qed

lemma ready_walk_calm:
  assumes "script s = []" "\<forall>ar. look s (ar, []) = Some NDir"
  shows "\<exists>r. ready_walk s = (r, s) \<and> (r = Inr () \<longleftrightarrow> consistent s)"
proof -
  let ?listing = "\<lambda>ar. map (\<lambda>n. (n, look s (ar, [n]) = Some NDir)) (names s (ar, []))"
  have read: "os_read_dir (ar, []) s = (Inr (?listing ar), s)" for ar
    using assms by (simp add: go_simps)
  have listed: "fst ` set (?listing ar) = {n. look s (ar, [n]) \<noteq> None}" for ar
    using children_names [of _ s "(ar, [])"] by simp
  have flags: "\<forall>(n, d)\<in>set (?listing ar). d \<longleftrightarrow> look s (ar, [n]) = Some NDir" for ar by auto
  obtain r1 where r1: "ready_manifests (?listing Metadata) [] s = (r1, s)"
    "case r1 of Inl _ \<Rightarrow> \<not> (\<forall>n. look s (Metadata, [n]) \<noteq> None \<longrightarrow> manifest_name_ok s n)
     | Inr ids' \<Rightarrow> (\<forall>n. look s (Metadata, [n]) \<noteq> None \<longrightarrow> manifest_name_ok s n) \<and>
         set ids' = trim_suffix ''.json'' ` {n. look s (Metadata, [n]) \<noteq> None}"
    using ready_manifests_calm [OF assms(1) flags, of "[]"] unfolding listed by (auto cong: sum.case_cong)
  obtain r2 where r2: "ready_uploads (?listing Uploads) s = (r2, s)"
    "r2 = Inr () \<longleftrightarrow> (\<forall>n. look s (Uploads, [n]) \<noteq> None \<longrightarrow> session_name_ok s n)"
    using ready_uploads_calm [OF assms(1), of "?listing Uploads"] flags [of Uploads]
    unfolding listed by (auto simp: path_defs)
  obtain r3 where r3: "ready_trash (?listing Trash) s = (r3, s)"
    "r3 = Inr () \<longleftrightarrow> (\<forall>n. look s (Trash, [n]) \<noteq> None \<longrightarrow> trash_name_ok s n)"
    using ready_trash_calm [OF assms(1), of "?listing Trash"] flags [of Trash]
    unfolding listed by (auto simp: path_defs)
  obtain r4 where r4: "readyQuarantineUnlocked s = (r4, s)"
    "r4 = Inr () \<longleftrightarrow> (\<forall>n. look s (Quarantine, [n]) \<noteq> None \<longrightarrow> group_name_ok s n)"
    using readyQuarantineUnlocked_calm [OF assms(1)] assms(2) by blast
  have tmp: "?listing Tmp = [] \<longleftrightarrow> (\<forall>n. look s (Tmp, [n]) = None)"
    using set_names [of s "(Tmp, [])"] by auto
  show ?thesis
  proof (cases r1)
    case Inl
    with r1 read show ?thesis by (simp add: ready_walk_def consistent_def)
  next
    case (Inr ids)
    have objs: "ready_objects (?listing Objects) ids = Inr () \<longleftrightarrow>
        (\<forall>n. look s (Objects, [n]) \<noteq> None \<longrightarrow> object_name_ok s n)"
    proof -
      have ids: "set ids = trim_suffix ''.json'' ` {n. look s (Metadata, [n]) \<noteq> None}"
        and m: "\<forall>n. look s (Metadata, [n]) \<noteq> None \<longrightarrow> manifest_name_ok s n"
        using r1(2) by (simp_all add: Inr)
      have "\<not> d \<and> validFileID n \<and> n \<in> set ids \<longleftrightarrow> object_name_ok s n"
        if "d \<longleftrightarrow> look s (objectPath n) = Some NDir" for n d
        unfolding object_name_ok_def ids using objects_listed [OF m, of n] that by blast
      then show ?thesis
        unfolding ready_objects_result by (auto simp: set_names path_defs)
    qed
    have c: "consistent s \<longleftrightarrow> ready_objects (?listing Objects) ids = Inr () \<and> r2 = Inr () \<and> r3 = Inr () \<and>
        r4 = Inr () \<and> ?listing Tmp = []"
      unfolding consistent_def objs r2(2) r3(2) r4(2) tmp using r1(2) by (simp add: Inr)
    show ?thesis unfolding c
      using r1(1) r2(1) r3(1) r4(1) Inr
      by (cases "ready_objects (?listing Objects) ids"; cases r2; cases r3; cases r4)
        (simp_all add: ready_walk_def read)
  qed
qed

lemma ready_calm:
  assumes "script s = []" "\<forall>ar. look s (ar, []) = Some NDir" "look s (probe_path rnd) = None"
  shows "\<exists>r. ready None rnd s = (r, s) \<and> (r = Inr () \<longleftrightarrow> consistent s)"
proof -
  have "ready_probe rnd s = (Inr (), s)"
    using assms by (simp add: ready_probe_def probe_path_def go_simps)
  with ready_walk_calm [OF assms(1,2)] show ?thesis by (simp add: ready_def)
qed

section \<open>A represented store is ready\<close>

lemma represents_consistent:
  assumes "script s = []" "represents a s"
  shows "consistent s"
proof -
  have d: "on_disk a s" "good a" using assms(2) by (auto simp: represents_def)
  note look = on_disk_look [OF d(1)]
  have reads: "aFiles a i = Some x \<Longrightarrow> readable_file s i" for i x
    using getUnlocked_calm [OF assms(1) d, of i] by (auto simp: readable_file_def)
  have m: "look s (Metadata, [n]) \<noteq> None \<longrightarrow> manifest_name_ok s n" for n
    using reads goodD(1) [OF d(2)]
    by (auto simp: look manifest_name_ok_def suffix_def path_defs file_ok_def split: if_splits)
  have ob: "look s (Objects, [n]) \<noteq> None \<longrightarrow> object_name_ok s n" for n
    using goodD(1) [OF d(2)] by (auto simp: look object_name_ok_def path_defs file_ok_def)
  have up: "look s (Uploads, [n]) \<noteq> None \<longrightarrow> session_name_ok s n" for n
  proof
    assume "look s (Uploads, [n]) \<noteq> None"
    then obtain x where x: "aUploads a n = Some x" by (auto simp: look)
    with getUploadUnlocked_calm [OF assms(1) d, of n] goodD(4) [OF d(2) x] show "session_name_ok s n"
      by (auto simp: look session_name_ok_def path_defs session_names_def session_child_def upload_ok_def
          split: if_splits)
  qed
  have tr: "look s (Trash, [n]) \<noteq> None \<longrightarrow> trash_name_ok s n" for n
  proof
    assume "look s (Trash, [n]) \<noteq> None"
    then obtain x where x: "aTrash a n = Some x" by (auto simp: look)
    with getTrashUnlocked_calm [OF assms(1) d, of n] goodD(3) [OF d(2) x] show "trash_name_ok s n"
      by (auto simp: look trash_name_ok_def path_defs trash_names_def trash_child_def trash_ok_def
          split: if_splits)
  qed
  have "look s (Quarantine, [n]) \<noteq> None \<longrightarrow> group_name_ok s n" for n
    using d(1) by (auto simp: on_disk_def quarantine_ok_def group_name_ok_def)
  with m ob up tr show ?thesis by (auto simp: consistent_def look)
qed

section \<open>Properties\<close>

text \<open>C17. Ready is exact: without device failures it accepts a store if and only if every name in
  every area satisfies the area's rule (each manifest readable with its object present, each object
  with its manifest, each session and trash entry complete and readable, only known quarantine
  groups, no temporary file), and it leaves the store as it found it.\<close>

theorem ready_exact:
  assumes "script s = []" "\<forall>ar. look s (ar, []) = Some NDir" "look s (probe_path rnd) = None"
  shows "snd (ready None rnd s) = s \<and> (fst (ready None rnd s) = Inr () \<longleftrightarrow> consistent s)"
  using ready_calm [OF assms] by auto

theorem ready_exact_witness:
  "snd (ready None ''1'' file_store) = file_store \<and>
   (fst (ready None ''1'' file_store) = Inr () \<longleftrightarrow> consistent file_store)"
proof -
  have d: "on_disk file_astore file_store" using file_represents by (simp add: represents_def)
  show ?thesis
    using ready_exact [of file_store "''1''"] d
    by (simp add: on_disk_look [OF d] probe_path_def)
qed

text \<open>Every store that represents an abstract store is ready: no operation that keeps the
  representation can make the service unready.\<close>

lemma ready_represented:
  assumes "script s = []" "represents a s"
  shows "ready None rnd s = (Inr (), s)"
proof -
  have d: "on_disk a s" using assms(2) by (simp add: represents_def)
  then have "\<forall>ar. look s (ar, []) = Some NDir" "look s (probe_path rnd) = None"
    by (simp_all add: on_disk_look probe_path_def)
  from ready_calm [OF assms(1) this] represents_consistent [OF assms] show ?thesis by auto
qed

end
