(* ===== verification/FileService.thy ===== *)
theory FileService
  imports StoreReady
begin

text \<open>
  The service of \<open>pkg/files/service.go\<close>: it wraps a \<open>Store\<close> and forwards every call, asking the
  store at run time for the operations that are not part of that interface. The interface is the
  record \<open>store_ops\<close>, with an option for each operation that may be missing; the locale
  \<open>object_store\<close> is the contract the service's clients rely on, and the disk store meets it.
\<close>

section \<open>The store interface\<close>

record 's store_ops =
  opPut :: "ctx \<Rightarrow> upload_input \<Rightarrow> 's \<Rightarrow> (err + file_info) \<times> 's"
  opOpen :: "ctx \<Rightarrow> string \<Rightarrow> 's \<Rightarrow> (err + file_info \<times> bytes) \<times> 's"
  opGet :: "ctx \<Rightarrow> string \<Rightarrow> 's \<Rightarrow> (err + file_info) \<times> 's"
  opList :: "ctx \<Rightarrow> int \<Rightarrow> int \<Rightarrow> 's \<Rightarrow> (err + file_info list option) \<times> 's"
  opDelete :: "ctx \<Rightarrow> string \<Rightarrow> 's \<Rightarrow> (err + unit) \<times> 's"
  opReady :: "ctx \<Rightarrow> 's \<Rightarrow> (err + unit) \<times> 's"
  opCount :: "(ctx \<Rightarrow> 's \<Rightarrow> (err + int) \<times> 's) option"
  opCapacity :: "(ctx \<Rightarrow> 's \<Rightarrow> (err + capacity) \<times> 's) option"
  opStartUpload :: "(ctx \<Rightarrow> multipart_start_input \<Rightarrow> 's \<Rightarrow> (err + upload_session) \<times> 's) option"
  opGetUpload :: "(ctx \<Rightarrow> string \<Rightarrow> 's \<Rightarrow> (err + upload_session) \<times> 's) option"
  opAppendUpload :: "(ctx \<Rightarrow> string \<Rightarrow> int \<Rightarrow> int \<Rightarrow> body option \<Rightarrow> string \<Rightarrow> 's \<Rightarrow>
    (err + upload_session) \<times> 's) option"
  opCompleteUpload :: "(ctx \<Rightarrow> string \<Rightarrow> 's \<Rightarrow> (err + file_info) \<times> 's) option"
  opAbortUpload :: "(ctx \<Rightarrow> string \<Rightarrow> 's \<Rightarrow> (err + unit) \<times> 's) option"
  opListTrash :: "(ctx \<Rightarrow> int \<Rightarrow> int \<Rightarrow> 's \<Rightarrow> (err + file_info list option) \<times> 's) option"
  opRestore :: "(ctx \<Rightarrow> string \<Rightarrow> 's \<Rightarrow> (err + file_info) \<times> 's) option"
  opQuota :: "(ctx \<Rightarrow> string \<Rightarrow> 's \<Rightarrow> (err + quota) \<times> 's) option"
  opRecover :: "(ctx \<Rightarrow> 's \<Rightarrow> ((err \<times> report) + report) \<times> 's) option"
  opSweepUploads :: "(ctx \<Rightarrow> 's \<Rightarrow> ((err \<times> int) + int) \<times> 's) option"
  opListUploads :: "(ctx \<Rightarrow> 's \<Rightarrow> (err + upload_session list) \<times> 's) option"
  opPurgeTrash :: "(ctx \<Rightarrow> time \<Rightarrow> 's \<Rightarrow> ((err \<times> int) + int) \<times> 's) option"

text \<open>A call to a capability the store lacks.\<close>

definition unavailable :: "'s \<Rightarrow> (err + 'r) \<times> 's" where
  "unavailable s = (Inl Unavailable, s)"

section \<open>The service\<close>

definition svcUpload :: "'s store_ops \<Rightarrow> ctx \<Rightarrow> upload_input \<Rightarrow> 's \<Rightarrow> (err + file_info) \<times> 's" where
  "svcUpload ops cx input s = opPut ops cx input s"

definition svcDownload :: "'s store_ops \<Rightarrow> ctx \<Rightarrow> string \<Rightarrow> 's \<Rightarrow> (err + file_info \<times> bytes) \<times> 's" where
  "svcDownload ops cx i s = opOpen ops cx i s"

definition svcStatus :: "'s store_ops \<Rightarrow> ctx \<Rightarrow> string \<Rightarrow> 's \<Rightarrow> (err + file_info) \<times> 's" where
  "svcStatus ops cx i s = opGet ops cx i s"

definition svcList :: "'s store_ops \<Rightarrow> ctx \<Rightarrow> int \<Rightarrow> int \<Rightarrow> 's \<Rightarrow> (err + file_info list option) \<times> 's" where
  "svcList ops cx limit offset s = opList ops cx limit offset s"

definition svcCount :: "'s store_ops \<Rightarrow> ctx \<Rightarrow> 's \<Rightarrow> (err + int) \<times> 's" where
  "svcCount ops cx s = (case opCount ops of None \<Rightarrow> unavailable s | Some f \<Rightarrow> f cx s)"

definition svcDelete :: "'s store_ops \<Rightarrow> ctx \<Rightarrow> string \<Rightarrow> 's \<Rightarrow> (err + unit) \<times> 's" where
  "svcDelete ops cx i s = opDelete ops cx i s"

definition svcReady :: "'s store_ops \<Rightarrow> ctx \<Rightarrow> 's \<Rightarrow> (err + unit) \<times> 's" where
  "svcReady ops cx s = opReady ops cx s"

definition svcCapacity :: "'s store_ops \<Rightarrow> ctx \<Rightarrow> 's \<Rightarrow> (err + capacity) \<times> 's" where
  "svcCapacity ops cx s = (case opCapacity ops of None \<Rightarrow> unavailable s | Some f \<Rightarrow> f cx s)"

definition svcStartUpload ::
  "'s store_ops \<Rightarrow> ctx \<Rightarrow> multipart_start_input \<Rightarrow> 's \<Rightarrow> (err + upload_session) \<times> 's" where
  "svcStartUpload ops cx input s =
     (case opStartUpload ops of None \<Rightarrow> unavailable s | Some f \<Rightarrow> f cx input s)"

definition svcGetUpload :: "'s store_ops \<Rightarrow> ctx \<Rightarrow> string \<Rightarrow> 's \<Rightarrow> (err + upload_session) \<times> 's" where
  "svcGetUpload ops cx i s = (case opGetUpload ops of None \<Rightarrow> unavailable s | Some f \<Rightarrow> f cx i s)"

definition svcAppendUpload ::
  "'s store_ops \<Rightarrow> ctx \<Rightarrow> string \<Rightarrow> int \<Rightarrow> int \<Rightarrow> body option \<Rightarrow> string \<Rightarrow> 's \<Rightarrow>
   (err + upload_session) \<times> 's" where
  "svcAppendUpload ops cx i offset chunkSize reader checksum s =
     (case opAppendUpload ops of None \<Rightarrow> unavailable s
      | Some f \<Rightarrow> f cx i offset chunkSize reader checksum s)"

definition svcCompleteUpload :: "'s store_ops \<Rightarrow> ctx \<Rightarrow> string \<Rightarrow> 's \<Rightarrow> (err + file_info) \<times> 's" where
  "svcCompleteUpload ops cx i s = (case opCompleteUpload ops of None \<Rightarrow> unavailable s | Some f \<Rightarrow> f cx i s)"

definition svcAbortUpload :: "'s store_ops \<Rightarrow> ctx \<Rightarrow> string \<Rightarrow> 's \<Rightarrow> (err + unit) \<times> 's" where
  "svcAbortUpload ops cx i s = (case opAbortUpload ops of None \<Rightarrow> unavailable s | Some f \<Rightarrow> f cx i s)"

definition svcListTrash ::
  "'s store_ops \<Rightarrow> ctx \<Rightarrow> int \<Rightarrow> int \<Rightarrow> 's \<Rightarrow> (err + file_info list option) \<times> 's" where
  "svcListTrash ops cx limit offset s =
     (case opListTrash ops of None \<Rightarrow> unavailable s | Some f \<Rightarrow> f cx limit offset s)"

definition svcRestore :: "'s store_ops \<Rightarrow> ctx \<Rightarrow> string \<Rightarrow> 's \<Rightarrow> (err + file_info) \<times> 's" where
  "svcRestore ops cx i s = (case opRestore ops of None \<Rightarrow> unavailable s | Some f \<Rightarrow> f cx i s)"

definition svcQuota :: "'s store_ops \<Rightarrow> ctx \<Rightarrow> string \<Rightarrow> 's \<Rightarrow> (err + quota) \<times> 's" where
  "svcQuota ops cx owner s = (case opQuota ops of None \<Rightarrow> unavailable s | Some f \<Rightarrow> f cx owner s)"

text \<open>Recovery and the sweep are optional: a store without them has nothing to do.\<close>

definition svcRecover :: "'s store_ops \<Rightarrow> ctx \<Rightarrow> 's \<Rightarrow> ((err \<times> report) + report) \<times> 's" where
  "svcRecover ops cx s = (case opRecover ops of None \<Rightarrow> (Inr no_report, s) | Some f \<Rightarrow> f cx s)"

definition svcSweepUploads :: "'s store_ops \<Rightarrow> ctx \<Rightarrow> 's \<Rightarrow> ((err \<times> int) + int) \<times> 's" where
  "svcSweepUploads ops cx s = (case opSweepUploads ops of None \<Rightarrow> (Inr 0, s) | Some f \<Rightarrow> f cx s)"

definition svcListUploads :: "'s store_ops \<Rightarrow> ctx \<Rightarrow> 's \<Rightarrow> (err + upload_session list) \<times> 's" where
  "svcListUploads ops cx s = (case opListUploads ops of None \<Rightarrow> unavailable s | Some f \<Rightarrow> f cx s)"

definition svcPurgeTrash :: "'s store_ops \<Rightarrow> ctx \<Rightarrow> time \<Rightarrow> 's \<Rightarrow> ((err \<times> int) + int) \<times> 's" where
  "svcPurgeTrash ops cx olderThan s =
     (case opPurgeTrash ops of None \<Rightarrow> (Inl (Unavailable, 0), s) | Some f \<Rightarrow> f cx olderThan s)"

section \<open>The disk store behind the service\<close>

text \<open>What a call to the store finds in its environment: a fresh identifier, the clock (with its
  second reading in \<open>StartUpload\<close>) and a free name for the readiness probe.\<close>

definition disk_ops :: "env \<Rightarrow> string \<Rightarrow> time \<Rightarrow> time \<Rightarrow> string \<Rightarrow> store store_ops" where
  "disk_ops E newID now later rnd =
     \<lparr>opPut = (\<lambda>cx. put E cx newID now),
      opOpen = openFile,
      opGet = getFile,
      opList = listFiles,
      opDelete = (\<lambda>cx i. deleteFile cx i now),
      opReady = (\<lambda>cx. ready cx rnd),
      opCount = Some countFiles,
      opCapacity = Some (capacityOf E),
      opStartUpload = Some (\<lambda>cx. startUpload E cx newID now later),
      opGetUpload = Some getUpload,
      opAppendUpload = Some (\<lambda>cx i offset chunkSize reader checksum.
        appendUpload E cx i offset chunkSize reader checksum now),
      opCompleteUpload = Some (\<lambda>cx i. completeUpload E cx i newID now),
      opAbortUpload = Some abortUpload,
      opListTrash = Some listTrash,
      opRestore = Some restoreFile,
      opQuota = Some quotaOf,
      opRecover = Some (\<lambda>cx. recover cx now),
      opSweepUploads = Some (\<lambda>cx. sweepUploads cx now),
      opListUploads = Some listUploads,
      opPurgeTrash = Some purgeTrash\<rparr>"

section \<open>What the service relies on\<close>

text \<open>The record a store returns for an upload.\<close>

definition describes :: "(bytes \<Rightarrow> string) \<Rightarrow> upload_input \<Rightarrow> body \<Rightarrow> file_info \<Rightarrow> bool" where
  "describes digest input bd f \<longleftrightarrow>
     fSize f = int (length (bData bd)) \<and> fChecksum f = digest (bData bd) \<and> fMetadata f = iMetadata input \<and>
     fName f = cleanDisplayName (iName input) \<and>
     (trim_space (iID input) \<noteq> '''' \<longrightarrow> fID f = trim_space (iID input))"

text \<open>The contract of a store behind the service: \<open>holds s\<close> maps the identifiers of the stored files
  to their record and bytes.\<close>

locale object_store =
  fixes ops :: "'s store_ops"
    and digest :: "bytes \<Rightarrow> string"
    and holds :: "'s \<Rightarrow> string \<Rightarrow> (file_info \<times> bytes) option"
    and ok :: "'s \<Rightarrow> bool"
  assumes open_law: "ok s \<Longrightarrow> validFileID i \<Longrightarrow>
      opOpen ops None i s = (case holds s i of None \<Rightarrow> (Inl ErrNotFound, s) | Some x \<Rightarrow> (Inr x, s))"
    and get_law: "ok s \<Longrightarrow> validFileID i \<Longrightarrow>
      opGet ops None i s = (case holds s i of None \<Rightarrow> (Inl ErrNotFound, s) | Some x \<Rightarrow> (Inr (fst x), s))"
    and put_law: "ok s \<Longrightarrow> opPut ops None input s = (Inr f, t) \<Longrightarrow>
      ok t \<and> validFileID (fID f) \<and> holds s (fID f) = None \<and>
      (\<exists>bd. iReader input = Some bd \<and> bErr bd = None \<and> describes digest input bd f \<and>
         holds t = (holds s)(fID f \<mapsto> (f, bData bd)))"
    and put_error_law: "ok s \<Longrightarrow> opPut ops None input s = (Inl e, t) \<Longrightarrow> ok t \<and> holds t = holds s"
    and delete_law: "ok s \<Longrightarrow> validFileID i \<Longrightarrow>
      \<exists>t. opDelete ops None i s = (Inr (), t) \<and> ok t \<and> holds t = (holds s)(i := None)"
    and ready_law: "ok s \<Longrightarrow> opReady ops None s = (Inr (), s)"
begin

lemma download_after_upload:
  assumes "ok s" "svcUpload ops None input s = (Inr f, t)"
  shows "\<exists>bd. iReader input = Some bd \<and> svcDownload ops None (fID f) t = (Inr (f, bData bd), t) \<and>
    svcStatus ops None (fID f) t = (Inr f, t)"
  using put_law [OF assms(1)] assms(2) open_law get_law
  by (fastforce simp: svcUpload_def svcDownload_def svcStatus_def)

lemma others_unchanged:
  assumes "ok s" "svcUpload ops None input s = (r, t)" "validFileID j" "\<And>f. r = Inr f \<Longrightarrow> j \<noteq> fID f"
  shows "fst (svcDownload ops None j t) = fst (svcDownload ops None j s)"
proof (cases r)
  case (Inl e)
  with assms show ?thesis using put_error_law [of s input e t] open_law [of s j] open_law [of t j]
    by (auto simp: svcUpload_def svcDownload_def split: option.split)
next
  case (Inr f)
  with assms show ?thesis using put_law [of s input f t] open_law [of s j] open_law [of t j]
    by (auto simp: svcUpload_def svcDownload_def split: option.split)
qed

lemma deleted_is_gone:
  assumes "ok s" "validFileID i"
  shows "\<exists>t. svcDelete ops None i s = (Inr (), t) \<and> svcDownload ops None i t = (Inl ErrNotFound, t) \<and>
    (\<forall>j. validFileID j \<and> j \<noteq> i \<longrightarrow> fst (svcDownload ops None j t) = fst (svcDownload ops None j s)) \<and>
    svcReady ops None t = (Inr (), t)"
proof -
  obtain t where t: "opDelete ops None i s = (Inr (), t)" "ok t" "holds t = (holds s)(i := None)"
    using delete_law [OF assms] by blast
  then show ?thesis
    using open_law [OF t(2)] open_law [OF assms(1)] assms(2) ready_law [OF t(2)]
    by (intro exI [of _ t]) (auto simp: svcDelete_def svcDownload_def svcReady_def split: option.split)
qed

end

end
