(* ===== verification/Http.thy ===== *)
theory Http
  imports FileService
begin

text \<open>
  The parts of net/http, net/url, mime/multipart and strconv that the gateway and the replication
  manager share. Header keys are in canonical form. A JSON document is the record it encodes, as
  in the stores.
\<close>

section \<open>Package strconv\<close>

definition is_digit :: "char \<Rightarrow> bool" where
  "is_digit c \<longleftrightarrow> CHR ''0'' \<le> c \<and> c \<le> CHR ''9''"

definition digit_value :: "char \<Rightarrow> int" where
  "digit_value c = int (of_char c) - 48"

fun digits_value :: "int \<Rightarrow> string \<Rightarrow> int" where
  "digits_value acc [] = acc"
| "digits_value acc (c # cs) = digits_value (10 * acc + digit_value c) cs"

definition parse_digits :: "string \<Rightarrow> int option" where
  "parse_digits s = (if s = '''' \<or> \<not> list_all is_digit s then None else Some (digits_value 0 s))"

text \<open>\<open>strconv.ParseInt (s, 10, 64)\<close> and \<open>strconv.Atoi\<close>: an optional sign, decimal digits and a
  value in the range of \<open>int64\<close>.\<close>

definition parse_int :: "string \<Rightarrow> int option" where
  "parse_int s =
     (case (case s of
         [] \<Rightarrow> None
       | c # cs \<Rightarrow>
           if c = CHR ''-'' then map_option uminus (parse_digits cs)
           else if c = CHR ''+'' then parse_digits cs
           else parse_digits s) of
        None \<Rightarrow> None
      | Some v \<Rightarrow> if in_int64 v then Some v else None)"

lemma digits_value_nonneg: "list_all is_digit s \<Longrightarrow> 0 \<le> acc \<Longrightarrow> 0 \<le> digits_value acc s"
proof (induction s arbitrary: acc)
  case (Cons c s)
  then have "0 \<le> digit_value c"
    by (simp add: is_digit_def digit_value_def less_eq_char_def)
  then show ?case using Cons by simp
qed simp

lemma parse_int_range: "parse_int s = Some v \<Longrightarrow> in_int64 v"
  by (auto simp: parse_int_def split: option.splits if_splits)

lemma digits_value_append: "digits_value acc (xs @ ys) = digits_value (digits_value acc xs) ys"
  by (induction xs arbitrary: acc) auto

text \<open>Reading back decimal notation.\<close>

lemma show_nat_digits: "show_nat n \<noteq> '''' \<and> list_all is_digit (show_nat n) \<and> digits_value 0 (show_nat n) = int n"
proof (induction n rule: show_nat.induct)
  case (1 n)
  have digit: "is_digit (char_of (48 + m)) \<and> digit_value (char_of (48 + m)) = int m" if "m < 10" for m :: nat
    using that by (auto simp: is_digit_def digit_value_def less_eq_char_def of_char_of)
  show ?case
  proof (cases "n < 10")
    case True
    then show ?thesis using digit [of n] by (subst (1 2 3) show_nat.simps) simp
  next
    case False
    have "int n = 10 * int (n div 10) + int (n mod 10)"
      by (metis int_ops(7) mult_div_mod_eq of_nat_add of_nat_numeral)
    then show ?thesis
      using False 1 digit [of "n mod 10"]
      by (subst (1 2 3) show_nat.simps) (simp add: digits_value_append)
  qed
qed

lemma parse_show_nat: "parse_digits (show_nat n) = Some (int n)"
  using show_nat_digits [of n] by (simp add: parse_digits_def)

lemma show_nat_hd: "\<exists>c cs. show_nat n = c # cs \<and> is_digit c"
  using show_nat_digits [of n] by (cases "show_nat n") auto

lemma parse_show_int: "in_int64 i \<Longrightarrow> parse_int (show_int i) = Some i"
proof (cases "i < 0")
  case False
  assume i: "in_int64 i"
  obtain c cs where n: "show_nat (nat i) = c # cs" "is_digit c" using show_nat_hd by blast
  then have "c \<noteq> CHR ''-''" "c \<noteq> CHR ''+''" by (auto simp: is_digit_def less_eq_char_def)
  then show ?thesis
    using False i n(1) parse_show_nat [of "nat i"] by (simp add: parse_int_def show_int_def)
qed (simp add: parse_int_def show_int_def parse_show_nat)

section \<open>Text without white space at its ends\<close>

lemma trim_space_id:
  assumes "\<And>p. p \<in> set space_seqs \<Longrightarrow> \<not> prefix p s" "\<And>p. p \<in> set space_seqs \<Longrightarrow> \<not> suffix p s"
  shows "trim_space s = s"
proof -
  have "trim_left s = s" unfolding trim_left_def by (rule strip_front_id) (use assms(1) in blast)
  moreover have "trim_right s = s"
  proof -
    have "strip_front (map rev space_seqs) (rev s) = rev s"
      by (rule strip_front_id) (use assms(2) in \<open>auto simp: suffix_to_prefix\<close>)
    then show ?thesis by (simp add: trim_right_def)
  qed
  ultimately show ?thesis by (simp add: trim_space_def)
qed

text \<open>Visible ASCII characters.\<close>

definition graphic :: "char \<Rightarrow> bool" where
  "graphic c \<longleftrightarrow> CHR 0x21 \<le> c \<and> c \<le> CHR 0x7E"

lemma digit_graphic: "is_digit c \<Longrightarrow> graphic c"
  by (simp add: is_digit_def graphic_def less_eq_char_def)

lemma space_ends: "p \<in> set space_seqs \<Longrightarrow> p \<noteq> [] \<and> \<not> graphic (hd p) \<and> \<not> graphic (last p)"
proof -
  have "list_all (\<lambda>p. p \<noteq> [] \<and> \<not> graphic (hd p) \<and> \<not> graphic (last p)) space_seqs" by code_simp
  then show "p \<in> set space_seqs \<Longrightarrow> p \<noteq> [] \<and> \<not> graphic (hd p) \<and> \<not> graphic (last p)"
    unfolding list_all_iff by blast
qed

lemma suffix_last: "suffix p s \<Longrightarrow> p \<noteq> [] \<Longrightarrow> last p = last s"
  by (auto simp: suffix_def)

lemma trim_space_graphic: "graphic (hd s) \<Longrightarrow> graphic (last s) \<Longrightarrow> trim_space s = s"
proof (rule trim_space_id)
  fix p assume g: "graphic (hd s)" "graphic (last s)" and p: "p \<in> set space_seqs"
  show "\<not> prefix p s" using g(1) space_ends [OF p] by (auto simp: prefix_def)
  show "\<not> suffix p s" using g(2) space_ends [OF p] suffix_last [of p s] by auto
qed

lemma show_int_digits: "0 \<le> a \<Longrightarrow> list_all is_digit (show_int a) \<and> show_int a \<noteq> ''''"
  using show_nat_digits by (simp add: show_int_def)

lemma show_int_free: "0 \<le> a \<Longrightarrow> \<not> is_digit c \<Longrightarrow> c \<notin> set (show_int a)"
  using show_int_digits [of a] by (auto simp: list_all_iff)

lemma show_int_last: "0 \<le> a \<Longrightarrow> graphic (last (show_int a))"
  using show_int_digits [of a] last_in_set [of "show_int a"] by (auto simp: list_all_iff digit_graphic)

section \<open>Package url\<close>

text \<open>\<open>url.PathEscape\<close>: every byte but letters, digits and \<open>- _ . ~ $ & + : = @\<close> is escaped.\<close>

definition path_safe :: "char \<Rightarrow> bool" where
  "path_safe c \<longleftrightarrow> is_digit c \<or>
     upper_char c \<in> set ''ABCDEFGHIJKLMNOPQRSTUVWXYZ'' \<or> c \<in> set ''-_.~$&+:=@''"

definition hex_digit :: "nat \<Rightarrow> char" where
  "hex_digit n = ''0123456789ABCDEF'' ! n"

definition path_escape :: "string \<Rightarrow> string" where
  "path_escape s =
     concat (map (\<lambda>c. if path_safe c then [c]
       else [CHR ''%'', hex_digit (of_char c div 16), hex_digit (of_char c mod 16)]) s)"

lemma path_escape_id: "list_all path_safe s \<Longrightarrow> path_escape s = s"
  by (induction s) (auto simp: path_escape_def)

lemma hex_path_safe: "is_lower_hex c \<Longrightarrow> path_safe c" "path_safe (CHR ''-'')"
proof -
  have "list_all path_safe ''0123456789abcdef''" "path_safe (CHR ''-'')" by code_simp+
  then show "is_lower_hex c \<Longrightarrow> path_safe c" "path_safe (CHR ''-'')"
    unfolding list_all_iff is_lower_hex_def by blast+
qed

lemma path_escape_valid: "validFileID i \<Longrightarrow> path_escape i = i"
  using validFileID_chars [of i] hex_path_safe by (intro path_escape_id) (metis list_all_iff)

text \<open>\<open>strings.TrimRight\<close> with a single character.\<close>

definition trim_right_char :: "char \<Rightarrow> string \<Rightarrow> string" where
  "trim_right_char c s = rev (dropWhile (\<lambda>x. x = c) (rev s))"

section \<open>Messages\<close>

text \<open>\<open>Header.Get\<close> and \<open>url.Values.Get\<close>: the first value, or the empty string.\<close>

type_synonym header = "(string \<times> string) list"

definition header_get :: "header \<Rightarrow> string \<Rightarrow> string" where
  "header_get h k = (case map_of h k of None \<Rightarrow> '''' | Some v \<Rightarrow> v)"

text \<open>A part as \<open>multipart.Reader\<close> presents it: its form name, file name, content type, the data
  that reading it yields, and whether closing it fails.\<close>

record part =
  pName :: string
  pFileName :: string
  pContentType :: string
  pData :: body
  pCloseFails :: bool

text \<open>What \<open>NextPart\<close> returns until the end of the form (\<open>None\<close>) or an error.\<close>

type_synonym form = "part list \<times> err option"

text \<open>\<open>http.MaxBytesReader\<close>: at most \<open>n\<close> bytes, then an error if there are more.\<close>

definition max_bytes :: "int \<Rightarrow> body \<Rightarrow> body" where
  "max_bytes n b =
     (if int (length (bData b)) \<le> n then b
      else \<lparr>bData = take (nat n) (bData b), bErr = Some MaxBytesError\<rparr>)"

end
