(* ===== verification/Replication.thy ===== *)
theory Replication
  imports Http
begin

text \<open>
  The replication manager of \<open>pkg/replication/manager.go\<close>: a queue of jobs, one file per job in
  its own directory, that a worker replays on a second store over HTTP. Every public method takes
  the manager's lock, except that \<open>ProcessPending\<close> releases it while the job runs; it is modelled
  by its two locked sections and the execution between them. The order in which Go visits a map is
  an argument, and so are the readings of the clock.
\<close>

section \<open>Jobs\<close>

definition OperationUpload :: string where "OperationUpload = ''upload''"
definition OperationDelete :: string where "OperationDelete = ''delete''"
definition OperationRestore :: string where "OperationRestore = ''restore''"

definition JobPending :: string where "JobPending = ''pending''"
definition JobRunning :: string where "JobRunning = ''running''"
definition JobFailed :: string where "JobFailed = ''failed''"
definition JobCompleted :: string where "JobCompleted = ''completed''"

record job =
  jID :: string
  jOperation :: string
  jFileID :: string
  jStatus :: string
  jAttempts :: int
  jLastError :: string
  jCreatedAt :: time
  jUpdatedAt :: time
  jNextAttemptAt :: time

definition zero_job :: job where
  "zero_job = \<lparr>jID = '''', jOperation = '''', jFileID = '''', jStatus = '''', jAttempts = 0,
     jLastError = '''', jCreatedAt = 0, jUpdatedAt = 0, jNextAttemptAt = 0\<rparr>"

record replication_status =
  rsEnabled :: bool
  rsPending :: int
  rsRunning :: int
  rsFailed :: int
  rsCompleted :: int

text \<open>Errors: the sentinels callers test for, and the text of a failed execution.\<close>

datatype merr = ErrInvalidConfig | ErrNotExist | JobOSErr os_error | JobCtxErr ctx_error | ExecErr string

record config =
  cfRemoteURL :: string
  cfToken :: string
  cfJobsDir :: string
  cfMaxAttempts :: int
  cfRetryInterval :: int
  cfBackoffBase :: int
  cfBackoffMax :: int

text \<open>The manager over the jobs directory, which is the root of its disk.\<close>

record manager = "(unit, job) disk" +
  mRemoteURL :: string
  mToken :: string
  mMaxAttempts :: int
  mRetryInterval :: int
  mBackoffBase :: int
  mBackoffMax :: int
  mJobs :: "(string \<times> job) list"
  mWake :: bool
  mStarted :: bool

text \<open>
  What the manager calls: \<open>url.Parse\<close> (scheme and host of an address it accepts), the error of
  \<open>http.NewRequest\<close> for a method and address, the JSON text of the metadata, the content type of a
  multipart writer with its random boundary, the quoting verb of fmt and the random name that
  \<open>os.CreateTemp\<close> chooses in a directory.
\<close>

record net =
  nParse :: "string \<Rightarrow> (string \<times> string) option"
  nRequestErr :: "string \<Rightarrow> string \<Rightarrow> string option"
  nLabels :: "labels \<Rightarrow> string"
  nFormType :: string
  nQuote :: "string \<Rightarrow> string"
  nTemp :: "(unit, job) entries \<Rightarrow> string"

text \<open>A request the manager sends, and the reply: its status, its text and what decoding it as a
  JSON file record gives.\<close>

record client_request =
  cMethod :: string
  cURL :: string
  cHeader :: header
  cForm :: "form option"

record reply =
  rpStatus :: int
  rpText :: bytes
  rpFile :: "string + file_info"

type_synonym 'w remote = "client_request \<Rightarrow> 'w \<Rightarrow> (string + reply) \<times> 'w"
type_synonym source = "string \<Rightarrow> string + file_info \<times> body"

section \<open>The jobs directory\<close>

definition jobs_root :: "unit path" where
  "jobs_root = ((), [])"

text \<open>A job identifier is a file name; a separator in it names a directory that does not exist.\<close>

definition jobPath :: "string \<Rightarrow> unit path" where
  "jobPath i = ((), split_on CHR ''/'' (i @ ''.json''))"

definition jobTemp :: "net \<Rightarrow> (unit, job) entries \<Rightarrow> unit path" where
  "jobTemp E es = ((), [''.job-'' @ nTemp E es @ ''.tmp''])"

definition syncJobsDir :: "manager \<Rightarrow> (merr + unit) \<times> manager" where
  "syncJobsDir s =
     (case os_open jobs_root s of
        (Inl e, s) \<Rightarrow> (Inl (JobOSErr e), s)
      | (Inr _, s) \<Rightarrow>
          (case os_sync s of
             (Inl e, s) \<Rightarrow> (Inl (JobOSErr e), s)
           | (Inr _, s) \<Rightarrow> (Inr (), s)))"

definition drop_temp :: "unit path \<Rightarrow> manager \<Rightarrow> manager" where
  "drop_temp p s = snd (os_remove p s)"

definition persistJob :: "net \<Rightarrow> job \<Rightarrow> manager \<Rightarrow> (merr + unit) \<times> manager" where
  "persistJob E j s =
     (let p = jobTemp E (entries s) in
      case os_create_excl p s of
        (Inl e, s) \<Rightarrow> (Inl (JobOSErr e), s)
      | (Inr _, s) \<Rightarrow>
     (case os_chmod s of
        (Inl e, s) \<Rightarrow> (Inl (JobOSErr e), drop_temp p s)
      | (Inr _, s) \<Rightarrow>
     (case os_write p (Doc j) s of
        (Inl e, s) \<Rightarrow> (Inl (JobOSErr e), drop_temp p s)
      | (Inr _, s) \<Rightarrow>
     (case os_sync s of
        (Inl e, s) \<Rightarrow> (Inl (JobOSErr e), drop_temp p s)
      | (Inr _, s) \<Rightarrow>
     (case os_close s of
        (Inl e, s) \<Rightarrow> (Inl (JobOSErr e), drop_temp p s)
      | (Inr _, s) \<Rightarrow>
     (case os_rename p (jobPath (jID j)) s of
        (Inl e, s) \<Rightarrow> (Inl (JobOSErr e), drop_temp p s)
      | (Inr _, s) \<Rightarrow> syncJobsDir s))))))"

fun unmarshal_job :: "job content \<Rightarrow> job option" where
  "unmarshal_job (Doc j) = Some j"
| "unmarshal_job _ = None"

definition set_job :: "string \<Rightarrow> job \<Rightarrow> manager \<Rightarrow> manager" where
  "set_job i j s = s\<lparr>mJobs := AList.update i j (mJobs s)\<rparr>"

definition get_job :: "manager \<Rightarrow> string \<Rightarrow> job option" where
  "get_job s i = map_of (mJobs s) i"

text \<open>A job that was running when the process stopped is pending again.\<close>

fun load_entries :: "net \<Rightarrow> time \<Rightarrow> (string \<times> bool) list \<Rightarrow> manager \<Rightarrow> (merr + unit) \<times> manager" where
  "load_entries E now [] s = (Inr (), s)"
| "load_entries E now ((name, isDir) # es) s =
     (if isDir \<or> filepath_ext name \<noteq> ''.json'' then load_entries E now es s
      else case os_read_file (child jobs_root name) s of
        (Inl e, s) \<Rightarrow> (Inl (JobOSErr e), s)
      | (Inr data, s) \<Rightarrow>
          (case unmarshal_job data of
             None \<Rightarrow> (Inl ErrInvalidConfig, s)
           | Some j \<Rightarrow>
               if jID j = '''' \<or> jFileID j = '''' then (Inl ErrInvalidConfig, s)
               else if jStatus j = JobRunning then
                 (let j = j\<lparr>jStatus := JobPending, jUpdatedAt := now\<rparr>
                  in case persistJob E j s of
                       (Inl e, s) \<Rightarrow> (Inl e, s)
                     | (Inr _, s) \<Rightarrow> load_entries E now es (set_job (jID j) j s))
               else load_entries E now es (set_job (jID j) j s)))"

definition loadJobs :: "net \<Rightarrow> time \<Rightarrow> manager \<Rightarrow> (merr + unit) \<times> manager" where
  "loadJobs E now s =
     (case os_read_dir jobs_root s of
        (Inl e, s) \<Rightarrow> (Inl (JobOSErr e), s)
      | (Inr es, s) \<Rightarrow> load_entries E now es s)"

text \<open>The defaults of the configuration. Durations are nanoseconds.\<close>

definition second :: int where
  "second = 1000000000"

definition configured_base :: "config \<Rightarrow> int" where
  "configured_base c = (if cfBackoffBase c = 0 then 5 * second else cfBackoffBase c)"

definition configured_max :: "config \<Rightarrow> int" where
  "configured_max c =
     (let m = (if cfBackoffMax c \<le> 0 then 600 * second else cfBackoffMax c)
      in if m < configured_base c then configured_base c else m)"

definition mounted :: "config \<Rightarrow> manager \<Rightarrow> manager" where
  "mounted c s =
     s\<lparr>mRemoteURL := trim_right_char CHR ''/'' (trim_space (cfRemoteURL c)),
       mToken := cfToken c,
       mMaxAttempts := (if cfMaxAttempts c \<le> 0 then 10 else cfMaxAttempts c),
       mRetryInterval := (if cfRetryInterval c \<le> 0 then second else cfRetryInterval c),
       mBackoffBase := configured_base c,
       mBackoffMax := configured_max c,
       mJobs := [],
       mWake := False,
       mStarted := False\<rparr>"

text \<open>The fields of \<open>s\<close> other than its disk are those of a process that is gone.\<close>

definition newManager :: "net \<Rightarrow> config \<Rightarrow> time \<Rightarrow> manager \<Rightarrow> (merr + unit) \<times> manager" where
  "newManager E c now s =
     (case nParse E (trim_right_char CHR ''/'' (trim_space (cfRemoteURL c))) of
        None \<Rightarrow> (Inl ErrInvalidConfig, s)
      | Some (scheme, host) \<Rightarrow>
          if scheme = '''' \<or> host = '''' then (Inl ErrInvalidConfig, s)
          else if trim_space (cfToken c) = '''' then (Inl ErrInvalidConfig, s)
          else if trim_space (cfJobsDir c) = '''' then (Inl ErrInvalidConfig, s)
          else (case os_mkdir_all jobs_root s of
              (Inl e, s) \<Rightarrow> (Inl (JobOSErr e), s)
            | (Inr _, s) \<Rightarrow> loadJobs E now (mounted c s)))"

section \<open>The queue\<close>

definition signal :: "manager \<Rightarrow> manager" where
  "signal s = s\<lparr>mWake := True\<rparr>"

definition reset_job :: "time \<Rightarrow> job \<Rightarrow> job" where
  "reset_job now j =
     j\<lparr>jStatus := JobPending, jAttempts := 0, jLastError := '''', jNextAttemptAt := 0, jUpdatedAt := now\<rparr>"

definition job_id :: "string \<Rightarrow> string \<Rightarrow> string" where
  "job_id op fileID = op @ ''-'' @ fileID"

definition new_job :: "string \<Rightarrow> string \<Rightarrow> time \<Rightarrow> job" where
  "new_job op fileID now =
     zero_job\<lparr>jID := job_id op fileID, jOperation := op, jFileID := fileID, jStatus := JobPending,
       jCreatedAt := now, jUpdatedAt := now\<rparr>"

definition enqueue ::
  "net \<Rightarrow> ctx \<Rightarrow> string \<Rightarrow> string \<Rightarrow> time \<Rightarrow> manager \<Rightarrow> (merr + job) \<times> manager" where
  "enqueue E cx op fileID now s =
     (case cx of Some e \<Rightarrow> (Inl (JobCtxErr e), s) | None \<Rightarrow>
      if trim_space fileID = '''' then (Inl ErrInvalidConfig, s)
      else case get_job s (job_id op fileID) of
        Some existing \<Rightarrow>
          if jStatus existing = JobFailed then
            (let j = reset_job now existing
             in case persistJob E j s of
                  (Inl e, s) \<Rightarrow> (Inl e, s)
                | (Inr _, s) \<Rightarrow> (Inr j, signal (set_job (job_id op fileID) j s)))
          else (Inr existing, s)
      | None \<Rightarrow>
          (let j = new_job op fileID now
           in case persistJob E j s of
                (Inl e, s) \<Rightarrow> (Inl e, s)
              | (Inr _, s) \<Rightarrow> (Inr j, signal (set_job (job_id op fileID) j s))))"

definition enqueueUpload where "enqueueUpload E cx fileID now s = enqueue E cx OperationUpload fileID now s"
definition enqueueDelete where "enqueueDelete E cx fileID now s = enqueue E cx OperationDelete fileID now s"
definition enqueueRestore where "enqueueRestore E cx fileID now s = enqueue E cx OperationRestore fileID now s"

fun retry_jobs :: "net \<Rightarrow> time \<Rightarrow> string list \<Rightarrow> manager \<Rightarrow> (merr + unit) \<times> manager" where
  "retry_jobs E now [] s = (Inr (), s)"
| "retry_jobs E now (i # is) s =
     (let j = reset_job now (case get_job s i of None \<Rightarrow> zero_job | Some j \<Rightarrow> j)
      in case persistJob E j s of
           (Inl e, s) \<Rightarrow> (Inl e, s)
         | (Inr _, s) \<Rightarrow> retry_jobs E now is (set_job i j s))"

definition retry_targets :: "manager \<Rightarrow> string list \<Rightarrow> string \<Rightarrow> string list" where
  "retry_targets s visit i =
     (if get_job s i \<noteq> None then [i]
      else filter (\<lambda>k. case get_job s k of None \<Rightarrow> False
                   | Some j \<Rightarrow> jFileID j = i \<and> jStatus j \<noteq> JobCompleted) visit)"

definition retryJob ::
  "net \<Rightarrow> ctx \<Rightarrow> string list \<Rightarrow> string \<Rightarrow> time \<Rightarrow> manager \<Rightarrow> (merr + unit) \<times> manager" where
  "retryJob E cx visit i now s =
     (case cx of Some e \<Rightarrow> (Inl (JobCtxErr e), s) | None \<Rightarrow>
      if retry_targets s visit i = [] then (Inl ErrNotExist, s)
      else case retry_jobs E now (retry_targets s visit i) s of
             (Inl e, s) \<Rightarrow> (Inl e, s)
           | (Inr _, s) \<Rightarrow> (Inr (), signal s))"

definition listJobs :: "string list \<Rightarrow> manager \<Rightarrow> job list" where
  "listJobs visit s =
     sort_slice (\<lambda>a b. jCreatedAt a < jCreatedAt b) (List.map_filter (get_job s) visit)"

fun count_status :: "replication_status \<Rightarrow> job list \<Rightarrow> replication_status" where
  "count_status r [] = r"
| "count_status r (j # js) =
     count_status
       (if jStatus j = JobPending then r\<lparr>rsPending := rsPending r + 1\<rparr>
        else if jStatus j = JobRunning then r\<lparr>rsRunning := rsRunning r + 1\<rparr>
        else if jStatus j = JobFailed then r\<lparr>rsFailed := rsFailed r + 1\<rparr>
        else if jStatus j = JobCompleted then r\<lparr>rsCompleted := rsCompleted r + 1\<rparr>
        else r) js"

definition statusOf :: "string list \<Rightarrow> manager \<Rightarrow> replication_status" where
  "statusOf visit s =
     count_status \<lparr>rsEnabled = True, rsPending = 0, rsRunning = 0, rsFailed = 0, rsCompleted = 0\<rparr>
       (List.map_filter (get_job s) visit)"

definition jobOf :: "string \<Rightarrow> manager \<Rightarrow> job" where
  "jobOf i s = (case get_job s i of None \<Rightarrow> zero_job | Some j \<Rightarrow> j)"

section \<open>Retries\<close>

text \<open>The loop of \<open>backoffFor\<close>, run \<open>n\<close> times, doubles in 64 bits.\<close>

fun backoff_loop :: "nat \<Rightarrow> int \<Rightarrow> int \<Rightarrow> int" where
  "backoff_loop 0 limit delay = (if limit < delay then limit else delay)"
| "backoff_loop (Suc n) limit delay =
     (let d = wrap64 (delay * 2) in if limit \<le> d then limit else backoff_loop n limit d)"

definition backoffFor :: "manager \<Rightarrow> int \<Rightarrow> int" where
  "backoffFor s attempts =
     (let a = (if attempts < 1 then 1 else attempts)
      in backoff_loop (nat (a - 1)) (mBackoffMax s) (mBackoffBase s))"

definition claimable :: "manager \<Rightarrow> time \<Rightarrow> job \<Rightarrow> bool" where
  "claimable s now j \<longleftrightarrow>
     \<not> (jStatus j \<noteq> JobPending \<and> jStatus j \<noteq> JobFailed \<or> mMaxAttempts s \<le> jAttempts j) \<and>
     \<not> (0 < mBackoffBase s \<and> \<not> is_zero_time (jNextAttemptAt j) \<and> now < jNextAttemptAt j)"

fun claim_loop ::
  "net \<Rightarrow> time \<Rightarrow> string list \<Rightarrow> manager \<Rightarrow> (merr + job option) \<times> manager" where
  "claim_loop E now [] s = (Inr None, s)"
| "claim_loop E now (i # is) s =
     (case get_job s i of
        None \<Rightarrow> claim_loop E now is s
      | Some j \<Rightarrow>
          if \<not> claimable s now j then claim_loop E now is s
          else (let j = j\<lparr>jStatus := JobRunning, jUpdatedAt := now\<rparr>
                in case persistJob E j (set_job (jID j) j s) of
                     (Inl e, s) \<Rightarrow> (Inl e, s)
                   | (Inr _, s) \<Rightarrow> (Inr (Some j), s)))"

definition claimNext ::
  "net \<Rightarrow> string list \<Rightarrow> time \<Rightarrow> manager \<Rightarrow> (merr + job option) \<times> manager" where
  "claimNext E visit now s = claim_loop E now visit s"

definition trimError :: "string \<Rightarrow> string" where
  "trimError message = (let m = trim_space message in if 1024 < length m then take 1024 m else m)"

section \<open>Execution\<close>

definition mutateRemoteWithID ::
  "net \<Rightarrow> 'w remote \<Rightarrow> manager \<Rightarrow> string \<Rightarrow> string \<Rightarrow> form option \<Rightarrow> string \<Rightarrow> string \<Rightarrow> bool \<Rightarrow>
   'w \<Rightarrow> (string + unit) \<times> 'w" where
  "mutateRemoteWithID E remote s meth path form contentType fileID notFoundOK w =
     (case nRequestErr E meth (mRemoteURL s @ path) of Some e \<Rightarrow> (Inl e, w) | None \<Rightarrow>
      (case remote \<lparr>cMethod = meth, cURL = mRemoteURL s @ path,
            cHeader = [(''Authorization'', ''Bearer '' @ mToken s), (''X-Xion-Replication'', ''true'')] @
              (if fileID \<noteq> '''' then [(''X-Xion-Replication-File-Id'', fileID)] else []) @
              (if contentType \<noteq> '''' then [(''Content-Type'', contentType)] else []),
            cForm = form\<rparr> w of
         (Inl e, w) \<Rightarrow> (Inl e, w)
       | (Inr r, w) \<Rightarrow>
           if 200 \<le> rpStatus r \<and> rpStatus r < 300 then (Inr (), w)
           else if notFoundOK \<and> rpStatus r = 404 then (Inr (), w)
           else (Inl (''replica returned HTTP '' @ show_int (rpStatus r) @ '': '' @
                  trim_space (take 8192 (rpText r))), w)))"

definition mutateRemote where
  "mutateRemote E remote s meth path form contentType notFoundOK w =
     mutateRemoteWithID E remote s meth path form contentType '''' notFoundOK w"

definition remoteFileMatches ::
  "net \<Rightarrow> 'w remote \<Rightarrow> manager \<Rightarrow> file_info \<Rightarrow> 'w \<Rightarrow> (string + bool) \<times> 'w" where
  "remoteFileMatches E remote s stored w =
     (let u = mRemoteURL s @ ''/api/v1/files/'' @ path_escape (fID stored) @ ''/status'' in
      case nRequestErr E ''GET'' u of Some e \<Rightarrow> (Inl e, w) | None \<Rightarrow>
      (case remote \<lparr>cMethod = ''GET'', cURL = u,
            cHeader = [(''Authorization'', ''Bearer '' @ mToken s), (''X-Xion-Replication'', ''true'')],
            cForm = None\<rparr> w of
         (Inl e, w) \<Rightarrow> (Inl e, w)
       | (Inr r, w) \<Rightarrow>
           if rpStatus r = 404 then (Inr False, w)
           else if rpStatus r \<noteq> 200
           then (Inl (''replica status check returned HTTP '' @ show_int (rpStatus r)), w)
           else (case rpFile r of
               Inl e \<Rightarrow> (Inl (''decode replica status: '' @ e), w)
             | Inr f \<Rightarrow>
                 if fID f \<noteq> fID stored \<or> fSize f \<noteq> fSize stored \<or>
                   \<not> equal_fold (fChecksum f) (fChecksum stored)
                 then (Inl (''replica file '' @ fID stored @ '' has a different checksum or size''), w)
                 else (Inr True, w))))"

text \<open>The form that the goroutine of \<open>streamMultipart\<close> writes; an error of the source ends it.\<close>

definition streamMultipart :: "net \<Rightarrow> file_info \<Rightarrow> body \<Rightarrow> form \<times> string" where
  "streamMultipart E stored src =
     (([\<lparr>pName = ''metadata'', pFileName = '''', pContentType = '''',
          pData = \<lparr>bData = nLabels E (fMetadata stored), bErr = None\<rparr>, pCloseFails = False\<rparr>,
        \<lparr>pName = ''file'', pFileName = fName stored, pContentType = ''application/octet-stream'',
          pData = src, pCloseFails = False\<rparr>], bErr src), nFormType E)"

definition replicateUpload ::
  "net \<Rightarrow> 'w remote \<Rightarrow> source option \<Rightarrow> manager \<Rightarrow> string \<Rightarrow> 'w \<Rightarrow> (string + unit) \<times> 'w" where
  "replicateUpload E remote src s fileID w =
     (case src of None \<Rightarrow> (Inl ''replication source is unavailable'', w)
      | Some download \<Rightarrow>
     (case download fileID of Inl e \<Rightarrow> (Inl (''open source object: '' @ e), w)
      | Inr (stored, content) \<Rightarrow>
     (case remoteFileMatches E remote s stored w of
        (Inl e, w) \<Rightarrow> (Inl e, w)
      | (Inr True, w) \<Rightarrow> (Inr (), w)
      | (Inr False, w) \<Rightarrow>
          (case streamMultipart E stored content of (form, contentType) \<Rightarrow>
            mutateRemoteWithID E remote s ''POST'' ''/api/v1/files'' (Some form) contentType
              (fID stored) False w))))"

definition execute ::
  "net \<Rightarrow> 'w remote \<Rightarrow> source option \<Rightarrow> manager \<Rightarrow> job \<Rightarrow> 'w \<Rightarrow> (string + unit) \<times> 'w" where
  "execute E remote src s j w =
     (if jOperation j = OperationUpload then replicateUpload E remote src s (jFileID j) w
      else if jOperation j = OperationDelete then
        mutateRemote E remote s ''DELETE'' (''/api/v1/files/'' @ path_escape (jFileID j)) None '''' True w
      else if jOperation j = OperationRestore then
        mutateRemote E remote s ''POST'' (''/api/v1/files/'' @ path_escape (jFileID j) @ ''/restore'')
          None '''' False w
      else (Inl (''unknown replication operation '' @ nQuote E (jOperation j)), w))"

text \<open>The second locked section of \<open>ProcessPending\<close>.\<close>

definition finished_job :: "manager \<Rightarrow> string + unit \<Rightarrow> time \<Rightarrow> time \<Rightarrow> job \<Rightarrow> job" where
  "finished_job s outcome now later current =
     (case outcome of
        Inl message \<Rightarrow>
          (let a = wrap64 (jAttempts current + 1)
           in current\<lparr>jStatus := JobFailed, jAttempts := a, jLastError := trimError message,
                jNextAttemptAt := now + backoffFor s a, jUpdatedAt := later\<rparr>)
      | Inr _ \<Rightarrow> current\<lparr>jStatus := JobCompleted, jLastError := '''', jUpdatedAt := later\<rparr>)"

definition finishJob ::
  "net \<Rightarrow> job \<Rightarrow> string + unit \<Rightarrow> time \<Rightarrow> time \<Rightarrow> manager \<Rightarrow> (merr + unit) \<times> manager" where
  "finishJob E j outcome now later s =
     (let current = finished_job s outcome now later (jobOf (jID j) s) in
      case persistJob E current (set_job (jID j) current s) of
        (Inl e, s) \<Rightarrow> (case outcome of Inl message \<Rightarrow> (Inl (ExecErr message), s) | Inr _ \<Rightarrow> (Inl e, s))
      | (Inr _, s) \<Rightarrow> (case outcome of Inl message \<Rightarrow> (Inl (ExecErr message), s) | Inr _ \<Rightarrow> (Inr (), s)))"

text \<open>The clock is read when a job is claimed and twice when it has run.\<close>

definition processPending ::
  "net \<Rightarrow> 'w remote \<Rightarrow> source option \<Rightarrow> string list \<Rightarrow> time \<times> time \<times> time \<Rightarrow> manager \<Rightarrow> 'w \<Rightarrow>
   (merr + unit) \<times> manager \<times> 'w" where
  "processPending E remote src visit clock s w =
     (case clock of (t1, t2, t3) \<Rightarrow>
      case claimNext E visit t1 s of
        (Inl e, s) \<Rightarrow> (Inl e, s, w)
      | (Inr None, s) \<Rightarrow> (Inr (), s, w)
      | (Inr (Some j), s) \<Rightarrow>
          (case execute E remote src s j w of (outcome, w) \<Rightarrow>
           case finishJob E j outcome t2 t3 s of (r, s) \<Rightarrow> (r, s, w)))"

section \<open>The worker\<close>

definition startWorker :: "manager \<Rightarrow> manager" where
  "startWorker s = (if mStarted s then s else s\<lparr>mStarted := True\<rparr>)"

definition closeManager :: "manager \<Rightarrow> manager" where
  "closeManager s = s\<lparr>mStarted := False\<rparr>"

text \<open>What the worker's \<open>select\<close> receives, with the map order and clock of the call it triggers. A
  wake-up is received only while the channel holds one.\<close>

datatype wakeup = Stopped | Tick "string list" "time \<times> time \<times> time" | Woken "string list" "time \<times> time \<times> time"

fun worker ::
  "net \<Rightarrow> 'w remote \<Rightarrow> source option \<Rightarrow> wakeup list \<Rightarrow> manager \<Rightarrow> 'w \<Rightarrow> manager \<times> 'w" where
  "worker E remote src [] s w = (s, w)"
| "worker E remote src (Stopped # es) s w = (s, w)"
| "worker E remote src (Tick visit clock # es) s w =
     (case processPending E remote src visit clock s w of (_, s, w) \<Rightarrow> worker E remote src es s w)"
| "worker E remote src (Woken visit clock # es) s w =
     (if mWake s then
        (case processPending E remote src visit clock (s\<lparr>mWake := False\<rparr>) w of
           (_, s, w) \<Rightarrow> worker E remote src es s w)
      else worker E remote src es s w)"

end
