(* ===== verification/Gateway.thy ===== *)
theory Gateway
  imports Replication
begin

text \<open>
  The HTTP gateway of \<open>core/apigateway/handlers.go\<close>: routing, authentication, the handlers with
  every status they answer, and the parsers of their inputs. A handler maps a request and the
  states of the file service and of the replicator to a response and new states. The interfaces
  that the gateway probes for at run time are options of the service record.
\<close>

section \<open>Interfaces\<close>

record 's multipart_ops =
  moStart :: "ctx \<Rightarrow> multipart_start_input \<Rightarrow> 's \<Rightarrow> (err + upload_session) \<times> 's"
  moGet :: "ctx \<Rightarrow> string \<Rightarrow> 's \<Rightarrow> (err + upload_session) \<times> 's"
  moAppend :: "ctx \<Rightarrow> string \<Rightarrow> int \<Rightarrow> int \<Rightarrow> body option \<Rightarrow> string \<Rightarrow> 's \<Rightarrow> (err + upload_session) \<times> 's"
  moComplete :: "ctx \<Rightarrow> string \<Rightarrow> 's \<Rightarrow> (err + file_info) \<times> 's"
  moAbort :: "ctx \<Rightarrow> string \<Rightarrow> 's \<Rightarrow> (err + unit) \<times> 's"

record 's trash_ops =
  toList :: "ctx \<Rightarrow> int \<Rightarrow> int \<Rightarrow> 's \<Rightarrow> (err + file_info list option) \<times> 's"
  toRestore :: "ctx \<Rightarrow> string \<Rightarrow> 's \<Rightarrow> (err + file_info) \<times> 's"

record 's upload_admin =
  uaList :: "ctx \<Rightarrow> 's \<Rightarrow> (err + upload_session list) \<times> 's"
  uaSweep :: "ctx \<Rightarrow> 's \<Rightarrow> ((err \<times> int) + int) \<times> 's"

record 's file_service =
  fsUpload :: "ctx \<Rightarrow> upload_input \<Rightarrow> 's \<Rightarrow> (err + file_info) \<times> 's"
  fsDownload :: "ctx \<Rightarrow> string \<Rightarrow> 's \<Rightarrow> (err + file_info \<times> bytes) \<times> 's"
  fsStatus :: "ctx \<Rightarrow> string \<Rightarrow> 's \<Rightarrow> (err + file_info) \<times> 's"
  fsList :: "ctx \<Rightarrow> int \<Rightarrow> int \<Rightarrow> 's \<Rightarrow> (err + file_info list option) \<times> 's"
  fsDelete :: "ctx \<Rightarrow> string \<Rightarrow> 's \<Rightarrow> (err + unit) \<times> 's"
  fsReady :: "ctx \<Rightarrow> 's \<Rightarrow> (err + unit) \<times> 's"
  fsCapacity :: "ctx \<Rightarrow> 's \<Rightarrow> (err + capacity) \<times> 's"
  fsCount :: "ctx \<Rightarrow> 's \<Rightarrow> (err + int) \<times> 's"
  fsQuota :: "(ctx \<Rightarrow> string \<Rightarrow> 's \<Rightarrow> (err + quota) \<times> 's) option"
  fsMultipart :: "'s multipart_ops option"
  fsTrash :: "'s trash_ops option"
  fsUploadAdmin :: "'s upload_admin option"
  fsTrashAdmin :: "(ctx \<Rightarrow> time \<Rightarrow> 's \<Rightarrow> ((err \<times> int) + int) \<times> 's) option"

record 'm replicator =
  reUpload :: "ctx \<Rightarrow> string \<Rightarrow> 'm \<Rightarrow> (merr + job) \<times> 'm"
  reDelete :: "ctx \<Rightarrow> string \<Rightarrow> 'm \<Rightarrow> (merr + job) \<times> 'm"
  reRestore :: "ctx \<Rightarrow> string \<Rightarrow> 'm \<Rightarrow> (merr + job) \<times> 'm"
  reStatus :: "'m \<Rightarrow> replication_status"
  reRetry :: "ctx \<Rightarrow> string \<Rightarrow> 'm \<Rightarrow> (merr + unit) \<times> 'm"

record ('s, 'm) gateway =
  gwService :: "'s file_service"
  gwToken :: string
  gwMaxUploadBytes :: int
  gwReplicator :: "'m replicator option"

section \<open>Requests and responses\<close>

record upload_start_request =
  usFilename :: string
  usContentType :: string
  usSize :: int
  usChecksum :: string
  usMetadata :: labels

record purge_request =
  prOlderThan :: string
  prAll :: bool

text \<open>
  A request with its route variables. The last four fields are the request body: as a stream, as
  the form that mime/multipart finds in it and as the documents that the JSON decoder finds when at
  most a given number of its bytes may be read.
\<close>

record http_request =
  hHeader :: header
  hQuery :: header
  hVars :: header
  hCtx :: ctx
  hLength :: int
  hBody :: body
  hForm :: "int \<Rightarrow> form option"
  hStart :: "int \<Rightarrow> upload_start_request option"
  hPurge :: "int \<Rightarrow> purge_request option"

text \<open>A response body. \<open>Aborted\<close> is a panic of the handler, which closes the connection.\<close>

datatype document =
    NoContent
  | FileJSON file_info
  | FilesJSON int int "file_info list"
  | SessionJSON upload_session
  | SessionsJSON int int "upload_session list"
  | CapacityJSON capacity
  | QuotaJSON quota
  | ReplicationJSON replication_status
  | RemovedJSON int
  | StatusJSON string
  | ErrorJSON string string bool
  | Stream bytes
  | Aborted

record response =
  rStatus :: int
  rHeader :: header
  rBody :: document

text \<open>
  What the handlers use of the library and leave abstract: the text of an error,
  \<open>time.ParseDuration\<close>, \<open>time.Parse\<close> for RFC 3339, the attachment header of
  \<open>mime.FormatMediaType\<close> and the merge of a JSON object into a map of strings.
\<close>

record web =
  wErrText :: "err \<Rightarrow> string"
  wDuration :: "string \<Rightarrow> int option"
  wRFC3339 :: "string \<Rightarrow> time option"
  wAttachment :: "string \<Rightarrow> string"
  wLabels :: "string \<Rightarrow> labels \<Rightarrow> labels option"

definition writeJSON :: "int \<Rightarrow> document \<Rightarrow> response" where
  "writeJSON status d =
     \<lparr>rStatus = status, rHeader = [(''Content-Type'', ''application/json; charset=utf-8'')], rBody = d\<rparr>"

definition writeErrorWithRetry :: "int \<Rightarrow> string \<Rightarrow> string \<Rightarrow> bool \<Rightarrow> response" where
  "writeErrorWithRetry status code message retryable = writeJSON status (ErrorJSON code message retryable)"

definition writeError :: "int \<Rightarrow> string \<Rightarrow> string \<Rightarrow> response" where
  "writeError status code message = writeErrorWithRetry status code message False"

definition aborted :: response where
  "aborted = \<lparr>rStatus = 0, rHeader = [], rBody = Aborted\<rparr>"

section \<open>Errors\<close>

text \<open>The messages about a paused store and an exhausted quota, in UTF-8.\<close>

definition storage_paused_message :: string where
  "storage_paused_message = map char_of [
     229, 173, 152, 229, 130, 168, 231, 169, 186, 233, 151, 180, 229, 183, 178, 232, 190, 190,
     229, 136, 176, 229, 174, 137, 229, 133, 168, 233, 152, 136, 229, 128, 188, 239, 188, 140,
     230, 154, 130, 230, 151, 182, 229, 129, 156, 230, 173, 162, 228, 184, 138, 228, 188, 160,
     239, 188, 155, 229, 183, 178, 230, 156, 137, 230, 150, 135, 228, 187, 182, 228, 187, 141,
     229, 143, 175, 232, 175, 187, 229, 143, 150, 239, 188, 140, 233, 135, 138, 230, 148, 190,
     231, 169, 186, 233, 151, 180, 229, 144, 142, 228, 188, 154, 232, 135, 170, 229, 138, 168,
     230, 129, 162, 229, 164, 141, 227, 128, 130 :: nat]"

definition quota_message :: string where
  "quota_message = map char_of [
     232, 175, 165, 229, 173, 152, 229, 130, 168, 231, 148, 168, 230, 136, 183, 231, 154, 132,
     233, 133, 141, 233, 162, 157, 229, 183, 178, 231, 148, 168, 229, 176, 189, 239, 188, 140,
     232, 175, 183, 229, 136, 160, 233, 153, 164, 230, 136, 150, 230, 184, 133, 231, 144, 134,
     230, 150, 135, 228, 187, 182, 229, 144, 142, 229, 134, 141, 228, 184, 138, 228, 188, 160,
     227, 128, 130 :: nat]"

definition upload_paused_message :: string where
  "upload_paused_message = map char_of [
     229, 173, 152, 229, 130, 168, 231, 169, 186, 233, 151, 180, 229, 183, 178, 232, 190, 190,
     229, 136, 176, 229, 174, 137, 229, 133, 168, 233, 152, 136, 229, 128, 188, 239, 188, 140,
     230, 154, 130, 230, 151, 182, 229, 129, 156, 230, 173, 162, 228, 184, 138, 228, 188, 160,
     239, 188, 155, 233, 135, 138, 230, 148, 190, 231, 169, 186, 233, 151, 180, 229, 144, 142,
     228, 188, 154, 232, 135, 170, 229, 138, 168, 230, 129, 162, 229, 164, 141, 227, 128, 130 :: nat]"

definition too_large :: response where
  "too_large = writeError 413 ''file_too_large'' ''file exceeds configured upload limit''"

definition handleServiceError :: "web \<Rightarrow> err \<Rightarrow> response" where
  "handleServiceError W e =
     (case e of
        ErrInvalidID \<Rightarrow> writeError 400 ''invalid_request'' (wErrText W e)
      | ErrInvalidUpload \<Rightarrow> writeError 400 ''invalid_request'' (wErrText W e)
      | ErrFileExists \<Rightarrow> writeError 409 ''file_exists'' ''file id already exists''
      | ErrRestoreConflict \<Rightarrow>
          writeError 409 ''file_restore_conflict'' ''an active file already uses this file id''
      | ErrStoragePaused \<Rightarrow> writeErrorWithRetry 507 ''storage_paused'' storage_paused_message True
      | ErrQuotaExceeded \<Rightarrow> writeErrorWithRetry 507 ''quota_exceeded'' quota_message True
      | ErrNotFound \<Rightarrow> writeError 404 ''not_found'' ''file does not exist''
      | CtxErr _ \<Rightarrow> writeError 408 ''request_timeout'' ''request was cancelled or timed out''
      | _ \<Rightarrow> writeError 500 ''internal_error'' ''file operation failed'')"

definition handleUploadError :: "web \<Rightarrow> err \<Rightarrow> response" where
  "handleUploadError W e =
     (case e of
        MaxBytesError \<Rightarrow> too_large
      | ErrUploadTooLarge \<Rightarrow> too_large
      | ErrInvalidID \<Rightarrow> writeError 400 ''invalid_upload'' (wErrText W e)
      | ErrInvalidUpload \<Rightarrow> writeError 400 ''invalid_upload'' (wErrText W e)
      | ErrUploadChunkSize \<Rightarrow> writeError 400 ''invalid_upload'' (wErrText W e)
      | ErrUploadNotFound \<Rightarrow> writeError 404 ''upload_not_found'' ''upload session does not exist''
      | ErrUploadOffsetConflict \<Rightarrow> writeError 409 ''upload_offset_conflict'' (wErrText W e)
      | ErrUploadIncomplete \<Rightarrow>
          writeError 409 ''upload_incomplete'' ''upload session has not received all bytes''
      | ErrUploadChecksumMismatch \<Rightarrow>
          writeError 422 ''upload_checksum_mismatch'' ''upload checksum does not match''
      | ErrStoragePaused \<Rightarrow> writeErrorWithRetry 507 ''storage_paused'' upload_paused_message True
      | ErrQuotaExceeded \<Rightarrow> writeErrorWithRetry 507 ''quota_exceeded'' quota_message True
      | CtxErr _ \<Rightarrow> writeError 408 ''request_timeout'' ''request was cancelled or timed out''
      | _ \<Rightarrow> writeError 500 ''internal_error'' ''upload operation failed'')"

section \<open>Inputs\<close>

definition queryInteger :: "http_request \<Rightarrow> string \<Rightarrow> int \<Rightarrow> int option" where
  "queryInteger q name defaultValue =
     (let v = header_get (hQuery q) name in if v = '''' then Some defaultValue else parse_int v)"

text \<open>The bytes \<open>start-end/total\<close>, or the message of the error.\<close>

definition parseContentRange :: "string \<Rightarrow> string + int \<times> int \<times> int" where
  "parseContentRange v =
     (let value = trim_space v in
      if \<not> prefix ''bytes '' value then Inl ''content range must use bytes start-end/total''
      else case split_on CHR ''/'' (trim_prefix ''bytes '' value) of
        [bounds, size_text] \<Rightarrow>
          if size_text = ''*'' then Inl ''content range must include a total size''
          else (case split_on CHR ''-'' bounds of
              [a, b] \<Rightarrow>
                (case (parse_int a, parse_int b, parse_int size_text) of
                   (Some start, Some end', Some total') \<Rightarrow>
                     if start < 0 \<or> end' < start \<or> total' \<le> end' then Inl ''content range values are invalid''
                     else Inr (start, end', total')
                 | _ \<Rightarrow> Inl ''content range values are invalid'')
            | _ \<Rightarrow> Inl ''content range must include start and end'')
      | _ \<Rightarrow> Inl ''content range must include a total size'')"

definition parsePurgeCutoff :: "web \<Rightarrow> time \<Rightarrow> purge_request \<Rightarrow> string + time" where
  "parsePurgeCutoff W now p =
     (let value = trim_space (prOlderThan p) in
      if prAll p then Inr 0
      else if value = '''' then Inl ''older_than or all is required''
      else case wDuration W value of
        Some d \<Rightarrow> if d < 0 then Inl ''older_than must not be negative'' else Inr (now - d)
      | None \<Rightarrow>
          (case wRFC3339 W value of
             Some t \<Rightarrow> Inr t
           | None \<Rightarrow> Inl ''older_than must be a duration such as 720h or an RFC3339 timestamp''))"

definition readMultipartField :: "body \<Rightarrow> int \<Rightarrow> string option" where
  "readMultipartField b limit =
     (if limit < int (length (bData b)) then None
      else case bErr b of Some e \<Rightarrow> None | None \<Rightarrow> Some (bData b))"

section \<open>The upload limit\<close>

text \<open>What one \<open>Read\<close> returns besides its bytes: nothing, the end of the stream or an error. A
  slice expression with a negative bound panics.\<close>

datatype read_end = More | EOF | Failed err | Panicked

text \<open>A reader that fills the buffer as far as it can.\<close>

definition source_read :: "nat \<Rightarrow> body \<Rightarrow> (bytes \<times> read_end) \<times> body" where
  "source_read n b =
     (if bData b = [] then (([], case bErr b of None \<Rightarrow> EOF | Some e \<Rightarrow> Failed e), b)
      else ((take n (bData b), More), b\<lparr>bData := drop n (bData b)\<rparr>))"

text \<open>\<open>uploadLimitReader.Read\<close> on a buffer of \<open>n\<close> bytes; the state is what remains to be allowed.\<close>

definition uploadLimitRead :: "nat \<Rightarrow> int \<times> body \<Rightarrow> (bytes \<times> read_end) \<times> (int \<times> body)" where
  "uploadLimitRead n st =
     (case st of (remaining, b) \<Rightarrow>
      if remaining < 0 then (([], Failed ErrFileTooLarge), st)
      else
        (let maximumRead = wrap64 (remaining + 1) in
         if maximumRead < 0 then (([], Panicked), st) else
         let k = (if maximumRead < int n then nat maximumRead else n)
         in case source_read k b of ((data, e), b') \<Rightarrow>
           (let e' = (if e = Failed MaxBytesError then Failed ErrFileTooLarge else e);
                remaining' = remaining - int (length data)
            in if remaining' < 0 then ((data, Failed ErrFileTooLarge), (remaining', b'))
               else ((data, e'), (remaining', b')))))"

text \<open>The stream that a consumer of the limited reader sees.\<close>

definition limited :: "int \<Rightarrow> body \<Rightarrow> body" where
  "limited remaining b =
     (if remaining < 0 then \<lparr>bData = [], bErr = Some ErrFileTooLarge\<rparr>
      else if remaining < int (length (bData b))
      then \<lparr>bData = take (nat (remaining + 1)) (bData b), bErr = Some ErrFileTooLarge\<rparr>
      else b\<lparr>bErr := (if bErr b = Some MaxBytesError then Some ErrFileTooLarge else bErr b)\<rparr>)"

section \<open>Replication of mutations\<close>

definition replicated :: "http_request \<Rightarrow> bool" where
  "replicated q \<longleftrightarrow> header_get (hHeader q) ''X-Xion-Replication'' = ''true''"

text \<open>A failure to enqueue is only logged.\<close>

definition gwEnqueue ::
  "('m replicator \<Rightarrow> ctx \<Rightarrow> string \<Rightarrow> 'm \<Rightarrow> (merr + job) \<times> 'm) \<Rightarrow> ('s, 'm) gateway \<Rightarrow> http_request \<Rightarrow>
   string \<Rightarrow> 'm \<Rightarrow> 'm" where
  "gwEnqueue op g q fileID m =
     (case gwReplicator g of
        None \<Rightarrow> m
      | Some r \<Rightarrow> if replicated q then m else snd (op r (hCtx q) fileID m))"

definition gwEnqueueUpload where "gwEnqueueUpload g q fileID m = gwEnqueue reUpload g q fileID m"
definition gwEnqueueDelete where "gwEnqueueDelete g q fileID m = gwEnqueue reDelete g q fileID m"
definition gwEnqueueRestore where "gwEnqueueRestore g q fileID m = gwEnqueue reRestore g q fileID m"

section \<open>Uploading a form\<close>

text \<open>The file created so far, if any, is deleted again.\<close>

definition cleanupCreated :: "('s, 'm) gateway \<Rightarrow> http_request \<Rightarrow> file_info option \<Rightarrow> 's \<Rightarrow> 's" where
  "cleanupCreated g q created s =
     (case created of
        None \<Rightarrow> s
      | Some f \<Rightarrow> if fID f = '''' then s else snd (fsDelete (gwService g) (hCtx q) (fID f) s))"

definition part_input :: "('s, 'm) gateway \<Rightarrow> string \<Rightarrow> labels \<Rightarrow> part \<Rightarrow> upload_input" where
  "part_input g replicationID metadata p =
     \<lparr>iID = replicationID, iName = pFileName p, iContentType = pContentType p, iMetadata = metadata,
      iReader = Some (limited (gwMaxUploadBytes g) (pData p))\<rparr>"

definition bad_form :: "string \<Rightarrow> response" where
  "bad_form message = writeError 400 ''invalid_multipart'' message"

text \<open>\<open>created\<close> is also the flag \<open>fileSeen\<close>: the loop goes on only after a successful upload.\<close>

fun upload_loop ::
  "web \<Rightarrow> ('s, 'm) gateway \<Rightarrow> http_request \<Rightarrow> string \<Rightarrow> part list \<Rightarrow> err option \<Rightarrow> labels \<Rightarrow>
   file_info option \<Rightarrow> 's \<times> 'm \<Rightarrow> response \<times> ('s \<times> 'm)" where
  "upload_loop W g q rid [] end' metadata created (s, m) =
     (case end' of
        Some MaxBytesError \<Rightarrow> (too_large, (cleanupCreated g q created s, m))
      | Some _ \<Rightarrow>
          (bad_form ''request contains invalid multipart data'', (cleanupCreated g q created s, m))
      | None \<Rightarrow>
          (case created of
             None \<Rightarrow> (writeError 400 ''file_required'' ''multipart field 'file' is required'', (s, m))
           | Some f \<Rightarrow> (writeJSON 201 (FileJSON f), (s, gwEnqueueUpload g q (fID f) m))))"
| "upload_loop W g q rid (p # ps) end' metadata created (s, m) =
     (if created \<noteq> None then
        (bad_form ''multipart metadata must precede the file'', (cleanupCreated g q created s, m))
      else if pName p = ''metadata'' then
        (case readMultipartField (pData p) 65536 of
           None \<Rightarrow> (writeError 400 ''invalid_metadata'' ''metadata must be a JSON object with string values'', (s, m))
         | Some encoded \<Rightarrow>
             if encoded = '''' then upload_loop W g q rid ps end' metadata created (s, m)
             else (case wLabels W encoded metadata of
                 None \<Rightarrow> (writeError 400 ''invalid_metadata'' ''metadata must be a JSON object with string values'', (s, m))
               | Some metadata' \<Rightarrow> upload_loop W g q rid ps end' metadata' created (s, m)))
      else if pName p = ''file'' then
        (if pFileName p = '''' then
           (writeError 400 ''file_required'' ''multipart field 'file' is required'', (s, m))
         else (case fsUpload (gwService g) (hCtx q) (part_input g rid metadata p) s of
             (Inl ErrFileTooLarge, s) \<Rightarrow> (too_large, (s, m))
           | (Inl e, s) \<Rightarrow> (handleServiceError W e, (s, m))
           | (Inr f, s) \<Rightarrow>
               if pCloseFails p then
                 (bad_form ''request contains invalid multipart data'', (cleanupCreated g q (Some f) s, m))
               else upload_loop W g q rid ps end' metadata (Some f) (s, m)))
      else (bad_form ''request contains an unsupported multipart field'', (s, m)))"

definition upload ::
  "web \<Rightarrow> ('s, 'm) gateway \<Rightarrow> http_request \<Rightarrow> 's \<times> 'm \<Rightarrow> response \<times> ('s \<times> 'm)" where
  "upload W g q st =
     (let rid = trim_space (header_get (hHeader q) ''X-Xion-Replication-File-Id'') in
      if rid \<noteq> '''' \<and> \<not> replicated q then
        (writeError 400 ''invalid_replication_request''
           ''replication file id requires the internal replication marker'', st)
      else case hForm q (wrap64 (gwMaxUploadBytes g + 1048576)) of
        None \<Rightarrow> (bad_form ''request must contain a multipart file'', st)
      | Some (parts, end') \<Rightarrow> upload_loop W g q rid parts end' [] None st)"

section \<open>Files\<close>

type_synonym ('s, 'm) gateway_handler =
  "web \<Rightarrow> ('s, 'm) gateway \<Rightarrow> http_request \<Rightarrow> 's \<times> 'm \<Rightarrow> response \<times> ('s \<times> 'm)"

definition route_id :: "http_request \<Rightarrow> string" where
  "route_id q = header_get (hVars q) ''id''"

definition download :: "('s, 'm) gateway_handler" where
  "download W g q st =
     (case st of (s, m) \<Rightarrow>
      case fsDownload (gwService g) (hCtx q) (route_id q) s of
        (Inl e, s) \<Rightarrow> (handleServiceError W e, (s, m))
      | (Inr (f, content), s) \<Rightarrow>
          (\<lparr>rStatus = 200,
             rHeader = [(''Content-Type'', fContentType f), (''Content-Length'', show_int (fSize f)),
               (''Content-Disposition'', wAttachment W (fName f)),
               (''Etag'', [CHR 0x22] @ ''sha256-'' @ fChecksum f @ [CHR 0x22])],
             rBody = Stream content\<rparr>, (s, m)))"

definition statusFile :: "('s, 'm) gateway_handler" where
  "statusFile W g q st =
     (case st of (s, m) \<Rightarrow>
      case fsStatus (gwService g) (hCtx q) (route_id q) s of
        (Inl e, s) \<Rightarrow> (handleServiceError W e, (s, m))
      | (Inr f, s) \<Rightarrow> (writeJSON 200 (FileJSON f), (s, m)))"

definition bad_limit :: response where
  "bad_limit = writeError 400 ''invalid_pagination'' ''limit must be between 1 and 1000''"

definition bad_offset :: response where
  "bad_offset = writeError 400 ''invalid_pagination'' ''offset must be zero or greater''"

definition page_params :: "http_request \<Rightarrow> response + int \<times> int" where
  "page_params q =
     (case queryInteger q ''limit'' 100 of
        None \<Rightarrow> Inl bad_limit
      | Some limit \<Rightarrow>
          if limit < 1 \<or> 1000 < limit then Inl bad_limit
          else (case queryInteger q ''offset'' 0 of
              None \<Rightarrow> Inl bad_offset
            | Some offset \<Rightarrow> if offset < 0 then Inl bad_offset else Inr (limit, offset)))"

definition listFilesHandler :: "('s, 'm) gateway_handler" where
  "listFilesHandler W g q st =
     (case st of (s, m) \<Rightarrow>
      case page_params q of Inl r \<Rightarrow> (r, (s, m)) | Inr (limit, offset) \<Rightarrow>
      (case fsList (gwService g) (hCtx q) limit offset s of
         (Inl e, s) \<Rightarrow> (handleServiceError W e, (s, m))
       | (Inr None, s) \<Rightarrow> (aborted, (s, m))
       | (Inr (Some stored), s) \<Rightarrow>
           (case fsCount (gwService g) (hCtx q) s of
              (Inl e, s) \<Rightarrow> (handleServiceError W e, (s, m))
            | (Inr whole, s) \<Rightarrow>
                (writeJSON 200 (FilesJSON (int (length stored)) whole stored), (s, m)))))"

definition capacityHandler :: "('s, 'm) gateway_handler" where
  "capacityHandler W g q st =
     (case st of (s, m) \<Rightarrow>
      case fsCapacity (gwService g) (hCtx q) s of
        (Inl e, s) \<Rightarrow> (handleServiceError W e, (s, m))
      | (Inr c, s) \<Rightarrow> (writeJSON 200 (CapacityJSON c), (s, m)))"

definition quotaHandler :: "('s, 'm) gateway_handler" where
  "quotaHandler W g q st =
     (case st of (s, m) \<Rightarrow>
      case fsQuota (gwService g) of
        None \<Rightarrow> (writeError 501 ''quota_unavailable'' ''owner quotas are not enabled'', (s, m))
      | Some f \<Rightarrow>
          (case f (hCtx q) (header_get (hQuery q) ''owner'') s of
             (Inl e, s) \<Rightarrow> (handleServiceError W e, (s, m))
           | (Inr u, s) \<Rightarrow> (writeJSON 200 (QuotaJSON u), (s, m))))"

definition deleteHandler :: "('s, 'm) gateway_handler" where
  "deleteHandler W g q st =
     (case st of (s, m) \<Rightarrow>
      case fsDelete (gwService g) (hCtx q) (route_id q) s of
        (Inl e, s) \<Rightarrow> (handleServiceError W e, (s, m))
      | (Inr _, s) \<Rightarrow>
          (\<lparr>rStatus = 204, rHeader = [], rBody = NoContent\<rparr>, (s, gwEnqueueDelete g q (route_id q) m)))"

section \<open>Trash\<close>

definition trash_unavailable :: response where
  "trash_unavailable = writeError 501 ''trash_unavailable'' ''trash is not enabled''"

definition listTrashHandler :: "('s, 'm) gateway_handler" where
  "listTrashHandler W g q st =
     (case st of (s, m) \<Rightarrow>
      case fsTrash (gwService g) of None \<Rightarrow> (trash_unavailable, (s, m)) | Some ops \<Rightarrow>
      (case page_params q of Inl r \<Rightarrow> (r, (s, m)) | Inr (limit, offset) \<Rightarrow>
      (case toList ops (hCtx q) limit offset s of
         (Inl e, s) \<Rightarrow> (handleServiceError W e, (s, m))
       | (Inr None, s) \<Rightarrow> (aborted, (s, m))
       | (Inr (Some stored), s) \<Rightarrow> (writeJSON 200 (FilesJSON (int (length stored)) 0 stored), (s, m)))))"

definition restoreHandler :: "('s, 'm) gateway_handler" where
  "restoreHandler W g q st =
     (case st of (s, m) \<Rightarrow>
      case fsTrash (gwService g) of None \<Rightarrow> (trash_unavailable, (s, m)) | Some ops \<Rightarrow>
      (case toRestore ops (hCtx q) (route_id q) s of
         (Inl e, s) \<Rightarrow> (handleServiceError W e, (s, m))
       | (Inr f, s) \<Rightarrow> (writeJSON 200 (FileJSON f), (s, gwEnqueueRestore g q (fID f) m))))"

definition purgeTrashHandler :: "time \<Rightarrow> ('s, 'm) gateway_handler" where
  "purgeTrashHandler now W g q st =
     (case st of (s, m) \<Rightarrow>
      case fsTrashAdmin (gwService g) of None \<Rightarrow> (trash_unavailable, (s, m)) | Some f \<Rightarrow>
      (case (if hLength q \<noteq> 0 then hPurge q 4096 else Some \<lparr>prOlderThan = '''', prAll = False\<rparr>) of
         None \<Rightarrow> (writeError 400 ''invalid_request'' ''purge body must be valid JSON'', (s, m))
       | Some payload \<Rightarrow>
      (case parsePurgeCutoff W now payload of
         Inl message \<Rightarrow> (writeError 400 ''invalid_request'' message, (s, m))
       | Inr cutoff \<Rightarrow>
           (case f (hCtx q) cutoff s of
              (Inl (e, _), s) \<Rightarrow> (handleServiceError W e, (s, m))
            | (Inr n, s) \<Rightarrow> (writeJSON 200 (RemovedJSON n), (s, m))))))"

section \<open>Replication\<close>

definition replicationStatusHandler :: "('s, 'm) gateway_handler" where
  "replicationStatusHandler W g q st =
     (case st of (s, m) \<Rightarrow>
      case gwReplicator g of
        None \<Rightarrow> (writeJSON 200 (ReplicationJSON \<lparr>rsEnabled = False, rsPending = 0, rsRunning = 0,
            rsFailed = 0, rsCompleted = 0\<rparr>), (s, m))
      | Some r \<Rightarrow> (writeJSON 200 (ReplicationJSON (reStatus r m)), (s, m)))"

definition retryHandler :: "('s, 'm) gateway_handler" where
  "retryHandler W g q st =
     (case st of (s, m) \<Rightarrow>
      case gwReplicator g of
        None \<Rightarrow> (writeError 501 ''replication_unavailable'' ''replication is not enabled'', (s, m))
      | Some r \<Rightarrow>
          (case reRetry r (hCtx q) (route_id q) m of
             (Inl ErrNotExist, m) \<Rightarrow>
               (writeError 404 ''replication_job_not_found'' ''replication job does not exist'', (s, m))
           | (Inl (JobOSErr ENOENT), m) \<Rightarrow>
               (writeError 404 ''replication_job_not_found'' ''replication job does not exist'', (s, m))
           | (Inl _, m) \<Rightarrow>
               (writeError 500 ''replication_retry_failed'' ''replication retry could not be queued'', (s, m))
           | (Inr _, m) \<Rightarrow> (writeJSON 202 (StatusJSON ''queued''), (s, m))))"

section \<open>Resumable uploads\<close>

definition uploads_unavailable :: response where
  "uploads_unavailable = writeError 501 ''resumable_uploads_unavailable'' ''resumable uploads are not enabled''"

definition startUploadHandler :: "('s, 'm) gateway_handler" where
  "startUploadHandler W g q st =
     (case st of (s, m) \<Rightarrow>
      case fsMultipart (gwService g) of None \<Rightarrow> (uploads_unavailable, (s, m)) | Some ops \<Rightarrow>
      (case hStart q 65536 of
         None \<Rightarrow> (writeError 400 ''invalid_upload'' ''upload session must be valid JSON'', (s, m))
       | Some payload \<Rightarrow>
           if usSize payload \<le> 0 then (writeError 400 ''invalid_upload'' ''size must be positive'', (s, m))
           else if gwMaxUploadBytes g < usSize payload then (too_large, (s, m))
           else (case moStart ops (hCtx q)
                \<lparr>mName = usFilename payload, mContentType = usContentType payload, mSize = usSize payload,
                  mChecksum = usChecksum payload, mMetadata = usMetadata payload\<rparr> s of
               (Inl e, s) \<Rightarrow> (handleUploadError W e, (s, m))
             | (Inr u, s) \<Rightarrow> (writeJSON 201 (SessionJSON u), (s, m)))))"

definition getUploadHandler :: "('s, 'm) gateway_handler" where
  "getUploadHandler W g q st =
     (case st of (s, m) \<Rightarrow>
      case fsMultipart (gwService g) of None \<Rightarrow> (uploads_unavailable, (s, m)) | Some ops \<Rightarrow>
      (case moGet ops (hCtx q) (route_id q) s of
         (Inl e, s) \<Rightarrow> (handleUploadError W e, (s, m))
       | (Inr u, s) \<Rightarrow> (writeJSON 200 (SessionJSON u), (s, m))))"

definition appendUploadHandler :: "('s, 'm) gateway_handler" where
  "appendUploadHandler W g q st =
     (case st of (s, m) \<Rightarrow>
      case fsMultipart (gwService g) of None \<Rightarrow> (uploads_unavailable, (s, m)) | Some ops \<Rightarrow>
      (case parseContentRange (header_get (hHeader q) ''Content-Range'') of
         Inl message \<Rightarrow> (writeError 400 ''invalid_content_range'' message, (s, m))
       | Inr (offset, end', total') \<Rightarrow>
      (case moGet ops (hCtx q) (route_id q) s of
         (Inl e, s) \<Rightarrow> (handleUploadError W e, (s, m))
       | (Inr u, s) \<Rightarrow>
           if total' \<noteq> uSize u then
             (writeError 400 ''invalid_content_range'' ''content range total does not match upload size'', (s, m))
           else
             (let chunkSize = wrap64 (end' - offset + 1) in
              if hLength q \<noteq> chunkSize then
                (writeError 400 ''invalid_content_length'' ''content length must match content range'', (s, m))
              else case moAppend ops (hCtx q) (route_id q) offset chunkSize
                  (Some (max_bytes chunkSize (hBody q))) (header_get (hHeader q) ''X-Chunk-Checksum'') s of
                (Inl e, s) \<Rightarrow> (handleUploadError W e, (s, m))
              | (Inr v, s) \<Rightarrow> (writeJSON 200 (SessionJSON v), (s, m))))))"

definition completeUploadHandler :: "('s, 'm) gateway_handler" where
  "completeUploadHandler W g q st =
     (case st of (s, m) \<Rightarrow>
      case fsMultipart (gwService g) of None \<Rightarrow> (uploads_unavailable, (s, m)) | Some ops \<Rightarrow>
      (case moComplete ops (hCtx q) (route_id q) s of
         (Inl e, s) \<Rightarrow> (handleUploadError W e, (s, m))
       | (Inr f, s) \<Rightarrow> (writeJSON 201 (FileJSON f), (s, gwEnqueueUpload g q (fID f) m))))"

definition abortUploadHandler :: "('s, 'm) gateway_handler" where
  "abortUploadHandler W g q st =
     (case st of (s, m) \<Rightarrow>
      case fsMultipart (gwService g) of None \<Rightarrow> (uploads_unavailable, (s, m)) | Some ops \<Rightarrow>
      (case moAbort ops (hCtx q) (route_id q) s of
         (Inl e, s) \<Rightarrow> (handleUploadError W e, (s, m))
       | (Inr _, s) \<Rightarrow> (\<lparr>rStatus = 204, rHeader = [], rBody = NoContent\<rparr>, (s, m))))"

definition listUploadsHandler :: "('s, 'm) gateway_handler" where
  "listUploadsHandler W g q st =
     (case st of (s, m) \<Rightarrow>
      case fsUploadAdmin (gwService g) of None \<Rightarrow> (uploads_unavailable, (s, m)) | Some ops \<Rightarrow>
      (case uaList ops (hCtx q) s of
         (Inl e, s) \<Rightarrow> (handleUploadError W e, (s, m))
       | (Inr us, s) \<Rightarrow> (writeJSON 200 (SessionsJSON (int (length us)) (int (length us)) us), (s, m))))"

definition sweepUploadsHandler :: "('s, 'm) gateway_handler" where
  "sweepUploadsHandler W g q st =
     (case st of (s, m) \<Rightarrow>
      case fsUploadAdmin (gwService g) of None \<Rightarrow> (uploads_unavailable, (s, m)) | Some ops \<Rightarrow>
      (case uaSweep ops (hCtx q) s of
         (Inl (e, _), s) \<Rightarrow> (handleUploadError W e, (s, m))
       | (Inr n, s) \<Rightarrow> (writeJSON 200 (RemovedJSON n), (s, m))))"

section \<open>Health\<close>

definition healthHandler :: "('s, 'm) gateway_handler" where
  "healthHandler W g q st = (writeJSON 200 (StatusJSON ''ok''), st)"

definition readyHandler :: "('s, 'm) gateway_handler" where
  "readyHandler W g q st =
     (case st of (s, m) \<Rightarrow>
      case fsReady (gwService g) (hCtx q) s of
        (Inl e, s) \<Rightarrow> (writeError 503 ''not_ready'' ''storage is not ready'', (s, m))
      | (Inr _, s) \<Rightarrow> (writeJSON 200 (StatusJSON ''ready''), (s, m)))"

section \<open>Routing\<close>

definition authorized :: "('s, 'm) gateway \<Rightarrow> http_request \<Rightarrow> bool" where
  "authorized g q \<longleftrightarrow>
     (let h = header_get (hHeader q) ''Authorization'';
          provided = (if prefix ''Bearer '' h then trim_prefix ''Bearer '' h else '''')
      in \<not> (length provided \<noteq> length (gwToken g) \<or> provided \<noteq> gwToken g))"

definition authenticate :: "('s, 'm) gateway_handler \<Rightarrow> ('s, 'm) gateway_handler" where
  "authenticate next W g q st =
     (if \<not> authorized g q then (writeError 401 ''unauthorized'' ''missing or invalid service token'', st)
      else next W g q st)"

datatype endpoint =
    Health | ReadyProbe | UploadFile | ListFiles | ShowCapacity | ShowQuota | RestoreFile | ShowStatus
  | DownloadFile | DeleteFile | ListTrash | PurgeTrash | ReplicationStatus | RetryReplication
  | StartUpload | ListUploads | SweepUploads | CompleteUpload | GetUpload | AppendUpload | AbortUpload

text \<open>The routes in the order of registration: method, path template, whether the subrouter
  authenticates, and the handler.\<close>

definition routes :: "(string \<times> string \<times> bool \<times> endpoint) list" where
  "routes =
     [(''GET'', ''/health'', False, Health),
      (''GET'', ''/healthz'', False, Health),
      (''GET'', ''/ready'', False, ReadyProbe),
      (''GET'', ''/readyz'', False, ReadyProbe),
      (''POST'', ''/api/v1/files'', True, UploadFile),
      (''GET'', ''/api/v1/files'', True, ListFiles),
      (''GET'', ''/api/v1/files/capacity'', True, ShowCapacity),
      (''GET'', ''/api/v1/files/quota'', True, ShowQuota),
      (''POST'', ''/api/v1/files/{id}/restore'', True, RestoreFile),
      (''GET'', ''/api/v1/files/{id}/status'', True, ShowStatus),
      (''GET'', ''/api/v1/files/{id}'', True, DownloadFile),
      (''DELETE'', ''/api/v1/files/{id}'', True, DeleteFile),
      (''GET'', ''/api/v1/trash'', True, ListTrash),
      (''POST'', ''/api/v1/trash/purge'', True, PurgeTrash),
      (''GET'', ''/api/v1/replication'', True, ReplicationStatus),
      (''POST'', ''/api/v1/replication/{id}/retry'', True, RetryReplication),
      (''POST'', ''/api/v1/uploads'', True, StartUpload),
      (''GET'', ''/api/v1/uploads'', True, ListUploads),
      (''DELETE'', ''/api/v1/uploads'', True, SweepUploads),
      (''POST'', ''/api/v1/uploads/{id}/complete'', True, CompleteUpload),
      (''GET'', ''/api/v1/uploads/{id}'', True, GetUpload),
      (''PUT'', ''/api/v1/uploads/{id}'', True, AppendUpload),
      (''DELETE'', ''/api/v1/uploads/{id}'', True, AbortUpload)]"

fun handler :: "time \<Rightarrow> endpoint \<Rightarrow> ('s, 'm) gateway_handler" where
  "handler now Health = healthHandler"
| "handler now ReadyProbe = readyHandler"
| "handler now UploadFile = upload"
| "handler now ListFiles = listFilesHandler"
| "handler now ShowCapacity = capacityHandler"
| "handler now ShowQuota = quotaHandler"
| "handler now RestoreFile = restoreHandler"
| "handler now ShowStatus = statusFile"
| "handler now DownloadFile = download"
| "handler now DeleteFile = deleteHandler"
| "handler now ListTrash = listTrashHandler"
| "handler now PurgeTrash = purgeTrashHandler now"
| "handler now ReplicationStatus = replicationStatusHandler"
| "handler now RetryReplication = retryHandler"
| "handler now StartUpload = startUploadHandler"
| "handler now ListUploads = listUploadsHandler"
| "handler now SweepUploads = sweepUploadsHandler"
| "handler now CompleteUpload = completeUploadHandler"
| "handler now GetUpload = getUploadHandler"
| "handler now AppendUpload = appendUploadHandler"
| "handler now AbortUpload = abortUploadHandler"

text \<open>
  The router of gorilla/mux is a parameter: for a table of methods and templates, a method and a
  path it gives the index of the matching route with the path variables, or its own response (404
  or 405). The router of the gateway is that function on the table above.
\<close>

type_synonym mux = "(string \<times> string) list \<Rightarrow> string \<Rightarrow> string \<Rightarrow> response + nat \<times> header"

definition newRouter ::
  "mux \<Rightarrow> time \<Rightarrow> web \<Rightarrow> ('s, 'm) gateway \<Rightarrow> string \<Rightarrow> string \<Rightarrow> http_request \<Rightarrow> 's \<times> 'm \<Rightarrow>
   response \<times> ('s \<times> 'm)" where
  "newRouter mux now W g meth path q st =
     (case mux (map (\<lambda>(m, t, a, e). (m, t)) routes) meth path of
        Inl r \<Rightarrow> (r, st)
      | Inr (i, vars) \<Rightarrow>
          (if i < length routes then
             (case routes ! i of (m, t, a, e) \<Rightarrow>
                (if a then authenticate (handler now e) else handler now e) W g (q\<lparr>hVars := vars\<rparr>) st)
           else (aborted, st)))"

section \<open>The gateway of the program\<close>

text \<open>The service of \<open>pkg/files/service.go\<close> and the replication manager behind the interfaces.\<close>

definition service_of :: "'s store_ops \<Rightarrow> 's file_service" where
  "service_of ops =
     \<lparr>fsUpload = svcUpload ops, fsDownload = svcDownload ops, fsStatus = svcStatus ops, fsList = svcList ops,
      fsDelete = svcDelete ops, fsReady = svcReady ops, fsCapacity = svcCapacity ops, fsCount = svcCount ops,
      fsQuota = Some (svcQuota ops),
      fsMultipart = Some \<lparr>moStart = svcStartUpload ops, moGet = svcGetUpload ops, moAppend = svcAppendUpload ops,
        moComplete = svcCompleteUpload ops, moAbort = svcAbortUpload ops\<rparr>,
      fsTrash = Some \<lparr>toList = svcListTrash ops, toRestore = svcRestore ops\<rparr>,
      fsUploadAdmin = Some \<lparr>uaList = svcListUploads ops, uaSweep = svcSweepUploads ops\<rparr>,
      fsTrashAdmin = Some (svcPurgeTrash ops)\<rparr>"

definition replicator_of :: "net \<Rightarrow> string list \<Rightarrow> time \<Rightarrow> manager replicator" where
  "replicator_of E visit now =
     \<lparr>reUpload = (\<lambda>cx i. enqueueUpload E cx i now), reDelete = (\<lambda>cx i. enqueueDelete E cx i now),
      reRestore = (\<lambda>cx i. enqueueRestore E cx i now), reStatus = statusOf visit,
      reRetry = (\<lambda>cx i. retryJob E cx visit i now)\<rparr>"

end
