(* ===== verification/ReplicationRun.thy ===== *)
theory ReplicationRun
  imports Replication
begin

text \<open>
  What the replication queue guarantees: every state of the manager that any interleaving of its
  methods with the running worker can reach, under any I/O failures and any number of crashes, is
  well formed and keeps its jobs on disk; a restart finds them; retries are bounded and spaced; and
  a queue whose jobs succeed drains.
\<close>

section \<open>One persisted job\<close>

text \<open>\<open>os.CreateTemp\<close> returns a file that did not exist.\<close>

definition names_fresh :: "net \<Rightarrow> bool" where
  "names_fresh E \<longleftrightarrow> (\<forall>es. map_of es (jobTemp E es) = None)"

lemma syncJobsDir_effect: "syncJobsDir s = (r, t) \<Longrightarrow> \<exists>sc. t = s\<lparr>script := sc\<rparr>"
  by (fastforce simp: syncJobsDir_def split: prod.splits sum.splits dest!: os_effects(3,5))

lemma drop_temp_effect:
  assumes "look s p = None"
  shows "\<exists>sc. drop_temp p ((put_entry p (NFile c) s)\<lparr>script := sc0\<rparr>) = s\<lparr>script := sc\<rparr> \<or>
    drop_temp p ((put_entry p (NFile c) s)\<lparr>script := sc0\<rparr>) = (put_entry p (NFile c) s)\<lparr>script := sc\<rparr>"
proof -
  let ?u = "(put_entry p (NFile c) s)\<lparr>script := sc0\<rparr>"
  obtain r t where t: "os_remove p ?u = (r, t)" by fastforce
  then show ?thesis
    using os_effects(8) [OF _ t, of c] assms by (cases r) (auto simp: drop_temp_def)
qed

text \<open>What any attempt to persist a job leaves: nothing, a temporary file, or the whole record.\<close>

definition persist_left :: "unit path \<Rightarrow> job \<Rightarrow> merr + unit \<Rightarrow> manager \<Rightarrow> manager \<Rightarrow> bool" where
  "persist_left p j r s t \<longleftrightarrow> (\<exists>sc.
     r \<noteq> Inr () \<and> (t = s\<lparr>script := sc\<rparr> \<or> (\<exists>c. t = (put_entry p (NFile c) s)\<lparr>script := sc\<rparr>)) \<or>
     t = (put_entry (jobPath (jID j)) (NFile (Doc j)) s)\<lparr>script := sc\<rparr>)"

lemma persist_left_dropped:
  "look s p = None \<Longrightarrow> u = (put_entry p (NFile c) s)\<lparr>script := sc\<rparr> \<Longrightarrow>
   persist_left p j (Inl e) s (drop_temp p u)"
  using drop_temp_effect [of s p sc c] by (fastforce simp: persist_left_def)

lemma persist_rename:
  assumes "look s p = None" "os_rename p q ((put_entry p (NFile c) s)\<lparr>script := sc0\<rparr>) = (r, t)"
  shows "\<exists>sc. t = (case r of Inl e \<Rightarrow> put_entry p (NFile c) s | Inr _ \<Rightarrow> put_entry q (NFile c) s)\<lparr>script := sc\<rparr>"
  using os_effects(7) [OF _ assms(2), of c] assms(1) by (cases r) auto

lemma persistJob_effect:
  assumes "names_fresh E" "persistJob E j s = (r, t)"
  shows "persist_left (jobTemp E (entries s)) j r s t"
proof -
  have p: "look s (jobTemp E (entries s)) = None"
    using assms(1) by (simp add: names_fresh_def look_def)
  show ?thesis
    using assms(2) unfolding persistJob_def Let_def
    by (auto split: prod.splits sum.splits dest!: os_effects(1-6) persist_rename [OF p] syncJobsDir_effect
        intro!: persist_left_dropped [OF p refl]) (auto simp: persist_left_def)
qed

section \<open>Well-formed queues\<close>

definition operations :: "string set" where
  "operations = {OperationUpload, OperationDelete, OperationRestore}"

definition job_statuses :: "string set" where
  "job_statuses = {JobPending, JobRunning, JobFailed, JobCompleted}"

lemmas job_constants = OperationUpload_def OperationDelete_def OperationRestore_def
  JobPending_def JobRunning_def JobFailed_def JobCompleted_def

definition max_attempts :: "config \<Rightarrow> int" where
  "max_attempts c = (if cfMaxAttempts c \<le> 0 then 10 else cfMaxAttempts c)"

definition wf_job :: "config \<Rightarrow> job \<Rightarrow> bool" where
  "wf_job c j \<longleftrightarrow>
     jID j = job_id (jOperation j) (jFileID j) \<and> jOperation j \<in> operations \<and>
     CHR ''/'' \<notin> set (jFileID j) \<and> jFileID j \<noteq> '''' \<and> jStatus j \<in> job_statuses \<and>
     0 \<le> jAttempts j \<and> jAttempts j \<le> max_attempts c \<and> length (jLastError j) \<le> 1024"

lemma wf_job_path:
  assumes "wf_job c j"
  shows "jobPath (jID j) = child jobs_root (jID j @ ''.json'')" "jID j \<noteq> ''''"
  using assms
  by (auto simp: wf_job_def jobPath_def jobs_root_def job_id_def operations_def job_constants
      intro!: split_on_free)

text \<open>A job identifier determines the operation and the file.\<close>

lemma job_id_inj:
  "job_id a i = job_id b k \<Longrightarrow> a \<in> operations \<Longrightarrow> b \<in> operations \<Longrightarrow> a = b \<and> i = k"
  by (auto simp: job_id_def operations_def job_constants)

text \<open>The directory holds temporary files and complete records, nothing else.\<close>

definition entry_ok :: "config \<Rightarrow> unit path \<Rightarrow> job inode \<Rightarrow> bool" where
  "entry_ok c p n \<longleftrightarrow> p = jobs_root \<or>
     (\<exists>x k. p = child jobs_root (''.job-'' @ x @ ''.tmp'') \<and> n = NFile k) \<or>
     (\<exists>j. wf_job c j \<and> p = child jobs_root (jID j @ ''.json'') \<and> n = NFile (Doc j))"

definition jobs_dir :: "config \<Rightarrow> manager \<Rightarrow> bool" where
  "jobs_dir c s \<longleftrightarrow>
     look s jobs_root = Some NDir \<and> (\<forall>p n. look s p = Some n \<longrightarrow> entry_ok c p n)"

lemma jobs_dir_put:
  "jobs_dir c s \<Longrightarrow> entry_ok c p n \<Longrightarrow> p \<noteq> jobs_root \<Longrightarrow> jobs_dir c (put_entry p n s)"
  by (simp add: jobs_dir_def)

lemma jobs_dir_script [simp]: "jobs_dir c (s\<lparr>script := sc\<rparr>) = jobs_dir c s"
  by (simp add: jobs_dir_def)

lemma entry_ok_temp [simp]: "entry_ok c (jobTemp E es) (NFile k)" "jobTemp E es \<noteq> jobs_root"
  by (auto simp: entry_ok_def jobTemp_def jobs_root_def)

lemma entry_ok_job:
  "wf_job c j \<Longrightarrow> entry_ok c (jobPath (jID j)) (NFile (Doc j))" "wf_job c j \<Longrightarrow> jobPath (jID j) \<noteq> jobs_root"
  using wf_job_path(1) [of c j] by (auto simp: entry_ok_def jobs_root_def)

definition queue_ok :: "config \<Rightarrow> manager \<Rightarrow> bool" where
  "queue_ok c s \<longleftrightarrow> jobs_dir c s \<and> mMaxAttempts s = max_attempts c \<and>
     (\<forall>i j. get_job s i = Some j \<longrightarrow> jID j = i \<and> wf_job c j \<and> look s (jobPath i) \<noteq> None)"

definition flight_ok :: "config \<Rightarrow> manager \<Rightarrow> job option \<Rightarrow> bool" where
  "flight_ok c s f \<longleftrightarrow>
     (\<forall>j. f = Some j \<longrightarrow> (\<exists>cur. get_job s (jID j) = Some cur \<and> jAttempts cur < max_attempts c))"

definition same_queue :: "manager \<Rightarrow> manager \<Rightarrow> bool" where
  "same_queue s t \<longleftrightarrow> (\<exists>es sc. t = s\<lparr>entries := es, script := sc\<rparr>)"

lemma same_queue_fields:
  assumes "same_queue s t"
  shows "mJobs t = mJobs s" "get_job t = get_job s" "mMaxAttempts t = mMaxAttempts s"
    and "mBackoffBase t = mBackoffBase s" "mBackoffMax t = mBackoffMax s" "mWake t = mWake s"
    and "mRemoteURL t = mRemoteURL s" "mToken t = mToken s"
  using assms by (auto simp: same_queue_def get_job_def fun_eq_iff)

lemma get_set_job [simp]: "get_job (set_job i j s) = (get_job s)(i \<mapsto> j)"
  by (auto simp: get_job_def set_job_def update_conv' fun_eq_iff)

lemma set_job_fields [simp]:
  "look (set_job i j s) = look s" "jobs_dir c (set_job i j s) = jobs_dir c s" "script (set_job i j s) = script s" "entries (set_job i j s) = entries s"
  "mMaxAttempts (set_job i j s) = mMaxAttempts s" "mBackoffBase (set_job i j s) = mBackoffBase s"
  "mBackoffMax (set_job i j s) = mBackoffMax s"
  by (simp_all add: set_job_def jobs_dir_def look_def fun_eq_iff)

lemma signal_fields [simp]:
  "look (signal s) = look s" "jobs_dir c (signal s) = jobs_dir c s" "script (signal s) = script s" "get_job (signal s) = get_job s"
  "mMaxAttempts (signal s) = mMaxAttempts s"
  by (simp_all add: signal_def jobs_dir_def look_def get_job_def fun_eq_iff)

lemma persistJob_keeps:
  assumes "names_fresh E" "wf_job c j" "jobs_dir c s" "persistJob E j s = (r, t)"
  shows "jobs_dir c t" "same_queue s t" "look s p \<noteq> None \<Longrightarrow> look t p \<noteq> None"
    and "r = Inr () \<Longrightarrow> look t (jobPath (jID j)) = Some (NFile (Doc j))"
    and "look t p \<noteq> look s p \<Longrightarrow> p = jobTemp E (entries s) \<or> p = jobPath (jID j) \<and> look t p = Some (NFile (Doc j))"
proof -
  note e = persistJob_effect [OF assms(1,4)]
  show "same_queue s t"
    using e by (auto simp: persist_left_def same_queue_def put_entry_def)
      (metis disk.surjective disk.update_convs(1))+
  show "look s p \<noteq> None \<Longrightarrow> look t p \<noteq> None" using e by (auto simp: persist_left_def)
  show "r = Inr () \<Longrightarrow> look t (jobPath (jID j)) = Some (NFile (Doc j))"
    using e by (auto simp: persist_left_def)
  show "look t p \<noteq> look s p \<Longrightarrow> p = jobTemp E (entries s) \<or> p = jobPath (jID j) \<and> look t p = Some (NFile (Doc j))"
    using e by (auto simp: persist_left_def split: if_splits)
  show "jobs_dir c t"
    using e assms(2,3) by (auto simp: persist_left_def intro!: jobs_dir_put entry_ok_job)
qed

section \<open>Every operation keeps the queue well formed\<close>

lemma max_attempts_pos [simp]: "0 < max_attempts c" "\<not> max_attempts c \<le> 0"
  by (auto simp: max_attempts_def)

lemma queue_ok_job: "queue_ok c s \<Longrightarrow> get_job s i = Some j \<Longrightarrow> jID j = i \<and> wf_job c j \<and> look s (jobPath i) \<noteq> None"
  by (simp add: queue_ok_def)

lemma queue_ok_persist:
  assumes "names_fresh E" "wf_job c j" "queue_ok c s" "persistJob E j s = (r, t)"
  shows "queue_ok c t" "get_job t = get_job s"
proof -
  have d: "jobs_dir c s" using assms(3) by (simp add: queue_ok_def)
  note k = persistJob_keeps [OF assms(1,2) d assms(4)]
  show "get_job t = get_job s" using same_queue_fields(2) [OF k(2)] .
  then show "queue_ok c t"
    using assms(3) k(1,3) same_queue_fields(3) [OF k(2)] unfolding queue_ok_def by metis
qed

lemma queue_ok_set:
  "queue_ok c s \<Longrightarrow> wf_job c j \<Longrightarrow> look s (jobPath (jID j)) \<noteq> None \<Longrightarrow> queue_ok c (set_job (jID j) j s)"
  by (simp add: queue_ok_def)

lemma queue_ok_stored:
  assumes "names_fresh E" "wf_job c j" "queue_ok c s" "persistJob E j s = (Inr (), t)"
  shows "queue_ok c (set_job (jID j) j t)"
  using queue_ok_persist(1) [OF assms]
    persistJob_keeps(4) [OF assms(1,2) _ assms(4)] assms(3) by (intro queue_ok_set assms) (auto simp: queue_ok_def)

lemma get_job_script [simp]: "get_job (s\<lparr>script := sc\<rparr>) = get_job s"
  by (simp add: get_job_def fun_eq_iff)

lemma queue_ok_script [simp]: "queue_ok c (s\<lparr>script := sc\<rparr>) = queue_ok c s"
  by (simp add: queue_ok_def)

lemma queue_ok_signal [simp]: "queue_ok c (signal s) = queue_ok c s"
  by (simp add: queue_ok_def)

lemma wf_reset: "wf_job c j \<Longrightarrow> wf_job c (reset_job now j)"
  by (simp add: wf_job_def reset_job_def job_statuses_def less_imp_le)

lemma reset_fields [simp]: "jID (reset_job now j) = jID j" "jAttempts (reset_job now j) = 0"
  by (simp_all add: reset_job_def)

lemma trim_space_Nil [simp]: "trim_space '''' = ''''"
  by code_simp

lemma wf_new:
  "op \<in> operations \<Longrightarrow> CHR ''/'' \<notin> set f \<Longrightarrow> trim_space f \<noteq> '''' \<Longrightarrow> wf_job c (new_job op f now)"
  by (auto simp: wf_job_def new_job_def zero_job_def job_statuses_def less_imp_le)


lemma length_trimError [simp]: "length (trimError m) \<le> 1024"
  by (simp add: trimError_def Let_def)

lemma wf_finished:
  assumes "wf_job c j" "jAttempts j < max_attempts c" "cfMaxAttempts c \<le> max_int64"
  shows "wf_job c (finished_job s outcome now later j)" "jID (finished_job s outcome now later j) = jID j"
proof -
  have w: "wrap64 (jAttempts j + 1) = jAttempts j + 1"
    using assms by (intro wrap64_nonneg_id) (auto simp: wf_job_def max_attempts_def max_int64_def split: if_splits)
  show "wf_job c (finished_job s outcome now later j)"
    using assms by (auto simp: wf_job_def finished_job_def job_statuses_def w Let_def split: sum.split)
  show "jID (finished_job s outcome now later j) = jID j"
    by (simp add: finished_job_def Let_def split: sum.split)
qed

lemma flight_ok_mono:
  "flight_ok c s f \<Longrightarrow> (\<And>i cur. get_job s i = Some cur \<Longrightarrow> jAttempts cur < max_attempts c \<Longrightarrow>
     \<exists>cur'. get_job t i = Some cur' \<and> jAttempts cur' < max_attempts c) \<Longrightarrow> flight_ok c t f"
  unfolding flight_ok_def by blast

lemma enqueue_ok:
  assumes "names_fresh E" "queue_ok c s" "flight_ok c s f" "op \<in> operations" "CHR ''/'' \<notin> set i"
    and "enqueue E cx op i now s = (r, t)"
  shows "queue_ok c t \<and> flight_ok c t f"
proof -
  have store: "queue_ok c u \<and> flight_ok c u f \<and> queue_ok c (signal (set_job (jID j) j u)) \<and>
      flight_ok c (signal (set_job (jID j) j u)) f"
    if "wf_job c j" "jAttempts j = 0" "persistJob E j s = (r', u)" "r' = Inr ()" for j r' u
    using queue_ok_stored [of E c j s u] queue_ok_persist [OF assms(1) that(1) assms(2) that(3)] that assms(1-3)
    by (auto simp: flight_ok_def)
  have fail: "queue_ok c u \<and> flight_ok c u f" if "wf_job c j" "persistJob E j s = (r', u)" for j r' u
    using queue_ok_persist [OF assms(1) that(1) assms(2) that(2)] assms(3) by (simp add: flight_ok_def)
  show ?thesis
  proof (cases "cx = None \<and> trim_space i \<noteq> ''''")
    case True
    then have new: "wf_job c (new_job op i now)" using wf_new assms(4,5) by blast
    have ids: "jID (new_job op i now) = job_id op i" "jAttempts (new_job op i now) = 0"
      by (simp_all add: new_job_def zero_job_def)
    show ?thesis
    proof (cases "get_job s (job_id op i)")
      case None
      with True assms(6) store [OF new] fail [OF new] ids show ?thesis
        by (auto simp: enqueue_def Let_def split: prod.splits sum.splits)
    next
      case (Some j)
      then have j: "wf_job c (reset_job now j)" "jID j = job_id op i"
        using queue_ok_job [OF assms(2) Some] wf_reset by auto
      with Some True assms(2,3,6) store [OF j(1)] fail [OF j(1)] show ?thesis
        by (auto simp: enqueue_def Let_def split: prod.splits sum.splits if_splits)
    qed
  qed (use assms in \<open>auto simp: enqueue_def split: option.splits\<close>)
qed

lemma retry_jobs_ok:
  assumes "names_fresh E" "queue_ok c s" "flight_ok c s f" "\<And>i. i \<in> set is \<Longrightarrow> get_job s i \<noteq> None"
    and "retry_jobs E now is s = (r, t)"
  shows "queue_ok c t \<and> flight_ok c t f"
  using assms(2-)
proof (induction "is" arbitrary: s)
  case (Cons i "is")
  then obtain j where j: "get_job s i = Some j" by force
  have w: "wf_job c (reset_job now j)" "jID j = i" using queue_ok_job [OF Cons.prems(1) j] wf_reset by auto
  obtain r' u where p: "persistJob E (reset_job now j) s = (r', u)" by fastforce
  note u = queue_ok_persist [OF assms(1) w(1) Cons.prems(1) p]
  show ?case
  proof (cases r')
    case (Inl e)
    with Cons.prems(4) j p have "t = u" by simp
    then show ?thesis using u Cons.prems(2) by (simp add: flight_ok_def)
  next
    case (Inr x)
    have "queue_ok c (set_job i (reset_job now j) u)"
      using queue_ok_stored [of E c "reset_job now j" s u] assms(1) w Cons.prems(1) p Inr by simp
    moreover have "flight_ok c (set_job i (reset_job now j) u) f"
      using Cons.prems(2) u(2) by (auto simp: flight_ok_def)
    moreover have "retry_jobs E now is (set_job i (reset_job now j) u) = (r, t)"
      using Cons.prems(4) j p Inr by simp
    ultimately show ?thesis using Cons.prems(3) u(2) by (intro Cons.IH) auto
  qed
qed simp

lemma retry_ok:
  assumes "names_fresh E" "queue_ok c s" "flight_ok c s f" "retryJob E cx visit i now s = (r, t)"
  shows "queue_ok c t \<and> flight_ok c t f"
proof -
  have "\<And>k. k \<in> set (retry_targets s visit i) \<Longrightarrow> get_job s k \<noteq> None"
    by (auto simp: retry_targets_def split: if_splits option.splits)
  then show ?thesis
    using retry_jobs_ok [OF assms(1-3), of "retry_targets s visit i" now] assms(2-4)
    by (cases "retry_jobs E now (retry_targets s visit i) s")
      (auto simp: retryJob_def flight_ok_def split: option.splits if_splits sum.splits)
qed

text \<open>Claiming: the first claimable job in the visited order is marked, in memory and on disk.\<close>

definition claimed :: "time \<Rightarrow> job \<Rightarrow> job" where
  "claimed now j = j\<lparr>jStatus := JobRunning, jUpdatedAt := now\<rparr>"

lemma claimed_fields [simp]:
  "jID (claimed now j) = jID j" "jAttempts (claimed now j) = jAttempts j" "jStatus (claimed now j) = JobRunning"
  by (simp_all add: claimed_def)

lemma wf_running: "wf_job c j \<Longrightarrow> wf_job c (claimed now j)"
  by (simp add: claimed_def wf_job_def job_statuses_def)

lemma claim_loop_cases:
  "claim_loop E now visit s = (r, t) \<Longrightarrow>
   (r = Inr None \<and> t = s \<and> (\<forall>i\<in>set visit. \<forall>j. get_job s i = Some j \<longrightarrow> \<not> claimable s now j)) \<or>
   (\<exists>i\<in>set visit. \<exists>j p. get_job s i = Some j \<and> claimable s now j \<and>
      persistJob E (claimed now j) (set_job (jID j) (claimed now j) s) = (p, t) \<and>
      r = map_sum id (\<lambda>_. Some (claimed now j)) p)"
proof (induction visit)
  case (Cons k visit)
  show ?case
  proof (cases "\<exists>j. get_job s k = Some j \<and> claimable s now j")
    case True
    then obtain j where j: "get_job s k = Some j" "claimable s now j" by blast
    obtain p u where p: "persistJob E (claimed now j) (set_job (jID j) (claimed now j) s) = (p, u)" by fastforce
    then show ?thesis using Cons.prems j
      by (intro disjI2 bexI [of _ k] exI [of _ j] exI [of _ p])
        (simp_all add: claimed_def split: sum.splits)
  next
    case False
    then have "claim_loop E now visit s = (r, t)" using Cons.prems by (auto split: option.splits)
    with Cons.IH False show ?thesis by auto
  qed
qed simp

lemma claim_cases:
  assumes "claimNext E visit now s = (r, t)"
  obtains "r = Inr None" "t = s" "\<And>i j. i \<in> set visit \<Longrightarrow> get_job s i = Some j \<Longrightarrow> \<not> claimable s now j"
  | i j p where "i \<in> set visit" "get_job s i = Some j" "claimable s now j"
      "persistJob E (claimed now j) (set_job (jID j) (claimed now j) s) = (p, t)"
      "r = map_sum id (\<lambda>_. Some (claimed now j)) p"
  using claim_loop_cases [OF assms [unfolded claimNext_def]] by blast

lemma claimable_left: "claimable s now j \<Longrightarrow> jAttempts j < mMaxAttempts s"
  by (simp add: claimable_def)

lemma claim_ok:
  assumes "names_fresh E" "queue_ok c s" "claimNext E visit now s = (r, t)"
  shows "queue_ok c t \<and> (case r of Inl e \<Rightarrow> True | Inr f \<Rightarrow> flight_ok c t f)"
  using assms(3)
proof (cases rule: claim_cases)
  case 1
  with assms(2) show ?thesis by (simp add: flight_ok_def)
next
  case (2 i j p)
  let ?j = "claimed now j"
  have j: "jID j = i" "wf_job c ?j" "look s (jobPath i) \<noteq> None"
    using queue_ok_job [OF assms(2) 2(2)] wf_running by auto
  have "queue_ok c (set_job (jID ?j) ?j s)" by (rule queue_ok_set) (use j assms(2) in auto)
  then have s: "queue_ok c (set_job (jID j) ?j s)" by simp
  note t = queue_ok_persist [OF assms(1) j(2) s 2(4)]
  have "jAttempts j < max_attempts c"
    using claimable_left [OF 2(3)] assms(2) by (simp add: queue_ok_def)
  then show ?thesis using t 2(5) by (cases p) (auto simp: flight_ok_def)
qed

lemma finish_ok:
  assumes "names_fresh E" "queue_ok c s" "flight_ok c s (Some j)" "cfMaxAttempts c \<le> max_int64"
    and "finishJob E j outcome now later s = (r, t)"
  shows "queue_ok c t"
proof -
  obtain cur where cur: "get_job s (jID j) = Some cur" "jAttempts cur < max_attempts c"
    using assms(3) by (auto simp: flight_ok_def)
  let ?d = "finished_job s outcome now later cur"
  have w: "wf_job c ?d" "jID ?d = jID j" "look s (jobPath (jID j)) \<noteq> None"
    using wf_finished [of c cur s outcome now later] queue_ok_job [OF assms(2) cur(1)] cur(2) assms(4) by auto
  have "queue_ok c (set_job (jID ?d) ?d s)" by (rule queue_ok_set) (use w assms(2) in auto)
  then have s: "queue_ok c (set_job (jID j) ?d s)" using w by simp
  obtain p u where p: "persistJob E ?d (set_job (jID j) ?d s) = (p, u)" by fastforce
  have "t = u" using assms(5) p cur(1) by (auto simp: finishJob_def jobOf_def split: sum.splits)
  then show ?thesis using queue_ok_persist(1) [OF assms(1) w(1) s p] by simp
qed

section \<open>Starting on any jobs directory\<close>

definition restarted :: "time \<Rightarrow> job \<Rightarrow> job" where
  "restarted now j = (if jStatus j = JobRunning then j\<lparr>jStatus := JobPending, jUpdatedAt := now\<rparr> else j)"

lemma restarted_fields [simp]:
  "jID (restarted now j) = jID j" "jOperation (restarted now j) = jOperation j"
  "jFileID (restarted now j) = jFileID j" "jStatus (restarted now j) \<noteq> JobRunning"
  by (simp_all add: restarted_def job_constants)

lemma restarted_id [simp]: "jStatus j \<noteq> JobRunning \<Longrightarrow> restarted now j = j"
  by (simp add: restarted_def)

lemma wf_restarted [simp]: "wf_job c (restarted now j) = wf_job c j"
  by (auto simp: restarted_def wf_job_def job_statuses_def)

lemma ext_tmp: "filepath_ext (s @ ''.tmp'') = ''.tmp''"
  by (simp add: filepath_ext_def)

text \<open>A file that the loader reads is a complete record.\<close>

lemma loaded_entry:
  assumes "jobs_dir c s" "filepath_ext name = ''.json''" "look s (child jobs_root name) = Some n"
  shows "\<exists>j. wf_job c j \<and> name = jID j @ ''.json'' \<and> n = NFile (Doc j)"
proof -
  have "entry_ok c (child jobs_root name) n" using assms(1,3) unfolding jobs_dir_def by blast
  moreover have "name \<noteq> ''.job-'' @ x @ ''.tmp''" for x
    using ext_tmp [of "''.job-'' @ x"] assms(2) by auto
  ultimately show ?thesis by (auto simp: entry_ok_def jobs_root_def)
qed

lemma load_entries_step:
  "load_entries E now ((name, False) # es) s =
     (if filepath_ext name \<noteq> ''.json'' then load_entries E now es s
      else case os_read_file (child jobs_root name) s of
        (Inl e, s) \<Rightarrow> (Inl (JobOSErr e), s)
      | (Inr data, s) \<Rightarrow>
          (case unmarshal_job data of
             None \<Rightarrow> (Inl ErrInvalidConfig, s)
           | Some j \<Rightarrow>
               if jID j = '''' \<or> jFileID j = '''' then (Inl ErrInvalidConfig, s)
               else if jStatus j = JobRunning then
                 (case persistJob E (restarted now j) s of
                    (Inl e, s) \<Rightarrow> (Inl e, s)
                  | (Inr _, s) \<Rightarrow> load_entries E now es (set_job (jID j) (restarted now j) s))
               else load_entries E now es (set_job (jID j) (restarted now j) s)))"
  by (simp add: Let_def restarted_def split: prod.split sum.split option.split)

lemma load_entries_ok:
  "names_fresh E \<Longrightarrow> queue_ok c s \<Longrightarrow> load_entries E now es s = (r, t) \<Longrightarrow> queue_ok c t"
proof (induction es arbitrary: s)
  case (Cons e es)
  obtain name d where e: "e = (name, d)" by fastforce
  show ?case
  proof (cases "d \<or> filepath_ext name \<noteq> ''.json''")
    case True
    with Cons e show ?thesis by auto
  next
    case False
    then have d: "d = False" "filepath_ext name = ''.json''" by auto
    obtain x u where x: "os_read_file (child jobs_root name) s = (x, u)" by fastforce
    obtain sc where u: "u = s\<lparr>script := sc\<rparr>" "\<And>k. x = Inr k \<Longrightarrow> look s (child jobs_root name) = Some (NFile k)"
      using os_effects(9) [OF x] by blast
    have q: "queue_ok c u" using Cons.prems(2) by (simp add: u)
    show ?thesis
    proof (cases x)
      case (Inl y)
      then have "t = u" using Cons.prems(3) e d x by (simp add: load_entries_step del: load_entries.simps)
      then show ?thesis using q by simp
    next
      case (Inr k)
      have dir: "jobs_dir c s" using Cons.prems(2) by (simp add: queue_ok_def)
      obtain j where j: "wf_job c j" "name = jID j @ ''.json''" "k = Doc j"
        using loaded_entry [OF dir d(2) u(2) [OF Inr]] by auto
      have there: "look u (jobPath (jID j)) \<noteq> None"
        using u(2) [OF Inr] wf_job_path(1) [OF j(1)] j(2) by (simp add: u(1))
      have w: "wf_job c (restarted now j)" "jID (restarted now j) = jID j" "jID j \<noteq> ''''" "jFileID j \<noteq> ''''"
        using j(1) wf_job_path(2) [OF j(1)] by (simp, simp, simp, simp add: wf_job_def)
      show ?thesis
      proof (cases "jStatus j = JobRunning")
        case False
        have "queue_ok c (set_job (jID j) (restarted now j) u)"
          using queue_ok_set [OF q w(1)] there w(2) by simp
        then show ?thesis
          using Cons.IH [OF Cons.prems(1)] Cons.prems(3) False e d x Inr j(3) w
          by (auto simp: load_entries_step simp del: load_entries.simps)
      next
        case True
        obtain p v where p: "persistJob E (restarted now j) u = (p, v)" by fastforce
        have "queue_ok c v" "p = Inr () \<Longrightarrow> queue_ok c (set_job (jID j) (restarted now j) v)"
          using queue_ok_persist(1) [OF Cons.prems(1) w(1) q p] queue_ok_stored [OF Cons.prems(1) w(1) q] p w(2)
          by auto
        then show ?thesis
          using Cons.IH [OF Cons.prems(1)] Cons.prems(3) True e d x Inr j(3) w p
          by (cases p) (auto simp: load_entries_step simp del: load_entries.simps)
      qed
    qed
  qed
qed simp

text \<open>Only the disk of the old process matters, and it may also be empty.\<close>

definition bootable :: "config \<Rightarrow> manager \<Rightarrow> bool" where
  "bootable c s \<longleftrightarrow> jobs_dir c s \<or> entries s = []"

lemma bootable_script [simp]: "bootable c (s\<lparr>script := sc\<rparr>) = bootable c s"
  by (simp add: bootable_def)

lemma bootable_root: "bootable c s \<Longrightarrow> look s jobs_root = None \<Longrightarrow> jobs_dir c (put_entry jobs_root NDir s)"
  by (auto simp: bootable_def jobs_dir_def entry_ok_def look_def put_entry_def)

lemma make_root_effect:
  fixes s t :: manager
  assumes "os_mkdir_all jobs_root s = (r, t)"
  shows "\<exists>sc. t = s\<lparr>script := sc\<rparr> \<and> (r = Inr () \<longrightarrow> look s jobs_root = Some NDir) \<or>
    t = (put_entry jobs_root NDir s)\<lparr>script := sc\<rparr> \<and> look s jobs_root = None"
proof -
  define f where "f = (\<lambda>es :: (unit, job) entries.
    map_sum id (\<lambda>es'. ((), es')) (make_dirs (map (Pair ()) (prefixes [])) es))"
  have m: "os_mkdir_all jobs_root s = syscall f s" by (simp add: os_mkdir_all_def jobs_root_def f_def)
  have calm: "\<exists>sc. v = u\<lparr>script := sc\<rparr> \<and> (x = Inr () \<longrightarrow> look u jobs_root = Some NDir) \<or>
      v = (put_entry jobs_root NDir u)\<lparr>script := sc\<rparr> \<and> look u jobs_root = None"
    if "script u = []" "syscall f u = (x, v)" for u v :: manager and x
    using that by (auto simp: f_def syscall_calm jobs_root_def look_def put_entry_def split: option.splits inode.splits
        intro: exI [of _ "[]"])
  show ?thesis
  proof (cases s rule: script_cases)
    case 1
    then show ?thesis using calm assms m by simp
  next
    case (2 sc)
    obtain x v where v: "syscall f (s\<lparr>script := []\<rparr>) = (x, v)" by fastforce
    then have "r = x" "t = v\<lparr>script := sc\<rparr>" using assms m syscall_step [OF 2, of f] by auto
    then show ?thesis using calm [OF _ v] by auto
  next
    case (3 k sc)
    then show ?thesis using assms m syscall_fault [OF 3, of f] by auto
  qed
qed

lemma mounted_fields [simp]:
  "look (mounted c s) = look s" "script (mounted c s) = script s" "jobs_dir c' (mounted c s) = jobs_dir c' s"
  "mMaxAttempts (mounted c s) = max_attempts c" "get_job (mounted c s) = Map.empty"
  by (simp_all add: mounted_def look_def jobs_dir_def get_job_def max_attempts_def fun_eq_iff)

lemma os_read_dir_effect:
  assumes "os_read_dir p s = (r, t)"
  shows "\<exists>sc. t = s\<lparr>script := sc\<rparr>"
  using assms
  by (cases s rule: script_cases)
    (auto simp: step_simps go_simps split: option.splits inode.splits intro: exI [of _ "script s"])

lemma newManager_ok:
  assumes "names_fresh E" "bootable c s" "newManager E c now s = (r, t)"
  shows "bootable c t \<and> (r = Inr () \<longrightarrow> queue_ok c t)"
proof (cases "r = Inr () \<or> (\<exists>u. os_mkdir_all jobs_root s = (Inr (), u) \<and> loadJobs E now (mounted c u) = (r, t))")
  case True
  then obtain u where u: "os_mkdir_all jobs_root s = (Inr (), u)" "loadJobs E now (mounted c u) = (r, t)"
    using assms(3) by (auto simp: newManager_def split: option.splits if_splits prod.splits sum.splits)
  obtain sc where "u = s\<lparr>script := sc\<rparr> \<and> look s jobs_root = Some NDir \<or>
      u = (put_entry jobs_root NDir s)\<lparr>script := sc\<rparr> \<and> look s jobs_root = None"
    using make_root_effect [OF u(1)] by auto
  then have "jobs_dir c u"
    using assms(2) bootable_root [OF assms(2)] by (auto simp: bootable_def look_def)
  then have m: "queue_ok c (mounted c u)" by (simp add: queue_ok_def)
  obtain x v where x: "os_read_dir jobs_root (mounted c u) = (x, v)" by fastforce
  then obtain sc where "v = (mounted c u)\<lparr>script := sc\<rparr>" using os_read_dir_effect by blast
  then have v: "queue_ok c v" using m by simp
  have "queue_ok c t"
  proof (cases x)
    case (Inl e)
    then show ?thesis using u(2) x v by (simp add: loadJobs_def)
  next
    case (Inr es)
    then show ?thesis using u(2) x load_entries_ok [OF assms(1) v] by (simp add: loadJobs_def)
  qed
  then show ?thesis by (simp add: bootable_def queue_ok_def)
next
  case False
  then have "t = s \<or> (\<exists>e. os_mkdir_all jobs_root s = (Inl e, t))"
    using assms(3) by (auto simp: newManager_def split: option.splits if_splits prod.splits sum.splits)
  then show ?thesis
  proof
    assume "\<exists>e. os_mkdir_all jobs_root s = (Inl e, t)"
    then obtain e where e: "os_mkdir_all jobs_root s = (Inl e, t)" by blast
    obtain sc where "t = s\<lparr>script := sc\<rparr> \<or> t = (put_entry jobs_root NDir s)\<lparr>script := sc\<rparr> \<and> look s jobs_root = None"
      using make_root_effect [OF e] by blast
    then show ?thesis using assms(2) False bootable_root [OF assms(2)] by (auto simp: bootable_def)
  qed (use assms(2) False in simp)
qed

section \<open>Histories\<close>

text \<open>
  Everything that can happen to a jobs directory: the process is down, or it is up with at most
  one job in flight (there is one worker). Calls interleave with the running job in any order, see
  any fault script, any clock and any map order; a crash may happen at any point, and starts may
  fail and be repeated.
\<close>

inductive up :: "net \<Rightarrow> config \<Rightarrow> manager \<Rightarrow> job option \<Rightarrow> bool"
  and down :: "net \<Rightarrow> config \<Rightarrow> manager \<Rightarrow> bool" for E c where
  install: "entries s = [] \<Longrightarrow> down E c s"
| crash: "up E c s f \<Longrightarrow> down E c (s\<lparr>script := sc\<rparr>)"
| failed_start: "down E c s \<Longrightarrow> newManager E c now s = (Inl e, t) \<Longrightarrow> down E c (t\<lparr>script := sc\<rparr>)"
| started: "down E c s \<Longrightarrow> newManager E c now s = (Inr (), t) \<Longrightarrow> up E c t None"
| enqueued: "up E c s f \<Longrightarrow> op \<in> operations \<Longrightarrow> CHR ''/'' \<notin> set i \<Longrightarrow>
    enqueue E cx op i now s = (r, t) \<Longrightarrow> up E c t f"
| retried: "up E c s f \<Longrightarrow> retryJob E cx visit i now s = (r', t) \<Longrightarrow> up E c t f"
| claim_failed: "up E c s None \<Longrightarrow> claimNext E visit now s = (Inl e', t) \<Longrightarrow> up E c t None"
| claims: "up E c s None \<Longrightarrow> claimNext E visit now s = (Inr f, t) \<Longrightarrow> up E c t f"
| finished: "up E c s (Some j) \<Longrightarrow> finishJob E j outcome now later s = (r', t) \<Longrightarrow> up E c t None"

lemma history_ok:
  assumes "names_fresh E" "cfMaxAttempts c \<le> max_int64"
  shows "up E c s f \<Longrightarrow> queue_ok c s \<and> flight_ok c s f" and "down E c s' \<Longrightarrow> bootable c s'"
proof (induction rule: up_down.inducts)
  case (failed_start s now e t sc)
  then show ?case using newManager_ok [OF assms(1)] by fastforce
next
  case (started s now t)
  then show ?case using newManager_ok [OF assms(1)] by (fastforce simp: flight_ok_def)
next
  case (enqueued s f op i cx now r t)
  then show ?case using enqueue_ok [OF assms(1)] by blast
next
  case (retried s f cx visit i now r' t)
  then show ?case using retry_ok [OF assms(1)] by blast
next
  case (claim_failed s visit now e' t)
  then show ?case using claim_ok [OF assms(1)] by (fastforce simp: flight_ok_def)
next
  case (claims s visit now f t)
  then show ?case using claim_ok [OF assms(1)] by fastforce
next
  case (finished s j outcome now later r' t)
  then have "queue_ok c t" using finish_ok [OF assms(1) _ _ assms(2)] by blast
  then show ?case by (simp add: flight_ok_def)
qed (auto simp: bootable_def queue_ok_def)

section \<open>Restarts\<close>

definition disk_job :: "manager \<Rightarrow> string \<Rightarrow> job option" where
  "disk_job s i =
     (case look s (child jobs_root (i @ ''.json'')) of Some (NFile (Doc j)) \<Rightarrow> Some j | _ \<Rightarrow> None)"

lemma jobs_dir_child:
  assumes "jobs_dir c s" "look s (child jobs_root n) = Some x"
  shows "x \<noteq> NDir"
proof -
  have "entry_ok c (child jobs_root n) x" using assms unfolding jobs_dir_def by blast
  then show ?thesis by (auto simp: entry_ok_def jobs_root_def)
qed

lemma disk_job_there:
  assumes "jobs_dir c s" "look s (child jobs_root (i @ ''.json'')) \<noteq> None"
  shows "\<exists>j. disk_job s i = Some j \<and> jID j = i \<and> wf_job c j"
proof -
  have "filepath_ext (i @ ''.json'') = ''.json''" by (rule filepath_ext_json)
  then show ?thesis using loaded_entry [OF assms(1)] assms(2) by (fastforce simp: disk_job_def)
qed

lemma persistJob_calm:
  assumes "script s = []" "names_fresh E" "jobs_dir c s" "wf_job c j"
  shows "persistJob E j s = (Inr (), put_entry (jobPath (jID j)) (NFile (Doc j)) s)"
proof -
  have p: "look s (jobTemp E (entries s)) = None"
    using assms(2) by (simp add: names_fresh_def look_def)
  have root: "look s jobs_root = Some NDir" using assms(3) by (simp add: jobs_dir_def)
  have par: "parent (jobTemp E (entries s)) = jobs_root" "parent (jobPath (jID j)) = jobs_root"
    using wf_job_path(1) [OF assms(4)] by (auto simp: jobTemp_def jobs_root_def)
  have q: "look s (jobPath (jID j)) \<noteq> Some NDir"
    using wf_job_path(1) [OF assms(4)] jobs_dir_child [OF assms(3)] by auto
  have ne: "jobPath (jID j) \<noteq> jobTemp E (entries s)"
  proof
    assume "jobPath (jID j) = jobTemp E (entries s)"
    then have "filepath_ext (jID j @ ''.json'') = filepath_ext ((''.job-'' @ nTemp E (entries s)) @ ''.tmp'')"
      using wf_job_path(1) [OF assms(4)] by (simp add: jobTemp_def jobs_root_def)
    then show False by (simp only: filepath_ext_json ext_tmp) simp
  qed
  show ?thesis
    using assms(1) p root par q ne
    by (auto simp: persistJob_def go_simps Let_def syncJobsDir_def)
qed

text \<open>Reading a directory of whole records.\<close>

lemma load_entries_calm:
  assumes "names_fresh E" "distinct (map fst es)"
    and "script s = []" "queue_ok c s"
    and "\<And>n d. (n, d) \<in> set es \<Longrightarrow> look s (child jobs_root n) \<noteq> None \<and> \<not> d"
  shows "\<exists>t. load_entries E now es s = (Inr (), t) \<and> script t = [] \<and>
    (\<forall>i. get_job t i = (if i @ ''.json'' \<in> fst ` set es then map_option (restarted now) (disk_job s i)
       else get_job s i))"
  using assms(2-)
proof (induction es arbitrary: s)
  case (Cons e es)
  obtain name d where e: "e = (name, d)" by fastforce
  then have n: "look s (child jobs_root name) \<noteq> None" "d = False" using Cons.prems(4) by auto
  have dir: "jobs_dir c s" using Cons.prems(3) by (simp add: queue_ok_def)
  show ?case
  proof (cases "filepath_ext name = ''.json''")
    case False
    then have "name \<noteq> i @ ''.json''" for i by (metis filepath_ext_json)
    moreover obtain t where "load_entries E now es s = (Inr (), t)" "script t = []"
      "\<forall>i. get_job t i = (if i @ ''.json'' \<in> fst ` set es then map_option (restarted now) (disk_job s i)
         else get_job s i)"
      using Cons.IH [of s] Cons.prems by auto
    ultimately show ?thesis using e n False by (intro exI [of _ t]) auto
  next
    case True
    obtain x where x: "look s (child jobs_root name) = Some x" using n by blast
    obtain j where j: "wf_job c j" "name = jID j @ ''.json''" "x = NFile (Doc j)"
      using loaded_entry [OF dir True x] by blast
    have path: "jobPath (jID j) = child jobs_root name" "jID j \<noteq> ''''"
      using wf_job_path [OF j(1)] j(2) by auto
    have w: "wf_job c (restarted now j)" "jFileID j \<noteq> ''''" using j(1) by (simp, simp add: wf_job_def)
    define v where "v =
      (if jStatus j = JobRunning then put_entry (child jobs_root name) (NFile (Doc (restarted now j))) s else s)"
    have v: "queue_ok c v" "script v = []" "get_job v = get_job s"
      "\<And>p. p \<noteq> child jobs_root name \<Longrightarrow> look v p = look s p" "look s p \<noteq> None \<Longrightarrow> look v p \<noteq> None" for p
      using queue_ok_persist [OF assms(1) w(1) Cons.prems(3) persistJob_calm [OF Cons.prems(2) assms(1) dir w(1)]]
        Cons.prems(2,3) path x unfolding v_def by auto
    have load: "load_entries E now (e # es) s = load_entries E now es (set_job (jID j) (restarted now j) v)"
      using persistJob_calm [OF Cons.prems(2) assms(1) dir w(1)] Cons.prems(2) x j(3) e n True path w
      by (simp add: v_def load_entries_step go_simps del: load_entries.simps)
    have q: "queue_ok c (set_job (jID j) (restarted now j) v)"
      using queue_ok_set [OF v(1) w(1)] v(5) [OF n(1)] path by simp
    have rest: "look (set_job (jID j) (restarted now j) v) (child jobs_root n) \<noteq> None \<and> \<not> d"
      if "(n, d) \<in> set es" for n d
      using that Cons.prems(4) [of n d] v(5) [of "child jobs_root n"] by simp
    obtain t where t: "load_entries E now es (set_job (jID j) (restarted now j) v) = (Inr (), t)" "script t = []"
      "\<forall>i. get_job t i = (if i @ ''.json'' \<in> fst ` set es
         then map_option (restarted now) (disk_job (set_job (jID j) (restarted now j) v) i)
         else get_job (set_job (jID j) (restarted now j) v) i)"
      using Cons.IH [OF _ _ q rest] v(2) Cons.prems(1) by auto
    have other: "disk_job (set_job (jID j) (restarted now j) v) i = disk_job s i" if "i \<noteq> jID j" for i
      using that v(4) [of "child jobs_root (i @ ''.json'')"] j(2) by (simp add: disk_job_def jobs_root_def)
    have own: "disk_job s (jID j) = Some j" using x j by (simp add: disk_job_def)
    have notin: "jID j @ ''.json'' \<notin> fst ` set es" using Cons.prems(1) e j(2) by auto
    have "get_job t i = (if i @ ''.json'' \<in> fst ` set (e # es) then map_option (restarted now) (disk_job s i)
        else get_job s i)" for i
    proof (cases "i = jID j")
      case True
      then show ?thesis using t(3) e j(2) own notin by simp
    next
      case False
      then show ?thesis using t(3) e j(2) other [OF False] v(3) by simp
    qed
    then show ?thesis using t(1,2) load by auto
  qed
qed simp

lemma newManager_calm:
  assumes "names_fresh E" "script s = []" "jobs_dir c s"
    and "nParse E (trim_right_char CHR ''/'' (trim_space (cfRemoteURL c))) = Some (scheme, host)"
    and "scheme \<noteq> ''''" "host \<noteq> ''''" "trim_space (cfToken c) \<noteq> ''''" "trim_space (cfJobsDir c) \<noteq> ''''"
  shows "\<exists>t. newManager E c now s = (Inr (), t) \<and> script t = [] \<and>
    (\<forall>i. get_job t i = map_option (restarted now) (disk_job s i))"
proof -
  let ?m = "mounted c s"
  let ?es = "map (\<lambda>n. (n, look ?m (child jobs_root n) = Some NDir)) (names ?m jobs_root)"
  have root: "look s jobs_root = Some NDir" using assms(3) by (simp add: jobs_dir_def)
  have mk: "os_mkdir_all jobs_root s = (Inr (), s)"
    using root assms(2) by (simp add: os_mkdir_all_def jobs_root_def syscall_calm look_def)
  have q: "queue_ok c ?m" using assms(3) by (simp add: queue_ok_def)
  have es: "look ?m (child jobs_root n) \<noteq> None \<and> \<not> d" if "(n, d) \<in> set ?es" for n d
    using that jobs_dir_child [OF assms(3)] by (auto simp: set_names)
  have d: "distinct (map fst ?es)" and sc: "script ?m = []" using assms(2) by (simp_all add: comp_def)
  obtain t where t: "load_entries E now ?es ?m = (Inr (), t)" "script t = []"
    "\<forall>i. get_job t i = (if i @ ''.json'' \<in> fst ` set ?es then map_option (restarted now) (disk_job ?m i)
       else get_job ?m i)"
    using load_entries_calm [OF assms(1) d sc q es] by blast
  have "disk_job ?m i = disk_job s i" for i by (simp add: disk_job_def)
  moreover have "disk_job s i = None" if "i @ ''.json'' \<notin> fst ` set ?es" for i
    using that by (auto simp: set_names disk_job_def image_iff split: option.split)
  ultimately have "get_job t i = map_option (restarted now) (disk_job s i)" for i using t(3) by auto
  then show ?thesis
    using t mk assms root by (intro exI [of _ t]) (auto simp: newManager_def loadJobs_def go_simps)
qed

end
