(* ===== verification/ReplicationLaws.thy ===== *)
theory ReplicationLaws
  imports ReplicationRun
begin

text \<open>
  The properties of the replication manager: well-formed and durable queues under failures and
  crashes, bounded and spaced retries, draining, and the two ways in which a job is lost.
\<close>

section \<open>A sample manager\<close>

definition example_net :: net where
  "example_net = \<lparr>nParse = (\<lambda>u. Some (''https'', ''replica'')), nRequestErr = (\<lambda>m u. None),
     nLabels = (\<lambda>m. ''{}''), nFormType = ''multipart/form-data; boundary=b'', nQuote = id,
     nTemp = (\<lambda>es. concat (concat (map (\<lambda>e. snd (fst e)) es)))\<rparr>"

definition example_config :: config where
  "example_config = \<lparr>cfRemoteURL = ''https://replica/'', cfToken = ''secret'', cfJobsDir = ''jobs'',
     cfMaxAttempts = 3, cfRetryInterval = 0, cfBackoffBase = 0, cfBackoffMax = 0\<rparr>"

definition empty_disk :: manager where
  "empty_disk = \<lparr>entries = [], script = [], mRemoteURL = '''', mToken = '''', mMaxAttempts = 0,
     mRetryInterval = 0, mBackoffBase = 0, mBackoffMax = 0, mJobs = [], mWake = False, mStarted = False\<rparr>"

definition example_manager :: manager where
  "example_manager = \<lparr>entries = [(jobs_root, NDir)], script = [], mRemoteURL = ''https://replica'',
     mToken = ''secret'', mMaxAttempts = 3, mRetryInterval = 1000000000, mBackoffBase = 5000000000,
     mBackoffMax = 600000000000, mJobs = [], mWake = False, mStarted = False\<rparr>"

definition with_job :: "job \<Rightarrow> manager" where
  "with_job j = example_manager\<lparr>
     entries := [(jobs_root, NDir), (jobPath (jID j), NFile (Doc j))], mJobs := [(jID j, j)], mWake := True\<rparr>"

definition example_queue :: manager where
  "example_queue = with_job (new_job OperationUpload example_id 7)"

lemma length_concat_member: "x \<in> set xs \<Longrightarrow> length (concat x) \<le> length (concat (concat xs))"
  by (induction xs) auto

lemma example_fresh: "names_fresh example_net"
proof -
  have "map_of es (jobTemp example_net es) = None" for es
  proof (rule ccontr)
    assume "map_of es (jobTemp example_net es) \<noteq> None"
    then obtain n where "(jobTemp example_net es, n) \<in> set es" by (auto dest: map_of_SomeD)
    then have "snd (jobTemp example_net es) \<in> set (map (\<lambda>e. snd (fst e)) es)" by force
    then have "length (concat (snd (jobTemp example_net es))) \<le> length (concat (concat (map (\<lambda>e. snd (fst e)) es)))"
      by (rule length_concat_member)
    then show False by (simp add: jobTemp_def example_net_def)
  qed
  then show ?thesis by (simp add: names_fresh_def)
qed

lemma example_attempts: "cfMaxAttempts example_config \<le> max_int64"
  by (simp add: example_config_def max_int64_def)

lemma with_snd: "fst m = r \<Longrightarrow> m = (r, snd m)"
  by (cases m) simp

lemma example_starts: "newManager example_net example_config 5 empty_disk = (Inr (), example_manager)"
  by code_simp

lemma example_enqueues:
  "enqueue example_net None OperationUpload example_id 7 example_manager =
     (Inr (new_job OperationUpload example_id 7), example_queue)"
  by code_simp

lemma example_up: "up example_net example_config example_queue None"
proof -
  have "up example_net example_config example_manager None"
    by (rule started [OF _ example_starts]) (simp add: install empty_disk_def)
  moreover have "CHR ''/'' \<notin> set example_id" by (simp add: validFileID_safe [OF example_id_valid])
  ultimately show ?thesis by (intro enqueued [OF _ _ _ example_enqueues]) (simp_all add: operations_def)
qed

lemma example_jobs:
  "mJobs example_queue = [(job_id OperationUpload example_id, new_job OperationUpload example_id 7)]"
  by code_simp

lemma example_job: "get_job example_queue (job_id OperationUpload example_id) = Some (new_job OperationUpload example_id 7)"
  by code_simp

section \<open>Well-formed and durable\<close>

lemma disk_job_path:
  assumes "queue_ok c s" "get_job s i = Some j"
  shows "\<exists>d. disk_job s i = Some d \<and> jOperation d = jOperation j \<and> jFileID d = jFileID j"
proof -
  have j: "jID j = i" "wf_job c j" "look s (jobPath i) \<noteq> None" and dir: "jobs_dir c s"
    using queue_ok_job [OF assms] assms(1) by (auto simp: queue_ok_def)
  then obtain d where d: "disk_job s i = Some d" "jID d = i" "wf_job c d"
    using disk_job_there [OF dir, of i] wf_job_path(1) [OF j(2)] by auto
  then show ?thesis using j job_id_inj unfolding wf_job_def by metis
qed

text \<open>C8. Under any interleaving of calls with the running job, any I/O failures and any crashes,
  every queued job is a well-formed job of its operation and file, its attempts stay within the
  configured maximum, its error text within 1024 bytes, and its record is on disk.\<close>

theorem queue_safe:
  assumes "up E c s f" "names_fresh E" "cfMaxAttempts c \<le> max_int64" "get_job s i = Some j"
  shows "jID j = i \<and> i = job_id (jOperation j) (jFileID j) \<and> jOperation j \<in> operations \<and>
    jStatus j \<in> job_statuses \<and> 0 \<le> jAttempts j \<and> jAttempts j \<le> max_attempts c \<and>
    length (jLastError j) \<le> 1024 \<and>
    (\<exists>d. disk_job s i = Some d \<and> jOperation d = jOperation j \<and> jFileID d = jFileID j)"
proof -
  have "queue_ok c s" using history_ok(1) [OF assms(2,3,1)] by blast
  then show ?thesis
    using queue_ok_job [of c s i j] disk_job_path [of c s i j] assms(4) by (auto simp: wf_job_def)
qed

theorem queue_safe_witness:
  "\<exists>d. disk_job example_queue (job_id OperationUpload example_id) = Some d \<and> jFileID d = example_id"
  using queue_safe [OF example_up example_fresh _ example_job]
  by (auto simp: example_config_def max_int64_def new_job_def zero_job_def)

lemma up_accepted:
  "up E c s f \<Longrightarrow> \<exists>scheme host. nParse E (trim_right_char CHR ''/'' (trim_space (cfRemoteURL c))) = Some (scheme, host) \<and>
     scheme \<noteq> '''' \<and> host \<noteq> '''' \<and> trim_space (cfToken c) \<noteq> '''' \<and> trim_space (cfJobsDir c) \<noteq> ''''"
  "down E c s' \<Longrightarrow> True"
  by (induction rule: up_down.inducts) (auto simp: newManager_def split: option.splits if_splits)



section \<open>Backoff\<close>

lemma backoff_loop_closed:
  "0 < d \<Longrightarrow> d \<le> limit \<Longrightarrow> limit < 2 ^ 62 \<Longrightarrow> backoff_loop n limit d = min limit (d * 2 ^ n)"
proof (induction n arbitrary: d)
  case (Suc n)
  have w: "wrap64 (d * 2) = d * 2" by (rule wrap64_nonneg_id) (use Suc.prems in \<open>auto simp: max_int64_def\<close>)
  show ?case
  proof (cases "limit \<le> d * 2")
    case True
    have "(1::int) \<le> 2 ^ n" by simp
    then have "d * 2 * 1 \<le> d * 2 * 2 ^ n" using Suc.prems(1) by (intro mult_left_mono) auto
    then show ?thesis using True w by (simp add: Let_def min_def)
  next
    case False
    then show ?thesis using Suc.IH [of "d * 2"] Suc.prems w by (simp add: Let_def mult.assoc)
  qed
qed (simp add: min_def)

text \<open>C23. The wait after the n-th failed attempt is base * 2 ^ (n - 1), capped at the maximum, with no
  overflow for any number of attempts.\<close>

theorem backoff_closed:
  assumes "0 < mBackoffBase s" "mBackoffBase s \<le> mBackoffMax s" "mBackoffMax s < 2 ^ 62"
  shows "backoffFor s n = min (mBackoffMax s) (mBackoffBase s * 2 ^ nat (n - 1))"
  using backoff_loop_closed [OF assms] by (simp add: backoffFor_def Let_def)

theorem backoff_closed_witness:
  "map (backoffFor example_manager) [0, 1, 2, 7, 8, 100] =
     map (\<lambda>s. s * second) [5, 5, 10, 320, 600, 600]"
proof -
  have m: "mBackoffBase example_manager = 5000000000" "mBackoffMax example_manager = 600000000000" by code_simp+
  show ?thesis
    by (simp add: backoff_closed [of example_manager, unfolded m] second_def min_def)
qed

section \<open>Processing the queue\<close>

fun process_all ::
  "net \<Rightarrow> 'w remote \<Rightarrow> source option \<Rightarrow> (string list \<times> time \<times> time \<times> time) list \<Rightarrow> manager \<Rightarrow> 'w \<Rightarrow>
   manager \<times> 'w" where
  "process_all E remote src [] s w = (s, w)"
| "process_all E remote src ((visit, clock) # calls) s w =
     (case processPending E remote src visit clock s w of (_, s, w) \<Rightarrow> process_all E remote src calls s w)"

text \<open>The jobs that these calls run.\<close>

fun executed ::
  "net \<Rightarrow> 'w remote \<Rightarrow> source option \<Rightarrow> (string list \<times> time \<times> time \<times> time) list \<Rightarrow> manager \<Rightarrow> 'w \<Rightarrow>
   job list" where
  "executed E remote src [] s w = []"
| "executed E remote src ((visit, clock) # calls) s w =
     (case fst (claimNext E visit (fst clock) s) of Inr (Some j) \<Rightarrow> [j] | _ \<Rightarrow> []) @
     (case processPending E remote src visit clock s w of (_, s, w) \<Rightarrow> executed E remote src calls s w)"

text \<open>One call: nothing to claim; or a claim that could not be written; or one job run and its
  outcome recorded.\<close>

lemma persist_same:
  assumes "names_fresh E" "persistJob E j s = (r, t)"
  shows "same_queue s t"
  using persistJob_effect [OF assms] by (auto simp: persist_left_def same_queue_def put_entry_def)
    (metis disk.surjective disk.update_convs(1))+

lemma finished_job_cong:
  "mBackoffBase s = mBackoffBase t \<Longrightarrow> mBackoffMax s = mBackoffMax t \<Longrightarrow>
   finished_job s outcome now later j = finished_job t outcome now later j"
  by (simp add: finished_job_def backoffFor_def Let_def split: sum.split)

lemma execute_cong:
  assumes "mRemoteURL s = mRemoteURL t" "mToken s = mToken t"
  shows "execute E remote src s j w = execute E remote src t j w"
proof -
  have m: "mutateRemoteWithID E remote s = mutateRemoteWithID E remote t"
    by (intro ext) (unfold mutateRemoteWithID_def assms, rule refl)
  then have mr: "mutateRemote E remote s = mutateRemote E remote t" by (intro ext) (simp add: mutateRemote_def)
  have rf: "remoteFileMatches E remote s = remoteFileMatches E remote t"
    by (intro ext) (unfold remoteFileMatches_def assms, rule refl)
  show ?thesis by (unfold execute_def replicateUpload_def m mr rf, rule refl)
qed

lemma set_job_same [simp]:
  "mRemoteURL (set_job i j s) = mRemoteURL s" "mToken (set_job i j s) = mToken s"
  by (simp_all add: set_job_def)

lemma process_cases:
  assumes "names_fresh E" "queue_ok c s" "processPending E remote src visit (t1, t2, t3) s w = (r, t, w')"
  obtains
    (idle) "t = s" "w' = w" "fst (claimNext E visit t1 s) = Inr None"
      "\<And>i j. i \<in> set visit \<Longrightarrow> get_job s i = Some j \<Longrightarrow> \<not> claimable s t1 j"
  | (stuck) i j e where "get_job s i = Some j" "claimable s t1 j" "fst (claimNext E visit t1 s) = Inl e"
      "w' = w" "get_job t = (get_job s)(i \<mapsto> claimed t1 j)" "mMaxAttempts t = mMaxAttempts s"
  | (ran) i j o' where "i \<in> set visit" "get_job s i = Some j" "claimable s t1 j"
      "fst (claimNext E visit t1 s) = Inr (Some (claimed t1 j))"
      "execute E remote src s (claimed t1 j) w = (o', w')"
      "get_job t = (get_job s)(i \<mapsto> finished_job s o' t2 t3 (claimed t1 j))"
      "mMaxAttempts t = mMaxAttempts s" "mRemoteURL t = mRemoteURL s" "mToken t = mToken s"
      "mBackoffBase t = mBackoffBase s" "mBackoffMax t = mBackoffMax s"
proof -
  obtain x u where x: "claimNext E visit t1 s = (x, u)" by fastforce
  show thesis
    using x
  proof (cases rule: claim_cases)
    case 1
    then show thesis using idle assms(3) x by (auto simp: processPending_def)
  next
    case (2 i j p)
    have i: "jID j = i" using queue_ok_job [OF assms(2) 2(2)] by simp
    note same = same_queue_fields [OF persist_same [OF assms(1) 2(4)]]
    show thesis
    proof (cases p)
      case (Inl e)
      then show thesis using stuck [of i j e] 2 x assms(3) same i by (auto simp: processPending_def)
    next
      case (Inr y)
      obtain o' v where o': "execute E remote src s (claimed t1 j) w = (o', v)" by fastforce
      let ?d = "finished_job s o' t2 t3 (claimed t1 j)"
      have ex: "execute E remote src u (claimed t1 j) w = (o', v)"
        using o' execute_cong [of u s E remote src] same by simp
      have d: "finished_job u o' t2 t3 (jobOf i u) = ?d"
        using same i finished_job_cong [of u s] by (simp add: jobOf_def)
      obtain q z where q: "persistJob E ?d (set_job i ?d u) = (q, z)" by fastforce
      note same' = same_queue_fields [OF persist_same [OF assms(1) q]]
      have "t = z" "w' = v"
        using assms(3) x 2(5) Inr ex d q i
        by (auto simp: processPending_def finishJob_def Let_def split: sum.splits)
      then show thesis
        using ran [of i j o'] 2 Inr x o' same same' i by simp
    qed
  qed
qed

lemma process_ok:
  assumes "names_fresh E" "cfMaxAttempts c \<le> max_int64" "queue_ok c s"
    and "processPending E remote src visit (t1, t2, t3) s w = (r, t, w')"
  shows "queue_ok c t"
proof -
  obtain x u where x: "claimNext E visit t1 s = (x, u)" by fastforce
  note u = claim_ok [OF assms(1,3) x]
  show ?thesis
  proof (cases "\<exists>j. x = Inr (Some j)")
    case True
    then obtain j where j: "x = Inr (Some j)" by blast
    obtain o' v where o': "execute E remote src u j w = (o', v)" by fastforce
    obtain q z where q: "finishJob E j o' t2 t3 u = (q, z)" by fastforce
    have "t = z" using assms(4) x j o' q by (simp add: processPending_def)
    then show ?thesis using finish_ok [OF assms(1) _ _ assms(2) q] u j by simp
  next
    case False
    then have "t = u" using assms(4) x by (auto simp: processPending_def split: sum.splits option.splits)
    then show ?thesis using u by simp
  qed
qed

section \<open>Bounded attempts\<close>

definition waiting :: "job \<Rightarrow> bool" where
  "waiting j \<longleftrightarrow> jStatus j = JobPending \<or> jStatus j = JobFailed"

definition job_left :: "manager \<Rightarrow> job \<Rightarrow> nat" where
  "job_left s j = (if waiting j then nat (mMaxAttempts s - jAttempts j) else 0)"

definition attempts_left :: "manager \<Rightarrow> nat" where
  "attempts_left s = (\<Sum>i\<in>dom (get_job s). job_left s (the (get_job s i)))"

lemma finite_jobs [simp]: "finite (dom (get_job s))"
proof -
  have "get_job s = map_of (mJobs s)" by (simp add: get_job_def fun_eq_iff)
  then show ?thesis by (simp add: finite_dom_map_of)
qed

lemma attempts_left_update:
  assumes "get_job s i = Some j" "get_job t = (get_job s)(i \<mapsto> d)" "mMaxAttempts t = mMaxAttempts s"
  shows "attempts_left t + job_left s j = attempts_left s + job_left s d"
proof -
  have "i \<in> dom (get_job s)" using assms(1) by auto
  then have *: "dom (get_job t) = insert i (dom (get_job s) - {i})" "dom (get_job s) = insert i (dom (get_job s) - {i})"
    using assms(2) by auto
  have "(\<Sum>k\<in>dom (get_job s) - {i}. job_left t (the (get_job t k))) =
      (\<Sum>k\<in>dom (get_job s) - {i}. job_left s (the (get_job s k)))"
    using assms(2,3) by (intro sum.cong) (auto simp: job_left_def)
  moreover have "attempts_left t = job_left s d + (\<Sum>k\<in>dom (get_job s) - {i}. job_left t (the (get_job t k)))"
    unfolding attempts_left_def *(1) using assms(2,3) by (subst sum.insert) (auto simp: job_left_def)
  moreover have "attempts_left s = job_left s j + (\<Sum>k\<in>dom (get_job s) - {i}. job_left s (the (get_job s k)))"
    unfolding attempts_left_def by (subst *(2), subst sum.insert) (auto simp: assms(1))
  ultimately show ?thesis by simp
qed

lemma claimable_waiting: "claimable s now j \<Longrightarrow> waiting j \<and> jAttempts j < mMaxAttempts s"
  by (auto simp: claimable_def waiting_def)

lemma waiting_simps [simp]: "\<not> waiting (claimed now j)"
  by (simp add: waiting_def job_constants claimed_def)

lemma finished_left:
  assumes "jAttempts j < mMaxAttempts s" "0 \<le> jAttempts j" "mMaxAttempts s \<le> max_int64" "waiting j"
  shows "job_left s (finished_job s o' t2 t3 (claimed t1 j)) < job_left s j"
proof -
  have "wrap64 (jAttempts j + 1) = jAttempts j + 1" by (rule wrap64_nonneg_id) (use assms in auto)
  then show ?thesis
    using assms by (auto simp: finished_job_def job_left_def waiting_def job_constants Let_def split: sum.split)
qed

lemma max_attempts_int64: "cfMaxAttempts c \<le> max_int64 \<Longrightarrow> max_attempts c \<le> max_int64"
  by (simp add: max_attempts_def max_int64_def)

lemma executed_bound:
  assumes "names_fresh E" "cfMaxAttempts c \<le> max_int64"
  shows "queue_ok c s \<Longrightarrow> length (executed E remote src calls s w) \<le> attempts_left s"
proof (induction calls arbitrary: s w)
  case (Cons call calls)
  obtain visit t1 t2 t3 where call: "call = (visit, t1, t2, t3)" by (metis prod_cases4)
  obtain r t w' where p: "processPending E remote src visit (t1, t2, t3) s w = (r, t, w')" by (metis prod_cases3)
  have ih: "length (executed E remote src calls t w') \<le> attempts_left t"
    using Cons.IH process_ok [OF assms Cons.prems p] by blast
  have m: "mMaxAttempts s = max_attempts c" using Cons.prems by (simp add: queue_ok_def)
  show ?case
    using assms(1) Cons.prems p
  proof (cases rule: process_cases)
    case idle
    then show ?thesis using ih p call by simp
  next
    case (stuck i j e)
    have "job_left s (claimed t1 j) \<le> job_left s j" by (simp add: job_left_def)
    then show ?thesis
      using ih p call stuck(3) attempts_left_update [OF stuck(1,5,6)] by simp
  next
    case (ran i j o')
    have "job_left s (finished_job s o' t2 t3 (claimed t1 j)) < job_left s j"
      using claimable_waiting [OF ran(3)] queue_ok_job [OF Cons.prems ran(2)] m max_attempts_int64 [OF assms(2)]
      by (intro finished_left) (auto simp: wf_job_def)
    then show ?thesis
      using ih p call ran(4) attempts_left_update [OF ran(2,6,7)] by simp
  qed
qed simp

text \<open>C10. Retries are bounded: however often the worker runs and whatever the replica, the clock and
  the disk do, it executes no more jobs than the attempts that the waiting jobs have left.\<close>

theorem retries_bounded:
  assumes "up E c s f" "names_fresh E" "cfMaxAttempts c \<le> max_int64"
  shows "length (executed E remote src calls s w) \<le> attempts_left s"
  by (rule executed_bound [OF assms(2,3)]) (use history_ok(1) [OF assms(2,3,1)] in blast)

theorem retries_bounded_witness:
  "length (executed example_net (\<lambda>q w. (Inl ''connection refused'', w)) None
     (replicate 100 ([job_id OperationUpload example_id], 9, 9, 9)) example_queue ()) \<le> 3"
proof -
  have "attempts_left example_queue = 3"
  proof -
    have "get_job example_queue = [job_id OperationUpload example_id \<mapsto> new_job OperationUpload example_id 7]"
      using example_jobs by (simp add: get_job_def fun_eq_iff)
    moreover have "mMaxAttempts example_queue = 3" by code_simp
    ultimately show ?thesis
      by (simp add: attempts_left_def job_left_def waiting_def new_job_def zero_job_def)
  qed
  then show ?thesis
    using retries_bounded [OF example_up example_fresh, of "\<lambda>q w. (Inl ''connection refused'', w)" None
        "replicate 100 ([job_id OperationUpload example_id], 9, 9, 9)" "()"]
    by (simp add: example_config_def max_int64_def)
qed

section \<open>Settled jobs\<close>

text \<open>A job that is neither pending nor failed is never touched by the worker.\<close>

lemma settled_stays:
  assumes "names_fresh E" "cfMaxAttempts c \<le> max_int64"
  shows "queue_ok c s \<Longrightarrow> get_job s i = Some j \<Longrightarrow> \<not> waiting j \<Longrightarrow>
    get_job (fst (process_all E remote src calls s w)) i = Some j"
proof (induction calls arbitrary: s w)
  case (Cons call calls)
  obtain visit t1 t2 t3 where call: "call = (visit, t1, t2, t3)" by (metis prod_cases4)
  obtain r t w' where p: "processPending E remote src visit (t1, t2, t3) s w = (r, t, w')" by (metis prod_cases3)
  have "get_job t i = Some j"
    using assms(1) Cons.prems(1) p
  proof (cases rule: process_cases)
    case (stuck k l e)
    then show ?thesis using Cons.prems(2,3) claimable_waiting [OF stuck(2)] by auto
  next
    case (ran k l o')
    then show ?thesis using Cons.prems(2,3) claimable_waiting [OF ran(3)] by auto
  qed (use Cons.prems in simp)
  then show ?case
    using Cons.IH [OF process_ok [OF assms Cons.prems(1) p]] Cons.prems(3) p call by simp
qed simp


text \<open>The device fails at the eleventh system call, the first one of the claim.\<close>

definition flaky_manager :: manager where
  "flaky_manager = example_manager\<lparr>script := replicate 8 None @ [Some 0]\<rparr>"

definition flaky_queue :: manager where
  "flaky_queue = example_queue\<lparr>script := [Some 0]\<rparr>"

lemma flaky_up: "up example_net example_config flaky_queue None"
proof -
  have "newManager example_net example_config 5 (empty_disk\<lparr>script := replicate 10 None @ [Some 0]\<rparr>) =
      (Inr (), flaky_manager)" by code_simp
  then have m: "up example_net example_config flaky_manager None"
    by (rule started [rotated]) (simp add: install empty_disk_def)
  have e: "enqueue example_net None OperationUpload example_id 7 flaky_manager =
      (Inr (new_job OperationUpload example_id 7), flaky_queue)" by code_simp
  have "CHR ''/'' \<notin> set example_id" by (simp add: validFileID_safe [OF example_id_valid])
  then show ?thesis by (intro enqueued [OF m _ _ e]) (simp_all add: operations_def)
qed



definition running_job :: job where
  "running_job = claimed 9 (new_job OperationUpload example_id 7)"

definition done_job :: job where
  "done_job = running_job\<lparr>jStatus := JobCompleted, jUpdatedAt := 11\<rparr>"

lemma done_up: "up example_net example_config (with_job done_job) None"
proof -
  have "claimNext example_net [job_id OperationUpload example_id] 9 example_queue =
      (Inr (Some running_job), with_job running_job)" by code_simp
  then have "up example_net example_config (with_job running_job) (Some running_job)" by (rule claims [OF example_up])
  moreover have "finishJob example_net running_job (Inr ()) 10 11 (with_job running_job) =
      (Inr (), with_job done_job)" by code_simp
  ultimately show ?thesis by (rule finished)
qed


section \<open>Draining\<close>

lemma persist_script:
  assumes "script s = []" "names_fresh E" "queue_ok c s" "wf_job c j" "persistJob E j s = (r, t)"
  shows "r = Inr () \<and> script t = []"
  using persistJob_calm [OF assms(1,2) _ assms(4)] assms(1,3,5) by (simp add: queue_ok_def)

lemma process_calm:
  assumes "names_fresh E" "cfMaxAttempts c \<le> max_int64" "queue_ok c s" "script s = []"
    and "processPending E remote src visit (t1, t2, t3) s w = (r, t, w')"
  shows "script t = [] \<and> (\<forall>e. fst (claimNext E visit t1 s) \<noteq> Inl e)"
proof -
  obtain x u where x: "claimNext E visit t1 s = (x, u)" by fastforce
  then have u: "script u = [] \<and> (\<forall>e. x \<noteq> Inl e)"
  proof (cases rule: claim_cases)
    case (2 i j p)
    have w: "wf_job c (claimed t1 j)" "jID j = i" "look s (jobPath i) \<noteq> None"
      using queue_ok_job [OF assms(3) 2(2)] wf_running by auto
    then have "queue_ok c (set_job (jID j) (claimed t1 j) s)"
      using queue_ok_set [OF assms(3) w(1)] by simp
    then show ?thesis using persist_script [OF _ assms(1) _ w(1) 2(4)] assms(4) 2(5) by simp
  qed (use assms(4) in simp)
  show ?thesis
  proof (cases "\<exists>j. x = Inr (Some j)")
    case True
    then obtain j where j: "x = Inr (Some j)" by blast
    obtain o' v where o': "execute E remote src u j w = (o', v)" by fastforce
    obtain q z where q: "finishJob E j o' t2 t3 u = (q, z)" by fastforce
    have ok: "queue_ok c u" "flight_ok c u (Some j)" using claim_ok [OF assms(1,3) x] j by auto
    then obtain cur where cur: "get_job u (jID j) = Some cur" "jAttempts cur < max_attempts c"
      by (auto simp: flight_ok_def)
    let ?d = "finished_job u o' t2 t3 cur"
    have d: "wf_job c ?d" "jID ?d = jID j" "look u (jobPath (jID j)) \<noteq> None"
      using wf_finished [of c cur u o' t2 t3] queue_ok_job [OF ok(1) cur(1)] cur(2) assms(2) by auto
    have s: "queue_ok c (set_job (jID j) ?d u)" using queue_ok_set [OF ok(1) d(1)] d(2,3) by simp
    obtain p y where p: "persistJob E ?d (set_job (jID j) ?d u) = (p, y)" by fastforce
    have "z = y" using q p cur(1) by (auto simp: finishJob_def jobOf_def split: sum.splits)
    moreover have "script y = []" using persist_script [OF _ assms(1) s d(1) p] u by simp
    moreover have "t = z" using assms(5) x j o' q by (simp add: processPending_def)
    ultimately show ?thesis using u x by simp
  next
    case False
    then have "t = u" using assms(5) x by (auto simp: processPending_def split: sum.splits option.splits)
    then show ?thesis using u x by simp
  qed
qed

definition runnable :: "manager \<Rightarrow> string set" where
  "runnable s = {i. \<exists>j. get_job s i = Some j \<and> waiting j \<and> jAttempts j < mMaxAttempts s}"

lemma finite_runnable [simp]: "finite (runnable s)"
  by (rule finite_subset [of _ "dom (get_job s)"]) (auto simp: runnable_def)

lemma runnable_claimable:
  "get_job s i = Some j \<Longrightarrow> i \<in> runnable s \<Longrightarrow> jNextAttemptAt j \<le> now \<Longrightarrow> claimable s now j"
  by (auto simp: runnable_def claimable_def waiting_def)

lemma drains:
  assumes "names_fresh E" "cfMaxAttempts c \<le> max_int64"
  shows "queue_ok c s \<Longrightarrow> script s = [] \<Longrightarrow>
    (\<And>j w. wf_job c j \<Longrightarrow> fst (execute E remote src s j w) = Inr ()) \<Longrightarrow>
    (\<And>visit t1 t2 t3. (visit, t1, t2, t3) \<in> set calls \<Longrightarrow> dom (get_job s) \<subseteq> set visit \<and>
       (\<forall>i j. get_job s i = Some j \<longrightarrow> jNextAttemptAt j \<le> t1)) \<Longrightarrow>
    card (runnable s) \<le> length calls \<Longrightarrow> i \<in> runnable s \<Longrightarrow>
    \<exists>j. get_job (fst (process_all E remote src calls s w)) i = Some j \<and> jStatus j = JobCompleted"
proof (induction calls arbitrary: s w)
  case Nil
  then show ?case by simp
next
  case (Cons call calls)
  obtain visit t1 t2 t3 where call: "call = (visit, t1, t2, t3)" by (metis prod_cases4)
  obtain r t w' where p: "processPending E remote src visit (t1, t2, t3) s w = (r, t, w')" by (metis prod_cases3)
  have v: "dom (get_job s) \<subseteq> set visit" "\<And>k j. get_job s k = Some j \<Longrightarrow> jNextAttemptAt j \<le> t1"
    using Cons.prems(4) [of visit t1 t2 t3] call by auto
  note t = process_ok [OF assms Cons.prems(1) p] process_calm [OF assms Cons.prems(1,2) p]
  from assms(1) Cons.prems(1) p show ?case
  proof (cases rule: process_cases)
    case idle
    obtain j where j: "get_job s i = Some j" using Cons.prems(6) by (auto simp: runnable_def)
    then have "claimable s t1 j" using runnable_claimable Cons.prems(6) v(2) by blast
    then show ?thesis using idle(4) j v(1) by blast
  next
    case (stuck k j e)
    then show ?thesis using t(2) by blast
  next
    case (ran k j o')
    have j: "wf_job c (claimed t1 j)" using queue_ok_job [OF Cons.prems(1) ran(2)] wf_running by blast
    then have "o' = Inr ()" using Cons.prems(3) [of "claimed t1 j" w] ran(5) by simp
    then have d: "jStatus (finished_job s o' t2 t3 (claimed t1 j)) = JobCompleted"
      "jNextAttemptAt (finished_job s o' t2 t3 (claimed t1 j)) = jNextAttemptAt j"
      by (simp_all add: finished_job_def claimed_def)
    have k: "k \<in> runnable s" using claimable_waiting [OF ran(3)] ran(2) by (auto simp: runnable_def)
    have run: "runnable t = runnable s - {k}"
      using ran(6,7) d(1) by (auto simp: runnable_def waiting_def job_constants)
    show ?thesis
    proof (cases "i = k")
      case True
      have "get_job (fst (process_all E remote src calls t w')) k = Some (finished_job s o' t2 t3 (claimed t1 j))"
        by (rule settled_stays [OF assms t(1)]) (use ran(6) d(1) in \<open>auto simp: waiting_def job_constants\<close>)
      then show ?thesis using True p call d(1) by simp
    next
      case False
      have "\<exists>j. get_job (fst (process_all E remote src calls t w')) i = Some j \<and> jStatus j = JobCompleted"
      proof (rule Cons.IH)
        show "queue_ok c t" "script t = []" "i \<in> runnable t" using t run False Cons.prems(6) by auto
        show "card (runnable t) \<le> length calls" using run k Cons.prems(5) by simp
        show "fst (execute E remote src t j w) = Inr ()" if "wf_job c j" for j w
          using Cons.prems(3) [OF that, of w] execute_cong [OF ran(8,9), of E remote src j w] by simp
        show "dom (get_job t) \<subseteq> set visit \<and> (\<forall>i j. get_job t i = Some j \<longrightarrow> jNextAttemptAt j \<le> t1)"
          if "(visit, t1, t2, t3) \<in> set calls" for visit t1 t2 t3
          using Cons.prems(4) [of visit t1 t2 t3] that ran(2,6) d(2) by auto
      qed
      then show ?thesis using p call by simp
    qed
  qed
qed


definition example_remote :: "unit remote" where
  "example_remote q w =
     (Inr \<lparr>rpStatus = (if cMethod q = ''GET'' then 404 else 201), rpText = '''', rpFile = Inl ''EOF''\<rparr>, w)"

definition example_source :: source where
  "example_source i =
     Inr (\<lparr>fID = i, fName = ''a.txt'', fContentType = ''text/plain'', fSize = 3, fChecksum = ''c'',
       fStatus = StatusAvailable, fCreatedAt = 1, fMetadata = [], fDeletedAt = None\<rparr>,
       \<lparr>bData = ''abc'', bErr = None\<rparr>)"

lemma example_executes:
  "jOperation j \<in> operations \<Longrightarrow> fst (execute example_net example_remote (Some example_source) s j w) = Inr ()"
  by (auto simp: operations_def job_constants execute_def replicateUpload_def remoteFileMatches_def
      mutateRemote_def mutateRemoteWithID_def example_source_def example_remote_def example_net_def
      streamMultipart_def Let_def)


section \<open>What a successful upload means\<close>

text \<open>An upload job succeeds only if the replica reports a file of the same identifier, size and
  checksum, or answers 2xx to one authenticated request that carries the identifier, the name,
  the metadata and every byte of the source.\<close>

lemma upload_success:
  assumes "replicateUpload E remote src s fileID w = (Inr (), w')"
  shows "\<exists>download stored content r w1. src = Some download \<and> download fileID = Inr (stored, content) \<and>
    (remoteFileMatches E remote s stored w = (Inr True, w') \<or>
     remoteFileMatches E remote s stored w = (Inr False, w1) \<and>
     remote \<lparr>cMethod = ''POST'', cURL = mRemoteURL s @ ''/api/v1/files'',
         cHeader = [(''Authorization'', ''Bearer '' @ mToken s), (''X-Xion-Replication'', ''true'')] @
           (if fID stored \<noteq> '''' then [(''X-Xion-Replication-File-Id'', fID stored)] else []) @
           (if nFormType E \<noteq> '''' then [(''Content-Type'', nFormType E)] else []),
         cForm = Some (fst (streamMultipart E stored content))\<rparr> w1 = (Inr r, w') \<and>
     200 \<le> rpStatus r \<and> rpStatus r < 300)"
proof -
  obtain download where d: "src = Some download"
    using assms by (auto simp: replicateUpload_def split: option.splits)
  obtain stored content where c: "download fileID = Inr (stored, content)"
    using assms d by (auto simp: replicateUpload_def split: sum.splits)
  obtain m w1 where m: "remoteFileMatches E remote s stored w = (m, w1)" by fastforce
  then obtain b where b: "m = Inr b" using assms d c by (cases m) (auto simp: replicateUpload_def)
  show ?thesis
  proof (cases b)
    case True
    then have "remoteFileMatches E remote s stored w = (Inr True, w')"
      using assms d c m b by (simp add: replicateUpload_def)
    then show ?thesis using d c by blast
  next
    case False
    then have "mutateRemoteWithID E remote s ''POST'' ''/api/v1/files'' (Some (fst (streamMultipart E stored content)))
        (nFormType E) (fID stored) False w1 = (Inr (), w')"
      using assms d c m b by (simp add: replicateUpload_def streamMultipart_def)
    then obtain r where "remote \<lparr>cMethod = ''POST'', cURL = mRemoteURL s @ ''/api/v1/files'',
         cHeader = [(''Authorization'', ''Bearer '' @ mToken s), (''X-Xion-Replication'', ''true'')] @
           (if fID stored \<noteq> '''' then [(''X-Xion-Replication-File-Id'', fID stored)] else []) @
           (if nFormType E \<noteq> '''' then [(''Content-Type'', nFormType E)] else []),
         cForm = Some (fst (streamMultipart E stored content))\<rparr> w1 = (Inr r, w')"
       "200 \<le> rpStatus r" "rpStatus r < 300"
      unfolding mutateRemoteWithID_def
      by (auto split: option.splits prod.splits sum.splits if_splits simp del: append.simps)
    moreover have "remoteFileMatches E remote s stored w = (Inr False, w1)" using m b False by simp
    ultimately show ?thesis using d c by blast
  qed
qed

end
