(* ===== verification/StoreRun.thy ===== *)
theory StoreRun
  imports FileService
begin

text \<open>
  Histories of a disk store: any sequence of calls of its operations, restarts included, from an
  empty data directory. Every state of such a history represents an abstract store, is ready, and
  keeps every owner within the quota.
\<close>

named_theorems config_intros

section \<open>No operation changes the configuration\<close>

lemma config_refl [config_intros]: "same_config s s"
  by (simp add: same_config_def)

lemma config_tick: "same_config s t \<Longrightarrow> same_config s (snd (tick t))"
  by (auto simp: same_config_def tick_def split: list.split)

lemma config_syscall [config_intros]: "same_config s t \<Longrightarrow> same_config s (snd (syscall f t))"
  by (auto simp: same_config_def syscall_def tick_def split: list.split option.split sum.split prod.split)

lemma config_os [config_intros]:
  assumes "same_config s t"
  shows "same_config s (snd (os_stat p t))" "same_config s (snd (os_create_excl p t))"
    and "same_config s (snd (os_create p t))" "same_config s (snd (os_open p t))"
    and "same_config s (snd (os_open_append p t))" "same_config s (snd (os_sync t))"
    and "same_config s (snd (os_close t))" "same_config s (snd (os_chmod t))"
    and "same_config s (snd (os_truncate p n t))" "same_config s (snd (os_rename p q t))"
    and "same_config s (snd (os_remove p t))" "same_config s (snd (os_mkdir p t))"
    and "same_config s (snd (os_mkdir_all p t))" "same_config s (snd (os_read_dir p t))"
    and "same_config s (snd (os_read_file p t))" "same_config s (snd (os_remove_all p t))"
    and "same_config s (snd (os_write p c t))" "same_config s (snd (os_append p b t))"
  using assms config_syscall [OF assms]
  by (auto simp: os_stat_def os_create_excl_def os_create_def os_open_def os_open_append_def os_sync_def
      os_close_def os_chmod_def os_truncate_def os_rename_def os_remove_def os_mkdir_def os_mkdir_all_def
      os_read_dir_def os_read_file_def os_remove_all_def os_write_def os_append_def tick_def same_config_def
      split: list.split option.split)

lemma config_result [config_intros]:
  "same_config s (snd m) \<Longrightarrow>
   (\<And>e t. same_config s t \<Longrightarrow> same_config s (snd (f e t))) \<Longrightarrow>
   (\<And>x t. same_config s t \<Longrightarrow> same_config s (snd (g x t))) \<Longrightarrow>
   same_config s (snd (case m of (Inl e, t) \<Rightarrow> f e t | (Inr x, t) \<Rightarrow> g x t))"
  by (auto split: prod.split sum.split)

lemma config_pair [config_intros]:
  "same_config s (snd m) \<Longrightarrow> (\<And>x t. same_config s t \<Longrightarrow> same_config s (snd (f x t))) \<Longrightarrow>
   same_config s (snd (case m of (x, t) \<Rightarrow> f x t))"
  by (auto split: prod.split)

lemma config_test [config_intros]:
  "same_config s (snd m) \<Longrightarrow>
   (\<And>t. same_config s t \<Longrightarrow> same_config s (snd (f t))) \<Longrightarrow>
   (\<And>t. same_config s t \<Longrightarrow> same_config s (snd (g t))) \<Longrightarrow>
   same_config s (snd (case m of (True, t) \<Rightarrow> f t | (False, t) \<Rightarrow> g t))"
  by (auto split: prod.split bool.split)

lemma config_branches [config_intros]:
  "(b \<Longrightarrow> same_config s (snd x)) \<Longrightarrow> (\<not> b \<Longrightarrow> same_config s (snd y)) \<Longrightarrow> same_config s (snd (if b then x else y))"
  "same_config s t \<Longrightarrow> same_config s (snd (r, t))"
  "same_config s (snd x) \<Longrightarrow> (\<And>v. same_config s (snd (w v))) \<Longrightarrow>
     same_config s (snd (case o' of None \<Rightarrow> x | Some v \<Rightarrow> w v))"
  "(\<And>e. same_config s (snd (h e))) \<Longrightarrow> (\<And>v. same_config s (snd (k v))) \<Longrightarrow>
     same_config s (snd (case r' of Inl e \<Rightarrow> h e | Inr v \<Rightarrow> k v))"
  "same_config s (snd x) \<Longrightarrow> same_config s (snd y) \<Longrightarrow>
     same_config s (snd (case c of True \<Rightarrow> x | False \<Rightarrow> y))"
  by (simp_all split: option.split sum.split bool.split)

lemma config_fields [config_intros]:
  "same_config s t \<Longrightarrow> same_config s (t\<lparr>sUsage := u\<rparr>)" "same_config s t \<Longrightarrow> same_config s (t\<lparr>sUsageValid := v\<rparr>)"
  "same_config s t \<Longrightarrow> same_config s (t\<lparr>sLoaded := l\<rparr>)" "same_config s t \<Longrightarrow> same_config s (t\<lparr>sLoadErr := e\<rparr>)"
  "same_config s t \<Longrightarrow> same_config s (moveUsage w from to n r t)"
  "same_config s t \<Longrightarrow> same_config s (releaseUsage w k n t)"
  by (simp_all add: same_config_def)

lemma config_quiet [config_intros]:
  assumes "same_config s t"
  shows "same_config s (remove_quiet p t)" "same_config s (remove_all_quiet p t)"
    and "same_config s (rename_quiet p q t)" "same_config s (snd (pathExists p t))"
    and "same_config s (snd (syncDirectory p t))" "same_config s (sync_quiet p t)"
proof -
  show "same_config s (snd (syncDirectory p t))" unfolding syncDirectory_def
    using assms by (intro config_intros)
  then show "same_config s (sync_quiet p t)" by (simp add: sync_quiet_def)
qed (use assms in \<open>simp_all add: remove_quiet_def remove_all_quiet_def rename_quiet_def pathExists_def config_intros\<close>)

lemma config_docs [config_intros]:
  assumes "same_config s t"
  shows "same_config s (snd (writeManifest p f t))" "same_config s (snd (writeUploadManifest p u t))"
    and "same_config s (snd (getUnlocked i t))" "same_config s (snd (getTrashUnlocked i t))"
    and "same_config s (snd (getUploadUnlocked i t))"
  unfolding writeManifest_def writeUploadManifest_def write_doc_def getUnlocked_def getTrashUnlocked_def
    getUploadUnlocked_def
  using assms by (intro config_intros; simp)+

lemma config_loops [config_intros]:
  assumes "same_config s t"
  shows "same_config s (snd (rebuild_files es u t))" "same_config s (snd (rebuild_trash es u t))"
    and "same_config s (snd (rebuild_uploads es u t))"
proof -
  show "same_config s (snd (rebuild_files es u t))" using assms
  proof (induction es arbitrary: u t)
    case (Cons e es)
    then show ?case by (cases e) (auto simp: Let_def intro!: config_intros)
  qed simp
  show "same_config s (snd (rebuild_trash es u t))" using assms
  proof (induction es arbitrary: u t)
    case (Cons e es)
    then show ?case by (cases e) (auto intro!: config_intros)
  qed simp
  show "same_config s (snd (rebuild_uploads es u t))" using assms
  proof (induction es arbitrary: u t)
    case (Cons e es)
    then show ?case by (cases e) (auto intro!: config_intros)
  qed simp
qed

lemma config_usage [config_intros]:
  assumes "same_config s t"
  shows "same_config s (snd (rebuildUsageLocked t))" "same_config s (snd (ensureUsageLocked t))"
    and "same_config s (snd (enforceQuotaUnlocked w n t))" "same_config s (snd (capacityUnlocked E t))"
    and "same_config s (snd (writesPausedUnlocked E t))" "same_config s (snd (quotaOf cx w t))"
    and "same_config s (snd (rebuildUsage cx t))" "same_config s (snd (capacityOf E cx t))"
proof -
  have r: "same_config s (snd (rebuildUsageLocked u))" if "same_config s u" for u
    unfolding rebuildUsageLocked_def using that by (intro config_intros)
  have e: "same_config s (snd (ensureUsageLocked u))" if "same_config s u" for u
    unfolding ensureUsageLocked_def using that by (intro config_intros r)
  show "same_config s (snd (enforceQuotaUnlocked w n t))"
    unfolding enforceQuotaUnlocked_def ownerUsageLocked_def using assms by (intro config_intros e)
  have "snd (capacityUnlocked E t) = t \<or> snd (capacityUnlocked E t) = snd (ensureUsageLocked t)"
    by (auto simp: capacityUnlocked_def Let_def split: sum.split prod.split)
  then show c: "same_config s (snd (capacityUnlocked E t))" using assms e [OF assms] by auto
  show "same_config s (snd (writesPausedUnlocked E t))"
    unfolding writesPausedUnlocked_def using assms by (intro config_intros c)
  show "same_config s (snd (quotaOf cx w t))"
    unfolding quotaOf_def ownerUsageLocked_def Let_def using assms by (intro config_intros e)
  show "same_config s (snd (rebuildUsage cx t))"
    unfolding rebuildUsage_def using assms by (intro config_intros r)
  show "same_config s (snd (capacityOf E cx t))"
    unfolding capacityOf_def using assms by (intro config_intros c)
  show "same_config s (snd (rebuildUsageLocked t))" "same_config s (snd (ensureUsageLocked t))"
    using r [OF assms] e [OF assms] .
qed

text \<open>The operations of the store.\<close>

lemma config_put: "same_config s (snd (put E cx newID now input s))"
proof -
  have "same_config s (snd (put_commit E i sz now input bd t))" if "same_config s t" for i sz bd t
    unfolding put_commit_def Let_def using that by (intro config_intros)
  then have "same_config s (snd (put_write E i now input bd t))" if "same_config s t" for i bd t
    unfolding put_write_def copy_body_def using that by (auto intro!: config_intros simp: Let_def)
  then have "same_config s (snd (put_locked E i now input bd t))" if "same_config s t" for i bd t
    unfolding put_locked_def put_exists_def using that by (auto intro!: config_intros)
  then show ?thesis by (auto simp: put_def intro!: config_intros)
qed

lemma config_delete_restore:
  "same_config s (snd (deleteFile cx i now s))" "same_config s (snd (restoreFile cx i s))"
proof -
  have m: "same_config s (snd (delete_move i now t))" if "same_config s t" for t
    unfolding delete_move_def delete_rollback_def Let_def using that by (intro config_intros)
  show "same_config s (snd (deleteFile cx i now s))"
    unfolding deleteFile_def Let_def by (auto intro!: config_intros m)
  have m: "same_config s (snd (restore_move i f t))" if "same_config s t" for f t
    unfolding restore_move_def Let_def using that by (intro config_intros)
  show "same_config s (snd (restoreFile cx i s))"
    unfolding restoreFile_def Let_def by (auto intro!: config_intros m)
qed

lemma config_sweep [config_intros]:
  assumes "same_config s t"
  shows "same_config s (snd (sweep_entries now es n t))" "same_config s (snd (sweepUploadsUnlocked now t))"
    and "same_config s (snd (purge_entries olderThan es n t))"
proof -
  have w: "same_config s (snd (sweep_entries now es n u))" if "same_config s u" for es n u
    using that
  proof (induction es arbitrary: n u)
    case (Cons e es)
    show ?case using Cons.prems by (cases e) (auto intro!: config_intros Cons.IH)
  qed simp
  then show "same_config s (snd (sweep_entries now es n t))" using assms .
  show "same_config s (snd (sweepUploadsUnlocked now t))"
    unfolding sweepUploadsUnlocked_def using assms by (intro config_intros w)
  show "same_config s (snd (purge_entries olderThan es n t))" using assms
  proof (induction es arbitrary: n t)
    case (Cons e es)
    show ?case using Cons.prems by (cases e) (auto simp: Let_def intro!: config_intros Cons.IH)
  qed simp
qed

lemma config_upload:
  "same_config s (snd (startUpload E cx newID now later input s))"
  "same_config s (snd (appendUpload E cx i offset chunkSize reader checksum now s))"
  "same_config s (snd (completeUpload E cx i newID now s))"
  "same_config s (snd (abortUpload cx i s))"
proof -
  have c: "same_config s (snd (start_create i u t))" if "same_config s t" for i u t
    unfolding start_create_def using that by (intro config_intros)
  have "same_config s (snd (start_locked E i u later input t))" if "same_config s t" for i u t
    unfolding start_locked_def using that by (auto intro!: config_intros c)
  then show "same_config s (snd (startUpload E cx newID now later input s))"
    by (auto simp: startUpload_def intro!: config_intros)
  have r: "same_config s (append_rollback i n t)" if "same_config s t" for i n t
    unfolding append_rollback_def using that by (simp add: config_intros)
  have l: "same_config s (snd (copy_limited p b n t))" if "same_config s t" for p b n t
    unfolding copy_limited_def Let_def using that by (intro config_intros)
  have "same_config s (snd (append_copy E i chunkSize bd checksum now u n m t))" if "same_config s t" for i bd u n m t
    unfolding append_copy_def Let_def using that by (intro config_intros r l)
  then have "same_config s (snd (append_locked E i offset chunkSize bd checksum now t))" if "same_config s t" for i bd t
    unfolding append_locked_def Let_def using that by (auto intro!: config_intros)
  then show "same_config s (snd (appendUpload E cx i offset chunkSize reader checksum now s))"
    by (auto simp: appendUpload_def intro!: config_intros)
  have k: "same_config s (complete_cleanup i t)" if "same_config s t" for i t
    unfolding complete_cleanup_def using that by (intro config_intros)
  have m: "same_config s (snd (complete_commit i j c now u t))" if "same_config s t" for i j c u t
    unfolding complete_commit_def Let_def using that by (intro config_intros k)
  have "same_config s (snd (complete_locked E i j now t))" if "same_config s t" for i j t
    unfolding complete_locked_def Let_def using that by (intro config_intros m)
  then show "same_config s (snd (completeUpload E cx i newID now s))"
    by (auto simp: completeUpload_def intro!: config_intros)
  show "same_config s (snd (abortUpload cx i s))"
    unfolding abortUpload_def by (auto intro!: config_intros)
qed

section \<open>What the owners hold after an operation\<close>

lemma owned_transfer:
  assumes "good a" "books a k i = Some x" "books a k' j = None" "k \<noteq> k'"
    and "books a' = (books a)(k := (books a k)(i := None), k' := (books a k')(j \<mapsto> x))"
  shows "owned a' w = owned a w"
proof -
  obtain v n where x: "x = (v, n)" by (cases x)
  show ?thesis
    using ledger.item_sum_upd [of "books a k'" j v n w] ledger.item_sum_del [of "books a k" i v n w]
      books_finite [OF assms(1)] assms
    by (cases k; cases k') (auto simp: owned_def x)
qed

lemma owned_abs_delete: "good a \<Longrightarrow> owned (abs_delete i now a) w = owned a w"
proof (cases "aFiles a i")
  case (Some x)
  obtain f b where x: "aFiles a i = Some (f, b)" using Some by (cases x) auto
  assume g: "good a"
  let ?v = "(ownerFromMetadata (fMetadata f), fSize f)"
  have "books (abs_delete i now a) = (books a)(UsageFile := (books a UsageFile)(i := None),
      UsageTrash := (books a UsageTrash)(i \<mapsto> ?v))"
    using x books_upd(3) [of "a\<lparr>aFiles := (aFiles a)(i := None)\<rparr>" i "(trashed_file now f, b)"]
    by (simp add: abs_delete_def books_upd(2) file_item_def trashed_file_def)
  then show ?thesis
    using x goodD(2) [OF g x] by (intro owned_transfer [OF g, of UsageFile i ?v UsageTrash i]) (auto simp: file_item_def)
qed (simp add: abs_delete_def)

lemma owned_abs_restore: "good a \<Longrightarrow> abs_restore i a = Inr (f', a') \<Longrightarrow> owned a' w = owned a w"
proof (cases "aTrash a i")
  case (Some x)
  obtain f b where x: "aTrash a i = Some (f, b)" using Some by (cases x) auto
  assume g: "good a" and r: "abs_restore i a = Inr (f', a')"
  let ?v = "(ownerFromMetadata (fMetadata f), fSize f)"
  have "books a' = (books a)(UsageTrash := (books a UsageTrash)(i := None),
      UsageFile := (books a UsageFile)(i \<mapsto> ?v))"
    using x r books_upd(1) [of "a\<lparr>aTrash := (aTrash a)(i := None)\<rparr>" i "(f\<lparr>fDeletedAt := None\<rparr>, b)"]
    by (auto simp: abs_restore_def Let_def books_upd(4) file_item_def)
  then show ?thesis
    using x goodD(5) [OF g x] by (intro owned_transfer [OF g, of UsageTrash i ?v UsageFile i]) (auto simp: file_item_def)
qed (simp add: abs_restore_def)

lemma owned_abs_complete:
  assumes "good a" "aFiles a j = None" "abs_complete E i j now a = Inr (f, a')"
  shows "owned a' w = owned a w"
proof (cases "a' = a")
  case False
  then obtain u b where x: "aUploads a i = Some (u, b)" and st: "uStatus u \<noteq> UploadStatusCompleted"
    using assms(3) by (auto simp: abs_complete_def split: option.splits if_splits)
  have up: "uStatus u = UploadStatusUploading"
    using goodD(4) [OF assms(1) x] st by (auto simp: upload_ok_def session_ok_def)
  let ?v = "(ownerFromMetadata (uMetadata u), uSize u)"
  let ?f = "completed_file j (sha256 E b) u"
  let ?u = "u\<lparr>uFileID := j, uStatus := UploadStatusCompleted, uUpdatedAt := now\<rparr>"
  have a': "a' = a\<lparr>aFiles := (aFiles a)(j \<mapsto> (?f, b)), aUploads := (aUploads a)(i \<mapsto> (?u, []))\<rparr>"
    using assms(3) x st by (auto simp: abs_complete_def Let_def split: if_splits)
  have "books a' = (books (a\<lparr>aFiles := (aFiles a)(j \<mapsto> (?f, b))\<rparr>))
        (UsageUpload := (books (a\<lparr>aFiles := (aFiles a)(j \<mapsto> (?f, b))\<rparr>) UsageUpload)(i := upload_item (?u, [])))"
    unfolding a' using books_upd(5) [of "a\<lparr>aFiles := (aFiles a)(j \<mapsto> (?f, b))\<rparr>" i "(?u, [])"] by simp
  then have "books a' = (books a)(UsageUpload := (books a UsageUpload)(i := None),
      UsageFile := (books a UsageFile)(j \<mapsto> ?v))"
    by (simp add: books_upd(1) upload_item_def file_item_def completed_file_def fun_upd_twist)
  then show ?thesis
    using x up assms(2) by (intro owned_transfer [OF assms(1), of UsageUpload i ?v UsageFile j])
      (auto simp: upload_item_def)
qed simp

lemma owned_abs_append: "abs_append E i offset n bd checksum now a = Inr (u, a') \<Longrightarrow> owned a' w = owned a w"
proof -
  assume r: "abs_append E i offset n bd checksum now a = Inr (u, a')"
  then obtain v b dat where x: "aUploads a i = Some (v, b)"
    and a': "a' = a\<lparr>aUploads := (aUploads a)(i \<mapsto> (extend_session (int (length dat)) now v, b @ dat))\<rparr>"
    by (auto simp: abs_append_def Let_def split: option.splits if_splits sum.splits)
  have "upload_item (extend_session (int (length dat)) now v, b @ dat) = upload_item (v, b)"
    by (simp add: upload_item_def extend_session_def)
  then have "books a' = books a" using x by (simp add: a' books_upd fun_upd_idem)
  then show ?thesis by (simp add: owned_def)
qed

section \<open>Histories\<close>

text \<open>A call of the store with the clock readings and the fresh identifier it draws. \<open>OpReopen\<close> is
  a restart: a new \<open>DiskStore\<close> on the same directory with the same options.\<close>

datatype store_op =
    OpPut string time upload_input
  | OpStart string time time multipart_start_input
  | OpAppend string int int "body option" string time
  | OpComplete string string time
  | OpAbort string
  | OpDelete string time
  | OpRestore string
  | OpPurge time
  | OpSweep time
  | OpSetTTL int
  | OpRebuild
  | OpCapacity
  | OpQuota string
  | OpGet string
  | OpOpen string
  | OpList int int
  | OpListTrash int int
  | OpCount
  | OpReady string
  | OpReopen

definition options_of :: "store \<Rightarrow> options" where
  "options_of s = \<lparr>oPauseAtPercent = sPauseAtPercent s, oOwnerQuotaBytes = sOwnerQuotaBytes s,
     oUploadTTL = sUploadTTL s\<rparr>"

fun run_op :: "env \<Rightarrow> ctx \<Rightarrow> store_op \<Rightarrow> store \<Rightarrow> store" where
  "run_op E cx (OpPut newID now input) s = snd (put E cx newID now input s)"
| "run_op E cx (OpStart newID now later input) s = snd (startUpload E cx newID now later input s)"
| "run_op E cx (OpAppend i offset chunkSize reader checksum now) s =
     snd (appendUpload E cx i offset chunkSize reader checksum now s)"
| "run_op E cx (OpComplete i newID now) s = snd (completeUpload E cx i newID now s)"
| "run_op E cx (OpAbort i) s = snd (abortUpload cx i s)"
| "run_op E cx (OpDelete i now) s = snd (deleteFile cx i now s)"
| "run_op E cx (OpRestore i) s = snd (restoreFile cx i s)"
| "run_op E cx (OpPurge olderThan) s = snd (purgeTrash cx olderThan s)"
| "run_op E cx (OpSweep now) s = snd (sweepUploads cx now s)"
| "run_op E cx (OpSetTTL ttl) s = setUploadTTL ttl s"
| "run_op E cx OpRebuild s = snd (rebuildUsage cx s)"
| "run_op E cx OpCapacity s = snd (capacityOf E cx s)"
| "run_op E cx (OpQuota owner) s = snd (quotaOf cx owner s)"
| "run_op E cx (OpGet i) s = snd (getFile cx i s)"
| "run_op E cx (OpOpen i) s = snd (openFile cx i s)"
| "run_op E cx (OpList limit offset) s = snd (listFiles cx limit offset s)"
| "run_op E cx (OpListTrash limit offset) s = snd (listTrash cx limit offset s)"
| "run_op E cx OpCount s = snd (countFiles cx s)"
| "run_op E cx (OpReady rnd) s = snd (ready cx rnd s)"
| "run_op E cx OpReopen s =
     snd (newDiskStoreWithOptions ''data'' None (options_of s) \<lparr>entries = entries s, script = []\<rparr>)"

text \<open>What the environment guarantees: a new UUID is well-formed and not in use, and sizes are
  64-bit numbers.\<close>

fun fresh_op :: "store_op \<Rightarrow> store \<Rightarrow> bool" where
  "fresh_op (OpPut newID now input) s \<longleftrightarrow> validFileID newID"
| "fresh_op (OpStart newID now later input) s \<longleftrightarrow>
     validFileID newID \<and> look s (sessionDir newID) = None \<and> mSize input \<le> max_int64"
| "fresh_op (OpAppend i offset chunkSize reader checksum now) s \<longleftrightarrow> chunkSize < max_int64"
| "fresh_op (OpComplete i newID now) s \<longleftrightarrow>
     validFileID newID \<and> look s (objectPath newID) = None \<and> look s (trashDir newID) = None"
| "fresh_op _ s \<longleftrightarrow> True"

inductive history :: "options \<Rightarrow> store \<Rightarrow> bool" for opts where
  start: "newDiskStoreWithOptions rootPath None opts \<lparr>entries = [], script = []\<rparr> = (Inr (), s) \<Longrightarrow> history opts s"
| step: "history opts s \<Longrightarrow> digest_nonempty E \<Longrightarrow> fresh_op op s \<Longrightarrow> history opts (run_op E cx op s)"

text \<open>The invariant of a history.\<close>

definition sound :: "store \<Rightarrow> bool" where
  "sound s \<longleftrightarrow> script s = [] \<and> 0 < sOwnerQuotaBytes s \<and> sPauseAtPercent s \<in> {0..100} \<and>
     (\<exists>a. represents a s \<and> (\<forall>w. owned a w \<le> sOwnerQuotaBytes s))"

lemma soundI:
  assumes "sound s" "same_config s t" "script t = []" "represents a t"
    and "\<And>w. owned a w \<le> sOwnerQuotaBytes s"
  shows "sound t"
  using assms by (auto simp: sound_def same_config_def)

lemma sound_loaded: "sound s \<Longrightarrow> sound (loaded s)"
  using ensureUsageLocked_calm unfolding sound_def by metis

lemma blocked_state:
  assumes "script s = []" "represents a s" "\<not> not_paused E s"
  obtains e t where "writesPausedUnlocked E s = (Inl e, t)" "t = s \<or> t = loaded s"
    | t where "writesPausedUnlocked E s = (Inr True, t)" "t = s \<or> t = loaded s"
proof -
  obtain r t where rt: "writesPausedUnlocked E s = (r, t)" "t = s \<or> t = loaded s"
    using writesPausedUnlocked_calm [OF assms(1,2), of E] by (cases "writesPausedUnlocked E s") auto
  moreover have "r \<noteq> Inr False" using rt(1) assms(3) by (simp add: not_paused_def)
  ultimately show thesis using that by (cases r) (auto split: if_splits)
qed

section \<open>Every operation keeps the invariant\<close>

lemma sound_put:
  assumes "sound s" "digest_nonempty E" "validFileID newID"
  shows "sound (snd (put E cx newID now input s))"
proof -
  obtain a where a: "represents a s" "script s = []" "\<And>w. owned a w \<le> sOwnerQuotaBytes s" "0 < sOwnerQuotaBytes s"
    using assms(1) by (auto simp: sound_def)
  have cfg: "same_config s (snd (put E cx newID now input s))" by (rule config_put)
  show ?thesis
  proof (cases "\<exists>bd i. cx = None \<and> iReader input = Some bd \<and> put_id newID input = Inr i")
    case False
    then have "snd (put E cx newID now input s) = s"
      by (auto simp: put_def split: option.split sum.split)
    with assms(1) show ?thesis by simp
  next
    case True
    then obtain bd i where run: "cx = None" "iReader input = Some bd" "put_id newID input = Inr i" by blast
    have i: "validFileID i" using put_id_cases [OF run(3) assms(3)] .
    show ?thesis
    proof (cases "not_paused E s")
      case True
      obtain t where t: "script t = []" "case abs_put E (sOwnerQuotaBytes s) i now input bd a of
         Inl e \<Rightarrow> put_locked E i now input bd s = (Inl e, t) \<and> represents a t
       | Inr (f, a') \<Rightarrow> put_locked E i now input bd s = (Inr f, t) \<and> represents a' t"
        using put_locked_refines [OF a(2,1) True i assms(2), of input bd now] a(4) by auto
      show ?thesis
      proof (cases "abs_put E (sOwnerQuotaBytes s) i now input bd a")
        case (Inl e)
        then show ?thesis using t run a soundI [OF assms(1) cfg, of a] by (simp add: put_run)
      next
        case (Inr x)
        obtain f a' where x: "x = (f, a')" by (cases x)
        note abs = abs_put_Inr [OF Inr [unfolded x]]
        have "good a" using a(1) by (simp add: represents_def)
        then have "owned a' w \<le> sOwnerQuotaBytes s" for w
          using abs a(3) [of w] a(4) by (auto simp: owned_put_file)
        then show ?thesis using t run Inr x soundI [OF assms(1) cfg, of a'] by (simp add: put_run)
      qed
    next
      case False
      have "snd (put_locked E i now input bd s) = s \<or> snd (put_locked E i now input bd s) = loaded s"
        by (rule blocked_state [OF a(2,1) False]) (auto simp: put_locked_def)
      then show ?thesis using run assms(1) sound_loaded by (auto simp: put_run)
    qed
  qed
qed

lemma good_drop_uploads: "good a \<Longrightarrow> good (drop_uploads D a)"
proof -
  assume g: "good a"
  have "(aUploads a |` (- D)) i = Some x \<Longrightarrow> aUploads a i = Some x" for i x
    by (auto simp: restrict_map_def split: if_splits)
  then show ?thesis using g by (auto simp: good_def drop_uploads_def)
qed

lemma sound_start:
  assumes "sound s" "validFileID newID" "look s (sessionDir newID) = None" "mSize input \<le> max_int64"
  shows "sound (snd (startUpload E cx newID now later input s))"
proof -
  obtain a where a: "represents a s" "script s = []" "\<And>w. owned a w \<le> sOwnerQuotaBytes s" "0 < sOwnerQuotaBytes s"
    using assms(1) by (auto simp: sound_def)
  have g: "good a" "on_disk a s" using a(1) by (auto simp: represents_def)
  have none: "aUploads a newID = None" using assms(3) on_disk_paths(5) [OF g(2), of newID] by auto
  have cfg: "same_config s (snd (startUpload E cx newID now later input s))" by (rule config_upload)
  let ?ok = "cx = None \<and> 0 < mSize input \<and> (mChecksum input = '''' \<or> isSHA256 (mChecksum input))"
  show ?thesis
  proof (cases ?ok)
    case False
    then have "snd (startUpload E cx newID now later input s) = s"
      by (auto simp: startUpload_def split: option.split)
    with assms(1) show ?thesis by simp
  next
    case ok: True
    then have run: "startUpload E cx newID now later input s =
        start_locked E newID (new_session E newID now input) later input s"
      by (auto simp: startUpload_def)
    show ?thesis
    proof (cases "not_paused E s")
      case True
      let ?r = "abs_start E (sOwnerQuotaBytes s) (sUploadTTL s) newID now later input a"
      let ?a = "drop_uploads (swept (sUploadTTL s) later a) a"
      obtain t where t: "start_locked E newID (new_session E newID now input) later input s = (fst ?r, t)"
        "represents (snd ?r) t" "script t = []"
        using start_locked_refines [OF a(2,1) True assms(2) _ none, of input now later] ok a(4) by auto
      have a': "owned ?a w \<le> sOwnerQuotaBytes s" for w
        using owned_drop_uploads [OF g(1), of _ w] a(3) [of w] order_trans by blast
      have ga: "good ?a" by (rule good_drop_uploads [OF g(1)])
      have "owned (snd ?r) w \<le> sOwnerQuotaBytes s" for w
      proof -
        have "aUploads ?a newID = None" using none by (simp add: drop_uploads_def restrict_map_def)
        then show ?thesis
          using a' [of w] a(4) owned_put_upload [OF ga, of newID "(new_session E newID now input, [])"]
          by (auto simp: abs_start_def Let_def split: if_splits)
      qed
      then show ?thesis using t run soundI [OF assms(1) cfg, of "snd ?r"] by simp
    next
      case False
      have "snd (start_locked E newID (new_session E newID now input) later input s) = s \<or>
          snd (start_locked E newID (new_session E newID now input) later input s) = loaded s"
        by (rule blocked_state [OF a(2,1) False]) (auto simp: start_locked_def)
      then show ?thesis using run assms(1) sound_loaded by auto
    qed
  qed
qed

lemma sound_append:
  assumes "sound s" "chunkSize < max_int64"
  shows "sound (snd (appendUpload E cx i offset chunkSize reader checksum now s))"
proof -
  obtain a where a: "represents a s" "script s = []" "\<And>w. owned a w \<le> sOwnerQuotaBytes s" "0 < sOwnerQuotaBytes s"
    using assms(1) by (auto simp: sound_def)
  have g: "good a" "on_disk a s" using a(1) by (auto simp: represents_def)
  have cfg: "same_config s (snd (appendUpload E cx i offset chunkSize reader checksum now s))"
    by (rule config_upload)
  show ?thesis
  proof (cases "\<exists>bd. cx = None \<and> validFileID i \<and> reader = Some bd \<and> 0 \<le> offset \<and> 0 < chunkSize \<and>
      (checksum = '''' \<or> isSHA256 checksum)")
    case False
    then have "snd (appendUpload E cx i offset chunkSize reader checksum now s) = s"
      by (auto simp: appendUpload_def validateUploadID_def validateID_def split: option.split)
    with assms(1) show ?thesis by simp
  next
    case True
    then obtain bd where pre: "0 < chunkSize" and run:
      "appendUpload E cx i offset chunkSize reader checksum now s = append_locked E i offset chunkSize bd checksum now s"
      by (auto simp: appendUpload_def validateUploadID_def validateID_def)
    show ?thesis
    proof (cases "not_paused E s")
      case True
      obtain t where t: "script t = []" "case abs_append E i offset chunkSize bd checksum now a of
         Inl e \<Rightarrow> append_locked E i offset chunkSize bd checksum now s = (Inl e, t) \<and> represents a t
       | Inr (u, a') \<Rightarrow> append_locked E i offset chunkSize bd checksum now s = (Inr u, t) \<and> represents a' t"
        using append_locked_refines [OF a(2,1) True pre assms(2), of i offset bd checksum now] by auto
      show ?thesis
      proof (cases "abs_append E i offset chunkSize bd checksum now a")
        case (Inl e)
        then show ?thesis using t run a soundI [OF assms(1) cfg, of a] by simp
      next
        case (Inr x)
        obtain u a' where x: "x = (u, a')" by (cases x)
        have "owned a' w = owned a w" for w by (rule owned_abs_append [OF Inr [unfolded x]])
        then show ?thesis using t run a Inr x soundI [OF assms(1) cfg, of a'] by simp
      qed
    next
      case False
      obtain g where get: "getUploadUnlocked i s = (g, s)"
        using gets_calm(2) [OF a(2), of i] by (cases "getUploadUnlocked i s") auto
      have "snd (append_locked E i offset chunkSize bd checksum now s) = s \<or>
          snd (append_locked E i offset chunkSize bd checksum now s) = loaded s"
        by (cases g; rule blocked_state [OF a(2,1) False]) (auto simp: append_locked_def get)
      then show ?thesis using run assms(1) sound_loaded by auto
    qed
  qed
qed

lemma sound_complete:
  assumes "sound s" "digest_nonempty E" "validFileID j" "look s (objectPath j) = None" "look s (trashDir j) = None"
  shows "sound (snd (completeUpload E cx i j now s))"
proof -
  obtain a where a: "represents a s" "script s = []" "\<And>w. owned a w \<le> sOwnerQuotaBytes s"
    using assms(1) by (auto simp: sound_def)
  have g: "good a" "on_disk a s" using a(1) by (auto simp: represents_def)
  have none: "aFiles a j = None" "aTrash a j = None"
    using assms(4,5) on_disk_paths [OF g(2), of j] by auto
  have cfg: "same_config s (snd (completeUpload E cx i j now s))" by (rule config_upload)
  show ?thesis
  proof (cases "cx = None \<and> validFileID i")
    case False
    then have "snd (completeUpload E cx i j now s) = s"
      by (auto simp: completeUpload_def validateUploadID_def validateID_def split: option.split)
    with assms(1) show ?thesis by simp
  next
    case True
    then have run: "completeUpload E cx i j now s = complete_locked E i j now s"
      by (simp add: completeUpload_def validateUploadID_def validateID_def)
    obtain t where t: "script t = []" "case abs_complete E i j now a of
         Inl e \<Rightarrow> complete_locked E i j now s = (Inl e, t) \<and> represents a t
       | Inr (f, a') \<Rightarrow> complete_locked E i j now s = (Inr f, t) \<and> represents a' t"
      using complete_locked_refines [OF a(2,1) assms(3,2) none, of i now] by blast
    show ?thesis
    proof (cases "abs_complete E i j now a")
      case (Inl e)
      then show ?thesis using t run a soundI [OF assms(1) cfg, of a] by simp
    next
      case (Inr x)
      obtain f a' where x: "x = (f, a')" by (cases x)
      have "owned a' w = owned a w" for w by (rule owned_abs_complete [OF g(1) none(1) Inr [unfolded x]])
      then show ?thesis using t run a Inr x soundI [OF assms(1) cfg, of a'] by simp
    qed
  qed
qed

lemma sound_abort: "sound s \<Longrightarrow> sound (snd (abortUpload cx i s))"
proof -
  assume s: "sound s"
  then obtain a where a: "represents a s" "script s = []" "\<And>w. owned a w \<le> sOwnerQuotaBytes s"
    by (auto simp: sound_def)
  have g: "good a" using a(1) by (simp add: represents_def)
  have cfg: "same_config s (snd (abortUpload cx i s))" by (rule config_upload)
  show ?thesis
  proof (cases "cx = None \<and> validFileID i")
    case False
    then have "snd (abortUpload cx i s) = s"
      by (auto simp: abortUpload_def validateUploadID_def validateID_def split: option.split)
    with s show ?thesis by simp
  next
    case True
    obtain t where t: "script t = []" "case abs_abort i a of
         Inl e \<Rightarrow> abortUpload None i s = (Inl e, t) \<and> represents a t
       | Inr a' \<Rightarrow> abortUpload None i s = (Inr (), t) \<and> represents a' t"
      using abort_refines [OF a(2,1)] True by blast
    show ?thesis
    proof (cases "abs_abort i a")
      case (Inl e)
      then show ?thesis using t True a soundI [OF s cfg, of a] by simp
    next
      case (Inr a')
      have "owned a' w \<le> owned a w" for w
        using Inr owned_del_upload [OF g, of i w] by (auto simp: abs_abort_def split: option.splits if_splits)
      then have "owned a' w \<le> sOwnerQuotaBytes s" for w using a(3) order_trans by blast
      then show ?thesis using t True Inr soundI [OF s cfg, of a'] by simp
    qed
  qed
qed

lemma sound_delete_restore:
  assumes "sound s"
  shows "sound (snd (deleteFile cx i now s))" "sound (snd (restoreFile cx i s))"
proof -
  obtain a where a: "represents a s" "script s = []" "\<And>w. owned a w \<le> sOwnerQuotaBytes s"
    using assms(1) by (auto simp: sound_def)
  have g: "good a" using a(1) by (simp add: represents_def)
  have cfg: "same_config s (snd (deleteFile cx i now s))" "same_config s (snd (restoreFile cx i s))" for now
    by (rule config_delete_restore)+
  have "snd (deleteFile cx i now s) = s \<and> snd (restoreFile cx i s) = s" if "\<not> (cx = None \<and> validFileID i)"
    using that by (auto simp: deleteFile_def restoreFile_def validateID_def split: option.split)
  moreover have "sound (snd (deleteFile cx i now s)) \<and> sound (snd (restoreFile cx i s))"
    if i: "cx = None \<and> validFileID i"
  proof
    show "sound (snd (deleteFile cx i now s))"
      using delete_calm [OF a(2,1), of i now] i soundI [OF assms cfg(1) [of now], of "abs_delete i now a"]
        owned_abs_delete [OF g, of i now] a(3) by auto
    obtain t where t: "script t = []" "case abs_restore i a of
       Inl e \<Rightarrow> restoreFile None i s = (Inl e, t) \<and> represents a t
     | Inr (f, a') \<Rightarrow> restoreFile None i s = (Inr f, t) \<and> represents a' t"
      using restore_calm [OF a(2,1)] i by blast
    show "sound (snd (restoreFile cx i s))"
    proof (cases "abs_restore i a")
      case (Inl e)
      then show ?thesis using t i a soundI [OF assms cfg(2), of a] by simp
    next
      case (Inr x)
      obtain f a' where x: "x = (f, a')" by (cases x)
      have "owned a' w = owned a w" for w by (rule owned_abs_restore [OF g Inr [unfolded x]])
      then show ?thesis using t i a Inr x soundI [OF assms cfg(2), of a'] by simp
    qed
  qed
  ultimately show "sound (snd (deleteFile cx i now s))" "sound (snd (restoreFile cx i s))"
    using assms by metis+
qed

lemma sound_purge_sweep:
  assumes "sound s"
  shows "sound (snd (purgeTrash cx olderThan s))" "sound (snd (sweepUploads cx now s))"
proof -
  obtain a where a: "represents a s" "script s = []" "\<And>w. owned a w \<le> sOwnerQuotaBytes s"
    using assms by (auto simp: sound_def)
  have g: "good a" using a(1) by (simp add: represents_def)
  obtain t where "purgeTrash None olderThan s = (Inr (int (card (purged olderThan a))), t)"
    and t: "represents (drop_trash (purged olderThan a) a) t" "script t = []" "same_config s t"
    using purgeTrash_calm [OF a(2,1)] by blast
  moreover have "owned (drop_trash D a) w \<le> sOwnerQuotaBytes s" for D w
    using owned_drop_trash [OF g, of D w] a(3) [of w] by linarith
  ultimately show "sound (snd (purgeTrash cx olderThan s))"
    using assms soundI [OF assms t(3,2,1)] by (cases cx) (auto simp: purgeTrash_def)
  obtain t where "sweepUploadsUnlocked now s = (Inr (int (card (swept (sUploadTTL s) now a))), t)"
    and t: "represents (drop_uploads (swept (sUploadTTL s) now a) a) t" "script t = []" "same_config s t"
    using sweepUploadsUnlocked_calm [OF a(2,1)] by blast
  moreover have "owned (drop_uploads D a) w \<le> sOwnerQuotaBytes s" for D w
    using owned_drop_uploads [OF g, of D w] a(3) [of w] by linarith
  ultimately show "sound (snd (sweepUploads cx now s))"
    using assms soundI [OF assms t(3,2,1)] by (cases cx) (auto simp: sweepUploads_def)
qed

lemma sound_usage:
  assumes "sound s"
  shows "sound (snd (rebuildUsage cx s))" "sound (snd (capacityOf E cx s))" "sound (snd (quotaOf cx w s))"
proof -
  obtain a where a: "represents a s" "script s = []" "\<And>w. owned a w \<le> sOwnerQuotaBytes s"
    using assms by (auto simp: sound_def)
  have p: "on_disk a s" "good a" "totals_fit a" using a(1) by (auto simp: represents_def)
  obtain u where u: "rebuildUsageLocked s = (Inr (), s\<lparr>sUsage := u, sUsageValid := True\<rparr>)"
    and b: "ledger.balanced (books a) u"
    using rebuildUsageLocked_calm [OF a(2) p] by blast
  have "represents a (s\<lparr>sUsage := u, sUsageValid := True\<rparr>)"
    using a(1) b by (simp add: represents_def accounted_def)
  then have "sound (s\<lparr>sUsage := u, sUsageValid := True\<rparr>)"
    using a by (intro soundI [OF assms]) (auto simp: same_config_def)
  then show "sound (snd (rebuildUsage cx s))" using assms u by (cases cx) (auto simp: rebuildUsage_def)
  note ens = ensureUsageLocked_calm(1) [OF a(2,1)]
  show "sound (snd (capacityOf E cx s))" "sound (snd (quotaOf cx w s))"
    using assms sound_loaded [OF assms] ens
    by (cases cx; auto simp: capacityOf_def capacityUnlocked_def quotaOf_def ownerUsageLocked_def Let_def
        split: sum.split prod.split)+
qed

lemma readers_calm:
  assumes "script s = []"
  shows "snd (getFile cx i s) = s" "snd (openFile cx i s) = s" "snd (countFiles cx s) = s"
    and "snd (listFiles cx limit offset s) = s" "snd (listTrash cx limit offset s) = s"
proof -
  have l: "snd (list_entries es s) = s" for es
  proof (induction es)
    case (Cons e es)
    obtain n d where e: "e = (n, d)" by (cases e)
    show ?case
      using Cons gets_calm(1) [OF assms, of "trim_suffix ''.json'' n"]
      by (auto simp: e Let_def split: sum.split prod.split)
  qed simp
  have t: "snd (list_trash_entries es s) = s" for es
  proof (induction es)
    case (Cons e es)
    obtain n d where e: "e = (n, d)" by (cases e)
    show ?case
      using Cons gets_calm(3) [OF assms, of n] by (auto simp: e Let_def split: sum.split prod.split)
  qed simp
  have d: "snd (os_read_dir p s) = s" "snd (os_open p s) = s" for p
    using assms by (auto simp: go_simps split: option.split inode.split)
  show "snd (getFile cx i s) = s"
    using gets_calm(1) [OF assms, of i] by (auto simp: getFile_def split: sum.split option.split)
  show "snd (openFile cx i s) = s"
    using gets_calm(1) [OF assms, of i] d(2) [of "objectPath i"]
    by (auto simp: openFile_def split: sum.split option.split prod.split)
  show "snd (countFiles cx s) = s"
    using d(1) [of "(Metadata, [])"] by (auto simp: countFiles_def split: sum.split option.split prod.split)
  show "snd (listFiles cx limit offset s) = s"
  proof (cases cx)
    case None
    then show ?thesis using d(1) [of "(Metadata, [])"] l
      by (auto simp: listFiles_def split: sum.split prod.split) (metis snd_conv)+
  qed (simp add: listFiles_def)
  show "snd (listTrash cx limit offset s) = s"
  proof (cases cx)
    case None
    then show ?thesis using d(1) [of "(Trash, [])"] t
      by (auto simp: listTrash_def split: sum.split prod.split) (metis snd_conv)+
  qed (simp add: listTrash_def)
qed

lemma sound_ready: "sound s \<Longrightarrow> ready None rnd s = (Inr (), s)"
proof -
  assume "sound s"
  then obtain a where a: "represents a s" "script s = []" by (auto simp: sound_def)
  then have d: "on_disk a s" by (simp add: represents_def)
  then have "\<forall>ar. look s (ar, []) = Some NDir" "look s (probe_path rnd) = None"
    by (simp_all add: on_disk_look probe_path_def)
  from ready_calm [OF a(2) this] represents_consistent [OF a(2,1)] show ?thesis by auto
qed

lemma sound_reopen:
  assumes "sound s"
  shows "sound (snd (newDiskStoreWithOptions ''data'' None (options_of s) \<lparr>entries = entries s, script = []\<rparr>))"
proof -
  obtain a where a: "represents a s" "script s = []" "\<And>w. owned a w \<le> sOwnerQuotaBytes s"
    using assms by (auto simp: sound_def)
  have d: "on_disk a s" "good a" "totals_fit a" using a(1) by (auto simp: represents_def)
  have opts: "valid_options (options_of s)"
    using assms a(1) by (auto simp: valid_options_def options_of_def sound_def represents_def)
  have dirs: "\<forall>ar. map_of (entries s) (ar, []) = Some NDir"
    using on_disk_dirs [OF d(1)] by (simp add: look_def)
  let ?t = "new_state (options_of s) (entries s)"
  have "trim_space ''data'' \<noteq> ''''" by code_simp
  then have run: "newDiskStoreWithOptions ''data'' None (options_of s) \<lparr>entries = entries s, script = []\<rparr> = (Inr (), ?t)"
    by (rule new_store_existing [OF _ opts dirs])
  have look: "look ?t = look s" by (simp add: look_new_state look_def fun_eq_iff)
  then have "on_disk a ?t" using d(1) by (simp add: on_disk_def quarantine_ok_def)
  then have "represents a ?t" by (rule represents_new_state [OF _ d(2,3) opts])
  moreover have "same_config s ?t" "script ?t = []"
    by (simp_all add: same_config_def new_state_def options_of_def)
  ultimately show ?thesis using run a soundI [OF assms, of ?t a] by simp
qed

lemma sound_step:
  assumes "sound s" "digest_nonempty E" "fresh_op op s"
  shows "sound (run_op E cx op s)"
proof -
  have ttl: "sound (setUploadTTL ttl s)" for ttl
    using assms(1) by (auto simp: sound_def setUploadTTL_def represents_def accounted_def on_disk_def quarantine_ok_def)
  have rdy: "snd (ready cx rnd s) = s" for rnd
    using sound_ready [OF assms(1), of rnd] by (cases cx) (auto simp: ready_def)
  have calm: "script s = []" using assms(1) by (simp add: sound_def)
  show ?thesis
    using assms ttl
    by (cases op)
      (auto simp: readers_calm [OF calm] rdy intro: sound_put sound_start sound_append sound_complete sound_abort
        sound_delete_restore sound_purge_sweep sound_usage sound_reopen)
qed

lemma history_sound: "history opts s \<Longrightarrow> oOwnerQuotaBytes opts \<noteq> 0 \<Longrightarrow> oOwnerQuotaBytes opts \<le> max_int64 \<Longrightarrow> sound s"
proof (induction rule: history.induct)
  case (start rootPath s)
  then have opts: "trim_space rootPath \<noteq> ''''" "valid_options opts"
    by (auto simp: newDiskStoreWithOptions_def valid_options_def Let_def split: if_splits)
  then have s: "s = new_state opts fresh_entries" using start(1) by (simp add: new_store_empty)
  have "owned empty_astore w \<le> sOwnerQuotaBytes s" for w
    using opts(2) by (simp add: owned_empty s new_state_def valid_options_def)
  then show ?case
    using represents_fresh [OF opts(2)] opts(2) start(2)
    by (auto simp: sound_def s valid_options_def) (auto simp: new_state_def)
next
  case (step s E op cx)
  then show ?case by (blast intro: sound_step)
qed

lemma run_op_quota:
  assumes "script s = []"
  shows "sOwnerQuotaBytes (run_op E cx op s) = sOwnerQuotaBytes s"
proof -
  have rdy: "same_config s (snd (ready cx rnd s))" for rnd
  proof -
    have w: "same_config s (snd (ready_walk t))" if t: "same_config s t" for t
    proof -
      have m: "same_config s (snd (ready_manifests es ids t))" if "same_config s t" for es ids t
        using that
      proof (induction es arbitrary: ids t)
        case (Cons e es)
        show ?case using Cons.prems by (cases e) (auto simp: Let_def intro!: config_intros Cons.IH)
      qed simp
      have u: "same_config s (snd (ready_uploads es t))" if "same_config s t" for es t
        using that
      proof (induction es arbitrary: t)
        case (Cons e es)
        show ?case using Cons.prems by (cases e) (auto intro!: config_intros Cons.IH)
      qed simp
      have r: "same_config s (snd (ready_trash es t))" if "same_config s t" for es t
        using that
      proof (induction es arbitrary: t)
        case (Cons e es)
        show ?case using Cons.prems by (cases e) (auto intro!: config_intros Cons.IH)
      qed simp
      show ?thesis unfolding ready_walk_def readyQuarantineUnlocked_def using t
        by (intro config_intros m u r)
    qed
    have "same_config s (snd (ready_probe rnd s))"
      unfolding ready_probe_def by (auto intro!: config_intros)
    then show ?thesis unfolding ready_def by (intro config_intros w)
  qed
  have "same_config s (snd (purgeTrash cx olderThan s))" "same_config s (snd (sweepUploads cx now s))" for olderThan now
    by (auto simp: purgeTrash_def sweepUploads_def intro!: config_intros)
  moreover have "same_config s (snd (rebuildUsage cx s))" "same_config s (snd (capacityOf E cx s))"
    "same_config s (snd (quotaOf cx w s))" for w by (intro config_intros)+
  moreover have "sOwnerQuotaBytes (run_op E cx OpReopen s) = sOwnerQuotaBytes s"
  proof -
    have "same_config t (snd (make_areas ars t))" for ars t
    proof -
      have "same_config u t \<Longrightarrow> same_config u (snd (make_areas ars t))" for u
        by (induction ars arbitrary: t) (auto intro!: config_intros)
      then show ?thesis by (simp add: config_refl)
    qed
    then show ?thesis
      by (auto simp: newDiskStoreWithOptions_def options_of_def os_mkdir_root_def same_config_def Let_def
          syscall_def tick_def)
  qed
  ultimately show ?thesis
    using rdy config_put config_upload config_delete_restore readers_calm [OF assms]
    by (cases op) (auto simp: same_config_def setUploadTTL_def)
qed

lemma history_quota:
  assumes "history opts s" "oOwnerQuotaBytes opts \<noteq> 0" "oOwnerQuotaBytes opts \<le> max_int64"
  shows "sOwnerQuotaBytes s = oOwnerQuotaBytes opts"
  using assms
proof (induction rule: history.induct)
  case (start rootPath s)
  then have "trim_space rootPath \<noteq> ''''" "valid_options opts"
    by (auto simp: newDiskStoreWithOptions_def valid_options_def Let_def split: if_splits)
  with start(1) show ?case by (auto simp: new_store_empty new_state_def)
next
  case (step s E op cx)
  then have "script s = []" using history_sound by (auto simp: sound_def)
  with step show ?case by (simp add: run_op_quota)
qed

section \<open>Properties\<close>


lemma example_history: "history example_options example_store"
proof (rule history.start)
  have "trim_space ''data'' \<noteq> ''''" by code_simp
  then show "newDiskStoreWithOptions ''data'' None example_options \<lparr>entries = [], script = []\<rparr> = (Inr (), example_store)"
    by (simp add: new_store_empty valid_options_def example_options_def example_store_def max_int64_def)
qed


text \<open>C12. The quota report is exact: the bytes reported as used are the bytes the owner's files,
  trash entries and unfinished uploads add up to, and the available bytes are what the limit leaves.\<close>

theorem quota_exact:
  assumes "script s = []" "represents a s"
  shows "\<exists>q t. quotaOf None owner s = (Inr q, t) \<and> represents a t \<and>
    qOwner q = normalizeOwner owner \<and> qLimitBytes q = sOwnerQuotaBytes s \<and>
    qUsedBytes q = owned a (normalizeOwner owner) \<and>
    qAvailableBytes q = max 0 (sOwnerQuotaBytes s - owned a (normalizeOwner owner))"
proof -
  note ld = ensureUsageLocked_calm [OF assms]
  have p: "good a" "totals_fit a" "ledger.balanced (books a) (sUsage (loaded s))"
    using ld by (auto simp: represents_def accounted_def)
  note used = usage_total_owned [OF p, of "normalizeOwner owner"]
  have "wrap64 (sOwnerQuotaBytes s - owned a (normalizeOwner owner)) = sOwnerQuotaBytes s - owned a (normalizeOwner owner)"
    if "owned a (normalizeOwner owner) < sOwnerQuotaBytes s"
    using that assms(2) owned_nonneg [OF p(1), of "normalizeOwner owner"]
    by (intro wrap64_nonneg_id) (auto simp: represents_def)
  then show ?thesis
    using ld used by (auto simp: quotaOf_def ownerUsageLocked_def Let_def)
qed

theorem quota_exact_witness:
  "\<exists>q t. quotaOf None '' alice '' file_store = (Inr q, t) \<and> qUsedBytes q = 5 \<and> qAvailableBytes q = 995"
proof -
  have "normalizeOwner '' alice '' = ''alice''" by code_simp
  then show ?thesis
    using quota_exact [OF file_fields(1) file_represents, of "'' alice ''"] owned_file_astore
    by (auto simp: file_store_def new_state_def example_options_def)
qed

section \<open>The disk store meets the contract of the service\<close>

text \<open>The files on a disk: manifest and object together.\<close>

definition stored_files :: "store \<Rightarrow> string \<Rightarrow> (file_info \<times> bytes) option" where
  "stored_files s i =
     (case (look s (manifestPath i), look s (objectPath i)) of
        (Some (NFile (Doc (FileDoc f))), Some (NFile (Blob b))) \<Rightarrow> Some (f, b)
      | _ \<Rightarrow> None)"

lemma stored_files_represents: "represents a s \<Longrightarrow> stored_files s = aFiles a"
  by (auto simp: fun_eq_iff stored_files_def represents_def on_disk_paths split: option.split)

definition serving :: "env \<Rightarrow> string \<Rightarrow> store \<Rightarrow> bool" where
  "serving E newID s \<longleftrightarrow> sound s \<and> digest_nonempty E \<and> validFileID newID"

lemma put_outcome:
  assumes "sound s" "digest_nonempty E" "validFileID newID" "put E None newID now input s = (r, t)"
  shows "case r of
      Inl e \<Rightarrow> stored_files t = stored_files s
    | Inr f \<Rightarrow> validFileID (fID f) \<and> stored_files s (fID f) = None \<and>
        (\<exists>bd. iReader input = Some bd \<and> bErr bd = None \<and> describes (sha256 E) input bd f \<and>
           stored_files t = (stored_files s)(fID f \<mapsto> (f, bData bd)))"
proof -
  obtain a where a: "represents a s" "script s = []" "0 < sOwnerQuotaBytes s"
    using assms(1) by (auto simp: sound_def)
  note s = stored_files_represents [OF a(1)]
  show ?thesis
  proof (cases "\<exists>bd i. iReader input = Some bd \<and> put_id newID input = Inr i")
    case False
    then show ?thesis using assms(4) by (auto simp: put_def split: option.splits sum.splits)
  next
    case True
    then obtain bd i where run: "iReader input = Some bd" "put_id newID input = Inr i" by blast
    have i: "validFileID i" using put_id_cases [OF run(2) assms(3)] .
    have d: "describes (sha256 E) input bd (stored_file E i (int (length (bData bd))) now input bd)"
      using run(2) by (auto simp: describes_def stored_file_def put_id_def Let_def split: if_splits sum.splits)
    note r = assms(4) [unfolded put_run [OF run]]
    show ?thesis
    proof (cases "not_paused E s")
      case True
      obtain t' where t: "case abs_put E (sOwnerQuotaBytes s) i now input bd a of
         Inl e \<Rightarrow> put_locked E i now input bd s = (Inl e, t') \<and> represents a t'
       | Inr (f, a') \<Rightarrow> put_locked E i now input bd s = (Inr f, t') \<and> represents a' t'"
        using put_locked_refines [OF a(2,1) True i assms(2), of input bd now] a(3) by auto
      show ?thesis
        using t r i s run(1) d abs_put_Inr [of E "sOwnerQuotaBytes s" i now input bd a]
        by (cases "abs_put E (sOwnerQuotaBytes s) i now input bd a")
          (auto simp: stored_files_represents split: sum.split)
    next
      case False
      obtain e t' where "put_locked E i now input bd s = (Inl e, t')" "t' = s \<or> t' = loaded s"
        by (rule blocked_state [OF a(2,1) False]) (auto simp: put_locked_def)
      moreover have "stored_files (loaded s) = stored_files s"
        using ensureUsageLocked_calm(4) [OF a(2,1)] by (intro ext) (simp add: stored_files_def)
      ultimately show ?thesis using r by auto
    qed
  qed
qed

interpretation disk_service: object_store "disk_ops E newID now later rnd" "sha256 E" stored_files "serving E newID"
  for E newID now later rnd
proof unfold_locales
  fix s i assume s: "serving E newID s" and i: "validFileID i"
  then obtain a where a: "represents a s" "script s = []" by (auto simp: serving_def sound_def)
  have d: "on_disk a s" "good a" using a(1) by (auto simp: represents_def)
  show "opOpen (disk_ops E newID now later rnd) None i s =
      (case stored_files s i of None \<Rightarrow> (Inl ErrNotFound, s) | Some x \<Rightarrow> (Inr x, s))"
    using represents_openFile [OF a(2,1)] i by (simp add: disk_ops_def stored_files_represents [OF a(1)])
  show "opGet (disk_ops E newID now later rnd) None i s =
      (case stored_files s i of None \<Rightarrow> (Inl ErrNotFound, s) | Some x \<Rightarrow> (Inr (fst x), s))"
    using getFile_calm [OF a(2) d] i by (simp add: disk_ops_def stored_files_represents [OF a(1)])
  obtain t where t: "deleteFile None i now s = (Inr (), t)" "script t = []" "represents (abs_delete i now a) t"
    using delete_calm [OF a(2,1) i] by blast
  have "sound t" using sound_delete_restore(1) [of s None i now] s t(1) by (simp add: serving_def)
  moreover have "aFiles (abs_delete i now a) = (aFiles a)(i := None)"
    by (auto simp: abs_delete_def split: option.split)
  ultimately show "\<exists>t. opDelete (disk_ops E newID now later rnd) None i s = (Inr (), t) \<and> serving E newID t \<and>
      stored_files t = (stored_files s)(i := None)"
    using t s by (auto simp: disk_ops_def serving_def stored_files_represents [OF a(1)]
        stored_files_represents [OF t(3)])
next
  fix s input f t assume s: "serving E newID s" and p: "opPut (disk_ops E newID now later rnd) None input s = (Inr f, t)"
  show "serving E newID t \<and> validFileID (fID f) \<and> stored_files s (fID f) = None \<and>
      (\<exists>bd. iReader input = Some bd \<and> bErr bd = None \<and> describes (sha256 E) input bd f \<and>
         stored_files t = (stored_files s)(fID f \<mapsto> (f, bData bd)))"
    using s p put_outcome [of s E newID now input "Inr f" t] sound_put [of s E newID None now input]
    by (auto simp: disk_ops_def serving_def)
next
  fix s input e t assume s: "serving E newID s" and p: "opPut (disk_ops E newID now later rnd) None input s = (Inl e, t)"
  show "serving E newID t \<and> stored_files t = stored_files s"
    using s p put_outcome [of s E newID now input "Inl e" t] sound_put [of s E newID None now input]
    by (auto simp: disk_ops_def serving_def)
next
  fix s assume "serving E newID s"
  then show "opReady (disk_ops E newID now later rnd) None s = (Inr (), s)"
    by (simp add: disk_ops_def serving_def sound_ready)
qed

text \<open>C13. The service keeps what it accepts: on a store of any history, after Upload succeeds Download
  and Status return that file with the bytes sent; after Delete it is gone while every other file
  downloads as before, and the service stays ready.\<close>

theorem service_keeps_files:
  assumes "history opts s" "0 < oOwnerQuotaBytes opts" "oOwnerQuotaBytes opts \<le> max_int64"
    and "digest_nonempty E" "validFileID newID"
    and "svcUpload (disk_ops E newID now later rnd) None input s = (Inr f, t)"
  shows "(\<exists>bd. iReader input = Some bd \<and>
      svcDownload (disk_ops E newID now later rnd) None (fID f) t = (Inr (f, bData bd), t)) \<and>
    svcStatus (disk_ops E newID now later rnd) None (fID f) t = (Inr f, t) \<and>
    (\<exists>u. svcDelete (disk_ops E newID now later rnd) None (fID f) t = (Inr (), u) \<and>
      svcDownload (disk_ops E newID now later rnd) None (fID f) u = (Inl ErrNotFound, u) \<and>
      (\<forall>j. validFileID j \<and> j \<noteq> fID f \<longrightarrow>
        fst (svcDownload (disk_ops E newID now later rnd) None j u) =
        fst (svcDownload (disk_ops E newID now later rnd) None j s)) \<and>
      svcReady (disk_ops E newID now later rnd) None u = (Inr (), u))"
proof -
  have s: "serving E newID s"
    using history_sound [OF assms(1)] assms(2-5) by (simp add: serving_def)
  have t: "serving E newID t" "validFileID (fID f)"
    using disk_service.put_law [OF s] assms(6) by (auto simp: svcUpload_def)
  have "\<forall>j. validFileID j \<and> j \<noteq> fID f \<longrightarrow>
      fst (svcDownload (disk_ops E newID now later rnd) None j t) = fst (svcDownload (disk_ops E newID now later rnd) None j s)"
    using disk_service.others_unchanged [OF s assms(6)] by auto
  then show ?thesis
    using disk_service.download_after_upload [OF s assms(6)] disk_service.deleted_is_gone [OF t] by fastforce
qed

theorem service_keeps_files_witness:
  "\<exists>f t u. svcUpload (disk_ops example_env example_id 7 7 ''1'') None example_input example_store = (Inr f, t) \<and>
     svcStatus (disk_ops example_env example_id 7 7 ''1'') None (fID f) t = (Inr f, t) \<and>
     svcDelete (disk_ops example_env example_id 7 7 ''1'') None (fID f) t = (Inr (), u) \<and>
     svcDownload (disk_ops example_env example_id 7 7 ''1'') None (fID f) u = (Inl ErrNotFound, u)"
proof -
  obtain f t where p: "put example_env None example_id 7 example_input example_store = (Inr f, t)"
    using example_put by blast
  then have u: "svcUpload (disk_ops example_env example_id 7 7 ''1'') None example_input example_store = (Inr f, t)"
    by (simp add: svcUpload_def disk_ops_def)
  show ?thesis
    using service_keeps_files [OF example_history _ _ example_digest example_id_valid u] u
    by (auto simp: example_options_def max_int64_def)
qed

end
