(* ===== verification/Replica.thy ===== *)
theory Replica
  imports GatewayLaws
begin

text \<open>
  Replication end to end: the manager of one node against the gateway and disk store of another.
  The locale \<open>replica\<close> is what the manager needs of the other side; a gateway on a disk store
  behind a network that loses requests and replies provides it.
\<close>

section \<open>What the manager sends\<close>

definition manager_header :: "string \<Rightarrow> header" where
  "manager_header token = [(''Authorization'', ''Bearer '' @ token), (''X-Xion-Replication'', ''true'')]"

definition status_request :: "string \<Rightarrow> string \<Rightarrow> string \<Rightarrow> client_request" where
  "status_request url token i =
     \<lparr>cMethod = ''GET'', cURL = url @ ''/api/v1/files/'' @ path_escape i @ ''/status'',
      cHeader = manager_header token, cForm = None\<rparr>"

definition upload_request :: "net \<Rightarrow> string \<Rightarrow> string \<Rightarrow> file_info \<Rightarrow> body \<Rightarrow> client_request" where
  "upload_request E url token f content =
     \<lparr>cMethod = ''POST'', cURL = url @ ''/api/v1/files'',
      cHeader = manager_header token @
        (if fID f \<noteq> '''' then [(''X-Xion-Replication-File-Id'', fID f)] else []) @
        (if nFormType E \<noteq> '''' then [(''Content-Type'', nFormType E)] else []),
      cForm = Some (fst (streamMultipart E f content))\<rparr>"

text \<open>The record of a copy of a file: its identifier, name, and the size and checksum of the bytes.\<close>

definition copy_of :: "(bytes \<Rightarrow> string) \<Rightarrow> file_info \<Rightarrow> bytes \<Rightarrow> file_info \<Rightarrow> bool" where
  "copy_of digest f b h \<longleftrightarrow>
     fID h = fID f \<and> fName h = cleanDisplayName (fName f) \<and> fSize h = int (length b) \<and> fChecksum h = digest b"

locale replica =
  fixes E :: net
    and url :: string
    and token :: string
    and remote :: "'w remote"
    and digest :: "bytes \<Rightarrow> string"
    and ok :: "'w \<Rightarrow> bool"
    and holds :: "'w \<Rightarrow> string \<Rightarrow> (file_info \<times> bytes) option"
  assumes status_law: "ok w \<Longrightarrow> validFileID i \<Longrightarrow> remote (status_request url token i) w = (x, w') \<Longrightarrow>
      ok w' \<and> holds w' = holds w \<and>
      (\<forall>r. x = Inr r \<longrightarrow> (case holds w i of
          None \<Rightarrow> rpStatus r = 404
        | Some (f, b) \<Rightarrow> rpStatus r = 200 \<and> rpFile r = Inr f))"
    and upload_law: "ok w \<Longrightarrow> validFileID (fID f) \<Longrightarrow>
      remote (upload_request E url token f content) w = (x, w') \<Longrightarrow>
      ok w' \<and>
      (holds w' = holds w \<and> (\<forall>r. x = Inr r \<longrightarrow> \<not> (200 \<le> rpStatus r \<and> rpStatus r < 300)) \<or>
       holds w (fID f) = None \<and> bErr content = None \<and>
       (\<exists>h. copy_of digest f (bData content) h \<and> holds w' = (holds w)(fID f \<mapsto> (h, bData content))))"
begin

lemma matches:
  assumes "ok w" "validFileID (fID f)" "mRemoteURL s = url" "mToken s = token"
    and "remoteFileMatches E remote s f w = (x, w')"
  shows "ok w' \<and> holds w' = holds w \<and>
    (x = Inr True \<longrightarrow> (\<exists>h b. holds w (fID f) = Some (h, b) \<and> fID h = fID f \<and> fSize h = fSize f \<and>
       equal_fold (fChecksum h) (fChecksum f))) \<and>
    (x = Inr False \<longrightarrow> holds w (fID f) = None)"
proof -
  let ?u = "mRemoteURL s @ ''/api/v1/files/'' @ path_escape (fID f) @ ''/status''"
  obtain y v where y: "remote (status_request url token (fID f)) w = (y, v)" by fastforce
  have q: "\<lparr>cMethod = ''GET'', cURL = ?u,
      cHeader = [(''Authorization'', ''Bearer '' @ mToken s), (''X-Xion-Replication'', ''true'')],
      cForm = None\<rparr> = status_request url token (fID f)"
    using assms(3,4) by (simp add: status_request_def manager_header_def)
  show ?thesis
  proof (cases "nRequestErr E ''GET'' ?u")
    case (Some e)
    then show ?thesis using assms(1,5) unfolding remoteFileMatches_def Let_def q by auto
  next
    case None
    have v: "ok v \<and> holds v = holds w \<and>
      (\<forall>r. y = Inr r \<longrightarrow> (case holds w (fID f) of
          None \<Rightarrow> rpStatus r = 404
        | Some (f, b) \<Rightarrow> rpStatus r = 200 \<and> rpFile r = Inr f))"
      using status_law [OF assms(1,2) y] .
    show ?thesis
      using v assms(5) None unfolding remoteFileMatches_def Let_def q y
      by (cases y; cases "holds w (fID f)") (auto split: if_splits sum.splits)
  qed
qed

lemma upload_job:
  assumes "ok w" "validFileID (fID f)" "mRemoteURL s = url" "mToken s = token"
    and "replicateUpload E remote (Some (\<lambda>k. Inr (f, content))) s i w = (x, w')"
  shows "ok w' \<and>
    (holds w' = holds w \<and> (x = Inr () \<longrightarrow> (\<exists>h b. holds w (fID f) = Some (h, b) \<and> fID h = fID f \<and>
        fSize h = fSize f \<and> equal_fold (fChecksum h) (fChecksum f))) \<or>
     holds w (fID f) = None \<and> bErr content = None \<and>
     (\<exists>h. copy_of digest f (bData content) h \<and> holds w' = (holds w)(fID f \<mapsto> (h, bData content))))"
proof -
  obtain y v where y: "remoteFileMatches E remote s f w = (y, v)" by fastforce
  note m = matches [OF assms(1-4) y]
  show ?thesis
  proof (cases "y = Inr False")
    case False
    then have "w' = v \<and> (x = Inr () \<longrightarrow> y = Inr True)"
      using assms(5) y by (cases y) (auto simp: replicateUpload_def)
    then show ?thesis using m by auto
  next
    case True
    let ?p = "mRemoteURL s @ ''/api/v1/files''"
    have q: "\<lparr>cMethod = ''POST'', cURL = ?p,
        cHeader = [(''Authorization'', ''Bearer '' @ mToken s), (''X-Xion-Replication'', ''true'')] @
          (if fID f \<noteq> '''' then [(''X-Xion-Replication-File-Id'', fID f)] else []) @
          (if nFormType E \<noteq> '''' then [(''Content-Type'', nFormType E)] else []),
        cForm = Some (fst (streamMultipart E f content))\<rparr> = upload_request E url token f content"
      using assms(3,4) by (simp add: upload_request_def manager_header_def)
    have run: "mutateRemoteWithID E remote s ''POST'' ''/api/v1/files'' (Some (fst (streamMultipart E f content)))
        (nFormType E) (fID f) False v = (x, w')"
      using assms(5) y True by (simp add: replicateUpload_def streamMultipart_def)
    obtain z u where z: "remote (upload_request E url token f content) v = (z, u)" by fastforce
    show ?thesis
    proof (cases "nRequestErr E ''POST'' ?p")
      case (Some e)
      then have "w' = v \<and> x \<noteq> Inr ()" using run by (auto simp: mutateRemoteWithID_def)
      then show ?thesis using m by auto
    next
      case None
      then have "w' = u \<and> (x = Inr () \<longrightarrow> (\<exists>r. z = Inr r \<and> 200 \<le> rpStatus r \<and> rpStatus r < 300))"
        using run unfolding mutateRemoteWithID_def q z by (cases z) (auto split: if_splits)
      then show ?thesis using m upload_law [OF _ assms(2) z] by metis
    qed
  qed
qed

end

section \<open>A gateway behind a network\<close>

text \<open>The bytes of a form are those of its parts and a fixed overhead; a form that does not fit the
  server's limit breaks off.\<close>

definition form_size :: "form \<Rightarrow> int" where
  "form_size fm = sum_list (map (\<lambda>p. int (length (bData (pData p)))) (fst fm))"

definition received :: "string \<Rightarrow> int \<Rightarrow> client_request \<Rightarrow> http_request" where
  "received url overhead c =
     \<lparr>hHeader = cHeader c, hQuery = [], hVars = [], hCtx = None, hLength = -1,
      hBody = \<lparr>bData = [], bErr = None\<rparr>,
      hForm = (\<lambda>n. case cForm c of None \<Rightarrow> None
        | Some fm \<Rightarrow> Some (if form_size fm + overhead \<le> n then fm else ([], Some MaxBytesError))),
      hStart = (\<lambda>n. None), hPurge = (\<lambda>n. None)\<rparr>"

definition reply_of :: "response \<Rightarrow> reply" where
  "reply_of r =
     \<lparr>rpStatus = rStatus r, rpText = '''',
      rpFile = (case rBody r of FileJSON f \<Rightarrow> Inr f | _ \<Rightarrow> Inl ''no file record'')\<rparr>"

definition deliver :: "mux \<Rightarrow> time \<Rightarrow> web \<Rightarrow> ('s, 'm) gateway \<Rightarrow> string \<Rightarrow> int \<Rightarrow> ('s \<times> 'm) remote" where
  "deliver mux now W g url overhead c st =
     (case newRouter mux now W g (cMethod c) (trim_prefix url (cURL c)) (received url overhead c) st of
        (r, st') \<Rightarrow> (Inr (reply_of r), st'))"

text \<open>A network that may lose a request before it arrives or the reply on its way back.\<close>

datatype net_fault = Delivered | RequestLost | ReplyLost

fun flaky :: "'w remote \<Rightarrow> (net_fault list \<times> 'w) remote" where
  "flaky R c (RequestLost # fs, w) = (Inl ''connection refused'', (fs, w))"
| "flaky R c (ReplyLost # fs, w) = (Inl ''connection reset'', (fs, snd (R c w)))"
| "flaky R c (fs, w) = (case R c w of (x, w') \<Rightarrow> (x, (tl fs, w')))"

text \<open>What gorilla/mux does with the two requests of an upload job.\<close>

definition mux_finds :: "mux \<Rightarrow> bool" where
  "mux_finds mux \<longleftrightarrow>
     mux (map (\<lambda>(m, t, a, e). (m, t)) routes) ''POST'' ''/api/v1/files'' = Inr (4, []) \<and>
     (\<forall>i. validFileID i \<longrightarrow>
        mux (map (\<lambda>(m, t, a, e). (m, t)) routes) ''GET'' (''/api/v1/files/'' @ i @ ''/status'') =
          Inr (9, [(''id'', i)]))"

lemma upload_loop_status:
  "rStatus (fst (upload_loop W g q rid ps e md created (s, m))) = 201 \<or>
   400 \<le> rStatus (fst (upload_loop W g q rid ps e md created (s, m)))"
proof (induction ps arbitrary: md created s)
  case Nil
  show ?case
    by (cases created; cases e) (auto simp: too_large_def bad_form_def error_status split: err.split)
next
  case (Cons p ps)
  have h: "400 \<le> rStatus (handleServiceError W x)" for x
    by (cases x; simp add: handleServiceError_def error_status)
  show ?case
  proof (cases "pName p = ''file'' \<and> created = None \<and> pFileName p \<noteq> ''''")
    case True
    obtain x u where x: "fsUpload (gwService g) (hCtx q) (part_input g rid md p) s = (x, u)" by fastforce
    show ?thesis
    proof (cases x)
      case (Inl er)
      then show ?thesis using True x h by (cases er) (auto simp: too_large_def error_status)
    next
      case (Inr f)
      then show ?thesis using True x Cons.IH by (auto simp: bad_form_def error_status)
    qed
  next
    case False
    then show ?thesis using Cons.IH by (auto simp: bad_form_def error_status split: option.split)
  qed
qed

lemma upload_status: "rStatus (fst (upload W g q st)) = 201 \<or> 400 \<le> rStatus (fst (upload W g q st))"
proof (cases "hForm q (wrap64 (gwMaxUploadBytes g + 1048576))")
  case None
  then show ?thesis by (auto simp: upload_def Let_def bad_form_def error_status)
next
  case (Some f)
  obtain ps e s m where p: "f = (ps, e)" "st = (s, m)" by fastforce
  let ?rid = "trim_space (header_get (hHeader q) ''X-Xion-Replication-File-Id'')"
  show ?thesis
    using upload_loop_status [of W g q ?rid ps e "[]" None s m] Some p
    by (auto simp: upload_def Let_def error_status)
qed

section \<open>The laws of a replica\<close>

lemma trim_space_valid:
  assumes "validFileID i"
  shows "trim_space i = i"
proof -
  have "list_all (\<lambda>p. p \<noteq> [] \<and> \<not> is_lower_hex (hd p) \<and> hd p \<noteq> CHR ''-'' \<and>
      \<not> is_lower_hex (last p) \<and> last p \<noteq> CHR ''-'') space_seqs"
    by code_simp
  then have p: "p \<noteq> [] \<and> hd p \<notin> set i \<and> last p \<notin> set i" if "p \<in> set space_seqs" for p
    using validFileID_chars [OF assms] that unfolding list_all_iff by blast
  show ?thesis
  proof (rule trim_space_id)
    fix p assume "p \<in> set space_seqs"
    then show "\<not> prefix p i" "\<not> suffix p i"
      using p [of p] hd_in_set [of p] last_in_set [of p] set_mono_prefix [of p i] set_mono_suffix [of p i]
      by blast+
  qed
qed

lemma manager_authorized:
  "gwToken g = token \<Longrightarrow> hHeader q = manager_header token @ h \<Longrightarrow> authorized g q"
  by (simp add: authorized_def manager_header_def header_get_def trim_prefix_def)

lemma status_route:
  assumes "mux_finds mux" "validFileID i" "gwToken g = token"
  shows "deliver mux now W g url overhead (status_request url token i) st =
    (case statusFile W g ((received url overhead (status_request url token i))\<lparr>hVars := [(''id'', i)]\<rparr>) st of
       (r, st') \<Rightarrow> (Inr (reply_of r), st'))"
proof -
  have m: "mux (map (\<lambda>(m, t, a, e). (m, t)) routes) ''GET'' (''/api/v1/files/'' @ i @ ''/status'') =
      Inr (9, [(''id'', i)])"
    using assms(1,2) by (simp add: mux_finds_def)
  have "authorized g (received url overhead (status_request url token i))"
    by (rule manager_authorized [OF assms(3), of _ "[]"]) (simp add: received_def status_request_def)
  then show ?thesis
    using m path_escape_valid [OF assms(2)]
    by (simp add: deliver_def newRouter_def status_request_def routes_def authenticate_def)
qed

lemma upload_route:
  assumes "mux_finds mux" "gwToken g = token"
  shows "deliver mux now W g url overhead (upload_request E url token f content) st =
    (case upload W g ((received url overhead (upload_request E url token f content))\<lparr>hVars := []\<rparr>) st of
       (r, st') \<Rightarrow> (Inr (reply_of r), st'))"
proof -
  have m: "mux (map (\<lambda>(m, t, a, e). (m, t)) routes) ''POST'' ''/api/v1/files'' = Inr (4, [])"
    using assms(1) by (simp add: mux_finds_def)
  have "authorized g (received url overhead (upload_request E url token f content))"
    by (rule manager_authorized [OF assms(2)]) (simp add: received_def upload_request_def)
  then show ?thesis
    using m by (simp add: deliver_def newRouter_def upload_request_def routes_def authenticate_def)
qed

lemma limited_whole:
  "bErr (limited n b) = None \<Longrightarrow> bErr b = None \<and> bData (limited n b) = bData b"
  by (auto simp: limited_def split: if_splits)

lemma replicated_no_enqueue: "replicated q \<Longrightarrow> gwEnqueueUpload g q i m = m"
  by (simp add: gwEnqueueUpload_def gwEnqueue_def split: option.split)

lemma upload_request_header:
  fixes E :: net
  assumes "validFileID (fID f)"
    and "q = (received url overhead (upload_request E url token f content))\<lparr>hVars := []\<rparr>"
  shows "hCtx q = None" "replicated q"
    "trim_space (header_get (hHeader q) ''X-Xion-Replication-File-Id'') = fID f"
  using validFileID_safe(3) [OF assms(1)] trim_space_valid [OF assms(1)]
  by (simp_all add: assms(2) received_def upload_request_def manager_header_def replicated_def header_get_def)

context object_store
begin

lemma deliver_status_law:
  fixes g :: "('s, 'm) gateway"
  assumes "mux_finds mux" "validFileID i" "gwToken g = token" "gwService g = service_of ops" "ok s"
  shows "\<exists>r. deliver mux now W g url overhead (status_request url token i) (s, m) = (Inr r, (s, m)) \<and>
    (case holds s i of None \<Rightarrow> rpStatus r = 404 | Some (f, b) \<Rightarrow> rpStatus r = 200 \<and> rpFile r = Inr f)"
proof -
  let ?q = "(received url overhead (status_request url token i))\<lparr>hVars := [(''id'', i)]\<rparr>"
  have q: "hCtx ?q = None" "route_id ?q = i" by (simp_all add: received_def route_id_def header_get_def)
  show ?thesis
    using get_law [OF assms(5,2)] assms(4) q
    by (cases "holds s i")
      (auto simp: status_route [OF assms(1-3)] statusFile_def service_fields handleServiceError_def
        error_status reply_of_def writeJSON_def)
qed

lemma deliver_upload_law:
  fixes g :: "('s, 'm) gateway"
  assumes "mux_finds mux" "validFileID (fID f)" "gwToken g = token" "gwService g = service_of ops" "ok s"
    and "deliver mux now W g url overhead (upload_request E url token f content) (s, m) = (x, (t, m'))"
  shows "ok t \<and> m' = m \<and>
      (holds t = holds s \<and> (\<forall>r. x = Inr r \<longrightarrow> \<not> (200 \<le> rpStatus r \<and> rpStatus r < 300)) \<or>
       holds s (fID f) = None \<and> bErr content = None \<and>
       (\<exists>h. copy_of digest f (bData content) h \<and> holds t = (holds s)(fID f \<mapsto> (h, bData content))))"
proof -
  let ?q = "(received url overhead (upload_request E url token f content))\<lparr>hVars := []\<rparr>"
  note q = upload_request_header [OF assms(2) refl, of url overhead E token content]
  obtain r where r: "upload W g ?q (s, m) = (r, (t, m'))" "x = Inr (reply_of r)"
    using assms(6) upload_route [OF assms(1,3), of now W url overhead E f content "(s, m)"]
    by (auto split: prod.splits)
  let ?ps = "case hForm ?q (wrap64 (gwMaxUploadBytes g + 1048576)) of None \<Rightarrow> [] | Some (ps, e) \<Rightarrow> ps"
  have ps: "pData p = content \<and> pFileName p = fName f" if "p \<in> set ?ps" "pName p = ''file''" for p
    using that by (auto simp: received_def upload_request_def streamMultipart_def split: if_splits)
  have a: "ok t" "upload_answer holds digest g ?q (fID f) ?ps s m r t m'"
    using upload_all_or_nothing [OF assms(4) q(1) assms(5) r(1)] q(3) by simp_all
  show ?thesis
  proof (cases "rStatus r = 201")
    case True
    then obtain h p md where h: "p \<in> set ?ps" "pName p = ''file''" "validFileID (fID h)"
        "bErr (limited (gwMaxUploadBytes g) (pData p)) = None"
        "describes digest (part_input g (fID f) md p) (limited (gwMaxUploadBytes g) (pData p)) h"
        "holds s (fID h) = None" "m' = gwEnqueueUpload g ?q (fID h) m"
        "holds t = (holds s)(fID h \<mapsto> (h, bData (limited (gwMaxUploadBytes g) (pData p))))"
      using a(2) unfolding upload_answer_def if_P [OF True] by blast
    have p: "pData p = content" "pFileName p = fName f" using ps [OF h(1,2)] by auto
    have l: "bErr content = None" "bData (limited (gwMaxUploadBytes g) content) = bData content"
      using limited_whole h(4) p by auto
    have "fID h = fID f" "copy_of digest f (bData content) h"
      using h(5) p l validFileID_safe(3) [OF assms(2)] trim_space_valid [OF assms(2)]
      by (auto simp: describes_def part_input_def copy_of_def)
    then show ?thesis using a(1) h(6-8) p l replicated_no_enqueue [OF q(2)] by metis
  next
    case False
    then have "400 \<le> rStatus r" using upload_status [of W g ?q "(s, m)"] r(1) by simp
    then show ?thesis using False a r(2) by (auto simp: upload_answer_def reply_of_def)
  qed
qed

end

section \<open>The gateway of the program as a replica\<close>

definition node_gateway :: "env \<Rightarrow> string \<Rightarrow> time \<Rightarrow> time \<Rightarrow> string \<Rightarrow> string \<Rightarrow> int \<Rightarrow> (store, manager) gateway" where
  "node_gateway E newID now later rnd token limit =
     \<lparr>gwService = service_of (disk_ops E newID now later rnd), gwToken = token, gwMaxUploadBytes = limit,
      gwReplicator = None\<rparr>"

lemma flaky_step:
  assumes "flaky R c (fs, w) = (x, (fs', w'))"
  shows "(w' = w \<and> (\<exists>e. x = Inl e)) \<or> (w' = snd (R c w) \<and> (x = fst (R c w) \<or> (\<exists>e. x = Inl e)))"
proof (cases fs)
  case Nil
  then show ?thesis using assms by (auto split: prod.splits)
next
  case (Cons a gs)
  then show ?thesis using assms by (cases a) (auto split: prod.splits)
qed

interpretation disk_replica: replica E url token
    "flaky (deliver mux now W (node_gateway ER newID now later rnd token limit) url overhead)" "sha256 ER"
    "\<lambda>(fs, (s, m)). mux_finds mux \<and> serving ER newID s" "\<lambda>(fs, (s, m)). stored_files s"
  for E url token mux now W ER newID later rnd limit overhead
proof (unfold_locales, goal_cases)
  case (1 w i x w')
  let ?g = "node_gateway ER newID now later rnd token limit"
  obtain fs s m fs' t m' where w: "w = (fs, (s, m))" "w' = (fs', (t, m'))" by (metis prod_cases3)
  have g: "gwToken ?g = token" "gwService ?g = service_of (disk_ops ER newID now later rnd)"
    by (simp_all add: node_gateway_def)
  have ok: "mux_finds mux" "serving ER newID s" using 1(1) w by auto
  obtain r where r: "deliver mux now W ?g url overhead (status_request url token i) (s, m) = (Inr r, (s, m))"
      "case stored_files s i of None \<Rightarrow> rpStatus r = 404 | Some (f, b) \<Rightarrow> rpStatus r = 200 \<and> rpFile r = Inr f"
    using disk_service.deliver_status_law [OF ok(1) 1(2) g ok(2)] by blast
  show ?case using flaky_step [OF 1(3) [unfolded w]] r w 1(1) by (auto split: option.splits)
next
  case (2 w f content x w')
  let ?g = "node_gateway ER newID now later rnd token limit"
  let ?c = "upload_request E url token f content"
  obtain fs s m fs' t m' where w: "w = (fs, (s, m))" "w' = (fs', (t, m'))" by (metis prod_cases3)
  have g: "gwToken ?g = token" "gwService ?g = service_of (disk_ops ER newID now later rnd)"
    by (simp_all add: node_gateway_def)
  obtain y u k where u: "deliver mux now W ?g url overhead ?c (s, m) = (y, (u, k))" by (metis prod_cases3)
  have ok: "mux_finds mux" "serving ER newID s" using 2(1) w by auto
  have d: "serving ER newID u" "stored_files u = stored_files s \<and>
        (\<forall>r. y = Inr r \<longrightarrow> \<not> (200 \<le> rpStatus r \<and> rpStatus r < 300)) \<or>
      stored_files s (fID f) = None \<and> bErr content = None \<and>
      (\<exists>h. copy_of (sha256 ER) f (bData content) h \<and> stored_files u = (stored_files s)(fID f \<mapsto> (h, bData content)))"
    using disk_service.deliver_upload_law [OF ok(1) 2(2) g ok(2) u] by auto
  from flaky_step [OF 2(3) [unfolded w]] u
  consider e where "t = s" "x = Inl e" | "t = u" "x = y" | e where "t = u" "x = Inl e" by auto
  then show ?case
  proof cases
    case 1
    then show ?thesis using ok w by simp
  next
    case 2
    show ?thesis unfolding w prod.case 2 using d ok(1) by blast
  next
    case 3
    show ?thesis unfolding w prod.case 3 using d ok(1) by blast
  qed
qed

section \<open>A file arrives at the replica\<close>

text \<open>\<open>Manager.source\<close> is the service of the node: what \<open>Download\<close> finds in its store.\<close>

definition source_of :: "(err \<Rightarrow> string) \<Rightarrow> 's store_ops \<Rightarrow> 's \<Rightarrow> source" where
  "source_of errText ops s i =
     (case fst (svcDownload ops None i s) of
        Inl e \<Rightarrow> Inl (errText e)
      | Inr (f, b) \<Rightarrow> Inr (f, \<lparr>bData = b, bErr = None\<rparr>))"

lemma source_of_disk:
  assumes "sound l" "validFileID i" "stored_files l i = Some (f, b)"
  shows "source_of errText (disk_ops E newID now later rnd) l i = Inr (f, \<lparr>bData = b, bErr = None\<rparr>)"
    "fID f = i" "fSize f = int (length b)"
proof -
  obtain a where a: "represents a l" "script l = []" using assms(1) by (auto simp: sound_def)
  have "aFiles a i = Some (f, b)" using assms(3) stored_files_represents [OF a(1)] by simp
  moreover have "good a" using a(1) by (simp add: represents_def)
  ultimately show "fID f = i" "fSize f = int (length b)"
    by (auto simp: good_def file_ok_def live_file_ok_def)
  show "source_of errText (disk_ops E newID now later rnd) l i = Inr (f, \<lparr>bData = b, bErr = None\<rparr>)"
    using represents_openFile [OF a(2,1)] assms(2,3) stored_files_represents [OF a(1)]
    by (simp add: source_of_def svcDownload_def disk_ops_def)
qed

text \<open>C2. End to end: a manager whose source is the disk store of one node executes an upload job
  against the gateway and disk store of another, over a network that may lose requests and
  replies. Whatever happens, the replica either keeps exactly the files it had or gains exactly
  the one file with the source's bytes under the source's identifier; a job that succeeds leaves
  the replica with a file of that identifier, of the source's size, whose bytes are the source's
  unless the replica held a file with the same checksum before.\<close>

theorem file_arrives:
  assumes "history opts l" "0 < oOwnerQuotaBytes opts" "oOwnerQuotaBytes opts \<le> max_int64"
    and "validFileID i" "stored_files l i = Some (f, b)"
    and "history ropts s" "0 < oOwnerQuotaBytes ropts" "oOwnerQuotaBytes ropts \<le> max_int64"
    and "digest_nonempty ER" "validFileID newID" "mux_finds mux"
    and "jOperation j = OperationUpload" "jFileID j = i" "mRemoteURL q = url" "mToken q = token"
    and "execute E (flaky (deliver mux now W (node_gateway ER newID now later rnd token limit) url overhead))
           (Some (source_of errText (disk_ops EL newL nowL laterL rndL) l)) q j (fs, (s, m)) = (x, (fs', (t, m')))"
  shows "(stored_files t = stored_files s \<or>
      stored_files s i = None \<and>
      (\<exists>h. copy_of (sha256 ER) f b h \<and> stored_files t = (stored_files s)(i \<mapsto> (h, b)))) \<and>
    (x = Inr () \<longrightarrow> (\<exists>h c. stored_files t i = Some (h, c) \<and> fSize h = fSize f \<and>
      (c = b \<or> stored_files s i = Some (h, c) \<and> equal_fold (fChecksum h) (fChecksum f))))"
proof -
  have l: "sound l" using history_sound [OF assms(1)] assms(2,3) by simp
  have s: "serving ER newID s" using history_sound [OF assms(6)] assms(7-10) by (simp add: serving_def)
  let ?R = "flaky (deliver mux now W (node_gateway ER newID now later rnd token limit) url overhead)"
  let ?b = "\<lparr>bData = b, bErr = None :: err option\<rparr>"
  note src = source_of_disk(1) [OF l assms(4,5), of errText EL newL nowL laterL rndL]
    source_of_disk(2,3) [OF l assms(4,5)]
  have run: "replicateUpload E ?R (Some (\<lambda>k. Inr (f, ?b))) q i (fs, (s, m)) = (x, (fs', (t, m')))"
    using assms(12,13,16) src(1) by (simp add: execute_def replicateUpload_def)
  have "validFileID (fID f)" using assms(4) src(2) by simp
  from disk_replica.upload_job [OF _ this assms(14,15) run] s assms(11) src(2,3)
  show ?thesis by (auto simp: copy_of_def)
qed

text \<open>A router of segments: a path variable matches one segment.\<close>

fun segments_match :: "string list \<Rightarrow> string list \<Rightarrow> header option" where
  "segments_match [] [] = Some []"
| "segments_match (t # ts) (p # ps) =
     (if t = ''{id}'' then map_option ((#) (''id'', p)) (segments_match ts ps)
      else if t = p then segments_match ts ps else None)"
| "segments_match _ _ = None"

fun find_route :: "nat \<Rightarrow> (string \<times> string) list \<Rightarrow> string \<Rightarrow> string \<Rightarrow> response + nat \<times> header" where
  "find_route n [] meth path = Inl (writeError 404 ''not_found'' ''404 page not found'')"
| "find_route n ((m, t) # rs) meth path =
     (case segments_match (split_on CHR ''/'' t) (split_on CHR ''/'' path) of
        Some vars \<Rightarrow> if m = meth then Inr (n, vars) else find_route (Suc n) rs meth path
      | None \<Rightarrow> find_route (Suc n) rs meth path)"

lemma find_route_finds: "mux_finds (find_route 0)"
proof -
  have post: "find_route 0 (map (\<lambda>(m, t, a, e). (m, t)) routes) ''POST'' ''/api/v1/files'' = Inr (4, [])"
    by code_simp
  have "find_route 0 (map (\<lambda>(m, t, a, e). (m, t)) routes) ''GET'' (''/api/v1/files/'' @ i @ ''/status'') =
      Inr (9, [(''id'', i)])" if "validFileID i" for i
  proof -
    have "CHR ''/'' \<notin> set i" "i \<noteq> ''''"
      using validFileID_chars [OF that, of "CHR ''/''"] validFileID_safe(3) [OF that] by (auto simp: is_lower_hex_def)
    then have p: "split_on CHR ''/'' (i @ ''/status'') = [i, ''status'']"
      by (simp add: split_on_append split_on_free)
    from \<open>i \<noteq> ''''\<close> show ?thesis unfolding routes_def by (simp add: p)
  qed
  with post show ?thesis by (simp add: mux_finds_def)
qed

lemma example_stored:
  "\<exists>i f u. validFileID i \<and> history example_options u \<and> stored_files u i = Some (f, ''hello'')"
proof -
  let ?i = "part_input example_gateway '''' [] example_part"
  obtain f u where p: "put example_env None example_id 7 ?i example_store = (Inr f, u)"
    using example_part_put by blast
  have s: "serving example_env example_id example_store"
    using history_sound [OF example_history] example_digest example_id_valid
    by (simp add: serving_def example_options_def max_int64_def)
  have "history example_options (run_op example_env None (OpPut example_id 7 ?i) example_store)"
    by (rule history.step [OF example_history example_digest]) (simp add: example_id_valid)
  then have "history example_options u" using p by simp
  moreover have "validFileID (fID f) \<and> stored_files u (fID f) = Some (f, ''hello'')"
    using disk_service.put_law [OF s, of 7 7 "''1''" ?i f u] p
    by (auto simp: disk_ops_def part_input_def limited_def example_gateway_def example_part_def)
  ultimately show ?thesis by blast
qed

theorem file_arrives_witness:
  "\<exists>l i f x fs t m. history example_options l \<and> stored_files l i = Some (f, ''hello'') \<and>
     execute example_net (flaky (deliver (find_route 0) 9 example_web
         (node_gateway example_env example_id 9 9 ''1'' ''secret'' 100) ''https://replica'' 200))
       (Some (source_of (\<lambda>e. ''error'') (disk_ops example_env example_id 9 9 ''1'') l)) example_queue
       (new_job OperationUpload i 7) ([Delivered, ReplyLost], (example_store, empty_disk)) =
     (x, (fs, (t, m))) \<and>
     (stored_files t = stored_files example_store \<or>
      (\<exists>h. copy_of (sha256 example_env) f ''hello'' h \<and>
        stored_files t = (stored_files example_store)(i \<mapsto> (h, ''hello''))))"
proof -
  obtain l i f where l: "history example_options l" "stored_files l i = Some (f, ''hello'')" "validFileID i"
    using example_stored by blast
  obtain x fs t m where run:
    "execute example_net (flaky (deliver (find_route 0) 9 example_web
         (node_gateway example_env example_id 9 9 ''1'' ''secret'' 100) ''https://replica'' 200))
       (Some (source_of (\<lambda>e. ''error'') (disk_ops example_env example_id 9 9 ''1'') l)) example_queue
       (new_job OperationUpload i 7) ([Delivered, ReplyLost], (example_store, empty_disk)) =
     (x, (fs, (t, m)))" by (metis prod_cases4)
  have "(stored_files t = stored_files example_store \<or>
      stored_files example_store i = None \<and>
      (\<exists>h. copy_of (sha256 example_env) f ''hello'' h \<and>
        stored_files t = (stored_files example_store)(i \<mapsto> (h, ''hello'')))) \<and>
    (x = Inr () \<longrightarrow> (\<exists>h c. stored_files t i = Some (h, c) \<and> fSize h = fSize f \<and>
      (c = ''hello'' \<or> stored_files example_store i = Some (h, c) \<and> equal_fold (fChecksum h) (fChecksum f))))"
    by (rule file_arrives [OF l(1) _ _ l(3) l(2) example_history _ _ example_digest example_id_valid
          find_route_finds _ _ _ _ run])
      (simp_all add: example_options_def max_int64_def new_job_def example_queue_def with_job_def example_manager_def)
  then show ?thesis using l run by blast
qed

end
