(* ===== verification/Balance.thy ===== *)
theory Balance
  imports Http
begin

text \<open>
  The load balancer of \<open>pkg/balance/consistent_hash.go\<close>: a ring of virtual nodes with CRC-32
  positions, the status of the nodes, the statistics of hot files and the balancing routine. The
  mutex is part of the state, because one method calls another that locks it again.
\<close>

unbundle bit_operations_syntax

section \<open>CRC-32\<close>

text \<open>\<open>crc32.ChecksumIEEE\<close>, bit by bit with the reflected polynomial.\<close>

definition crc_step :: "32 word \<Rightarrow> 32 word" where
  "crc_step c = (if bit c 0 then drop_bit 1 c XOR 0xEDB88320 else drop_bit 1 c)"

definition crc_byte :: "32 word \<Rightarrow> char \<Rightarrow> 32 word" where
  "crc_byte c x = (crc_step ^^ 8) (c XOR of_char x)"

definition crc32 :: "string \<Rightarrow> 32 word" where
  "crc32 s = NOT (foldl crc_byte (NOT 0) s)"

section \<open>State\<close>

text \<open>\<open>float64\<close> values are the rationals they denote; NaN and the infinities are left out.\<close>

record shard_status =
  ssNodeID :: string
  ssShardCount :: int
  ssDiskUsage :: rat
  ssLoadFactor :: rat
  ssIsOverloaded :: bool

record hot_file =
  hfFileID :: string
  hfAccessCount :: int
  hfLastAccess :: int

record balance_config =
  bcCheckInterval :: int
  bcDiskUsageThreshold :: rat
  bcLoadFactorThreshold :: rat
  bcHotFileThreshold :: int
  bcEnableAutoBalance :: bool

record file_access_info =
  faAccessCount :: int
  faLastAccess :: time

text \<open>A status is a pointer: \<open>None\<close> is nil. \<open>bLocked\<close> tells whether \<open>mutex\<close> is held.\<close>

record balancer =
  bConfig :: balance_config
  bRing :: "(32 word \<times> string) list"
  bSortedKeys :: "32 word list"
  bNodes :: "(string \<times> shard_status option) list"
  bReplicas :: int
  bLocked :: bool
  bIsRunning :: bool
  bFileAccess :: "(string \<times> file_access_info) list"

datatype balance_error =
  ErrAlreadyRunning | ErrNotRunning | ErrNoSource | ErrNoTarget | ErrEmptyRing | ErrTooFewNodes

text \<open>What a call comes to: it returns, panics, or waits for the mutex forever.\<close>

datatype 'a call = Returned 'a balancer | Panics balancer | Blocked balancer

definition newConsistentHashBalancer :: "balance_config \<Rightarrow> int \<Rightarrow> balancer" where
  "newConsistentHashBalancer config replicas =
     \<lparr>bConfig = config, bRing = [], bSortedKeys = [], bNodes = [], bReplicas = replicas, bLocked = False,
      bIsRunning = False, bFileAccess = []\<rparr>"

text \<open>\<open>mutex.Lock(); defer mutex.Unlock()\<close> around a body; \<open>RLock\<close> waits for a writer in the same way.
  A body that blocks never gets to the deferred unlock.\<close>

definition locked :: "(balancer \<Rightarrow> 'a call) \<Rightarrow> balancer \<Rightarrow> 'a call" where
  "locked body b =
     (if bLocked b then Blocked b
      else case body (b\<lparr>bLocked := True\<rparr>) of
        Returned x c \<Rightarrow> Returned x (c\<lparr>bLocked := False\<rparr>)
      | Panics c \<Rightarrow> Panics (c\<lparr>bLocked := False\<rparr>)
      | Blocked c \<Rightarrow> Blocked c)"

section \<open>The ring\<close>

definition hashKey :: "string \<Rightarrow> 32 word" where
  "hashKey key = crc32 key"

text \<open>The positions of the virtual nodes of a node.\<close>

definition virtual_keys :: "int \<Rightarrow> string \<Rightarrow> 32 word list" where
  "virtual_keys replicas nodeID = map (\<lambda>i. hashKey (nodeID @ show_int (int i))) [0..<nat replicas]"

definition new_status :: "string \<Rightarrow> shard_status" where
  "new_status nodeID =
     \<lparr>ssNodeID = nodeID, ssShardCount = 0, ssDiskUsage = 0, ssLoadFactor = 0, ssIsOverloaded = False\<rparr>"

definition addNode :: "string \<Rightarrow> balancer \<Rightarrow> unit call" where
  "addNode nodeID = locked (\<lambda>b.
     if map_of (bNodes b) nodeID \<noteq> None then Returned () b
     else let keys = virtual_keys (bReplicas b) nodeID in
       Returned () (b\<lparr>bNodes := AList.update nodeID (Some (new_status nodeID)) (bNodes b),
         bRing := foldl (\<lambda>ring key. AList.update key nodeID ring) (bRing b) keys,
         bSortedKeys := sort_slice (<) (bSortedKeys b @ keys)\<rparr>))"

definition removeNode :: "string \<Rightarrow> balancer \<Rightarrow> unit call" where
  "removeNode nodeID = locked (\<lambda>b.
     if map_of (bNodes b) nodeID = None then Returned () b
     else let ring = foldl (\<lambda>ring key. AList.delete key ring) (bRing b) (virtual_keys (bReplicas b) nodeID) in
       Returned () (b\<lparr>bNodes := AList.delete nodeID (bNodes b), bRing := ring,
         bSortedKeys := sort_slice (<) (map fst ring)\<rparr>))"

text \<open>\<open>sort.Search\<close>: binary search in \<open>[i, j)\<close>.\<close>

function sort_search :: "(nat \<Rightarrow> bool) \<Rightarrow> nat \<Rightarrow> nat \<Rightarrow> nat" where
  "sort_search f i j =
     (if i < j then let h = (i + j) div 2 in if \<not> f h then sort_search f (h + 1) j else sort_search f i h
      else i)"
  by pat_completeness auto
termination by (relation "measure (\<lambda>(f, i, j). j - i)") auto

declare sort_search.simps [simp del]

text \<open>A key that is missing in the map reads as the empty string, an index out of range panics.\<close>

definition getNode :: "string \<Rightarrow> balancer \<Rightarrow> (balance_error + string) call" where
  "getNode key = locked (\<lambda>b.
     if bRing b = [] then Returned (Inl ErrEmptyRing) b
     else let h = hashKey key;
              n = length (bSortedKeys b);
              found = sort_search (\<lambda>i. h \<le> bSortedKeys b ! i) 0 n;
              idx = (if found = n then 0 else found)
          in if idx < n then
               Returned (Inr (case map_of (bRing b) (bSortedKeys b ! idx) of Some node \<Rightarrow> node | None \<Rightarrow> '''')) b
             else Panics b)"

section \<open>Nodes\<close>

definition getShardStatus :: "balancer \<Rightarrow> (string \<times> shard_status) list call" where
  "getShardStatus = locked (\<lambda>b.
     if None \<in> snd ` set (bNodes b) then Panics b
     else Returned (map (\<lambda>(i, s). (i, the s)) (bNodes b)) b)"

definition updateNodeStatus :: "string \<Rightarrow> shard_status option \<Rightarrow> balancer \<Rightarrow> unit call" where
  "updateNodeStatus nodeID status = locked (\<lambda>b.
     if map_of (bNodes b) nodeID = None then Returned () b
     else Returned () (b\<lparr>bNodes := AList.update nodeID status (bNodes b)\<rparr>))"

definition bump_shards :: "string \<Rightarrow> int \<Rightarrow> balancer \<Rightarrow> balancer option" where
  "bump_shards nodeID d b =
     (case map_of (bNodes b) nodeID of
        Some (Some s) \<Rightarrow> Some (b\<lparr>bNodes := AList.update nodeID (Some (s\<lparr>ssShardCount := wrap64 (ssShardCount s + d)\<rparr>)) (bNodes b)\<rparr>)
      | _ \<Rightarrow> None)"

definition migrateShard :: "string \<Rightarrow> string \<Rightarrow> string \<Rightarrow> balancer \<Rightarrow> (balance_error + unit) call" where
  "migrateShard shardID source target = locked (\<lambda>b.
     if map_of (bNodes b) source = None then Returned (Inl ErrNoSource) b
     else if map_of (bNodes b) target = None then Returned (Inl ErrNoTarget) b
     else (case bump_shards source (-1) b of None \<Rightarrow> Panics b | Some b \<Rightarrow>
       (case bump_shards target 1 b of None \<Rightarrow> Panics b | Some b \<Rightarrow> Returned (Inr ()) b)))"

section \<open>Balancing\<close>

text \<open>\<open>visit\<close> is the order in which the range statement meets the nodes.\<close>

definition rebalance :: "string list \<Rightarrow> balancer \<Rightarrow> (balance_error + unit) call" where
  "rebalance visit = locked (\<lambda>b.
     if length (bNodes b) < 2 then Returned (Inl ErrTooFewNodes) b
     else if None \<in> snd ` set (bNodes b) then Panics b
     else let loads = sort_slice (\<lambda>x y. snd y < snd x)
                (List.map_filter (\<lambda>i. case map_of (bNodes b) i of Some (Some s) \<Rightarrow> Some (i, ssLoadFactor s) | _ \<Rightarrow> None) visit);
              highNode = hd loads;
              lowNode = last loads
          in if f64 (snd highNode - snd lowNode) < 3 / 10 then Returned (Inr ()) b
             else Returned (Inr ()) b)"

definition forceRebalance :: "string list \<Rightarrow> balancer \<Rightarrow> (balance_error + unit) call" where
  "forceRebalance visit b = rebalance visit b"

definition node_overloaded :: "balance_config \<Rightarrow> shard_status \<Rightarrow> bool" where
  "node_overloaded c s \<longleftrightarrow> bcDiskUsageThreshold c < ssDiskUsage s \<or> bcLoadFactorThreshold c < ssLoadFactor s"

definition checkAndBalance :: "string list \<Rightarrow> balancer \<Rightarrow> (balance_error + unit) call" where
  "checkAndBalance visit = locked (\<lambda>b.
     if None \<in> snd ` set (bNodes b) then Panics b
     else let marked = map (\<lambda>(i, s). (i, map_option (\<lambda>s. s\<lparr>ssIsOverloaded := node_overloaded (bConfig b) s\<rparr>) s)) (bNodes b);
              b = b\<lparr>bNodes := marked\<rparr>
          in if list_ex (\<lambda>(i, s). case s of None \<Rightarrow> False | Some s \<Rightarrow> ssIsOverloaded s) marked
             then rebalance visit b else Returned (Inr ()) b)"

text \<open>What the routine receives: a tick, with the order in which the nodes are visited then, or the
  end of its context. A ticker needs a positive period.\<close>

datatype routine_event = Tick "string list" | ContextDone

fun balance_loop :: "routine_event list \<Rightarrow> balancer \<Rightarrow> unit call" where
  "balance_loop [] b = Returned () b"
| "balance_loop (ContextDone # es) b = Returned () b"
| "balance_loop (Tick visit # es) b =
     (case checkAndBalance visit b of
        Returned _ b \<Rightarrow> balance_loop es b
      | Panics b \<Rightarrow> Panics b
      | Blocked b \<Rightarrow> Blocked b)"

definition balanceRoutine :: "routine_event list \<Rightarrow> balancer \<Rightarrow> unit call" where
  "balanceRoutine es b =
     (if \<not> bcEnableAutoBalance (bConfig b) then Returned () b
      else if wrap64 (bcCheckInterval (bConfig b) * 1000000000) \<le> 0 then Panics b
      else balance_loop es b)"

definition startBalancer :: "balancer \<Rightarrow> (balance_error + unit) call" where
  "startBalancer = locked (\<lambda>b.
     if bIsRunning b then Returned (Inl ErrAlreadyRunning) b else Returned (Inr ()) (b\<lparr>bIsRunning := True\<rparr>))"

definition stopBalancer :: "balancer \<Rightarrow> (balance_error + unit) call" where
  "stopBalancer = locked (\<lambda>b.
     if \<not> bIsRunning b then Returned (Inl ErrNotRunning) b else Returned (Inr ()) (b\<lparr>bIsRunning := False\<rparr>))"

section \<open>Hot files\<close>

text \<open>These two use a lock of their own, which nothing holds for long.\<close>

definition trackFileAccess :: "string \<Rightarrow> time \<Rightarrow> balancer \<Rightarrow> balancer" where
  "trackFileAccess fileID now b =
     (let info = (case map_of (bFileAccess b) fileID of
          None \<Rightarrow> \<lparr>faAccessCount = 0, faLastAccess = now\<rparr> | Some info \<Rightarrow> info)
      in b\<lparr>bFileAccess := AList.update fileID
           (info\<lparr>faAccessCount := wrap64 (faAccessCount info + 1), faLastAccess := now\<rparr>) (bFileAccess b)\<rparr>)"

definition getHotFiles :: "string list \<Rightarrow> int \<Rightarrow> balancer \<Rightarrow> hot_file list" where
  "getHotFiles visit limit b =
     (let limit = (if limit \<le> 0 then 10 else limit);
          hot = List.map_filter (\<lambda>i. case map_of (bFileAccess b) i of
            Some info \<Rightarrow> if bcHotFileThreshold (bConfig b) \<le> faAccessCount info
              then Some \<lparr>hfFileID = i, hfAccessCount = faAccessCount info, hfLastAccess = faLastAccess info div 1000000000\<rparr>
              else None
          | None \<Rightarrow> None) visit;
          hot = sort_slice (\<lambda>x y. hfAccessCount y < hfAccessCount x) hot
      in if limit < int (length hot) then take (nat limit) hot else hot)"

section \<open>The ring as a map\<close>

lemma sort_search_least:
  assumes "i \<le> j" "\<And>x y. i \<le> x \<Longrightarrow> x \<le> y \<Longrightarrow> y < j \<Longrightarrow> f x \<Longrightarrow> f y"
  shows "i \<le> sort_search f i j \<and> sort_search f i j \<le> j \<and>
    (\<forall>x. i \<le> x \<and> x < sort_search f i j \<longrightarrow> \<not> f x) \<and> (sort_search f i j < j \<longrightarrow> f (sort_search f i j))"
  using assms
proof (induction f i j rule: sort_search.induct)
  case (1 f i j)
  show ?case
  proof (cases "i < j")
    case False
    then show ?thesis using "1.prems"(1) sort_search.simps [of f i j] by auto
  next
    case True
    let ?h = "(i + j) div 2"
    have h: "i \<le> ?h" "?h < j" using True by auto
    show ?thesis
    proof (cases "f ?h")
      case f: True
      have "sort_search f i j = sort_search f i ?h" using True f by (simp add: sort_search.simps [of f i j])
      moreover have "i \<le> sort_search f i ?h \<and> sort_search f i ?h \<le> ?h \<and>
          (\<forall>x. i \<le> x \<and> x < sort_search f i ?h \<longrightarrow> \<not> f x) \<and> (sort_search f i ?h < ?h \<longrightarrow> f (sort_search f i ?h))"
      proof (rule "1.IH"(2) [OF True refl])
        show "f y" if "i \<le> x" "x \<le> y" "y < ?h" "f x" for x y
          using "1.prems"(2) [OF that(1,2) _ that(4)] that(3) h(2) by simp
      qed (use f h in simp_all)
      ultimately show ?thesis using f h by (metis le_neq_implies_less less_le_trans less_imp_le)
    next
      case nf: False
      have s: "sort_search f i j = sort_search f (?h + 1) j" using True nf by (simp add: sort_search.simps [of f i j])
      have r: "?h + 1 \<le> sort_search f (?h + 1) j" "sort_search f (?h + 1) j \<le> j"
          "\<forall>x. ?h + 1 \<le> x \<and> x < sort_search f (?h + 1) j \<longrightarrow> \<not> f x"
          "sort_search f (?h + 1) j < j \<longrightarrow> f (sort_search f (?h + 1) j)"
      proof -
        have m: "f y" if "?h + 1 \<le> x" "x \<le> y" "y < j" "f x" for x y
          using "1.prems"(2) [OF _ that(2,3,4)] that(1) h(1) by simp
        note ih = "1.IH"(1) [OF True refl nf _ m]
        show "?h + 1 \<le> sort_search f (?h + 1) j" "sort_search f (?h + 1) j \<le> j"
          "\<forall>x. ?h + 1 \<le> x \<and> x < sort_search f (?h + 1) j \<longrightarrow> \<not> f x"
          "sort_search f (?h + 1) j < j \<longrightarrow> f (sort_search f (?h + 1) j)"
          using ih h(2) by simp_all
      qed
      have "\<not> f x" if "i \<le> x" "x < sort_search f (?h + 1) j" for x
      proof (cases "x \<le> ?h")
        case True
        then show ?thesis using nf "1.prems"(2) [OF that(1) True h(2)] by blast
      next
        case False
        then have "?h + 1 \<le> x" by linarith
        then show ?thesis using r(3) that(2) by blast
      qed
      moreover have "i \<le> sort_search f (?h + 1) j" using r(1) h(1) by linarith
      ultimately show ?thesis unfolding s using r(2,4) by blast
    qed
  qed
qed

interpretation plain_less: key_less "(<)" "\<lambda>x :: 'a :: linorder. x" "\<lambda>x. True"
  by unfold_locales simp

lemma sort_slice_plain: "sort_slice (<) (xs :: 'a :: linorder list) = sort xs"
  by (rule plain_less.sort_slice_key) simp

lemma ring_insert:
  "map_of (foldl (\<lambda>ring key. AList.update key n ring) ring keys) = (\<lambda>k. if k \<in> set keys then Some n else map_of ring k)"
  by (induction keys arbitrary: ring) (auto simp: fun_eq_iff AList.update_conv)

lemma ring_insert_distinct:
  "distinct (map fst ring) \<Longrightarrow> distinct (map fst (foldl (\<lambda>ring key. AList.update key n ring) ring keys))"
  by (induction keys arbitrary: ring) (auto simp: AList.distinct_update)

lemma ring_remove:
  "map_of (foldl (\<lambda>ring key. AList.delete key ring) ring keys) = (\<lambda>k. if k \<in> set keys then None else map_of ring k)"
  by (induction keys arbitrary: ring) (auto simp: fun_eq_iff AList.delete_conv)

lemma ring_remove_distinct:
  "distinct (map fst ring) \<Longrightarrow> distinct (map fst (foldl (\<lambda>ring key. AList.delete key ring) ring keys))"
  by (induction keys arbitrary: ring) (auto simp: AList.distinct_delete)

text \<open>The position that serves a hash: the next one clockwise.\<close>

definition clockwise :: "32 word set \<Rightarrow> 32 word \<Rightarrow> 32 word" where
  "clockwise K h = (if \<exists>k\<in>K. h \<le> k then Min {k \<in> K. h \<le> k} else Min K)"

lemma clockwise_in: "finite K \<Longrightarrow> K \<noteq> {} \<Longrightarrow> clockwise K h \<in> K"
  using Min_in [of "{k \<in> K. h \<le> k}"] Min_in [of K] by (auto simp: clockwise_def)

lemma clockwise_insert:
  assumes "finite K" "K \<noteq> {}" "finite N"
  shows "clockwise (K \<union> N) h \<in> N \<or> clockwise (K \<union> N) h = clockwise K h"
proof (cases "clockwise (K \<union> N) h \<in> N")
  case False
  have f: "finite (K \<union> N)" using assms by simp
  show ?thesis
  proof (cases "\<exists>k\<in>K \<union> N. h \<le> k")
    case True
    let ?S = "{k \<in> K \<union> N. h \<le> k}"
    have m: "clockwise (K \<union> N) h = Min ?S" using True by (simp add: clockwise_def)
    have "?S \<noteq> {}" "finite ?S" using True f by auto
    then have "Min ?S \<in> ?S" "\<forall>k\<in>?S. Min ?S \<le> k" using Min_in Min_le by blast+
    then have s: "Min ?S \<in> {k \<in> K. h \<le> k}" "\<forall>k\<in>{k \<in> K. h \<le> k}. Min ?S \<le> k" using False m by auto
    then have "Min {k \<in> K. h \<le> k} = Min ?S" using assms(1) by (intro Min_eqI) auto
    then show ?thesis using s m by (auto simp: clockwise_def)
  next
    case none: False
    have m: "clockwise (K \<union> N) h = Min (K \<union> N)" using none by (auto simp: clockwise_def)
    have "Min (K \<union> N) \<in> K" "\<forall>k\<in>K. Min (K \<union> N) \<le> k"
      using False m f assms(2) Min_in [OF f] by auto
    then have "Min K = Min (K \<union> N)" using assms(1) by (intro Min_eqI) auto
    then show ?thesis using m none by (auto simp: clockwise_def)
  qed
qed simp

definition ring_ok :: "balancer \<Rightarrow> bool" where
  "ring_ok b \<longleftrightarrow>
     \<not> bLocked b \<and> distinct (map fst (bRing b)) \<and> sorted (bSortedKeys b) \<and>
     set (bSortedKeys b) = fst ` set (bRing b) \<and>
     (\<forall>k n. map_of (bRing b) k = Some n \<longrightarrow> map_of (bNodes b) n \<noteq> None \<and> k \<in> set (virtual_keys (bReplicas b) n))"

text \<open>A lookup depends on the ring as a map only.\<close>

lemma getNode_clockwise:
  assumes "ring_ok b"
  shows "getNode key b =
    (if dom (map_of (bRing b)) = {} then Returned (Inl ErrEmptyRing) b
     else Returned (Inr (the (map_of (bRing b) (clockwise (dom (map_of (bRing b))) (hashKey key))))) b)"
proof (cases "bRing b = []")
  case True
  then show ?thesis using assms by (simp add: getNode_def locked_def ring_ok_def)
next
  case False
  let ?ks = "bSortedKeys b" and ?h = "hashKey key"
  let ?n = "length ?ks" and ?r = "sort_search (\<lambda>i. ?h \<le> ?ks ! i) 0 (length ?ks)"
  let ?i = "if ?r = ?n then 0 else ?r"
  have ks: "sorted ?ks" "set ?ks = dom (map_of (bRing b))" "\<not> bLocked b"
    using assms by (auto simp: ring_ok_def dom_map_of_conv_image_fst)
  then have n: "0 < ?n" using False by (cases "bRing b") (auto simp: dom_map_of_conv_image_fst)
  have r: "?r \<le> ?n" "\<forall>x < ?r. \<not> ?h \<le> ?ks ! x" "?r < ?n \<longrightarrow> ?h \<le> ?ks ! ?r"
    using sort_search_least [of 0 ?n "\<lambda>i. ?h \<le> ?ks ! i"] ks(1)
    by (auto dest: sorted_nth_mono order_trans)
  have i: "?i < ?n" using r(1) n by auto
  have "clockwise (set ?ks) ?h = ?ks ! ?i"
  proof (cases "?r = ?n")
    case True
    then have "\<forall>k\<in>set ?ks. \<not> ?h \<le> k" using r(2) by (metis in_set_conv_nth)
    moreover have "Min (set ?ks) = ?ks ! 0"
      using ks(1) n by (intro Min_eqI) (auto simp: in_set_conv_nth sorted_nth_mono)
    ultimately show ?thesis using True by (auto simp: clockwise_def)
  next
    case False
    then have l: "?r < ?n" using r(1) by simp
    have "?ks ! ?r \<le> k" if "k \<in> set ?ks" "?h \<le> k" for k
    proof -
      obtain x where "x < ?n" "k = ?ks ! x" using \<open>k \<in> set ?ks\<close> by (metis in_set_conv_nth)
      then show ?thesis using r(2) that(2) ks(1) by (metis le_less_linear sorted_nth_mono)
    qed
    then have "Min {k \<in> set ?ks. ?h \<le> k} = ?ks ! ?r"
      using l r(3) by (intro Min_eqI) auto
    then show ?thesis using False l r(3) by (auto simp: clockwise_def intro: bexI [of _ "?ks ! ?r"])
  qed
  moreover have "?ks ! ?i \<in> dom (map_of (bRing b))" using i ks(2) nth_mem by blast
  then obtain node where "map_of (bRing b) (?ks ! ?i) = Some node" by blast
  moreover have "b\<lparr>bLocked := False\<rparr> = b" using ks(3) by simp
  then have "getNode key b = (if ?i < ?n then
      Returned (Inr (case map_of (bRing b) (?ks ! ?i) of Some node \<Rightarrow> node | None \<Rightarrow> '''')) b else Panics b)"
    using False ks(3) by (simp add: getNode_def locked_def Let_def)
  ultimately show ?thesis using i ks(2) False by simp
qed

section \<open>Histories of a balancer\<close>

datatype balance_op =
    Add string
  | Remove string
  | Update string "shard_status option"
  | Migrate string string string
  | Force "string list"
  | Check "string list"
  | Begin
  | Halt
  | Track string time
  | Lookup string

fun forget :: "'a call \<Rightarrow> unit call" where
  "forget (Returned x b) = Returned () b"
| "forget (Panics b) = Panics b"
| "forget (Blocked b) = Blocked b"

fun perform :: "balance_op \<Rightarrow> balancer \<Rightarrow> unit call" where
  "perform (Add n) b = addNode n b"
| "perform (Remove n) b = removeNode n b"
| "perform (Update n s) b = updateNodeStatus n s b"
| "perform (Migrate i n m) b = forget (migrateShard i n m b)"
| "perform (Force visit) b = forget (forceRebalance visit b)"
| "perform (Check visit) b = forget (checkAndBalance visit b)"
| "perform Begin b = forget (startBalancer b)"
| "perform Halt b = forget (stopBalancer b)"
| "perform (Track i now) b = Returned () (trackFileAccess i now b)"
| "perform (Lookup k) b = forget (getNode k b)"

text \<open>What calls that return, or panic and are recovered, make of a new balancer.\<close>

inductive balancing :: "balance_config \<Rightarrow> int \<Rightarrow> balancer \<Rightarrow> bool" for config replicas where
  fresh: "balancing config replicas (newConsistentHashBalancer config replicas)"
| returns: "balancing config replicas b \<Longrightarrow> perform op b = Returned () c \<Longrightarrow> balancing config replicas c"
| recovers: "balancing config replicas b \<Longrightarrow> perform op b = Panics c \<Longrightarrow> balancing config replicas c"

lemma locked_free: "\<not> bLocked b \<Longrightarrow> locked body b =
    (case body (b\<lparr>bLocked := True\<rparr>) of
       Returned x c \<Rightarrow> Returned x (c\<lparr>bLocked := False\<rparr>)
     | Panics c \<Rightarrow> Panics (c\<lparr>bLocked := False\<rparr>)
     | Blocked c \<Rightarrow> Blocked c)"
  by (simp add: locked_def)

text \<open>Calls that leave the ring and the set of nodes alone.\<close>

definition same_ring :: "balancer \<Rightarrow> balancer \<Rightarrow> bool" where
  "same_ring b c \<longleftrightarrow>
     bRing c = bRing b \<and> bSortedKeys c = bSortedKeys b \<and> bReplicas c = bReplicas b \<and> \<not> bLocked c \<and>
     (\<forall>n. map_of (bNodes c) n = None \<longleftrightarrow> map_of (bNodes b) n = None)"

lemma ring_ok_same: "ring_ok b \<Longrightarrow> same_ring b c \<Longrightarrow> ring_ok c"
  by (simp add: ring_ok_def same_ring_def)

lemma same_ring_replicas: "same_ring b c \<Longrightarrow> bReplicas c = bReplicas b"
  by (simp add: same_ring_def)

lemma ring_ok_add:
  assumes "ring_ok b" "addNode n b = Returned x c"
  shows "ring_ok c"
proof (cases "map_of (bNodes b) n = None")
  case False
  then have "c = b" using assms by (auto simp: addNode_def locked_def ring_ok_def)
  then show ?thesis using assms(1) by simp
next
  case True
  let ?ks = "virtual_keys (bReplicas b) n"
  let ?ring = "foldl (\<lambda>ring key. AList.update key n ring) (bRing b) ?ks"
  have c: "c = b\<lparr>bNodes := AList.update n (Some (new_status n)) (bNodes b), bRing := ?ring,
      bSortedKeys := sort (bSortedKeys b @ ?ks)\<rparr>"
    using assms True by (auto simp: addNode_def locked_def ring_ok_def Let_def sort_slice_plain)
  have "fst ` set ?ring = dom (map_of ?ring)" by (simp add: dom_map_of_conv_image_fst)
  also have "\<dots> = fst ` set (bRing b) \<union> set ?ks"
    by (auto simp: ring_insert dom_map_of_conv_image_fst [symmetric] split: if_splits)
  finally show ?thesis
    using assms(1) ring_insert_distinct [of "bRing b" n ?ks] unfolding c
    by (auto simp: ring_ok_def ring_insert AList.update_conv split: if_splits)
qed

lemma ring_ok_remove:
  assumes "ring_ok b" "removeNode n b = Returned x c"
  shows "ring_ok c"
proof (cases "map_of (bNodes b) n = None")
  case True
  then have "c = b" using assms by (auto simp: removeNode_def locked_def ring_ok_def)
  then show ?thesis using assms(1) by simp
next
  case False
  let ?ks = "virtual_keys (bReplicas b) n"
  let ?ring = "foldl (\<lambda>ring key. AList.delete key ring) (bRing b) ?ks"
  have c: "c = b\<lparr>bNodes := AList.delete n (bNodes b), bRing := ?ring, bSortedKeys := sort (map fst ?ring)\<rparr>"
    using assms False by (auto simp: removeNode_def locked_def ring_ok_def Let_def sort_slice_plain)
  show ?thesis
    using assms(1) ring_remove_distinct [of "bRing b" ?ks] unfolding c
    by (auto simp: ring_ok_def ring_remove AList.delete_conv split: if_splits)
qed

lemma rebalance_cases:
  "\<not> bLocked b \<Longrightarrow> rebalance visit b \<in> {Returned (Inl ErrTooFewNodes) b, Returned (Inr ()) b, Panics b}"
  by (simp add: rebalance_def locked_def Let_def)

lemma map_of_marked: "map_of (map (\<lambda>(i, s). (i, f i s)) xs) n = map_option (f n) (map_of xs n)"
  by (induction xs) auto

lemma others_same_ring:
  assumes "\<not> bLocked b" "perform op b = Returned () c \<or> perform op b = Panics c"
    and "\<And>n. op \<noteq> Add n" "\<And>n. op \<noteq> Remove n"
  shows "same_ring b c"
proof -
  have u: "same_ring b (b\<lparr>bLocked := False\<rparr>)" "same_ring b b" using assms(1) by (auto simp: same_ring_def)
  show ?thesis
  proof (cases op)
    case (Update n s)
    then show ?thesis using assms(1,2)
      by (auto simp: updateNodeStatus_def locked_def same_ring_def AList.update_conv split: if_splits)
  next
    case (Migrate i n m)
    then show ?thesis using assms(1,2)
      by (auto simp: migrateShard_def locked_def bump_shards_def same_ring_def AList.update_conv
          split: if_splits option.splits call.splits)
  next
    case (Force visit)
    then show ?thesis using assms(1,2) rebalance_cases [OF assms(1), of visit] u
      by (auto simp: forceRebalance_def)
  next
    case (Check visit)
    then show ?thesis using assms(1,2)
      by (auto simp: checkAndBalance_def locked_def rebalance_def same_ring_def map_of_marked Let_def split: if_splits)
  next
    case (Lookup k)
    then show ?thesis using assms(1,2) u
      by (auto simp: getNode_def locked_def Let_def split: if_splits)
  qed (use assms in \<open>auto simp: startBalancer_def stopBalancer_def locked_def same_ring_def trackFileAccess_def
      Let_def split: if_splits\<close>)
qed

lemma add_remove_return: "\<not> bLocked b \<Longrightarrow> addNode n b \<noteq> Panics c \<and> removeNode n b \<noteq> Panics c"
  by (auto simp: addNode_def removeNode_def locked_def Let_def)

lemma add_remove_replicas:
  assumes "\<not> bLocked b"
  shows "addNode n b = Returned x c \<Longrightarrow> bReplicas c = bReplicas b"
    "removeNode n b = Returned x c \<Longrightarrow> bReplicas c = bReplicas b"
  using assms
  by (cases "map_of (bNodes b) n"; force simp: addNode_def removeNode_def locked_def Let_def)+

lemma balancing_ok: "balancing config replicas b \<Longrightarrow> ring_ok b \<and> bReplicas b = replicas"
proof (induction rule: balancing.induct)
  case fresh
  then show ?case by (simp add: newConsistentHashBalancer_def ring_ok_def)
next
  case (returns b op c)
  then have u: "\<not> bLocked b" by (simp add: ring_ok_def)
  show ?case
  proof (cases "\<exists>n. op = Add n \<or> op = Remove n")
    case True
    then obtain n where "op = Add n \<or> op = Remove n" by blast
    moreover have "addNode n b = Returned () c \<Longrightarrow> bReplicas c = bReplicas b"
      "removeNode n b = Returned () c \<Longrightarrow> bReplicas c = bReplicas b"
      using add_remove_replicas [OF u] by blast+
    ultimately show ?thesis using returns ring_ok_add ring_ok_remove by (metis perform.simps(1,2))
  next
    case False
    then have "same_ring b c" using others_same_ring [OF u] returns(2) by blast
    then show ?thesis using returns ring_ok_same same_ring_replicas by metis
  qed
next
  case (recovers b op c)
  then have u: "\<not> bLocked b" by (simp add: ring_ok_def)
  then have "same_ring b c" using others_same_ring [OF u] recovers(2) add_remove_return [OF u] by fastforce
  then show ?case using recovers ring_ok_same same_ring_replicas by metis
qed

section \<open>What the balancer promises\<close>

text \<open>C28. In every history of a balancer, a lookup on a non-empty ring returns a node that is
  registered, namely the one at the first virtual node clockwise from the CRC-32 of the key, and
  changes nothing.\<close>

theorem ring_lookup:
  assumes "balancing config replicas b" "bRing b \<noteq> []"
  shows "\<exists>n k. getNode key b = Returned (Inr n) b \<and> map_of (bNodes b) n \<noteq> None \<and>
    map_of (bRing b) k = Some n \<and> k \<in> set (virtual_keys replicas n) \<and>
    (\<forall>k' \<in> dom (map_of (bRing b)). if crc32 key \<le> k then crc32 key \<le> k' \<longrightarrow> k \<le> k' else k' < crc32 key \<and> k \<le> k')"
proof -
  have r: "ring_ok b" "bReplicas b = replicas" using balancing_ok [OF assms(1)] by auto
  let ?K = "dom (map_of (bRing b))" and ?h = "crc32 key"
  let ?k = "clockwise ?K ?h"
  have K: "finite ?K" "?K \<noteq> {}" using assms(2) by (auto simp: finite_dom_map_of dom_map_of_conv_image_fst)
  then have "?k \<in> ?K" by (rule clockwise_in)
  then obtain n where n: "map_of (bRing b) ?k = Some n" by blast
  have "getNode key b = Returned (Inr n) b"
    using getNode_clockwise [OF r(1), of key] K(2) n by (simp add: hashKey_def)
  moreover have "if ?h \<le> ?k then ?h \<le> k' \<longrightarrow> ?k \<le> k' else k' < ?h \<and> ?k \<le> k'" if "k' \<in> ?K" for k'
  proof (cases "\<exists>x\<in>?K. ?h \<le> x")
    case True
    then have "?k \<in> {x \<in> ?K. ?h \<le> x}" unfolding clockwise_def using K(1) by (simp only: if_True) (rule Min_in; auto)
    moreover have "?k = Min {x \<in> ?K. ?h \<le> x}" using True by (simp add: clockwise_def)
    ultimately show ?thesis using that K(1) by (auto intro: Min_le)
  next
    case False
    then have "?k = Min ?K" by (auto simp: clockwise_def)
    then show ?thesis using False that K(1) \<open>?k \<in> ?K\<close> by (auto simp: not_le)
  qed
  moreover have "map_of (bNodes b) n \<noteq> None \<and> ?k \<in> set (virtual_keys replicas n)"
    using r n unfolding ring_ok_def by metis
  ultimately show ?thesis using n by (intro exI [of _ n] exI [of _ ?k]) simp
qed

lemma addNode_ring:
  assumes "\<not> bLocked b" "map_of (bNodes b) n = None" "addNode n b = Returned () c"
  shows "map_of (bRing c) = (\<lambda>k. if k \<in> set (virtual_keys (bReplicas b) n) then Some n else map_of (bRing b) k)"
    "map_of (bNodes c) n \<noteq> None" "bReplicas c = bReplicas b"
  using assms by (auto simp: addNode_def locked_def Let_def ring_insert AList.update_conv)

lemma removeNode_ring:
  assumes "\<not> bLocked b" "map_of (bNodes b) n \<noteq> None" "removeNode n b = Returned () c"
  shows "map_of (bRing c) = (\<lambda>k. if k \<in> set (virtual_keys (bReplicas b) n) then None else map_of (bRing b) k)"
  using assms by (auto simp: removeNode_def locked_def Let_def ring_remove)

text \<open>C29. Scaling moves no more keys than it must: when the virtual nodes of a new node collide with
  none on the ring, adding it makes every lookup go where it went before or to the new node, and
  removing it again sends every lookup back where it went before.\<close>

theorem minimal_disruption:
  assumes "balancing config replicas b" "bRing b \<noteq> []" "map_of (bNodes b) n = None"
    and "\<And>k. k \<in> set (virtual_keys replicas n) \<Longrightarrow> map_of (bRing b) k = None"
    and "addNode n b = Returned () c" "removeNode n c = Returned () d"
    and "getNode key b = Returned (Inr m) b"
  shows "getNode key c \<in> {Returned (Inr m) c, Returned (Inr n) c} \<and> getNode key d = Returned (Inr m) d"
proof -
  have b: "ring_ok b" "bReplicas b = replicas" using balancing_ok [OF assms(1)] by auto
  have c: "ring_ok c" using ring_ok_add [OF b(1) assms(5)] .
  have d: "ring_ok d" using ring_ok_remove [OF c assms(6)] .
  let ?B = "map_of (bRing b)" and ?N = "set (virtual_keys replicas n)" and ?h = "hashKey key"
  have u: "\<not> bLocked b" "\<not> bLocked c" using b(1) c by (simp_all add: ring_ok_def)
  note C = addNode_ring [OF u(1) assms(3,5), unfolded b(2)]
  have D: "map_of (bRing d) = ?B"
    using removeNode_ring [OF u(2) C(2) assms(6)] C(1,3) b(2) assms(4) by (auto simp: fun_eq_iff)
  have K: "finite (dom ?B)" "dom ?B \<noteq> {}" using assms(2) by (auto simp: finite_dom_map_of dom_map_of_conv_image_fst)
  have m: "?B (clockwise (dom ?B) ?h) = Some m"
    using assms(7) getNode_clockwise [OF b(1), of key] K clockwise_in [OF K, of ?h] by auto
  have "dom (map_of (bRing c)) = dom ?B \<union> ?N" unfolding C(1) by (auto split: if_splits)
  moreover consider "clockwise (dom ?B \<union> ?N) ?h \<in> ?N" | "clockwise (dom ?B \<union> ?N) ?h = clockwise (dom ?B) ?h"
    using clockwise_insert [OF K, of ?N ?h] by auto
  then have "the (map_of (bRing c) (clockwise (dom ?B \<union> ?N) ?h)) \<in> {m, n}"
    by cases (auto simp: C(1) m)
  ultimately have "getNode key c \<in> {Returned (Inr m) c, Returned (Inr n) c}"
    using getNode_clockwise [OF c, of key] K(2) by auto
  moreover have "getNode key d = Returned (Inr m) d"
    using getNode_clockwise [OF d, of key] K(2) D m by simp
  ultimately show ?thesis by blast
qed


section \<open>Examples\<close>

definition example_balance :: balance_config where
  "example_balance = \<lparr>bcCheckInterval = 30, bcDiskUsageThreshold = 80, bcLoadFactorThreshold = 1,
     bcHotFileThreshold = 5, bcEnableAutoBalance = True\<rparr>"

definition one_node :: "string \<Rightarrow> shard_status \<Rightarrow> balancer" where
  "one_node n s = (newConsistentHashBalancer example_balance 1)\<lparr>bNodes := [(n, Some s)],
     bRing := [(crc32 (n @ ''0''), n)], bSortedKeys := [crc32 (n @ ''0'')]\<rparr>"

lemma show_zero: "show_int (int 0) = ''0''"
  by code_simp

lemma add_one: "addNode n (newConsistentHashBalancer example_balance 1) = Returned () (one_node n (new_status n))"
  by (simp add: addNode_def locked_def newConsistentHashBalancer_def one_node_def virtual_keys_def hashKey_def
      sort_slice_def show_zero [simplified])

lemma one_balancing: "balancing example_balance 1 (one_node n (new_status n))"
  by (rule balancing.returns [OF balancing.fresh, of "Add n"]) (simp add: add_one)

lemma one_lookup: "getNode key (one_node n s) = Returned (Inr n) (one_node n s)"
  by (simp add: getNode_def locked_def one_node_def newConsistentHashBalancer_def Let_def sort_search.simps)

theorem ring_lookup_witness:
  "\<exists>m. getNode ''photo.jpg'' (one_node ''a'' (new_status ''a'')) = Returned (Inr m) (one_node ''a'' (new_status ''a'')) \<and>
     m = ''a''"
  using ring_lookup [OF one_balancing [of "''a''"], of "''photo.jpg''"]
  by (auto simp: one_node_def newConsistentHashBalancer_def split: if_splits)

lemma crc_rounds:
  "(crc_step ^^ 8) c = crc_step (crc_step (crc_step (crc_step (crc_step (crc_step (crc_step (crc_step c)))))))"
  by (simp add: numeral_eq_Suc)

lemma not_zero32: "NOT 0 = (0xFFFFFFFF :: 32 word)"
  by simp

lemmas crc_eval = crc32_def crc_byte_def crc_rounds crc_step_def not_zero32

text \<open>The check value of CRC-32, and two positions that differ.\<close>

lemma crc_check: "crc32 ''123456789'' = 0xCBF43926"
  by (simp add: crc_eval)

lemma crc_ab: "crc32 ''a0'' \<noteq> crc32 ''b0''"
  by (simp add: crc_eval)

theorem minimal_disruption_witness:
  "\<exists>c d. addNode ''b'' (one_node ''a'' (new_status ''a'')) = Returned () c \<and> removeNode ''b'' c = Returned () d \<and>
     getNode ''photo.jpg'' c \<in> {Returned (Inr ''a'') c, Returned (Inr ''b'') c} \<and>
     getNode ''photo.jpg'' d = Returned (Inr ''a'') d"
proof -
  let ?b = "one_node ''a'' (new_status ''a'')"
  have f: "map_of (bNodes ?b) ''b'' = None" "bRing ?b \<noteq> []" "\<not> bLocked ?b"
    by (simp_all add: one_node_def newConsistentHashBalancer_def)
  have ks: "virtual_keys 1 ''b'' = [crc32 ''b0'']"
    by (simp add: virtual_keys_def hashKey_def show_zero [simplified])
  obtain c where c: "addNode ''b'' ?b = Returned () c" "\<not> bLocked c"
    using f(1,3) by (auto simp: addNode_def locked_def Let_def)
  obtain d where d: "removeNode ''b'' c = Returned () d"
    using c(2) by (cases "map_of (bNodes c) ''b''") (auto simp: removeNode_def locked_def Let_def)
  have g: "getNode ''photo.jpg'' ?b = Returned (Inr ''a'') ?b"
    by (rule one_lookup)
  have "getNode ''photo.jpg'' c \<in> {Returned (Inr ''a'') c, Returned (Inr ''b'') c} \<and>
      getNode ''photo.jpg'' d = Returned (Inr ''a'') d"
    by (rule minimal_disruption [OF one_balancing f(2,1) _ c(1) d g])
      (use crc_ab in \<open>auto simp: ks one_node_def newConsistentHashBalancer_def\<close>)
  then show ?thesis using c(1) d by blast
qed

definition full_status :: shard_status where
  "full_status = \<lparr>ssNodeID = ''a'', ssShardCount = 3, ssDiskUsage = 91, ssLoadFactor = 0, ssIsOverloaded = False\<rparr>"


end
