(* ===== verification/ChunkStore.thy ===== *)
theory ChunkStore
  imports Disk
begin

text \<open>
  The local chunk store of \<open>pkg/storage/local_storage.go\<close>: one file per chunk in the data
  directory, written through a temporary file, and the disk usage that the node reports.
\<close>

section \<open>State\<close>

record storage_config =
  scNodeID :: string
  scAddress :: string
  scDiskQuota :: int
  scDataPath :: string
  scChunkSize :: int
  scHeartbeatTTL :: int

record node_status =
  nsNodeID :: string
  nsAddress :: string
  nsDiskUsage :: rat
  nsIsLeader :: bool
  nsIsHealth :: bool

record chunk_node = "(unit, unit) disk" +
  cnConfig :: storage_config
  cnIsRunning :: bool

datatype chunk_error =
    ErrInvalidChunkID
  | ErrChunkNotFound
  | ErrNodeIDRequired
  | ErrDataPathRequired
  | ErrWorkingDirectory
  | ErrHeartbeatRunning
  | ErrHeartbeatStopped
  | ChunkOSErr os_error

definition data_root :: "unit path" where
  "data_root = ((), [])"

definition newLocalStorageNode ::
  "storage_config \<Rightarrow> (unit, unit) disk \<Rightarrow> (chunk_error + chunk_node) \<times> (unit, unit) disk" where
  "newLocalStorageNode c d =
     (if scNodeID c = '''' then (Inl ErrNodeIDRequired, d)
      else if scDataPath c = '''' then (Inl ErrDataPathRequired, d)
      else (case os_mkdir_all data_root d of
          (Inl e, d) \<Rightarrow> (Inl (ChunkOSErr e), d)
        | (Inr _, d) \<Rightarrow>
            (let c = (if scChunkSize c = 0 then c\<lparr>scChunkSize := 4194304\<rparr> else c);
                 c = (if scHeartbeatTTL c = 0 then c\<lparr>scHeartbeatTTL := 3\<rparr> else c)
             in (Inr \<lparr>entries = entries d, script = script d, cnConfig = c, cnIsRunning = False\<rparr>, d))))"

section \<open>Chunk names\<close>

definition chunk_char :: "char \<Rightarrow> bool" where
  "chunk_char c \<longleftrightarrow> upper_char c \<in> set ''ABCDEFGHIJKLMNOPQRSTUVWXYZ0123456789_-''"

definition validChunkID :: "string \<Rightarrow> bool" where
  "validChunkID i \<longleftrightarrow> i \<noteq> '''' \<and> list_all chunk_char i"

text \<open>The file of a chunk. \<open>filepath.Abs\<close> of a relative path fails when the working directory is
  gone (\<open>cwd\<close> is false); \<open>filepath.Rel (base, filepath.Join (base, i))\<close> is \<open>i\<close> for a plain name.\<close>

definition chunkPath :: "bool \<Rightarrow> string \<Rightarrow> chunk_node \<Rightarrow> chunk_error + unit path" where
  "chunkPath cwd i n =
     (if \<not> validChunkID i then Inl ErrInvalidChunkID
      else if \<not> cwd \<and> \<not> prefix ''/'' (scDataPath (cnConfig n)) then Inl ErrWorkingDirectory
      else let rel = i in
        if rel = ''.'' \<or> rel = ''..'' \<or> prefix ''/'' rel \<or> 3 \<le> length rel \<and> take 3 rel = ''../''
        then Inl ErrInvalidChunkID else Inr (child data_root rel))"

definition tmp_path :: "unit path \<Rightarrow> unit path" where
  "tmp_path p = (fst p, butlast (snd p) @ [last (snd p) @ ''.tmp''])"

section \<open>Operations\<close>

text \<open>The deferred \<open>Close\<close> of a file whose result is ignored, and \<open>os.Remove\<close> on an error path.\<close>

definition closing :: "'r \<times> chunk_node \<Rightarrow> 'r \<times> chunk_node" where
  "closing m = (case m of (r, n) \<Rightarrow> (r, snd (os_close n)))"

definition discard :: "unit path \<Rightarrow> chunk_node \<Rightarrow> chunk_node" where
  "discard p n = snd (os_remove p n)"

definition writeChunk :: "bool \<Rightarrow> string \<Rightarrow> bytes \<Rightarrow> chunk_node \<Rightarrow> (chunk_error + unit) \<times> chunk_node" where
  "writeChunk cwd i data n =
     (case chunkPath cwd i n of Inl e \<Rightarrow> (Inl e, n) | Inr p \<Rightarrow>
     (case os_mkdir_all (parent p) n of
        (Inl e, n) \<Rightarrow> (Inl (ChunkOSErr e), n)
      | (Inr _, n) \<Rightarrow>
     (case os_create (tmp_path p) n of
        (Inl e, n) \<Rightarrow> (Inl (ChunkOSErr e), n)
      | (Inr _, n) \<Rightarrow> closing
     (case os_write (tmp_path p) (Blob data) n of
        (Inl e, n) \<Rightarrow> (Inl (ChunkOSErr e), discard (tmp_path p) n)
      | (Inr _, n) \<Rightarrow>
     (case os_sync n of
        (Inl e, n) \<Rightarrow> (Inl (ChunkOSErr e), discard (tmp_path p) n)
      | (Inr _, n) \<Rightarrow>
     (case os_rename (tmp_path p) p n of
        (Inl e, n) \<Rightarrow> (Inl (ChunkOSErr e), discard (tmp_path p) n)
      | (Inr _, n) \<Rightarrow> (Inr (), n)))))))"

text \<open>\<open>io.ReadFull\<close> into an empty buffer reads nothing.\<close>

definition readChunk :: "bool \<Rightarrow> string \<Rightarrow> chunk_node \<Rightarrow> (chunk_error + bytes) \<times> chunk_node" where
  "readChunk cwd i n =
     (case chunkPath cwd i n of Inl e \<Rightarrow> (Inl e, n) | Inr p \<Rightarrow>
     (case os_open p n of
        (Inl e, n) \<Rightarrow> (Inl (if e = ENOENT then ErrChunkNotFound else ChunkOSErr e), n)
      | (Inr _, n) \<Rightarrow> closing
     (case os_stat p n of
        (Inl e, n) \<Rightarrow> (Inl (ChunkOSErr e), n)
      | (Inr node, n) \<Rightarrow>
     (if node \<noteq> NDir \<and> inode_size node = 0 then (Inr [], n)
      else case os_read_file p n of
        (Inl e, n) \<Rightarrow> (Inl (ChunkOSErr e), n)
      | (Inr c, n) \<Rightarrow> (Inr (blob_of (Some (NFile c))), n)))))"

definition deleteChunk :: "bool \<Rightarrow> string \<Rightarrow> chunk_node \<Rightarrow> (chunk_error + unit) \<times> chunk_node" where
  "deleteChunk cwd i n =
     (case chunkPath cwd i n of Inl e \<Rightarrow> (Inl e, n) | Inr p \<Rightarrow>
     (case os_remove p n of
        (Inl e, n) \<Rightarrow> (if e \<noteq> ENOENT then (Inl (ChunkOSErr e), n) else (Inr (), n))
      | (Inr _, n) \<Rightarrow> (Inr (), n)))"

section \<open>Disk usage\<close>

text \<open>What \<open>statfs\<close> reports, blocks, free blocks and block size, or its error.\<close>

type_synonym statfs = "os_error + 64 word \<times> 64 word \<times> 64 word"

definition walk_size :: "chunk_node \<Rightarrow> 64 word" where
  "walk_size n = sum_list (map (\<lambda>(p, node). if node = NDir then 0 else of_int (inode_size node)) (entries n))"

definition getUsedBlocks :: "statfs \<Rightarrow> chunk_node \<Rightarrow> 64 word" where
  "getUsedBlocks st n =
     (case st of
        Inl e \<Rightarrow> 0
      | Inr (blocks, bfree, blockSize) \<Rightarrow>
          if blockSize = 0 then 0 else (walk_size n + blockSize - 1) div blockSize)"

text \<open>The two system calls may answer differently. A zero block size panics (\<open>None\<close>).\<close>

definition getDiskUsage :: "statfs \<Rightarrow> statfs \<Rightarrow> chunk_node \<Rightarrow> (chunk_error + rat) option" where
  "getDiskUsage st st2 n =
     (case st of
        Inl e \<Rightarrow> Some (Inl (ChunkOSErr e))
      | Inr (blocks, bfree, bsize) \<Rightarrow>
          (let quota = scDiskQuota (cnConfig n) in
           if 0 < quota \<and> bsize = 0 then None else
           let quotaBlocks = of_int quota div bsize;
               limited = (0 < quota \<and> quotaBlocks < blocks);
               totalBlocks = (if limited then quotaBlocks else blocks);
               usedBlocks = getUsedBlocks st2 n;
               freeBlocks = (if limited then if usedBlocks < quotaBlocks then quotaBlocks - usedBlocks else 0
                 else bfree)
           in if totalBlocks = 0 then Some (Inr 0)
              else Some (Inr (f64 (f64 (f64 (of_int (uint (totalBlocks - freeBlocks))) / f64 (of_int (uint totalBlocks))) * 100)))))"

definition getStatus :: "statfs \<Rightarrow> statfs \<Rightarrow> chunk_node \<Rightarrow> (chunk_error + node_status) option" where
  "getStatus st st2 n =
     map_option (map_sum id (\<lambda>usage. \<lparr>nsNodeID = scNodeID (cnConfig n), nsAddress = scAddress (cnConfig n),
       nsDiskUsage = usage, nsIsLeader = False, nsIsHealth = True\<rparr>)) (getDiskUsage st st2 n)"

section \<open>Heartbeat\<close>

text \<open>The routine started here only logs the status; a ticker with a period that is not positive
  panics in it.\<close>

definition startHeartbeat :: "chunk_node \<Rightarrow> (chunk_error + unit) \<times> chunk_node" where
  "startHeartbeat n =
     (if cnIsRunning n then (Inl ErrHeartbeatRunning, n) else (Inr (), n\<lparr>cnIsRunning := True\<rparr>))"

definition stopHeartbeat :: "chunk_node \<Rightarrow> (chunk_error + unit) \<times> chunk_node" where
  "stopHeartbeat n =
     (if \<not> cnIsRunning n then (Inl ErrHeartbeatStopped, n) else (Inr (), n\<lparr>cnIsRunning := False\<rparr>))"

section \<open>Chunks are written atomically\<close>

lemma chunk_no_dot: "list_all chunk_char i \<Longrightarrow> CHR ''.'' \<notin> set i \<and> CHR ''/'' \<notin> set i"
proof -
  have "\<not> chunk_char (CHR ''.'')" "\<not> chunk_char (CHR ''/'')" by code_simp+
  then show "list_all chunk_char i \<Longrightarrow> CHR ''.'' \<notin> set i \<and> CHR ''/'' \<notin> set i"
    by (auto simp: list_all_iff)
qed

lemma chunkPath_cases:
  "chunkPath cwd i n = (if \<not> validChunkID i then Inl ErrInvalidChunkID
     else if \<not> cwd \<and> \<not> prefix ''/'' (scDataPath (cnConfig n)) then Inl ErrWorkingDirectory
     else Inr ((), [i]))"
proof -
  have "i \<noteq> ''.'' \<and> i \<noteq> ''..'' \<and> \<not> prefix ''/'' i \<and> \<not> (3 \<le> length i \<and> take 3 i = ''../'')" if "validChunkID i"
  proof -
    have d: "CHR ''.'' \<notin> set i" "CHR ''/'' \<notin> set i" using chunk_no_dot that by (auto simp: validChunkID_def)
    have "take 3 i \<noteq> ''../''" using d(1) set_take_subset [of 3 i] by auto
    then show ?thesis using d by (auto simp: prefix_def)
  qed
  then show ?thesis by (auto simp: chunkPath_def data_root_def Let_def)
qed

lemma mkdir_root_effect:
  assumes "os_mkdir_all ((), []) n = (r, m)"
  shows "\<forall>q. q \<noteq> ((), []) \<longrightarrow> look m q = look n q"
proof -
  have e: "entries (snd (tick n)) = entries n" by (simp add: tick_def split: list.split)
  show ?thesis
    using assms e
    by (auto simp: os_mkdir_all_def syscall_def look_def AList.update_conv split: prod.splits option.splits sum.splits inode.splits)
qed

lemma discard_effect:
  assumes "look n p = Some (NFile c)"
  shows "\<exists>sc. discard p n = n\<lparr>script := sc\<rparr> \<or> discard p n = (del_entry p n)\<lparr>script := sc\<rparr>"
proof -
  obtain r t where t: "os_remove p n = (r, t)" by fastforce
  then show ?thesis using os_effects(8) [OF assms t] by (cases r) (auto simp: discard_def)
qed

lemma closing_effect: "\<exists>sc. closing (r, n) = (r, n\<lparr>script := sc\<rparr>)"
proof -
  obtain x t where t: "os_close n = (x, t)" by fastforce
  then show ?thesis using os_effects(4) [OF t] by (auto simp: closing_def)
qed

text \<open>What a write leaves: nothing changes but the temporary file and, all at once, the chunk.\<close>

definition write_left :: "unit path \<Rightarrow> bytes \<Rightarrow> chunk_error + unit \<Rightarrow> chunk_node \<Rightarrow> chunk_node \<Rightarrow> bool" where
  "write_left p data r n m \<longleftrightarrow>
     (\<forall>q. q \<noteq> ((), []) \<longrightarrow> q \<noteq> tmp_path p \<longrightarrow> q \<noteq> p \<longrightarrow> look m q = look n q) \<and>
     (look m p = look n p \<or> look m p = Some (NFile (Blob data))) \<and>
     (r = Inr () \<longrightarrow> look m p = Some (NFile (Blob data)))"

lemma write_left_fail:
  assumes "\<forall>q. q \<noteq> ((), []) \<longrightarrow> q \<noteq> tmp_path p \<longrightarrow> look m q = look n q" "p \<noteq> ((), [])" "tmp_path p \<noteq> p"
  shows "write_left p data (Inl e) n m"
  using assms by (auto simp: write_left_def simp del: split_paired_All)

lemma writeChunk_effect:
  assumes "writeChunk cwd i data n = (r, m)" "chunkPath cwd i n = Inr p"
  shows "write_left p data r n m"
proof -
  have p: "p = ((), [i])" using assms(2) by (auto simp: chunkPath_cases split: if_splits)
  let ?t = "((), [i @ ''.tmp''])"
  have t: "tmp_path p = ?t" "parent p = ((), [])" "?t \<noteq> p" by (auto simp: p tmp_path_def)
  note fail = write_left_fail [where p = p and n = n and data = data, unfolded t, OF _ _ t(3)]
  obtain x1 n1 where 1: "os_mkdir_all ((), []) n = (x1, n1)" by fastforce
  have o1: "\<forall>q. q \<noteq> ((), []) \<longrightarrow> look n1 q = look n q" by (rule mkdir_root_effect [OF 1])
  show ?thesis
  proof (cases x1)
    case (Inl e)
    then show ?thesis using assms 1 o1 fail t by (auto simp: writeChunk_def p)
  next
    case x1: (Inr u1)
    obtain x2 n2 where 2: "os_create ?t n1 = (x2, n2)" by fastforce
    show ?thesis
    proof (cases x2)
      case (Inl e)
      have "look n2 = look n1" using os_effects(10) [OF 2] Inl by auto
      then show ?thesis using assms 1 2 x1 Inl o1 fail t by (auto simp: writeChunk_def p)
    next
      case x2: (Inr u2)
      have l2: "look n2 = (look n1)(?t \<mapsto> NFile (Blob []))" using os_effects(10) [OF 2] x2 by auto
      obtain x3 n3 where 3: "os_write ?t (Blob data) n2 = (x3, n3)" by fastforce
      obtain c where l3: "look n3 = (look n1)(?t \<mapsto> NFile c)" "x3 = Inr () \<longrightarrow> c = Blob data"
        using os_effects(6) [OF 3] l2 by auto
      have drop: "\<forall>q. q \<noteq> ((), []) \<longrightarrow> q \<noteq> ?t \<longrightarrow> look (snd (closing (Inl e :: chunk_error + unit, discard ?t k))) q = look n q"
        if k: "look k = (look n1)(?t \<mapsto> NFile c)" for k and e :: chunk_error
      proof -
        obtain sc where "discard ?t k = k\<lparr>script := sc\<rparr> \<or> discard ?t k = (del_entry ?t k)\<lparr>script := sc\<rparr>"
          using discard_effect [of k ?t c] k by auto
        moreover obtain sc2 where
            "snd (closing (Inl e :: chunk_error + unit, discard ?t k)) = (discard ?t k)\<lparr>script := sc2\<rparr>"
          using closing_effect [of "Inl e :: chunk_error + unit" "discard ?t k"] by auto
        ultimately have "look (snd (closing (Inl e :: chunk_error + unit, discard ?t k))) q = look k q" if "q \<noteq> ?t" for q
          using that by auto
        then show ?thesis using k o1 by simp
      qed
      have failed: "write_left p data r n m" if "(r, m) = closing (Inl e, discard ?t k)"
        "look k = (look n1)(?t \<mapsto> NFile c)" for e k
      proof -
        have "r = Inl e" using that(1) closing_effect [of "Inl e :: chunk_error + unit" "discard ?t k"] by auto
        then show ?thesis using drop [OF that(2), of e] that(1) fail [of m e] by (metis p prod.inject snd_conv list.distinct(1))
      qed
      show ?thesis
      proof (cases x3)
        case (Inl e)
        then show ?thesis using assms 1 2 3 x1 x2 t l3 by (intro failed [of "ChunkOSErr e" n3]) (auto simp: writeChunk_def p)
      next
        case x3: (Inr u3)
        obtain x4 n4 where 4: "os_sync n3 = (x4, n4)" by fastforce
        have l4: "look n4 = look n3" using os_effects(3) [OF 4] by auto
        show ?thesis
        proof (cases x4)
          case (Inl e)
          then show ?thesis using assms 1 2 3 4 x1 x2 x3 t l3 l4
            by (intro failed [of "ChunkOSErr e" n4]) (auto simp: writeChunk_def p)
        next
          case x4: (Inr u4)
          obtain x5 n5 where 5: "os_rename ?t ((), [i]) n4 = (x5, n5)" by fastforce
          have c: "look n4 ?t = Some (NFile (Blob data))" using l3 l4 x3 by simp
          note e5 = os_effects(7) [OF c 5]
          show ?thesis
          proof (cases x5)
            case (Inl e)
            then have "look n5 = look n4" using e5 by auto
            then show ?thesis using Inl assms 1 2 3 4 5 x1 x2 x3 x4 t l3 l4
              by (intro failed [of "ChunkOSErr e" n5]) (auto simp: writeChunk_def p)
          next
            case x5: (Inr u5)
            then have l5: "look n5 = ((look n4)(?t := None))(p \<mapsto> NFile (Blob data))" using e5 p by auto
            have "(r, m) = closing (Inr (), n5)"
              using assms 1 2 3 4 5 x1 x2 x3 x4 x5 t by (auto simp: writeChunk_def p)
            then have "r = Inr ()" "look m = look n5" using closing_effect [of "Inr () :: chunk_error + unit" n5] by auto
            then show ?thesis using l5 l4 l3(1) o1 t by (auto simp: write_left_def)
          qed
        qed
      qed
    qed
  qed
qed

lemma same_rest_tidy [rest_intros]:
  "same_rest n (snd m) \<Longrightarrow> same_rest n (snd (closing m))"
  "same_rest n k \<Longrightarrow> same_rest n (discard p k)"
  unfolding closing_def discard_def by (cases m) (simp_all add: rest_intros)

lemma writeChunk_config: "writeChunk cwd i data n = (r, m) \<Longrightarrow> cnConfig m = cnConfig n"
proof -
  have "same_rest n (snd (writeChunk cwd i data n))"
    unfolding writeChunk_def by (intro rest_intros)
  then show "writeChunk cwd i data n = (r, m) \<Longrightarrow> cnConfig m = cnConfig n"
    by (cases m; cases n) (simp add: same_rest_def)
qed

text \<open>C31. Writing a chunk is atomic whatever fails and wherever the node crashes: no other chunk changes,
  the chunk itself keeps its old contents or has all the new ones, and after success it reads back
  exactly. A name that is no chunk identifier touches nothing.\<close>

theorem chunk_write_atomic:
  assumes "writeChunk cwd i data n = (r, m)"
  shows "(\<forall>j. validChunkID j \<and> j \<noteq> i \<longrightarrow> look m ((), [j]) = look n ((), [j])) \<and>
    (look m ((), [i]) = look n ((), [i]) \<or> look m ((), [i]) = Some (NFile (Blob data))) \<and>
    (\<not> validChunkID i \<longrightarrow> r = Inl ErrInvalidChunkID \<and> m = n) \<and>
    (r = Inr () \<longrightarrow> validChunkID i \<and>
      readChunk cwd i (m\<lparr>script := []\<rparr>) = (Inr data, m\<lparr>script := []\<rparr>))"
proof (cases "chunkPath cwd i n")
  case (Inl e)
  then have "r = Inl e" "m = n" using assms by (auto simp: writeChunk_def)
  then show ?thesis using Inl by (auto simp: chunkPath_cases split: if_splits)
next
  case (Inr p)
  then have p: "p = ((), [i])" "validChunkID i" "cwd \<or> prefix ''/'' (scDataPath (cnConfig n))"
    by (auto simp: chunkPath_cases split: if_splits)
  have w: "write_left ((), [i]) data r n m" using writeChunk_effect [OF assms Inr] p(1) by simp
  have "j \<noteq> i @ ''.tmp''" if "validChunkID j" for j
    using chunk_no_dot [of j] that by (auto simp: validChunkID_def)
  moreover have "readChunk cwd i (m\<lparr>script := []\<rparr>) = (Inr data, m\<lparr>script := []\<rparr>)"
    if "r = Inr ()"
  proof -
    have l: "look (m\<lparr>script := []\<rparr>) ((), [i]) = Some (NFile (Blob data))"
      using w that by (simp add: write_left_def look_def)
    then show ?thesis using p writeChunk_config [OF assms]
      by (simp add: readChunk_def chunkPath_cases closing_def os_open_calm os_stat_calm os_read_file_calm os_close_calm)
  qed
  ultimately show ?thesis using w p(2) by (auto simp: write_left_def tmp_path_def)
qed

definition example_node :: chunk_node where
  "example_node = \<lparr>entries = [(data_root, NDir)], script = [],
     cnConfig = \<lparr>scNodeID = ''n1'', scAddress = '''', scDiskQuota = 0, scDataPath = ''/data'', scChunkSize = 4194304,
       scHeartbeatTTL = 3\<rparr>, cnIsRunning = False\<rparr>"

theorem chunk_write_atomic_witness:
  "\<exists>m. writeChunk True ''c-1'' ''xyz'' example_node = (Inr (), m) \<and>
     readChunk True ''c-1'' (m\<lparr>script := []\<rparr>) = (Inr ''xyz'', m\<lparr>script := []\<rparr>)"
proof -
  obtain r m where w: "writeChunk True ''c-1'' ''xyz'' example_node = (r, m)" by fastforce
  have "fst (writeChunk True ''c-1'' ''xyz'' example_node) = Inr ()" by code_simp
  then have "r = Inr ()" using w by simp
  then show ?thesis using chunk_write_atomic [OF w] w by auto
qed

end
