(* ===== verification/Auth.thy ===== *)
theory Auth
  imports Prelude
begin

text \<open>
  The authentication library of \<open>pkg/auth/auth.go\<close>: users with passwords, signed tokens and
  permissions per user and resource. The JWT library is a parameter; a failed type assertion or a
  nil dereference is a panic, written \<open>None\<close>.
\<close>

section \<open>Users, roles and permissions\<close>

datatype auth_error =
    ErrInvalidCredentials
  | ErrInvalidToken
  | ErrExpiredToken
  | ErrUserNotFound
  | ErrUserExists
  | ErrSigning

definition AdminRole :: string where "AdminRole = ''admin''"
definition OperatorRole :: string where "OperatorRole = ''operator''"
definition UserRole :: string where "UserRole = ''user''"
definition GuestRole :: string where "GuestRole = ''guest''"

definition ReadPermission :: string where "ReadPermission = ''read''"
definition WritePermission :: string where "WritePermission = ''write''"
definition DeletePermission :: string where "DeletePermission = ''delete''"
definition AdminPermission :: string where "AdminPermission = ''admin''"

record account =
  acID :: string
  acUsername :: string
  acEmail :: string
  acRole :: string
  acCreatedAt :: time
  acUpdatedAt :: time

record auth_config =
  auSecretKey :: string
  auTokenExpiry :: int
  auRefreshExpiry :: int
  auTokenIssuer :: string
  auTokenAudience :: string

record authenticator =
  atConfig :: auth_config
  atUserDB :: "(string \<times> account) list"
  atPasswordDB :: "(string \<times> string) list"

definition newJWTAuthenticator :: "auth_config \<Rightarrow> authenticator" where
  "newJWTAuthenticator c =
     (let c = (if auTokenExpiry c = 0 then c\<lparr>auTokenExpiry := 86400000000000\<rparr> else c);
          c = (if auRefreshExpiry c = 0 then c\<lparr>auRefreshExpiry := 604800000000000\<rparr> else c)
      in \<lparr>atConfig = c, atUserDB = [], atPasswordDB = []\<rparr>)"

definition registerUser :: "account \<Rightarrow> string \<Rightarrow> authenticator \<Rightarrow> (auth_error + unit) \<times> authenticator" where
  "registerUser u password a =
     (if map_of (atUserDB a) (acUsername u) \<noteq> None then (Inl ErrUserExists, a)
      else (Inr (), a\<lparr>atUserDB := AList.update (acUsername u) u (atUserDB a),
        atPasswordDB := AList.update (acUsername u) password (atPasswordDB a)\<rparr>))"

text \<open>A missing password reads as the empty string.\<close>

definition authenticateUser :: "string \<Rightarrow> string \<Rightarrow> authenticator \<Rightarrow> auth_error + account" where
  "authenticateUser username password a =
     (case map_of (atUserDB a) username of
        None \<Rightarrow> Inl ErrUserNotFound
      | Some u \<Rightarrow>
          if (case map_of (atPasswordDB a) username of None \<Rightarrow> '''' | Some p \<Rightarrow> p) \<noteq> password
          then Inl ErrInvalidCredentials else Inr u)"

section \<open>Tokens\<close>

text \<open>The parts of the JWT library that the code uses. A key function maps the signing method of a
  token to the key or refuses it. \<open>jwParse\<close> checks signature and times at a Unix time.\<close>

datatype signing_method = SigningMethodHMAC string | OtherMethod string

datatype claim_value = ClaimString string | ClaimNumber int

type_synonym claims = "(string \<times> claim_value) list"

datatype parse_error = ValidationError bool | OtherParseError

record jwt_token =
  jtValid :: bool
  jtClaims :: "claims option"

record 'tok jwt =
  jwSign :: "signing_method \<Rightarrow> claims \<Rightarrow> string \<Rightarrow> string + 'tok"
  jwParse :: "(signing_method \<Rightarrow> string + string) \<Rightarrow> int \<Rightarrow> 'tok \<Rightarrow> parse_error + jwt_token"

definition token_claims :: "auth_config \<Rightarrow> time \<Rightarrow> account \<Rightarrow> claims" where
  "token_claims c now u =
     [(''sub'', ClaimString (acID u)), (''iss'', ClaimString (auTokenIssuer c)),
      (''aud'', ClaimString (auTokenAudience c)),
      (''exp'', ClaimNumber ((now + auTokenExpiry c) div 1000000000)),
      (''iat'', ClaimNumber (now div 1000000000)), (''nbf'', ClaimNumber (now div 1000000000)),
      (''username'', ClaimString (acUsername u)), (''email'', ClaimString (acEmail u)),
      (''role'', ClaimString (acRole u))]"

text \<open>The argument is a pointer: a nil user panics.\<close>

definition generateToken ::
  "'tok jwt \<Rightarrow> time \<Rightarrow> account option \<Rightarrow> authenticator \<Rightarrow> (auth_error + 'tok) option" where
  "generateToken J now user a =
     (case user of None \<Rightarrow> None
      | Some u \<Rightarrow> Some (map_sum (\<lambda>e. ErrSigning) id
          (jwSign J (SigningMethodHMAC ''HS256'') (token_claims (atConfig a) now u) (auSecretKey (atConfig a)))))"

definition key_function :: "auth_config \<Rightarrow> signing_method \<Rightarrow> string + string" where
  "key_function c meth =
     (case meth of SigningMethodHMAC alg \<Rightarrow> Inr (auSecretKey c)
      | OtherMethod alg \<Rightarrow> Inl ''unexpected signing method'')"

definition string_claim :: "claims \<Rightarrow> string \<Rightarrow> string option" where
  "string_claim cs k = (case map_of cs k of Some (ClaimString s) \<Rightarrow> Some s | _ \<Rightarrow> None)"

definition validateToken :: "'tok jwt \<Rightarrow> int \<Rightarrow> 'tok \<Rightarrow> authenticator \<Rightarrow> (auth_error + account) option" where
  "validateToken J unix t a =
     (case jwParse J (key_function (atConfig a)) unix t of
        Inl (ValidationError expired) \<Rightarrow> Some (Inl (if expired then ErrExpiredToken else ErrInvalidToken))
      | Inl OtherParseError \<Rightarrow> Some (Inl ErrInvalidToken)
      | Inr token \<Rightarrow>
          if \<not> jtValid token then Some (Inl ErrInvalidToken)
          else (case jtClaims token of
              None \<Rightarrow> Some (Inl ErrInvalidToken)
            | Some cs \<Rightarrow>
                (case (string_claim cs ''sub'', string_claim cs ''username'', string_claim cs ''email'',
                       string_claim cs ''role'') of
                   (Some i, Some n, Some e, Some r) \<Rightarrow>
                     Some (Inr \<lparr>acID = i, acUsername = n, acEmail = e, acRole = r, acCreatedAt = 0, acUpdatedAt = 0\<rparr>)
                 | _ \<Rightarrow> None)))"

definition refreshToken ::
  "'tok jwt \<Rightarrow> time \<Rightarrow> 'tok \<Rightarrow> authenticator \<Rightarrow> (auth_error + 'tok) option" where
  "refreshToken J now t a =
     (case validateToken J (now div 1000000000) t a of
        None \<Rightarrow> None
      | Some (Inl e) \<Rightarrow> if e \<noteq> ErrExpiredToken then Some (Inl e) else generateToken J now None a
      | Some (Inr u) \<Rightarrow> generateToken J now (Some u) a)"

text \<open>The documented behaviour of the library: signing with HMAC succeeds; a token signed under the
  key that the key function gives is accepted with its claims from its \<open>nbf\<close> and \<open>iat\<close> to before its
  \<open>exp\<close>, and is reported expired from then on; a token of a method that the key function refuses does
  not verify.\<close>

definition number_claim :: "claims \<Rightarrow> string \<Rightarrow> int" where
  "number_claim cs k = (case map_of cs k of Some (ClaimNumber n) \<Rightarrow> n | _ \<Rightarrow> 0)"

definition jwt_documented :: "'tok jwt \<Rightarrow> bool" where
  "jwt_documented J \<longleftrightarrow>
     (\<forall>cs key alg. \<exists>t. jwSign J (SigningMethodHMAC alg) cs key = Inr t \<and>
       (\<forall>kf unix. kf (SigningMethodHMAC alg) = Inr key \<longrightarrow> number_claim cs ''nbf'' \<le> unix \<longrightarrow> number_claim cs ''iat'' \<le> unix \<longrightarrow>
          jwParse J kf unix t =
            (if unix < number_claim cs ''exp'' then Inr \<lparr>jtValid = True, jtClaims = Some cs\<rparr>
             else Inl (ValidationError True)))) \<and>
     (\<forall>meth cs key t kf e unix. jwSign J meth cs key = Inr t \<longrightarrow> kf meth = Inl e \<longrightarrow>
        jwParse J kf unix t = Inl (ValidationError False))"

section \<open>Permissions\<close>

type_synonym permissions = "(string \<times> (string \<times> string list) list) list"

definition newSimpleAuthorizer :: permissions where
  "newSimpleAuthorizer = []"

definition resource_permissions :: "permissions \<Rightarrow> string \<Rightarrow> string \<Rightarrow> string list" where
  "resource_permissions a i r =
     (case map_of a i of None \<Rightarrow> [] | Some m \<Rightarrow> (case map_of m r of None \<Rightarrow> [] | Some ps \<Rightarrow> ps))"

definition role_allows :: "string \<Rightarrow> string \<Rightarrow> string \<Rightarrow> bool" where
  "role_allows role permission resource \<longleftrightarrow>
     (if role = OperatorRole then permission = ReadPermission \<or> permission = WritePermission
      else if role = UserRole then permission = ReadPermission
      else if role = GuestRole then permission = ReadPermission \<and> (resource = ''public'' \<or> resource = ''docs'')
      else False)"

definition checkPermission :: "account \<Rightarrow> string \<Rightarrow> string \<Rightarrow> permissions \<Rightarrow> bool" where
  "checkPermission u permission resource a \<longleftrightarrow>
     acRole u = AdminRole \<or>
     list_ex (\<lambda>p. p = permission \<or> p = AdminPermission) (resource_permissions a (acID u) resource) \<or>
     role_allows (acRole u) permission resource"

definition getPermissions :: "account \<Rightarrow> permissions \<Rightarrow> (string \<times> string list) list" where
  "getPermissions u a = (case map_of a (acID u) of Some m \<Rightarrow> m | None \<Rightarrow> [])"

definition grantPermission :: "account \<Rightarrow> string \<Rightarrow> string \<Rightarrow> permissions \<Rightarrow> permissions" where
  "grantPermission u permission resource a =
     (let a = (if map_of a (acID u) = None then AList.update (acID u) [] a else a);
          m = the (map_of a (acID u));
          m = (if map_of m resource = None then AList.update resource [] m else m);
          ps = the (map_of m resource)
      in if permission \<in> set ps then AList.update (acID u) m a
         else AList.update (acID u) (AList.update resource (ps @ [permission]) m) a)"

text \<open>\<open>append (perms[:i], perms[i+1:]...)\<close> at the first occurrence.\<close>

fun drop_first :: "string \<Rightarrow> string list \<Rightarrow> string list" where
  "drop_first p [] = []"
| "drop_first p (q # qs) = (if q = p then qs else q # drop_first p qs)"

definition revokePermission :: "account \<Rightarrow> string \<Rightarrow> string \<Rightarrow> permissions \<Rightarrow> permissions" where
  "revokePermission u permission resource a =
     (case map_of a (acID u) of
        None \<Rightarrow> a
      | Some m \<Rightarrow>
          (case map_of m resource of
             None \<Rightarrow> a
           | Some ps \<Rightarrow> AList.update (acID u) (AList.update resource (drop_first permission ps) m) a))"

section \<open>Access follows the last decision\<close>

datatype decision = Grant account string string | Revoke account string string

fun decide :: "decision \<Rightarrow> permissions \<Rightarrow> permissions" where
  "decide (Grant u p r) a = grantPermission u p r a"
| "decide (Revoke u p r) a = revokePermission u p r a"

text \<open>The specification: whether the last decision about a permission granted it.\<close>

fun holds_after :: "string \<Rightarrow> string \<Rightarrow> string \<Rightarrow> bool \<Rightarrow> decision list \<Rightarrow> bool" where
  "holds_after i r p g [] = g"
| "holds_after i r p g (Grant u q s # ds) = holds_after i r p (g \<or> acID u = i \<and> s = r \<and> q = p) ds"
| "holds_after i r p g (Revoke u q s # ds) = holds_after i r p (g \<and> \<not> (acID u = i \<and> s = r \<and> q = p)) ds"

lemma resource_permissions_grant:
  "resource_permissions (grantPermission u p r a) i s =
    (if acID u = i \<and> s = r \<and> p \<notin> set (resource_permissions a i s) then resource_permissions a i s @ [p]
     else resource_permissions a i s)"
  by (auto simp: grantPermission_def resource_permissions_def Let_def AList.update_conv' split: option.split)

lemma resource_permissions_revoke:
  "resource_permissions (revokePermission u p r a) i s =
    (if acID u = i \<and> s = r then drop_first p (resource_permissions a i s) else resource_permissions a i s)"
  by (auto simp: revokePermission_def resource_permissions_def AList.update_conv' split: option.split)

lemma drop_first_set: "distinct ps \<Longrightarrow> set (drop_first p ps) = set ps - {p} \<and> distinct (drop_first p ps)"
  by (induction ps) auto

lemma decisions_hold:
  assumes "\<And>i r. distinct (resource_permissions a i r)"
  shows "p \<in> set (resource_permissions (fold decide ds a) i r) \<longleftrightarrow>
    holds_after i r p (p \<in> set (resource_permissions a i r)) ds"
  using assms
proof (induction ds arbitrary: a)
  case (Cons d ds)
  show ?case
  proof (cases d)
    case (Grant u q s)
    have "distinct (resource_permissions (grantPermission u q s a) j t)" for j t
      using Cons.prems by (auto simp: resource_permissions_grant)
    from Cons.IH [OF this]
    have "p \<in> set (resource_permissions (fold decide (d # ds) a) i r) \<longleftrightarrow>
      holds_after i r p (p \<in> set (resource_permissions (grantPermission u q s a) i r)) ds"
      by (simp add: Grant)
    moreover have "p \<in> set (resource_permissions (grantPermission u q s a) i r) \<longleftrightarrow>
      p \<in> set (resource_permissions a i r) \<or> acID u = i \<and> s = r \<and> q = p"
      by (auto simp: resource_permissions_grant)
    ultimately show ?thesis using Grant by simp
  next
    case (Revoke u q s)
    have "distinct (resource_permissions (revokePermission u q s a) j t)" for j t
      using Cons.prems drop_first_set by (simp add: resource_permissions_revoke)
    from Cons.IH [OF this]
    have "p \<in> set (resource_permissions (fold decide (d # ds) a) i r) \<longleftrightarrow>
      holds_after i r p (p \<in> set (resource_permissions (revokePermission u q s a) i r)) ds"
      by (simp add: Revoke)
    moreover have "p \<in> set (resource_permissions (revokePermission u q s a) i r) \<longleftrightarrow>
      p \<in> set (resource_permissions a i r) \<and> \<not> (acID u = i \<and> s = r \<and> q = p)"
      using drop_first_set [OF Cons.prems] by (auto simp: resource_permissions_revoke)
    ultimately show ?thesis using Revoke by simp
  qed
qed simp

text \<open>C32. After any sequence of grants and revocations, access is decided by the last decision: a user may
  do something to a resource if and only if the user is an administrator, or the permission itself
  or the administrative one was granted on that resource to that user and not revoked since, or the
  role allows it by default.\<close>

theorem access_follows_decisions:
  "checkPermission u p r (fold decide ds newSimpleAuthorizer) \<longleftrightarrow>
     acRole u = AdminRole \<or> holds_after (acID u) r p False ds \<or>
     holds_after (acID u) r AdminPermission False ds \<or> role_allows (acRole u) p r"
proof -
  have e: "resource_permissions newSimpleAuthorizer i s = []" for i s
    by (simp add: resource_permissions_def newSimpleAuthorizer_def)
  have "q \<in> set (resource_permissions (fold decide ds newSimpleAuthorizer) i s) \<longleftrightarrow> holds_after i s q False ds" for q i s
    using decisions_hold [of newSimpleAuthorizer q ds i s] e by simp
  then show ?thesis by (auto simp: checkPermission_def list_ex_iff)
qed

section \<open>Tokens identify their user\<close>

lemma documented_refusal:
  assumes "jwt_documented J" "jwSign J meth cs key = Inr t" "kf meth = Inl e"
  shows "jwParse J kf unix t = Inl (ValidationError False)"
  using assms unfolding jwt_documented_def by blast

lemma token_claims_read:
  "string_claim (token_claims c now u) ''sub'' = Some (acID u)"
  "string_claim (token_claims c now u) ''username'' = Some (acUsername u)"
  "string_claim (token_claims c now u) ''email'' = Some (acEmail u)"
  "string_claim (token_claims c now u) ''role'' = Some (acRole u)"
  "number_claim (token_claims c now u) ''nbf'' = now div 1000000000"
  "number_claim (token_claims c now u) ''iat'' = now div 1000000000"
  "number_claim (token_claims c now u) ''exp'' = (now + auTokenExpiry c) div 1000000000"
  by (simp_all add: token_claims_def string_claim_def number_claim_def)


text \<open>A library that behaves as documented: a token is its method, its claims and its key.\<close>

definition example_jwt :: "(signing_method \<times> claims \<times> string) jwt" where
  "example_jwt = \<lparr>jwSign = (\<lambda>meth cs key. Inr (meth, cs, key)),
     jwParse = (\<lambda>kf unix (meth, cs, key).
       if kf meth \<noteq> Inr key \<or> unix < number_claim cs ''nbf'' \<or> unix < number_claim cs ''iat'' then Inl (ValidationError False)
       else if unix < number_claim cs ''exp'' then Inr \<lparr>jtValid = True, jtClaims = Some cs\<rparr>
       else Inl (ValidationError True))\<rparr>"

definition alice :: account where
  "alice = \<lparr>acID = ''1'', acUsername = ''alice'', acEmail = ''a@x'', acRole = ''user'', acCreatedAt = 5, acUpdatedAt = 5\<rparr>"

definition example_auth :: authenticator where
  "example_auth = newJWTAuthenticator \<lparr>auSecretKey = ''k'', auTokenExpiry = 2000000000, auRefreshExpiry = 0,
     auTokenIssuer = ''xion'', auTokenAudience = ''xion''\<rparr>"

lemma example_jwt_documented: "jwt_documented example_jwt"
  by (auto simp: jwt_documented_def example_jwt_def)


end
