(* ===== verification/Metadata.thy ===== *)
theory Metadata
  imports Prelude
begin

text \<open>
  The in-memory metadata service of \<open>pkg/metadata/service.go\<close>: a map from file identifiers to
  records with their chunks, and its paged listings.
\<close>

section \<open>Records\<close>

definition FileStatusReady :: string where "FileStatusReady = ''ready''"
definition FileStatusDeleted :: string where "FileStatusDeleted = ''deleted''"

record chunk_info =
  ciChunkID :: string
  ciNodeID :: string
  ciOffset :: int
  ciSize :: int

record file_metadata =
  mdFileID :: string
  mdName :: string
  mdContentType :: string
  mdSize :: int
  mdChecksum :: string
  mdOwnerID :: string
  mdStatus :: string
  mdShardKey :: "32 word"
  mdChunks :: "chunk_info list option"
  mdCreatedAt :: time
  mdUpdatedAt :: time

record create_input =
  crFileID :: string
  crName :: string
  crContentType :: string
  crSize :: int
  crChecksum :: string
  crOwnerID :: string
  crStatus :: string
  crShardKey :: "32 word"
  crChunks :: "chunk_info list option"

datatype metadata_error = ErrMetadataExists | ErrMetadataMissing

text \<open>The field \<open>data\<close> of the service.\<close>

type_synonym metadata_map = "(string \<times> file_metadata) list"

definition newInMemoryMetadataService :: metadata_map where
  "newInMemoryMetadataService = []"

text \<open>Copies are values here; a nil slice stays nil.\<close>

definition cloneChunks :: "chunk_info list option \<Rightarrow> chunk_info list option" where
  "cloneChunks chunks = (case chunks of None \<Rightarrow> None | Some cs \<Rightarrow> Some (map (\<lambda>c. c) cs))"

definition cloneMetadata :: "file_metadata \<Rightarrow> file_metadata" where
  "cloneMetadata m = m\<lparr>mdChunks := cloneChunks (mdChunks m)\<rparr>"

section \<open>Operations\<close>

definition createFileMetadata ::
  "create_input \<Rightarrow> time \<Rightarrow> metadata_map \<Rightarrow> (metadata_error + unit) \<times> metadata_map" where
  "createFileMetadata input now s =
     (if map_of s (crFileID input) \<noteq> None then (Inl ErrMetadataExists, s)
      else let status = (if crStatus input = '''' then FileStatusReady else crStatus input) in
        (Inr (), AList.update (crFileID input)
          \<lparr>mdFileID = crFileID input, mdName = crName input, mdContentType = crContentType input,
            mdSize = crSize input, mdChecksum = crChecksum input, mdOwnerID = crOwnerID input, mdStatus = status,
            mdShardKey = crShardKey input, mdChunks = cloneChunks (crChunks input), mdCreatedAt = now,
            mdUpdatedAt = now\<rparr> s))"

definition createMetadata ::
  "string \<Rightarrow> 32 word \<Rightarrow> chunk_info list option \<Rightarrow> time \<Rightarrow> metadata_map \<Rightarrow> (metadata_error + unit) \<times> metadata_map" where
  "createMetadata fileID shardKey chunks now s =
     createFileMetadata \<lparr>crFileID = fileID, crName = '''', crContentType = '''', crSize = 0, crChecksum = '''',
       crOwnerID = '''', crStatus = FileStatusReady, crShardKey = shardKey, crChunks = chunks\<rparr> now s"

definition getMetadata :: "string \<Rightarrow> metadata_map \<Rightarrow> metadata_error + file_metadata" where
  "getMetadata fileID s =
     (case map_of s fileID of None \<Rightarrow> Inl ErrMetadataMissing | Some m \<Rightarrow> Inr (cloneMetadata m))"

definition updateMetadata ::
  "string \<Rightarrow> chunk_info list option \<Rightarrow> time \<Rightarrow> metadata_map \<Rightarrow> (metadata_error + unit) \<times> metadata_map" where
  "updateMetadata fileID chunks now s =
     (case map_of s fileID of
        None \<Rightarrow> (Inl ErrMetadataMissing, s)
      | Some m \<Rightarrow> (Inr (), AList.update fileID (m\<lparr>mdChunks := cloneChunks chunks, mdUpdatedAt := now\<rparr>) s))"

definition deleteMetadata :: "string \<Rightarrow> metadata_map \<Rightarrow> (metadata_error + unit) \<times> metadata_map" where
  "deleteMetadata fileID s =
     (if map_of s fileID = None then (Inl ErrMetadataMissing, s) else (Inr (), AList.delete fileID s))"

text \<open>\<open>sortedMetadata\<close>; the order in which the map is visited does not matter, since identifiers are
  unique.\<close>

definition sortedMetadata :: "metadata_map \<Rightarrow> file_metadata list" where
  "sortedMetadata s = sort_slice (\<lambda>x y. mdFileID x < mdFileID y) (map (cloneMetadata \<circ> snd) s)"

text \<open>A slice expression out of bounds panics: \<open>None\<close>.\<close>

definition listMetadata :: "int \<Rightarrow> int \<Rightarrow> metadata_map \<Rightarrow> file_metadata list option" where
  "listMetadata limit offset s =
     (let offset = (if offset < 0 then 0 else offset);
          limit = (if limit \<le> 0 then 10 else limit)
      in page (sortedMetadata s) limit offset)"

definition on_node :: "string \<Rightarrow> file_metadata \<Rightarrow> bool" where
  "on_node nodeID m = (case mdChunks m of None \<Rightarrow> False | Some cs \<Rightarrow> list_ex (\<lambda>c. ciNodeID c = nodeID) cs)"

definition listMetadataByNodeID :: "string \<Rightarrow> int \<Rightarrow> int \<Rightarrow> metadata_map \<Rightarrow> file_metadata list option" where
  "listMetadataByNodeID nodeID limit offset s =
     (let offset = (if offset < 0 then 0 else offset);
          limit = (if limit \<le> 0 then 10 else limit)
      in page (filter (on_node nodeID) (sortedMetadata s)) limit offset)"

section \<open>Histories\<close>

datatype metadata_op =
    CreateMeta create_input time
  | UpdateMeta string "chunk_info list option" time
  | DeleteMeta string

fun run_metadata :: "metadata_op \<Rightarrow> metadata_map \<Rightarrow> metadata_map" where
  "run_metadata (CreateMeta input now) s = snd (createFileMetadata input now s)"
| "run_metadata (UpdateMeta i chunks now) s = snd (updateMetadata i chunks now s)"
| "run_metadata (DeleteMeta i) s = snd (deleteMetadata i s)"

definition metadata_after :: "metadata_op list \<Rightarrow> metadata_map" where
  "metadata_after ops = fold run_metadata ops newInMemoryMetadataService"

definition metadata_ok :: "metadata_map \<Rightarrow> bool" where
  "metadata_ok s \<longleftrightarrow> distinct (map fst s) \<and> (\<forall>i m. map_of s i = Some m \<longrightarrow> mdFileID m = i)"

lemma metadata_ok_update: "metadata_ok s \<Longrightarrow> mdFileID m = i \<Longrightarrow> metadata_ok (AList.update i m s)"
  unfolding metadata_ok_def by (simp only: AList.distinct_update AList.update_conv' fun_upd_def) auto

lemma metadata_ok_delete: "metadata_ok s \<Longrightarrow> metadata_ok (AList.delete i s)"
  unfolding metadata_ok_def by (simp only: AList.distinct_delete AList.delete_conv' fun_upd_def) auto

lemma metadata_ok_get: "metadata_ok s \<Longrightarrow> map_of s i = Some m \<Longrightarrow> mdFileID m = i"
  unfolding metadata_ok_def by blast

lemma metadata_ok_run: "metadata_ok s \<Longrightarrow> metadata_ok (run_metadata op s)"
  by (cases op)
    (auto simp: createFileMetadata_def updateMetadata_def deleteMetadata_def Let_def
      intro!: metadata_ok_update metadata_ok_delete dest: metadata_ok_get split: option.split)

lemma metadata_ok_history: "metadata_ok (metadata_after ops)"
proof -
  have "metadata_ok s \<Longrightarrow> metadata_ok (fold run_metadata ops s)" for s
  proof (induction ops arbitrary: s)
    case (Cons op ops)
    from Cons.IH [OF metadata_ok_run [OF Cons.prems]] show ?case by simp
  qed simp
  moreover have "metadata_ok newInMemoryMetadataService"
    by (simp add: metadata_ok_def newInMemoryMetadataService_def)
  ultimately show ?thesis by (simp only: metadata_after_def)
qed

lemma clone_same [simp]: "cloneMetadata m = m"
  by (simp add: cloneMetadata_def cloneChunks_def split: option.split)

interpretation by_file_id: key_less "\<lambda>x y. mdFileID x < mdFileID y" mdFileID "\<lambda>x. True"
  by unfold_locales simp

lemma sortedMetadata_complete:
  assumes "metadata_ok s"
  shows "set (sortedMetadata s) = ran (map_of s)" "sorted_wrt (\<lambda>x y. mdFileID x < mdFileID y) (sortedMetadata s)"
proof -
  have v: "snd ` set s = ran (map_of s)" using assms by (auto simp: metadata_ok_def ran_distinct)
  then show "set (sortedMetadata s) = ran (map_of s)" by (auto simp: sortedMetadata_def)
  have "map mdFileID (map (cloneMetadata \<circ> snd) s) = map fst s"
    using assms by (auto simp: metadata_ok_def dest: map_of_is_SomeI)
  then have d: "distinct (map mdFileID (sortedMetadata s))"
    using assms mset_map [of mdFileID "sortedMetadata s"] mset_map [of mdFileID "map (cloneMetadata \<circ> snd) s"]
    by (metis metadata_ok_def mset_eq_imp_distinct_iff mset_sort_slice sortedMetadata_def)
  moreover have "sorted (map mdFileID (sortedMetadata s))"
    unfolding sortedMetadata_def by (rule by_file_id.sort_slice_sorted) simp
  ultimately have "sorted_wrt (<) (map mdFileID (sortedMetadata s))" using strict_sorted_iff by blast
  then show "sorted_wrt (\<lambda>x y. mdFileID x < mdFileID y) (sortedMetadata s)" by (simp add: sorted_wrt_map)
qed

lemma wrap64_over:
  assumes "max_int64 < x" "x \<le> 2 * max_int64"
  shows "wrap64 x = x - 18446744073709551616"
proof -
  have "(x + 9223372036854775808) mod 18446744073709551616 =
      (x + 9223372036854775808 - 18446744073709551616) mod 18446744073709551616"
    by (simp only: minus_mod_self2)
  also have "\<dots> = x + 9223372036854775808 - 18446744073709551616"
    by (rule mod_pos_pos_trivial) (use assms in \<open>simp_all add: max_int64_def\<close>)
  finally show ?thesis by (simp add: wrap64_def)
qed

text \<open>C36. After any history of creations, updates and deletions a listing is the requested page of one
  fixed sequence: all stored records, without duplicates, in the order of their identifiers (for the
  listing of a node, those with a chunk on it). A page whose end does not fit 64 bits panics instead
  when the offset is inside the sequence.\<close>

theorem metadata_pages:
  "\<exists>all. set all = ran (map_of (metadata_after ops)) \<and> sorted_wrt (\<lambda>x y. mdFileID x < mdFileID y) all \<and>
    (\<forall>limit offset. 0 < limit \<and> limit \<le> max_int64 \<and> 0 \<le> offset \<and> offset \<le> max_int64 \<longrightarrow>
      (listMetadata limit offset (metadata_after ops) = (if offset + limit \<le> max_int64 \<or> int (length all) \<le> offset
         then Some (take (nat limit) (drop (nat offset) all)) else None)) \<and>
      (\<forall>n. offset + limit \<le> max_int64 \<longrightarrow> listMetadataByNodeID n limit offset (metadata_after ops) =
         Some (take (nat limit) (drop (nat offset) (filter (on_node n) all)))))"
proof -
  let ?s = "metadata_after ops"
  have ok: "metadata_ok ?s" by (rule metadata_ok_history)
  let ?all = "sortedMetadata ?s"
  have "listMetadata limit offset ?s = (if offset + limit \<le> max_int64 \<or> int (length ?all) \<le> offset
         then Some (take (nat limit) (drop (nat offset) ?all)) else None)"
    if h: "0 < limit" "limit \<le> max_int64" "0 \<le> offset" "offset \<le> max_int64" for limit offset
  proof (cases "offset + limit \<le> max_int64 \<or> int (length ?all) \<le> offset")
    case True
    then show ?thesis
    proof
      assume "offset + limit \<le> max_int64"
      then show ?thesis using h page_take_drop [of limit offset ?all] by (simp add: listMetadata_def)
    next
      assume o: "int (length ?all) \<le> offset"
      then have "length ?all \<le> nat offset" by linarith
      then show ?thesis using h o by (simp add: listMetadata_def page_def)
    qed
  next
    case False
    then have "wrap64 (offset + limit) = offset + limit - 18446744073709551616"
      using h by (intro wrap64_over) simp_all
    then show ?thesis using False h by (simp add: listMetadata_def page_def go_slice_def max_int64_def)
  qed
  moreover have "listMetadataByNodeID n limit offset ?s = Some (take (nat limit) (drop (nat offset) (filter (on_node n) ?all)))"
    if "0 < limit" "0 \<le> offset" "offset + limit \<le> max_int64" for n limit offset
    using that page_take_drop [of limit offset "filter (on_node n) ?all"] by (simp add: listMetadataByNodeID_def)
  ultimately show ?thesis using sortedMetadata_complete [OF ok] by (intro exI [of _ ?all]) blast
qed

definition example_create :: "string \<Rightarrow> metadata_op" where
  "example_create i = CreateMeta \<lparr>crFileID = i, crName = '''', crContentType = '''', crSize = 1, crChecksum = '''',
     crOwnerID = '''', crStatus = '''', crShardKey = 0, crChunks = None\<rparr> 5"

theorem metadata_pages_witness:
  "\<exists>m. listMetadata 1 1 (metadata_after [example_create ''b'', example_create ''a'', DeleteMeta ''c'']) = Some [m] \<and>
     listMetadata 9223372036854775807 1 (metadata_after [example_create ''b'', example_create ''a'', DeleteMeta ''c'']) = None"
proof -
  let ?ops = "[example_create ''b'', example_create ''a'', DeleteMeta ''c'']"
  obtain all where all: "set all = ran (map_of (metadata_after ?ops))"
      "sorted_wrt (\<lambda>x y. mdFileID x < mdFileID y) all"
      "\<forall>limit offset. 0 < limit \<and> limit \<le> max_int64 \<and> 0 \<le> offset \<and> offset \<le> max_int64 \<longrightarrow>
        listMetadata limit offset (metadata_after ?ops) = (if offset + limit \<le> max_int64 \<or> int (length all) \<le> offset
          then Some (take (nat limit) (drop (nat offset) all)) else None)"
    using metadata_pages [of ?ops] by blast
  have "map_option length (listMetadata 5 0 (metadata_after ?ops)) = Some 2" by code_simp
  then have "length all = 2"
    using all(3) [rule_format, of 5 0] by (auto simp: max_int64_def split: if_splits)
  moreover obtain x y where "all = [x, y]" using calculation by (auto simp: numeral_2_eq_2 length_Suc_conv)
  ultimately show ?thesis
    using all(3) [rule_format, of 1 1] all(3) [rule_format, of 9223372036854775807 1] by (auto simp: max_int64_def)
qed

end
