(* ===== verification/Flags.thy ===== *)
theory Flags
  imports Http
begin

text \<open>
  Package flag of the standard library, as the command line tool uses it: option sets with string,
  boolean, integer and duration options, parsed with \<open>ContinueOnError\<close>.
\<close>

section \<open>Package strconv, continued\<close>

text \<open>The value of a digit in the bases up to 36; 36 for anything else.\<close>

definition digit_of :: "char \<Rightarrow> nat" where
  "digit_of c =
     (if is_digit c then of_char c - 48
      else if CHR ''a'' \<le> lower_char c \<and> lower_char c \<le> CHR ''z'' then of_char (lower_char c) - 87
      else 36)"

definition base_value :: "nat \<Rightarrow> string \<Rightarrow> nat" where
  "base_value base s = foldl (\<lambda>v c. base * v + digit_of c) 0 s"

text \<open>\<open>underscoreOK\<close> after the prefix: an underscore stands between digits, where a prefix counts as one.\<close>

fun underscores_ok :: "bool \<Rightarrow> string \<Rightarrow> bool" where
  "underscores_ok after_digit [] = True"
| "underscores_ok after_digit (c # s) =
     (if c = CHR ''_'' then after_digit \<and> s \<noteq> [] \<and> hd s \<noteq> CHR ''_'' \<and> underscores_ok False s
      else underscores_ok True s)"

text \<open>\<open>strconv.ParseInt (s, 0, 64)\<close>: decimal, or binary, octal or hexadecimal by prefix.\<close>

definition int_base :: "string \<Rightarrow> nat \<times> bool \<times> string" where
  "int_base s =
     (if prefix ''0'' s then
        (if 3 \<le> length s \<and> lower_char (s ! 1) = CHR ''b'' then (2, True, drop 2 s)
         else if 3 \<le> length s \<and> lower_char (s ! 1) = CHR ''o'' then (8, True, drop 2 s)
         else if 3 \<le> length s \<and> lower_char (s ! 1) = CHR ''x'' then (16, True, drop 2 s)
         else (8, False, drop 1 s))
      else (10, False, s))"

definition parse_magnitude :: "string \<Rightarrow> int option" where
  "parse_magnitude s =
     (case int_base s of (base, prefixed, ds) \<Rightarrow>
        if s = '''' \<or> \<not> list_all (\<lambda>c. c = CHR ''_'' \<or> digit_of c < base) ds \<or>
           (CHR ''_'' \<in> set ds \<and> \<not> underscores_ok prefixed (if prefixed then ds else s)) then None
        else Some (int (base_value base (filter (\<lambda>c. c \<noteq> CHR ''_'') ds))))"

definition parse_int0 :: "string \<Rightarrow> int option" where
  "parse_int0 s =
     (case (if prefix ''-'' s then map_option uminus (parse_magnitude (tl s))
            else if prefix ''+'' s then parse_magnitude (tl s)
            else parse_magnitude s) of
        None \<Rightarrow> None
      | Some v \<Rightarrow> if in_int64 v then Some v else None)"

definition parse_bool :: "string \<Rightarrow> bool option" where
  "parse_bool s =
     (if s \<in> {''1'', ''t'', ''T'', ''TRUE'', ''true'', ''True''} then Some True
      else if s \<in> {''0'', ''f'', ''F'', ''FALSE'', ''false'', ''False''} then Some False
      else None)"

section \<open>Option sets\<close>

datatype flag_value = FlagBool bool | FlagString string | FlagInt int | FlagDuration int

text \<open>\<open>Value.Set\<close>; durations are read by \<open>time.ParseDuration\<close>.\<close>

fun set_flag :: "(string \<Rightarrow> int option) \<Rightarrow> flag_value \<Rightarrow> string \<Rightarrow> flag_value option" where
  "set_flag pd (FlagBool b) v = map_option FlagBool (parse_bool v)"
| "set_flag pd (FlagString s) v = Some (FlagString v)"
| "set_flag pd (FlagInt i) v = map_option FlagInt (parse_int0 v)"
| "set_flag pd (FlagDuration d) v = map_option FlagDuration (pd v)"

type_synonym flags = "(string \<times> flag_value) list"

text \<open>The name of an option and the value after its first equals sign, which is not the first byte.\<close>

definition split_flag :: "string \<Rightarrow> string \<times> string option" where
  "split_flag name =
     (let rest = dropWhile (\<lambda>c. c \<noteq> CHR ''='') (tl name)
      in if rest = [] then (name, None)
         else (hd name # takeWhile (\<lambda>c. c \<noteq> CHR ''='') (tl name), Some (tl rest)))"

datatype flag_error = BadFlagSyntax | FlagNotDefined | HelpRequested | FlagNeedsArgument | BadFlagValue

definition put_flag ::
  "(string \<Rightarrow> int option) \<Rightarrow> string \<Rightarrow> flag_value \<Rightarrow> string \<Rightarrow> flags \<Rightarrow> flag_error + flags" where
  "put_flag pd name f v formal =
     (case set_flag pd f v of None \<Rightarrow> Inl BadFlagValue | Some g \<Rightarrow> Inr (AList.update name g formal))"

text \<open>\<open>FlagSet.Parse\<close>: the options with the values given, and the arguments after them.\<close>

function parse_flags ::
  "(string \<Rightarrow> int option) \<Rightarrow> flags \<Rightarrow> string list \<Rightarrow> flag_error + flags \<times> string list" where
  "parse_flags pd formal [] = Inr (formal, [])"
| "parse_flags pd formal (s # args) =
     (if length s < 2 \<or> hd s \<noteq> CHR ''-'' then Inr (formal, s # args)
      else if s = ''--'' then Inr (formal, args)
      else let n = (if s ! 1 = CHR ''-'' then drop 2 s else drop 1 s) in
        if n = '''' \<or> hd n = CHR ''-'' \<or> hd n = CHR ''='' then Inl BadFlagSyntax
        else (case split_flag n of (name, value) \<Rightarrow>
          (case map_of formal name of
             None \<Rightarrow> Inl (if name = ''help'' \<or> name = ''h'' then HelpRequested else FlagNotDefined)
           | Some (FlagBool b) \<Rightarrow>
               (case put_flag pd name (FlagBool b) (case value of None \<Rightarrow> ''true'' | Some v \<Rightarrow> v) formal of
                  Inl e \<Rightarrow> Inl e
                | Inr formal \<Rightarrow> parse_flags pd formal args)
           | Some f \<Rightarrow>
               (case (case value of None \<Rightarrow> args | Some v \<Rightarrow> v # args) of
                  [] \<Rightarrow> Inl FlagNeedsArgument
                | v # args' \<Rightarrow>
                    (case put_flag pd name f v formal of
                       Inl e \<Rightarrow> Inl e
                     | Inr formal \<Rightarrow> parse_flags pd formal args')))))"
  by pat_completeness auto
termination
  by (relation "measure (\<lambda>(pd, formal, args). length args)") (auto split: option.splits)

fun flag_string :: "flag_value option \<Rightarrow> string" where
  "flag_string (Some (FlagString s)) = s"
| "flag_string _ = ''''"

fun flag_int :: "flag_value option \<Rightarrow> int" where
  "flag_int (Some (FlagInt i)) = i"
| "flag_int (Some (FlagDuration d)) = d"
| "flag_int _ = 0"

fun flag_bool :: "flag_value option \<Rightarrow> bool" where
  "flag_bool (Some (FlagBool b)) = b"
| "flag_bool _ = False"

end
