(* ===== verification/EnvFile.thy ===== *)
theory EnvFile
  imports Flags
begin

text \<open>
  The configuration of the operator's tool, \<open>cmd/xionctl/config.go\<close> and \<open>config_command.go\<close>: the
  environment file with its quoting, the settings taken from it, and the command that changes the
  upload limit and restarts the service. The file system is that of theory Disk; the outcomes of
  \<open>systemctl\<close> are a list in the state of the host.
\<close>

section \<open>strconv.Unquote\<close>

text \<open>\<open>utf8.AppendRune\<close> of a valid code point.\<close>

definition utf8_encode :: "nat \<Rightarrow> string" where
  "utf8_encode r =
     (if r < 0x80 then [char_of r]
      else if r < 0x800 then [char_of (0xC0 + r div 64), char_of (0x80 + r mod 64)]
      else if r < 0x10000 then
        [char_of (0xE0 + r div 4096), char_of (0x80 + r div 64 mod 64), char_of (0x80 + r mod 64)]
      else [char_of (0xF0 + r div 262144), char_of (0x80 + r div 4096 mod 64),
        char_of (0x80 + r div 64 mod 64), char_of (0x80 + r mod 64)])"

definition valid_rune :: "nat \<Rightarrow> bool" where
  "valid_rune r \<longleftrightarrow> r < 0xD800 \<or> 0xE000 \<le> r \<and> r \<le> 0x10FFFF"

text \<open>The value of exactly \<open>n\<close> digits of a base, and what follows them.\<close>

definition take_digits :: "nat \<Rightarrow> nat \<Rightarrow> string \<Rightarrow> (nat \<times> string) option" where
  "take_digits base n s =
     (if length s < n \<or> \<not> list_all (\<lambda>c. digit_of c < base) (take n s) then None
      else Some (foldl (\<lambda>v c. base * v + digit_of c) 0 (take n s), drop n s))"

text \<open>\<open>strconv.UnquoteChar\<close> after a backslash, for double quotes: the bytes that the escape stands for.\<close>

definition simple_escapes :: "(char \<times> char) list" where
  "simple_escapes =
     [(CHR ''a'', CHR 0x07), (CHR ''b'', CHR 0x08), (CHR ''f'', CHR 0x0C), (CHR ''n'', CHR 0x0A), (CHR ''r'', CHR 0x0D),
      (CHR ''t'', CHR 0x09), (CHR ''v'', CHR 0x0B), (CHR 0x5C, CHR 0x5C), (CHR 0x22, CHR 0x22)]"

definition rune_escape :: "nat \<Rightarrow> string \<Rightarrow> (string \<times> string) option" where
  "rune_escape n s =
     (case take_digits 16 n s of None \<Rightarrow> None
      | Some (v, rest) \<Rightarrow> if valid_rune v then Some (utf8_encode v, rest) else None)"

fun unquote_escape :: "string \<Rightarrow> (string \<times> string) option" where
  "unquote_escape [] = None"
| "unquote_escape (c # s) =
     (if c = CHR ''x'' then map_option (\<lambda>(v, rest). ([char_of v], rest)) (take_digits 16 2 s)
      else if c = CHR ''u'' then rune_escape 4 s
      else if c = CHR ''U'' then rune_escape 8 s
      else if digit_of c < 8 then
        (case take_digits 8 3 (c # s) of None \<Rightarrow> None
         | Some (v, rest) \<Rightarrow> if 255 < v then None else Some ([char_of v], rest))
      else map_option (\<lambda>b. ([b], s)) (map_of simple_escapes c))"

lemma take_digits_shorter: "take_digits base n s = Some (v, rest) \<Longrightarrow> length rest \<le> length s"
  by (auto simp: take_digits_def split: if_splits)

lemma rune_escape_shorter: "rune_escape n s = Some (out, rest) \<Longrightarrow> length rest \<le> length s"
  by (auto simp: rune_escape_def dest: take_digits_shorter split: option.splits if_splits)

lemma unquote_escape_shorter: "unquote_escape s = Some (out, rest) \<Longrightarrow> length rest \<le> length s"
  by (cases s) (auto split: if_splits option.splits
    dest: take_digits_shorter rune_escape_shorter take_digits_shorter [where n = 3])

text \<open>The text after the opening double quote, which must end with the closing one.\<close>

function unquote_loop :: "string \<Rightarrow> string option" where
  "unquote_loop s =
     (case s of [] \<Rightarrow> None
      | c # rest \<Rightarrow>
          if c = CHR 0x22 then (if rest = [] then Some [] else None)
          else if c = CHR 0x0A then None
          else if c \<noteq> CHR 0x5C then map_option (Cons c) (unquote_loop rest)
          else (case unquote_escape rest of None \<Rightarrow> None
            | Some (out, rest) \<Rightarrow> map_option ((@) out) (unquote_loop rest)))"
  by pat_completeness auto
termination
  by (relation "measure length") (auto dest: unquote_escape_shorter)

declare unquote_loop.simps [simp del]

definition unquoteEnvValue :: "string \<Rightarrow> string" where
  "unquoteEnvValue value =
     (if 2 \<le> length value \<and> (hd value = CHR 0x27 \<and> last value = CHR 0x27 \<or> hd value = CHR 0x22 \<and> last value = CHR 0x22)
      then (case (if hd value = CHR 0x22 then unquote_loop (tl value) else None) of
          Some unquoted \<Rightarrow> unquoted
        | None \<Rightarrow> butlast (tl value))
      else value)"

section \<open>The environment file\<close>

datatype cli_error =
  CliOSErr os_error
| LineTooLong
| TokenRequired
| InvalidTimeout
| EmptySize
| InvalidSize
| UsageError
| FlagError flag_error
| RestartFailed
| JournalFailed
| NoCommand
| UnknownCommand
| NotConfirmed
| CutoffRequired
| RequestInvalid
| TransportFailed string
| ReadFailed err
| StoragePaused string
| XionError string string int
| HTTPStatus int
| BadPayload
| BadTarget

text \<open>\<open>bufio.Scanner\<close> with \<open>ScanLines\<close>: lines end with a newline, a final carriage return is dropped,
  and a line of 64 KiB or more stops the scan.\<close>

definition drop_cr :: "string \<Rightarrow> string" where
  "drop_cr s = (if s \<noteq> '''' \<and> last s = CHR 0x0D then butlast s else s)"

definition raw_lines :: "bytes \<Rightarrow> string list" where
  "raw_lines data = (let ls = split_on (CHR 0x0A) data in if last ls = '''' then butlast ls else ls)"

definition scan_lines :: "bytes \<Rightarrow> cli_error + string list" where
  "scan_lines data =
     (if list_ex (\<lambda>l. 65536 \<le> int (length l)) (raw_lines data) then Inl LineTooLong
      else Inr (map drop_cr (raw_lines data)))"

text \<open>\<open>strings.Cut\<close> at the first occurrence of a byte.\<close>

definition cut :: "char \<Rightarrow> string \<Rightarrow> (string \<times> string) option" where
  "cut c s = (if c \<in> set s then Some (takeWhile (\<lambda>x. x \<noteq> c) s, tl (dropWhile (\<lambda>x. x \<noteq> c) s)) else None)"

text \<open>What one line of the file assigns, if anything.\<close>

definition env_line :: "string \<Rightarrow> (string \<times> string) option" where
  "env_line text =
     (let line = trim_space text in
      if line = '''' \<or> prefix ''#'' line then None
      else (case cut (CHR ''='') line of None \<Rightarrow> None
        | Some (key, value) \<Rightarrow>
            if trim_space key = '''' then None
            else Some (trim_space key, unquoteEnvValue (trim_space value))))"

definition env_values :: "string list \<Rightarrow> (string \<times> string) list" where
  "env_values ls =
     foldl (\<lambda>values l. case env_line l of None \<Rightarrow> values | Some (k, v) \<Rightarrow> AList.update k v values) [] ls"

definition env_get :: "(string \<times> string) list \<Rightarrow> string \<Rightarrow> string" where
  "env_get values k = (case map_of values k of None \<Rightarrow> '''' | Some v \<Rightarrow> v)"

text \<open>The host of the tool: its files, what the next commands of the system will come to, and the commands
  run so far.\<close>

record host = "(unit, unit) disk" +
  hOutcomes :: "bool list"
  hCommands :: "string list list"

text \<open>The path is absent when it is the empty string, which names no file.\<close>

definition readEnvFile :: "unit path option \<Rightarrow> host \<Rightarrow> (cli_error + (string \<times> string) list) \<times> host" where
  "readEnvFile envPath s =
     (case envPath of None \<Rightarrow> (Inl (CliOSErr ENOENT), s) | Some p \<Rightarrow>
     (case os_open p s of
        (Inl e, s) \<Rightarrow> (Inl (CliOSErr e), s)
      | (Inr _, s) \<Rightarrow>
          (case os_read_file p s of
             (Inl e, s) \<Rightarrow> (Inl (CliOSErr e), snd (os_close s))
           | (Inr c, s) \<Rightarrow>
               (map_sum id env_values (scan_lines (blob_of (Some (NFile c)))), snd (os_close s)))))"

definition normalizeAPIURL :: "string \<Rightarrow> string" where
  "normalizeAPIURL v =
     (let value = trim_space v in
      if prefix ''http://'' value \<or> prefix ''https://'' value then value else ''http://'' @ value)"

record cli_config =
  ccAPIURL :: string
  ccToken :: string
  ccTimeout :: int

text \<open>The environment wins over the file and the options over both. The path is absent when the
  option \<open>--env-file\<close> is empty; \<open>parseDuration\<close> is \<open>time.ParseDuration\<close>.\<close>

definition loadConfig ::
  "(string \<Rightarrow> int option) \<Rightarrow> unit path option \<Rightarrow> (string \<times> string) list \<Rightarrow> cli_config \<Rightarrow> host \<Rightarrow>
   (cli_error + cli_config) \<times> host" where
  "loadConfig parseDuration envPath environment overrides s =
     (case (case envPath of None \<Rightarrow> (Inr [], s) | Some p \<Rightarrow>
         (case readEnvFile (Some p) s of
            (Inl e, s) \<Rightarrow> (if e \<noteq> CliOSErr ENOENT then Inl e else Inr [], s)
          | (Inr values, s) \<Rightarrow> (Inr values, s))) of
        (Inl e, s) \<Rightarrow> (Inl e, s)
      | (Inr values, s) \<Rightarrow>
          (let values = foldl (\<lambda>vs (k, v). if v \<noteq> '''' then AList.update k v vs else vs) values environment;
               apiURL = ccAPIURL overrides;
               apiURL = (if apiURL = '''' then env_get values ''XION_API_URL'' else apiURL);
               apiURL = (if apiURL = '''' then env_get values ''XION_LISTEN_ADDR'' else apiURL);
               apiURL = (if apiURL = '''' then ''127.0.0.1:8081'' else apiURL);
               apiURL = normalizeAPIURL apiURL;
               token = ccToken overrides;
               token = (if token = '''' then env_get values ''XION_SERVICE_TOKEN'' else token)
           in if trim_space token = '''' then (Inl TokenRequired, s)
              else (case (if 0 < ccTimeout overrides then Inr (ccTimeout overrides)
                    else let raw = env_get values ''XION_TIMEOUT'' in
                      if raw = '''' then Inr 30000000000
                      else (case parseDuration raw of None \<Rightarrow> Inl InvalidTimeout
                        | Some parsed \<Rightarrow> if parsed \<le> 0 then Inl InvalidTimeout else Inr parsed)) of
                  Inl e \<Rightarrow> (Inl e, s)
                | Inr timeout \<Rightarrow>
                    (Inr \<lparr>ccAPIURL = trim_right_char (CHR ''/'') apiURL, ccToken = token, ccTimeout = timeout\<rparr>, s))))"

section \<open>The upload limit\<close>

text \<open>\<open>strings.ToUpper\<close>, as far as a size can tell: besides the ASCII letters the dotless i and the long s
  have ASCII capitals; all other letters beyond ASCII stay beyond ASCII.\<close>

fun upper_text :: "string \<Rightarrow> string" where
  "upper_text [] = []"
| "upper_text [c] = [upper_char c]"
| "upper_text (c # d # s) =
     (if c = CHR 0xC4 \<and> d = CHR 0xB1 then CHR ''I'' # upper_text s
      else if c = CHR 0xC5 \<and> d = CHR 0xBF then CHR ''S'' # upper_text s
      else upper_char c # upper_text (d # s))"

definition size_suffixes :: "(string \<times> int) list" where
  "size_suffixes =
     [(''KIB'', 2 ^ 10), (''KB'', 2 ^ 10), (''K'', 2 ^ 10), (''MIB'', 2 ^ 20), (''MB'', 2 ^ 20), (''M'', 2 ^ 20),
      (''GIB'', 2 ^ 30), (''GB'', 2 ^ 30), (''G'', 2 ^ 30), (''TIB'', 2 ^ 40), (''TB'', 2 ^ 40), (''T'', 2 ^ 40)]"

definition parseUploadSize :: "string \<Rightarrow> cli_error + int" where
  "parseUploadSize raw =
     (let value = upper_text (trim_space raw) in
      if value = '''' then Inl EmptySize
      else (case (case find (\<lambda>(name, m). suffix name value) size_suffixes of
            None \<Rightarrow> (value, 1)
          | Some (name, m) \<Rightarrow> (trim_space (trim_suffix name value), m)) of
        (value, multiplier) \<Rightarrow>
          (case parse_int value of
             None \<Rightarrow> Inl InvalidSize
           | Some base \<Rightarrow>
               if base \<le> 0 \<or> 2 ^ 62 div multiplier < base then Inl InvalidSize
               else Inr (wrap64 (base * multiplier)))))"

fun join_on :: "char \<Rightarrow> string list \<Rightarrow> string" where
  "join_on c [] = ''''"
| "join_on c [l] = l"
| "join_on c (l # ls) = l @ c # join_on c ls"

definition assigns :: "string \<Rightarrow> string \<Rightarrow> bool" where
  "assigns key l \<longleftrightarrow> prefix (key @ ''='') (trim_space l)"

definition setEnvValue :: "bytes \<Rightarrow> string \<Rightarrow> string \<Rightarrow> bytes" where
  "setEnvValue data key value =
     (let ls = split_on (CHR 0x0A) data;
          found = list_ex (assigns key) ls;
          ls = map (\<lambda>l. if assigns key l then key @ ''='' @ value else l) ls
      in join_on (CHR 0x0A)
           (if found then ls
            else (if ls \<noteq> [] \<and> last ls \<noteq> '''' then ls @ [''''] else ls) @ [key @ ''='' @ value]))"

section \<open>The command config\<close>

text \<open>\<open>os.WriteFile\<close> creates or truncates the file.\<close>

definition os_write_file :: "unit path \<Rightarrow> bytes \<Rightarrow> host \<Rightarrow> (os_error + unit) \<times> host" where
  "os_write_file p data s =
     (case os_create p s of
        (Inl e, s) \<Rightarrow> (Inl e, s)
      | (Inr _, s) \<Rightarrow>
          (case os_write p (Blob data) s of
             (Inl e, s) \<Rightarrow> (Inl e, snd (os_close s))
           | (Inr _, s) \<Rightarrow> os_close s))"

text \<open>Running a command of the system: whether it succeeds.\<close>

definition run_command :: "string list \<Rightarrow> host \<Rightarrow> bool \<times> host" where
  "run_command args s =
     (case hOutcomes s of [] \<Rightarrow> True | b # bs \<Rightarrow> b,
      s\<lparr>hOutcomes := tl (hOutcomes s), hCommands := hCommands s @ [args]\<rparr>)"

definition systemctlRunner :: "string list \<Rightarrow> host \<Rightarrow> (cli_error + unit) \<times> host" where
  "systemctlRunner args s =
     (case run_command (''systemctl'' # args) s of (ok, s) \<Rightarrow> (if ok then Inr () else Inl RestartFailed, s))"

definition xionSystemdUnit :: string where
  "xionSystemdUnit = ''astrastore-xion.service''"

definition maxUploadBytesKey :: string where
  "maxUploadBytesKey = ''XION_MAX_UPLOAD_BYTES''"

definition default_max_upload :: int where
  "default_max_upload = 2 ^ 30"

definition sibling :: "unit path \<Rightarrow> string \<Rightarrow> unit path" where
  "sibling p n = child (parent p) n"

definition backup_path :: "unit path \<Rightarrow> string \<Rightarrow> unit path" where
  "backup_path p stamp = sibling p (last (snd p) @ ''.backup-'' @ stamp)"

definition config_temp :: "unit path \<Rightarrow> string \<Rightarrow> unit path" where
  "config_temp p rnd = sibling p (''.astrastore-xion.env-'' @ rnd)"

text \<open>What the command prints.\<close>

datatype config_output = ConfigShown int | ConfigUpdated int "unit path"

definition remove_temp :: "unit path \<Rightarrow> host \<Rightarrow> host" where
  "remove_temp q s = snd (os_remove q s)"

text \<open>The temporary file, written and closed, and then renamed over the old one, with the deferred
  clean-up.\<close>

definition write_temp :: "unit path \<Rightarrow> bytes \<Rightarrow> host \<Rightarrow> (cli_error + unit) \<times> host" where
  "write_temp q newData s =
     (case os_create_excl q s of (Inl e, s) \<Rightarrow> (Inl (CliOSErr e), s) | (Inr _, s) \<Rightarrow>
     (case os_chmod s of (Inl e, s) \<Rightarrow> (Inl (CliOSErr e), remove_temp q (snd (os_close s))) | (Inr _, s) \<Rightarrow>
     (case os_write q (Blob newData) s of
        (Inl e, s) \<Rightarrow> (Inl (CliOSErr e), remove_temp q (snd (os_close s))) | (Inr _, s) \<Rightarrow>
     (case os_sync s of (Inl e, s) \<Rightarrow> (Inl (CliOSErr e), remove_temp q (snd (os_close s))) | (Inr _, s) \<Rightarrow>
     (case os_close s of (Inl e, s) \<Rightarrow> (Inl (CliOSErr e), remove_temp q s) | (Inr _, s) \<Rightarrow> (Inr (), s))))))"

definition replace_file :: "unit path \<Rightarrow> string \<Rightarrow> bytes \<Rightarrow> host \<Rightarrow> (cli_error + unit) \<times> host" where
  "replace_file p rnd newData s =
     (let q = config_temp p rnd in
      case write_temp q newData s of (Inl e, s) \<Rightarrow> (Inl e, s) | (Inr _, s) \<Rightarrow>
     (case os_rename q p s of (Inl e, s) \<Rightarrow> (Inl (CliOSErr e), remove_temp q s) | (Inr _, s) \<Rightarrow> (Inr (), s)))"

definition restart_service :: "unit path \<Rightarrow> bytes \<Rightarrow> host \<Rightarrow> (cli_error + unit) \<times> host" where
  "restart_service p data s =
     (case systemctlRunner [''restart'', xionSystemdUnit] s of
        (Inl e, s) \<Rightarrow>
          (Inl e, snd (systemctlRunner [''restart'', xionSystemdUnit] (snd (os_write_file p data s))))
      | (Inr _, s) \<Rightarrow> (Inr (), s))"

definition update_config ::
  "unit path \<Rightarrow> int \<Rightarrow> string \<Rightarrow> string \<Rightarrow> host \<Rightarrow> (cli_error + config_output) \<times> host" where
  "update_config p updated stamp rnd s =
     (case os_read_file p s of (Inl e, s) \<Rightarrow> (Inl (CliOSErr e), s) | (Inr c, s) \<Rightarrow>
      let data = blob_of (Some (NFile c)) in
     (case os_write_file (backup_path p stamp) data s of (Inl e, s) \<Rightarrow> (Inl (CliOSErr e), s) | (Inr _, s) \<Rightarrow>
     (case os_stat p s of (_, s) \<Rightarrow>
     (case replace_file p rnd (setEnvValue data maxUploadBytesKey (show_int updated)) s of
        (Inl e, s) \<Rightarrow> (Inl e, s) | (Inr _, s) \<Rightarrow>
     (case restart_service p data s of
        (Inl e, s) \<Rightarrow> (Inl e, s) | (Inr _, s) \<Rightarrow> (Inr (ConfigUpdated updated (backup_path p stamp)), s))))))"

definition config_flags :: flags where
  "config_flags = [(''max-upload-size'', FlagString '''')]"

definition runConfig ::
  "(string \<Rightarrow> int option) \<Rightarrow> unit path option \<Rightarrow> string list \<Rightarrow> string \<Rightarrow> string \<Rightarrow> host \<Rightarrow>
   (cli_error + config_output) \<times> host" where
  "runConfig pd envPath args stamp rnd s =
     (case parse_flags pd config_flags args of
        Inl e \<Rightarrow> (Inl (FlagError e), s)
      | Inr (fs, rest) \<Rightarrow>
          if rest \<noteq> [] then (Inl UsageError, s)
          else let maxUploadSize = flag_string (map_of fs ''max-upload-size'') in
     (case readEnvFile envPath s of (r, s) \<Rightarrow>
     (case (case r of Inl e \<Rightarrow> if e \<noteq> CliOSErr ENOENT then Inl e else Inr [] | Inr values \<Rightarrow> Inr values) of
        Inl e \<Rightarrow> (Inl e, s)
      | Inr values \<Rightarrow>
     (case (let raw = env_get values maxUploadBytesKey in
            if raw \<noteq> '''' then parseUploadSize raw else Inr default_max_upload) of
        Inl e \<Rightarrow> (Inl e, s)
      | Inr current \<Rightarrow>
          if trim_space maxUploadSize = '''' then (Inr (ConfigShown current), s)
          else (case parseUploadSize maxUploadSize of
              Inl e \<Rightarrow> (Inl e, s)
            | Inr updated \<Rightarrow>
                (case envPath of
                   None \<Rightarrow> (Inl (CliOSErr ENOENT), s)
                 | Some p \<Rightarrow> update_config p updated stamp rnd s))))))"

end
