(* ===== verification/Cli.thy ===== *)
theory Cli
  imports EnvFile
begin

text \<open>
  The operator's tool \<open>cmd/xionctl\<close>: its commands (\<open>main.go\<close>), the HTTP client behind them
  (\<open>client.go\<close>) and the log viewer (\<open>logs.go\<close>). The server is a function on a state of its own; JSON
  texts are read through views. Output is the value that is printed.
\<close>

section \<open>The client\<close>

datatype cli_body = NoBody | FormFile string bytes | PurgeBody "string option" bool

record cli_request =
  crMethod :: string
  crURL :: string
  crHeader :: header
  crBody :: cli_body

record cli_reply =
  cpStatus :: int
  cpBody :: body

type_synonym 'w server = "cli_request \<Rightarrow> 'w \<Rightarrow> (string + cli_reply) \<times> 'w"

record capacity_stats =
  csTotalBytes :: int
  csUsedBytes :: int
  csAvailableBytes :: int
  csUsedPercent :: rat
  csObjectCount :: int
  csObjectBytes :: int
  csPauseAtPercent :: int
  csWritesPaused :: bool

text \<open>What comes from outside: the texts of JSON documents (\<open>None\<close> when they do not parse), the URLs
  that \<open>http.NewRequest\<close> refuses, \<open>time.ParseDuration\<close>, the environment, random names, the time stamp
  of a backup and the build data.\<close>

record cli_world =
  cwErrorText :: "bytes \<Rightarrow> (string \<times> string) option"
  cwStatusText :: "bytes \<Rightarrow> string option"
  cwRemoved :: "bytes \<Rightarrow> int option"
  cwCapacity :: "bytes \<Rightarrow> capacity_stats option"
  cwIndent :: "bytes \<Rightarrow> string option"
  cwRequestErr :: "string \<Rightarrow> string \<Rightarrow> bool"
  cwParseDuration :: "string \<Rightarrow> int option"
  cwGetenv :: "string \<Rightarrow> string"
  cwRandom :: string
  cwStamp :: string
  cwVersion :: string
  cwCommit :: string

text \<open>\<open>readXionError\<close> reads at most 64 KiB of the reply.\<close>

definition readXionError :: "cli_world \<Rightarrow> cli_reply \<Rightarrow> cli_error" where
  "readXionError W r =
     (case cwErrorText W (take 65536 (bData (cpBody r))) of
        None \<Rightarrow> HTTPStatus (cpStatus r)
      | Some (code, message) \<Rightarrow>
          if message = '''' then HTTPStatus (cpStatus r)
          else if code = ''storage_paused'' then StoragePaused message
          else XionError message code (cpStatus r))"

definition read_all :: "body \<Rightarrow> cli_error + bytes" where
  "read_all b = (case bErr b of None \<Rightarrow> Inr (bData b) | Some e \<Rightarrow> Inl (ReadFailed e))"

definition request ::
  "cli_world \<Rightarrow> 'w server \<Rightarrow> cli_config \<Rightarrow> string \<Rightarrow> string \<Rightarrow> cli_body \<Rightarrow> string \<Rightarrow> int list \<Rightarrow> 'w \<Rightarrow>
   (cli_error + bytes) \<times> 'w" where
  "request W R c meth path b contentType expected w =
     (if cwRequestErr W meth (ccAPIURL c @ path) then (Inl RequestInvalid, w)
      else (case R \<lparr>crMethod = meth, crURL = ccAPIURL c @ path,
            crHeader = (if ccToken c \<noteq> '''' then [(''Authorization'', ''Bearer '' @ ccToken c)] else []) @
              [(''Accept'', ''application/json'')] @
              (if contentType \<noteq> '''' then [(''Content-Type'', contentType)] else []),
            crBody = b\<rparr> w of
          (Inl e, w) \<Rightarrow> (Inl (TransportFailed e), w)
        | (Inr r, w) \<Rightarrow>
            (if cpStatus r \<in> set expected then read_all (cpBody r) else Inl (readXionError W r), w)))"

definition health :: "cli_world \<Rightarrow> 'w server \<Rightarrow> cli_config \<Rightarrow> 'w \<Rightarrow> (cli_error + string) \<times> 'w" where
  "health W R c w =
     (case request W R c ''GET'' ''/healthz'' NoBody '''' [200] w of (Inl e, w) \<Rightarrow> (Inl e, w) | (Inr h, w) \<Rightarrow>
     (case request W R c ''GET'' ''/readyz'' NoBody '''' [200] w of (Inl e, w) \<Rightarrow> (Inl e, w) | (Inr r, w) \<Rightarrow>
       (case (cwStatusText W h, cwStatusText W r) of
          (Some a, Some b) \<Rightarrow> Inr (a @ '' ('' @ b @ '')'')
        | _ \<Rightarrow> Inl BadPayload, w)))"

definition page_query :: "int \<Rightarrow> int \<Rightarrow> string" where
  "page_query limit offset = ''?limit='' @ show_int limit @ ''&offset='' @ show_int offset"

definition list_files where
  "list_files W R c limit offset w =
     request W R c ''GET'' (''/api/v1/files'' @ page_query limit offset) NoBody '''' [200] w"

definition capacity_of where
  "capacity_of W R c w = request W R c ''GET'' ''/api/v1/files/capacity'' NoBody '''' [200] w"

definition info_of where
  "info_of W R c i w =
     request W R c ''GET'' (''/api/v1/files/'' @ path_escape i @ ''/status'') NoBody '''' [200] w"

definition delete_file where
  "delete_file W R c i w =
     request W R c ''DELETE'' (''/api/v1/files/'' @ path_escape i) NoBody '''' [204] w"

definition list_uploads where
  "list_uploads W R c w = request W R c ''GET'' ''/api/v1/uploads'' NoBody '''' [200] w"

definition sweep_uploads where
  "sweep_uploads W R c w = request W R c ''DELETE'' ''/api/v1/uploads'' NoBody '''' [200] w"

definition list_trash where
  "list_trash W R c limit offset w =
     request W R c ''GET'' (''/api/v1/trash'' @ page_query limit offset) NoBody '''' [200] w"

definition restore_file where
  "restore_file W R c i w =
     request W R c ''POST'' (''/api/v1/files/'' @ path_escape i @ ''/restore'') NoBody '''' [200] w"

definition purge_trash where
  "purge_trash W R c olderThan all w =
     request W R c ''POST'' ''/api/v1/trash/purge''
       (PurgeBody (if olderThan \<noteq> '''' then Some olderThan else None) all) ''application/json'' [200] w"

text \<open>The paths of the user's files: the names between the slashes. A path with a \<open>..\<close> is not
  covered.\<close>

definition os_path :: "string \<Rightarrow> unit path" where
  "os_path s = ((), filter (\<lambda>n. n \<noteq> '''' \<and> n \<noteq> ''.'') (split_on (CHR ''/'') s))"

text \<open>The boundary of a form is random; its content type is the one constant that matters.\<close>

definition upload_file ::
  "cli_world \<Rightarrow> 'w server \<Rightarrow> cli_config \<Rightarrow> string \<Rightarrow> host \<times> 'w \<Rightarrow> (cli_error + bytes) \<times> host \<times> 'w" where
  "upload_file W R c path st =
     (case st of (h, w) \<Rightarrow>
     (case os_open (os_path path) h of (Inl e, h) \<Rightarrow> (Inl (CliOSErr e), h, w) | (Inr _, h) \<Rightarrow>
     (case os_read_file (os_path path) h of
        (Inl e, h) \<Rightarrow> (Inl (CliOSErr e), snd (os_close h), w)
      | (Inr d, h) \<Rightarrow>
          (case request W R c ''POST'' ''/api/v1/files'' (FormFile (filepath_base path) (blob_of (Some (NFile d))))
              ''multipart/form-data'' [201] w of
             (r, w) \<Rightarrow> (r, snd (os_close h), w)))))"

text \<open>\<open>filepath.Dir\<close>, whose result only \<open>os_path\<close> reads: what precedes the last slash.\<close>

definition dir_part :: "string \<Rightarrow> string" where
  "dir_part s = rev (dropWhile (\<lambda>c. c \<noteq> CHR ''/'') (rev s))"

text \<open>Writing the reply to a temporary file beside the target and renaming it.\<close>

definition save_download :: "cli_world \<Rightarrow> string \<Rightarrow> body \<Rightarrow> host \<Rightarrow> (cli_error + unit) \<times> host" where
  "save_download W target b h =
     (let directory = os_path (dir_part target);
          pattern = ''.'' @ filepath_base target @ ''.xionctl-'';
          q = child directory (pattern @ cwRandom W) in
      case os_mkdir_all directory h of (Inl e, h) \<Rightarrow> (Inl (CliOSErr e), h) | (Inr _, h) \<Rightarrow>
      if CHR ''/'' \<in> set pattern then (Inl BadTarget, h) else
     (case os_create_excl q h of (Inl e, h) \<Rightarrow> (Inl (CliOSErr e), h) | (Inr _, h) \<Rightarrow>
     (case os_write q (Blob (bData b)) h of
        (Inl e, h) \<Rightarrow> (Inl (CliOSErr e), remove_temp q (snd (os_close h))) | (Inr _, h) \<Rightarrow>
     (case bErr b of Some e \<Rightarrow> (Inl (ReadFailed e), remove_temp q (snd (os_close h))) | None \<Rightarrow>
     (case os_sync h of (Inl e, h) \<Rightarrow> (Inl (CliOSErr e), remove_temp q (snd (os_close h))) | (Inr _, h) \<Rightarrow>
     (case os_close h of (Inl e, h) \<Rightarrow> (Inl (CliOSErr e), remove_temp q h) | (Inr _, h) \<Rightarrow>
     (case os_rename q (os_path target) h of
        (Inl e, h) \<Rightarrow> (Inl (CliOSErr e), remove_temp q h) | (Inr _, h) \<Rightarrow> (Inr (), h))))))))"

definition download_file ::
  "cli_world \<Rightarrow> 'w server \<Rightarrow> cli_config \<Rightarrow> string \<Rightarrow> string \<Rightarrow> host \<times> 'w \<Rightarrow> (cli_error + unit) \<times> host \<times> 'w" where
  "download_file W R c i target st =
     (case st of (h, w) \<Rightarrow>
      let u = ccAPIURL c @ ''/api/v1/files/'' @ path_escape i in
      if cwRequestErr W ''GET'' u then (Inl RequestInvalid, h, w)
      else (case R \<lparr>crMethod = ''GET'', crURL = u, crHeader = [(''Authorization'', ''Bearer '' @ ccToken c)],
            crBody = NoBody\<rparr> w of
          (Inl e, w) \<Rightarrow> (Inl (TransportFailed e), h, w)
        | (Inr r, w) \<Rightarrow>
            if cpStatus r \<noteq> 200 then (Inl (readXionError W r), h, w)
            else (case save_download W target (cpBody r) h of (x, h) \<Rightarrow> (x, h, w))))"

section \<open>Printing\<close>

text \<open>\<open>%.1f\<close>: the exact value rounded half to even.\<close>

definition show_fixed1 :: "rat \<Rightarrow> string" where
  "show_fixed1 a = (let n = round_half_even (a * 10) in show_int (n div 10) @ ''.'' @ show_int (n mod 10))"

fun human_units :: "rat \<Rightarrow> string list \<Rightarrow> string" where
  "human_units a [] = show_fixed1 a"
| "human_units a (u # us) =
     (let a = a / 1024 in if 1024 \<le> a \<and> us \<noteq> [] then human_units a us else show_fixed1 a @ u)"

definition humanBytes :: "int \<Rightarrow> string" where
  "humanBytes v =
     (if v < 1024 then show_int v @ '' B''
      else human_units (f64 (of_int v)) [''K'', ''M'', ''G'', ''T'', ''P''])"

definition cli_maxInt64 :: "int \<Rightarrow> int" where
  "cli_maxInt64 v = (if v < 0 then 0 else v)"

definition trimJSONSpace :: "bytes \<Rightarrow> bytes" where
  "trimJSONSpace v = trim_space v"

definition isJSON :: "bytes \<Rightarrow> bool" where
  "isJSON v \<longleftrightarrow> trimJSONSpace v \<noteq> '''' \<and> prefix ''{'' (trimJSONSpace v)"

text \<open>What a command prints.\<close>

datatype cli_output =
  Text string
| CapacityTable string string string rat bool int int string
| ConfigReport config_output

definition printJSON :: "cli_world \<Rightarrow> bytes \<Rightarrow> cli_error + cli_output" where
  "printJSON W payload =
     (if \<not> isJSON payload then Inl BadPayload
      else (case cwIndent W payload of None \<Rightarrow> Inl BadPayload | Some t \<Rightarrow> Inr (Text t)))"

definition printRemoved :: "cli_world \<Rightarrow> bytes \<Rightarrow> cli_error + cli_output" where
  "printRemoved W payload =
     (case cwRemoved W payload of None \<Rightarrow> Inl BadPayload | Some n \<Rightarrow> Inr (Text (''removed '' @ show_int n)))"

definition printCapacity :: "cli_world \<Rightarrow> bytes \<Rightarrow> cli_error + cli_output" where
  "printCapacity W payload =
     (case cwCapacity W payload of
        None \<Rightarrow> Inl BadPayload
      | Some st \<Rightarrow>
          if csTotalBytes st = 0 then Inl BadPayload
          else Inr (CapacityTable (humanBytes (csTotalBytes st)) (humanBytes (csUsedBytes st))
            (humanBytes (csAvailableBytes st)) (csUsedPercent st) (csWritesPaused st) (csPauseAtPercent st)
            (csObjectCount st) (humanBytes (cli_maxInt64 (csObjectBytes st)))))"

section \<open>The commands\<close>

definition version_text :: "cli_world \<Rightarrow> string" where
  "version_text W = cwVersion W @ '' ('' @ cwCommit W @ '')''"

text \<open>\<open>findCommandIndex\<close>: the first argument that is no global option and no value of one.\<close>

definition global_options :: "string list" where
  "global_options = [''--env-file'', ''--api'', ''--token'', ''--timeout'']"

fun find_command :: "nat \<Rightarrow> string list \<Rightarrow> nat option" where
  "find_command i [] = None"
| "find_command i (arg # rest) =
     (if CHR ''='' \<in> set arg \<and> prefix ''--'' arg then find_command (i + 1) rest
      else if arg \<in> set global_options then
        (case rest of [] \<Rightarrow> None | v # rest' \<Rightarrow> find_command (i + 2) rest')
      else if prefix ''-'' arg then find_command (i + 1) rest
      else Some i)"

definition findCommandIndex :: "string list \<Rightarrow> nat option" where
  "findCommandIndex args = find_command 0 args"

definition global_flags :: flags where
  "global_flags =
     [(''env-file'', FlagString ''/etc/astrastore-xion.env''), (''api'', FlagString ''''), (''token'', FlagString ''''),
      (''timeout'', FlagDuration 0)]"

text \<open>The options of a command, none of which may be followed by arguments.\<close>

definition command_flags :: "cli_world \<Rightarrow> flags \<Rightarrow> string list \<Rightarrow> cli_error + flags" where
  "command_flags W formal args =
     (case parse_flags (cwParseDuration W) formal args of
        Inl e \<Rightarrow> Inl (FlagError e)
      | Inr (fs, rest) \<Rightarrow> if rest \<noteq> [] then Inl UsageError else Inr fs)"

definition parseListFlags :: "cli_world \<Rightarrow> string list \<Rightarrow> cli_error + int \<times> int" where
  "parseListFlags W args =
     (case command_flags W [(''limit'', FlagInt 100), (''offset'', FlagInt 0)] args of
        Inl e \<Rightarrow> Inl e
      | Inr fs \<Rightarrow>
          (let limit = flag_int (map_of fs ''limit''); offset = flag_int (map_of fs ''offset'')
           in if limit < 1 \<or> 1000 < limit \<or> offset < 0 then Inl UsageError else Inr (limit, offset)))"

record logs_flags =
  lfLines :: int
  lfSince :: string
  lfFollow :: bool

definition parseLogsFlags :: "cli_world \<Rightarrow> string list \<Rightarrow> cli_error + logs_flags" where
  "parseLogsFlags W args =
     (case command_flags W [(''lines'', FlagInt 100), (''since'', FlagString ''''), (''follow'', FlagBool False)] args of
        Inl e \<Rightarrow> Inl e
      | Inr fs \<Rightarrow>
          (let n = flag_int (map_of fs ''lines'')
           in if n < 1 \<or> 10000 < n then Inl UsageError
              else Inr \<lparr>lfLines = n, lfSince = flag_string (map_of fs ''since''), lfFollow = flag_bool (map_of fs ''follow'')\<rparr>))"

definition journalctlRunner :: "string list \<Rightarrow> host \<Rightarrow> (cli_error + unit) \<times> host" where
  "journalctlRunner args h =
     (case run_command (''journalctl'' # args) h of (ok, h) \<Rightarrow> (if ok then Inr () else Inl JournalFailed, h))"

definition runLogs :: "logs_flags \<Rightarrow> host \<Rightarrow> (cli_error + unit) \<times> host" where
  "runLogs f h =
     journalctlRunner ([''-u'', xionSystemdUnit, ''--no-pager'', ''--output=cat'', ''-n'', show_int (lfLines f)] @
       (if lfSince f \<noteq> '''' then [''--since'', lfSince f] else []) @ (if lfFollow f then [''-f''] else [])) h"

definition parseTrashPurgeFlags :: "cli_world \<Rightarrow> string list \<Rightarrow> cli_error + string \<times> bool" where
  "parseTrashPurgeFlags W args =
     (case command_flags W [(''older-than'', FlagString ''''), (''all'', FlagBool False), (''yes'', FlagBool False)] args of
        Inl e \<Rightarrow> Inl e
      | Inr fs \<Rightarrow>
          (let olderThan = flag_string (map_of fs ''older-than''); all = flag_bool (map_of fs ''all'')
           in if \<not> flag_bool (map_of fs ''yes'') then Inl NotConfirmed
              else if \<not> all \<and> trim_space olderThan = '''' then Inl CutoffRequired
              else Inr (olderThan, all)))"

text \<open>The loop over the arguments of \<open>delete\<close>: the identifier, and whether \<open>--yes\<close> is among them.\<close>

fun delete_args :: "bool \<Rightarrow> string \<Rightarrow> string list \<Rightarrow> cli_error + bool \<times> string" where
  "delete_args confirmed i [] = Inr (confirmed, i)"
| "delete_args confirmed i (arg # args) =
     (if arg = ''--yes'' then delete_args True i args
      else if i = '''' then delete_args confirmed arg args
      else Inl UsageError)"

definition show_with :: "('a \<Rightarrow> cli_error + cli_output) \<Rightarrow> (cli_error + 'a) \<times> 'z \<Rightarrow> (cli_error + cli_output) \<times> 'z" where
  "show_with f x = (case x of (Inl e, z) \<Rightarrow> (Inl e, z) | (Inr a, z) \<Rightarrow> (f a, z))"

definition runUploadsCommand ::
  "cli_world \<Rightarrow> 'w server \<Rightarrow> cli_config \<Rightarrow> string list \<Rightarrow> 'w \<Rightarrow> (cli_error + cli_output) \<times> 'w" where
  "runUploadsCommand W R c args w =
     (if args = [''list''] then show_with (printJSON W) (list_uploads W R c w)
      else if args = [''purge''] then show_with (printRemoved W) (sweep_uploads W R c w)
      else (Inl UsageError, w))"

definition runTrashCommand ::
  "cli_world \<Rightarrow> 'w server \<Rightarrow> cli_config \<Rightarrow> string list \<Rightarrow> 'w \<Rightarrow> (cli_error + cli_output) \<times> 'w" where
  "runTrashCommand W R c args w =
     (case args of
        [] \<Rightarrow> (Inl UsageError, w)
      | cmd # rest \<Rightarrow>
          if cmd = ''list'' then
            (case parseListFlags W rest of Inl e \<Rightarrow> (Inl e, w)
             | Inr (limit, offset) \<Rightarrow> show_with (printJSON W) (list_trash W R c limit offset w))
          else if cmd = ''restore'' then
            (case rest of
               [i] \<Rightarrow> if trim_space i = '''' then (Inl UsageError, w) else show_with (printJSON W) (restore_file W R c i w)
             | _ \<Rightarrow> (Inl UsageError, w))
          else if cmd = ''purge'' then
            (case parseTrashPurgeFlags W rest of Inl e \<Rightarrow> (Inl e, w)
             | Inr (olderThan, all) \<Rightarrow> show_with (printRemoved W) (purge_trash W R c olderThan all w))
          else (Inl UsageError, w))"

text \<open>The commands that send requests.\<close>

definition remote_command ::
  "cli_world \<Rightarrow> 'w server \<Rightarrow> cli_config \<Rightarrow> string \<Rightarrow> string list \<Rightarrow> host \<times> 'w \<Rightarrow>
   (cli_error + cli_output) \<times> host \<times> 'w" where
  "remote_command W R c command args st =
     (case st of (h, w) \<Rightarrow>
      let usage = (Inl UsageError, st); with_host = (\<lambda>(r, w). (r, h, w)) in
      if command = ''health'' then with_host (show_with (\<lambda>t. Inr (Text t)) (health W R c w))
      else if command = ''list'' then
        (case parseListFlags W args of Inl e \<Rightarrow> (Inl e, st)
         | Inr (limit, offset) \<Rightarrow> with_host (show_with (printJSON W) (list_files W R c limit offset w)))
      else if command = ''capacity'' then
        (if args \<noteq> [] then usage else with_host (show_with (printCapacity W) (capacity_of W R c w)))
      else if command = ''info'' \<or> command = ''status'' then
        (case args of
           [i] \<Rightarrow> if trim_space i = '''' then usage else with_host (show_with (printJSON W) (info_of W R c i w))
         | _ \<Rightarrow> usage)
      else if command = ''upload'' then
        (case args of
           [p] \<Rightarrow> if trim_space p = '''' then usage else show_with (printJSON W) (upload_file W R c p st)
         | _ \<Rightarrow> usage)
      else if command = ''download'' then
        (case args of
           [i, target] \<Rightarrow>
             if trim_space i = '''' \<or> trim_space target = '''' then usage
             else show_with (\<lambda>_. Inr (Text (''downloaded '' @ i @ '' -> '' @ target))) (download_file W R c i target st)
         | _ \<Rightarrow> usage)
      else if command = ''delete'' then
        (case delete_args False '''' args of Inl e \<Rightarrow> (Inl e, st)
         | Inr (confirmed, i) \<Rightarrow>
             if i = '''' then usage
             else if \<not> confirmed then (Inl NotConfirmed, st)
             else with_host (show_with (\<lambda>_. Inr (Text (''deleted '' @ i))) (delete_file W R c i w)))
      else if command = ''version'' then
        (if args \<noteq> [] then usage else (Inr (Text (''xionctl '' @ version_text W)), st))
      else if command = ''uploads'' then with_host (runUploadsCommand W R c args w)
      else if command = ''trash'' then with_host (runTrashCommand W R c args w)
      else (Inl UnknownCommand, st))"

definition environment_keys :: "string list" where
  "environment_keys = [''XION_API_URL'', ''XION_LISTEN_ADDR'', ''XION_SERVICE_TOKEN'', ''XION_TIMEOUT'']"

definition runWithRunners ::
  "cli_world \<Rightarrow> 'w server \<Rightarrow> string list \<Rightarrow> host \<times> 'w \<Rightarrow> (cli_error + cli_output) \<times> host \<times> 'w" where
  "runWithRunners W R args st =
     (case findCommandIndex args of
        None \<Rightarrow> (Inl NoCommand, st)
      | Some k \<Rightarrow>
     (case parse_flags (cwParseDuration W) global_flags (take k args) of
        Inl e \<Rightarrow> (Inl (FlagError e), st)
      | Inr (fs, _) \<Rightarrow>
     (case st of (h, w) \<Rightarrow>
      let envFile = flag_string (map_of fs ''env-file'');
          envPath = (if envFile = '''' then None else Some (os_path envFile));
          command = args ! k; commandArgs = drop (k + 1) args in
      if command = ''logs'' then
        (case parseLogsFlags W commandArgs of Inl e \<Rightarrow> (Inl e, st)
         | Inr f \<Rightarrow> (case runLogs f h of (r, h) \<Rightarrow> (map_sum id (\<lambda>_. Text '''') r, h, w)))
      else if command = ''config'' then
        (case runConfig (cwParseDuration W) envPath commandArgs (cwStamp W) (cwRandom W) h of (r, h) \<Rightarrow>
           (map_sum id ConfigReport r, h, w))
      else
        (case loadConfig (cwParseDuration W) envPath (map (\<lambda>k. (k, cwGetenv W k)) environment_keys)
            \<lparr>ccAPIURL = flag_string (map_of fs ''api''), ccToken = flag_string (map_of fs ''token''),
             ccTimeout = flag_int (map_of fs ''timeout'')\<rparr> h of
           (Inl e, h) \<Rightarrow> (Inl e, h, w)
         | (Inr c, h) \<Rightarrow> remote_command W R c command commandArgs (h, w)))))"

end
