(* ===== verification/EnvLaws.thy ===== *)
theory EnvLaws
  imports EnvFile
begin

text \<open>
  What changing the upload limit does to the environment file: the value that is read back
  afterwards, every other setting, and the file itself under any failure.
\<close>

section \<open>Lines\<close>

lemma space_only_cr: "p \<in> set space_seqs \<Longrightarrow> p \<noteq> [CHR 0x0D] \<Longrightarrow> CHR 0x0D \<notin> set p"
proof -
  have "list_all (\<lambda>p. p \<noteq> [CHR 0x0D] \<longrightarrow> CHR 0x0D \<notin> set p) space_seqs" by code_simp
  then show "p \<in> set space_seqs \<Longrightarrow> p \<noteq> [CHR 0x0D] \<Longrightarrow> CHR 0x0D \<notin> set p"
    unfolding list_all_iff by blast
qed

lemma trim_right_cr: "trim_right (s @ [CHR 0x0D]) = trim_right s"
  by (simp add: trim_right_def, subst strip_front.simps) (simp add: space_seqs_def)

lemma strip_front_Nil: "strip_front seqs [] = []"
  using strip_front_drop [of seqs "[]"] by auto

lemma trim_left_only_cr: "strip_front space_seqs [CHR 0x0D] = []"
  by code_simp

lemma trim_left_cr:
  "strip_front space_seqs (s @ [CHR 0x0D]) =
     (if strip_front space_seqs s = [] then [] else strip_front space_seqs s @ [CHR 0x0D])"
proof (induction "length s" arbitrary: s rule: less_induct)
  case less
  show ?case
  proof (cases "s = []")
    case True
    then show ?thesis using trim_left_only_cr by (simp add: strip_front_Nil)
  next
    case False
    let ?P = "\<lambda>s p. p \<noteq> [] \<and> prefix p s"
    have "find (?P (s @ [CHR 0x0D])) space_seqs = find (?P s) space_seqs"
    proof (rule find_cong [OF refl])
      fix p assume "p \<in> set space_seqs"
      then have "p \<noteq> s @ [CHR 0x0D]" using space_only_cr [of p] False by auto
      then show "?P (s @ [CHR 0x0D]) p = ?P s p" by (auto simp: prefix_snoc)
    qed
    note f = this
    show ?thesis
    proof (cases "find (?P s) space_seqs")
      case None
      then show ?thesis using f False strip_front.simps [of space_seqs "s @ [CHR 0x0D]"]
          strip_front.simps [of space_seqs s] by simp
    next
      case (Some p)
      then have p: "p \<noteq> []" "prefix p s" by (auto simp: find_Some_iff)
      then have l: "length (drop (length p) s) < length s" using False by simp
      show ?thesis
        using f Some less [OF l] p strip_front.simps [of space_seqs "s @ [CHR 0x0D]"]
          strip_front.simps [of space_seqs s] by (auto simp: prefix_def)
    qed
  qed
qed

lemma trim_space_drop_cr: "trim_space (drop_cr l) = trim_space l"
proof (cases "l \<noteq> '''' \<and> last l = CHR 0x0D")
  case True
  then obtain s where "l = s @ [CHR 0x0D]" by (metis append_butlast_last_id)
  then show ?thesis
    using trim_left_cr [of s] trim_right_cr by (simp add: drop_cr_def trim_space_def trim_left_def)
qed (auto simp: drop_cr_def)

lemma env_line_drop_cr: "env_line (drop_cr l) = env_line l"
  by (simp add: env_line_def trim_space_drop_cr)

text \<open>The settings after a line.\<close>

definition env_step :: "(string \<rightharpoonup> string) \<Rightarrow> string \<Rightarrow> string \<rightharpoonup> string" where
  "env_step m l = (case env_line l of None \<Rightarrow> m | Some (k, v) \<Rightarrow> m(k \<mapsto> v))"

lemma env_step_set: "env_line l = Some (k, v) \<Longrightarrow> env_step m l = m(k \<mapsto> v)"
  by (simp add: env_step_def)

lemma env_step_none: "env_line l = None \<Longrightarrow> env_step m l = m"
  by (simp add: env_step_def)

lemma env_step_other:
  "(\<And>x. env_line l \<noteq> Some (key, x)) \<Longrightarrow> env_step (m(key \<mapsto> v)) l = (env_step m l)(key \<mapsto> v)"
  by (auto simp: env_step_def fun_eq_iff split: option.splits)

lemma env_step_empty: "env_step m '''' = m"
  by (simp add: env_step_def env_line_def trim_space_def trim_left_def trim_right_def strip_front_Nil)

lemma env_values_steps: "map_of (env_values ls) = foldl env_step Map.empty ls"
  by (induction ls rule: rev_induct)
    (auto simp: env_values_def env_step_def AList.update_conv' split: option.splits)

lemma steps_drop_cr: "foldl env_step m (map drop_cr ls) = foldl env_step m ls"
  by (induction ls arbitrary: m) (simp_all add: env_step_def env_line_drop_cr)

lemma steps_raw_lines: "foldl env_step m (raw_lines data) = foldl env_step m (split_on (CHR 0x0A) data)"
proof -
  let ?ls = "split_on (CHR 0x0A) data"
  have "foldl env_step m ?ls = env_step (foldl env_step m (butlast ?ls)) (last ?ls)"
    by (metis append_butlast_last_id foldl_Cons foldl_Nil foldl_append split_on_not_Nil)
  then show ?thesis by (simp add: raw_lines_def Let_def env_step_empty)
qed

text \<open>What a file sets, when it can be read.\<close>

definition settings :: "bytes \<Rightarrow> string \<rightharpoonup> string" where
  "settings data = foldl env_step Map.empty (split_on (CHR 0x0A) data)"

lemma scan_settings: "scan_lines data = Inr ls \<Longrightarrow> map_of (env_values ls) = settings data"
  by (auto simp: scan_lines_def env_values_steps steps_drop_cr steps_raw_lines settings_def split: if_splits)

lemma split_on_free_parts: "l \<in> set (split_on c s) \<Longrightarrow> c \<notin> set l"
proof (induction s arbitrary: l)
  case (Cons x s)
  then show ?case by (cases "split_on c s") (auto split: if_splits)
qed simp

lemma split_join: "ls \<noteq> [] \<Longrightarrow> (\<And>l. l \<in> set ls \<Longrightarrow> c \<notin> set l) \<Longrightarrow> split_on c (join_on c ls) = ls"
proof (induction c ls rule: join_on.induct)
  case (2 c l)
  then show ?case by (simp add: split_on_free)
next
  case (3 c l m ms)
  then show ?case by (simp add: split_on_append)
qed simp

section \<open>Setting a value\<close>

lemma set_steps:
  assumes "env_line (key @ ''='' @ v) = Some (key, v)"
    and "\<And>l. l \<in> set ls \<Longrightarrow> assigns key l \<longleftrightarrow> (\<exists>x. env_line l = Some (key, x))"
  shows "foldl env_step m (map (\<lambda>l. if assigns key l then key @ ''='' @ v else l) ls) =
    (if list_ex (assigns key) ls then (foldl env_step m ls)(key \<mapsto> v) else foldl env_step m ls)"
  using assms(2)
proof (induction ls rule: rev_induct)
  case (snoc l ls)
  then have IH: "foldl env_step m (map (\<lambda>l. if assigns key l then key @ ''='' @ v else l) ls) =
    (if list_ex (assigns key) ls then (foldl env_step m ls)(key \<mapsto> v) else foldl env_step m ls)" by simp
  show ?case
  proof (cases "assigns key l")
    case True
    then obtain x where "env_line l = Some (key, x)" using snoc.prems by auto
    then show ?thesis using True IH assms(1) by (auto simp: env_step_set fun_eq_iff)
  next
    case False
    then have "env_line l \<noteq> Some (key, x)" for x using snoc.prems [of l] by auto
    then show ?thesis using False IH
      by (simp add: env_step_other)
  qed
qed simp

text \<open>The lines of the file that assign the key; with a blank before the equals sign a line
  assigns it without being found by \<open>setEnvValue\<close>.\<close>

definition plain_lines :: "string \<Rightarrow> bytes \<Rightarrow> bool" where
  "plain_lines key data \<longleftrightarrow>
     list_all (\<lambda>l. map_option fst (env_line l) = Some key \<longrightarrow> assigns key l) (split_on (CHR 0x0A) data)"

lemma key_line:
  assumes "trim_space l = maxUploadBytesKey @ ''='' @ r"
  shows "env_line l = Some (maxUploadBytesKey, unquoteEnvValue (trim_space r))"
proof -
  have "trim_space maxUploadBytesKey = maxUploadBytesKey"
    by (rule trim_space_graphic) (simp_all add: maxUploadBytesKey_def graphic_def less_eq_char_def)
  then show ?thesis
    unfolding env_line_def assms Let_def by (simp add: maxUploadBytesKey_def EnvFile.cut_def)
qed

lemma key_assigns: "assigns maxUploadBytesKey l \<Longrightarrow> \<exists>x. env_line l = Some (maxUploadBytesKey, x)"
  using key_line by (auto simp: assigns_def prefix_def)

lemma number_line:
  assumes "0 \<le> n"
  shows "env_line (maxUploadBytesKey @ ''='' @ show_int n) = Some (maxUploadBytesKey, show_int n)"
proof -
  have g: "graphic (hd (show_int n))" "graphic (last (show_int n))" "\<not> is_digit (CHR 0x22)" "\<not> is_digit (CHR 0x27)"
    using show_int_digits [OF assms] show_int_last [OF assms]
    by (auto simp: list_all_iff digit_graphic is_digit_def less_eq_char_def)
  have h: "is_digit (hd (show_int n))" using show_int_digits [OF assms] by (auto simp: list_all_iff)
  have "trim_space (maxUploadBytesKey @ ''='' @ show_int n) = maxUploadBytesKey @ ''='' @ show_int n"
    using show_int_digits [OF assms] g(2)
    by (intro trim_space_graphic) (simp_all add: maxUploadBytesKey_def graphic_def less_eq_char_def)
  moreover have "unquoteEnvValue (show_int n) = show_int n"
    using h g(3,4) by (auto simp: unquoteEnvValue_def)
  ultimately show ?thesis using key_line trim_space_graphic [OF g(1,2)] by simp
qed

lemma setEnvValue_lines:
  assumes "CHR 0x0A \<notin> set (key @ ''='' @ v)"
  shows "split_on (CHR 0x0A) (setEnvValue data key v) =
    (let ls = split_on (CHR 0x0A) data; ks = map (\<lambda>l. if assigns key l then key @ ''='' @ v else l) ls
     in if list_ex (assigns key) ls then ks
        else (if ks \<noteq> [] \<and> last ks \<noteq> '''' then ks @ [''''] else ks) @ [key @ ''='' @ v])"
  unfolding setEnvValue_def Let_def
  by (rule split_join) (use assms split_on_free_parts [of _ "CHR 0x0A" data] in \<open>auto split: if_splits\<close>)

lemma set_settings:
  assumes "0 \<le> n" "plain_lines maxUploadBytesKey data"
  shows "settings (setEnvValue data maxUploadBytesKey (show_int n)) =
    (settings data)(maxUploadBytesKey \<mapsto> show_int n)"
proof -
  let ?k = maxUploadBytesKey and ?ls = "split_on (CHR 0x0A) data"
  let ?f = "\<lambda>l. if assigns ?k l then ?k @ ''='' @ show_int n else l"
  note line = number_line [OF assms(1)]
  have "\<not> is_digit (CHR 0x0A)" by (simp add: is_digit_def less_eq_char_def)
  then have nl: "CHR 0x0A \<notin> set (?k @ ''='' @ show_int n)"
    using show_int_free [OF assms(1)] by (auto simp: maxUploadBytesKey_def)
  have s: "foldl env_step Map.empty (map ?f ?ls) =
      (if list_ex (assigns ?k) ?ls then (settings data)(?k \<mapsto> show_int n) else settings data)"
    unfolding settings_def using assms(2) key_assigns
    by (intro set_steps [OF line]) (auto simp: plain_lines_def list_all_iff)
  have "foldl env_step Map.empty (if ks \<noteq> [] \<and> last ks \<noteq> '''' then ks @ [''''] else ks) =
      foldl env_step Map.empty ks" for ks
    by (simp add: env_step_empty)
  then show ?thesis
    using s unfolding settings_def [of "setEnvValue data ?k (show_int n)"] setEnvValue_lines [OF nl] Let_def
    using line by (simp add: env_step_set env_step_empty)
qed

section \<open>The size\<close>

lemma size_multiplier: "find P size_suffixes = Some (name, m) \<Longrightarrow> 0 < m \<and> m \<le> 2 ^ 40"
proof -
  have "list_all (\<lambda>(name, m). 0 < m \<and> m \<le> 2 ^ 40) size_suffixes" by code_simp
  then show "find P size_suffixes = Some (name, m) \<Longrightarrow> 0 < m \<and> m \<le> 2 ^ 40"
    by (auto simp: find_Some_iff list_all_length)
qed

lemma parseUploadSize_range:
  assumes "parseUploadSize raw = Inr n"
  shows "0 < n \<and> n \<le> 2 ^ 62"
proof -
  let ?v = "upper_text (trim_space raw)"
  obtain w m where c: "(case find (\<lambda>(name, m). suffix name ?v) size_suffixes of
      None \<Rightarrow> (?v, 1) | Some (name, m) \<Rightarrow> (trim_space (trim_suffix name ?v), m)) = (w, m)" by fastforce
  then have m: "0 < m" using size_multiplier by (auto split: option.splits)
  then obtain base where b: "0 < base" "base \<le> 2 ^ 62 div m" "0 < m" "n = wrap64 (base * m)"
    using assms unfolding parseUploadSize_def Let_def c by (auto simp: not_le not_less split: if_splits option.splits)
  have "base * m \<le> (2 ^ 62 div m) * m" using b by (intro mult_right_mono) auto
  also have "\<dots> \<le> 2 ^ 62" using b(3) by (metis div_mult_mod_eq le_add_same_cancel1 pos_mod_sign)
  finally have "base * m \<le> 2 ^ 62" .
  moreover have "0 < base * m" using b by simp
  ultimately show ?thesis using b(4) by (simp add: wrap64_nonneg_id max_int64_def)
qed

section \<open>The file under failures\<close>

lemma write_temp_effect:
  assumes "write_temp q d s = (r, t)"
  shows "touches {q} s t" "r = Inr () \<Longrightarrow> look t q = Some (NFile (Blob d))" "r \<noteq> Inl RestartFailed"
proof -
  have "touches {q} s (snd (write_temp q d s))"
    unfolding write_temp_def remove_temp_def by (intro touch_intros) simp_all
  then show "touches {q} s t" using assms by simp
  show "r \<noteq> Inl RestartFailed"
    using assms by (auto simp: write_temp_def split: prod.splits sum.splits)
  assume "r = Inr ()"
  then obtain s1 s2 s3 s4 where "os_write q (Blob d) s2 = (Inr (), s3)" "os_sync s3 = (Inr (), s4)"
      "os_close s4 = (Inr (), t)"
    using assms by (auto simp: write_temp_def split: prod.splits sum.splits)
  then show "look t q = Some (NFile (Blob d))"
    using os_effects(6) [of q "Blob d" s2 "Inr ()" s3] os_effects(3) [of s3 "Inr ()" s4] os_effects(4) [of s4 "Inr ()" t]
    by auto
qed

lemma config_siblings:
  assumes "snd p \<noteq> []"
  shows "backup_path p stamp \<noteq> p" "under (backup_path p stamp) x \<Longrightarrow> length (snd x) = length (snd p) \<Longrightarrow> x = backup_path p stamp"
    and "under (config_temp p rnd) x \<Longrightarrow> length (snd x) = length (snd p) \<Longrightarrow> x = config_temp p rnd"
    and "length (snd (backup_path p stamp)) = length (snd p)" "length (snd (config_temp p rnd)) = length (snd p)"
    and "\<not> under (config_temp p rnd) (parent p)" "\<not> under p (parent p)"
proof -
  obtain a ns n where p: "p = (a, ns @ [n])" using assms by (cases p) (metis append_butlast_last_id snd_conv)
  show "backup_path p stamp \<noteq> p" by (simp add: p backup_path_def sibling_def)
  show "length (snd (backup_path p stamp)) = length (snd p)" "length (snd (config_temp p rnd)) = length (snd p)"
    by (simp_all add: p backup_path_def config_temp_def sibling_def)
  show "under (backup_path p stamp) x \<Longrightarrow> length (snd x) = length (snd p) \<Longrightarrow> x = backup_path p stamp"
    "under (config_temp p rnd) x \<Longrightarrow> length (snd x) = length (snd p) \<Longrightarrow> x = config_temp p rnd"
    by (cases x; auto simp: p backup_path_def config_temp_def sibling_def prefix_def)+
  show "\<not> under (config_temp p rnd) (parent p)" "\<not> under p (parent p)"
    by (auto simp: p config_temp_def sibling_def dest: prefix_length_le)
qed

lemma write_temp_exists:
  "look s q = Some n \<Longrightarrow> \<exists>e sc. write_temp q d s = (Inl (CliOSErr e), s\<lparr>script := sc\<rparr>)"
  by (cases s rule: script_cases)
    (auto simp: write_temp_def step_simps go_simps intro: exI [of _ "script s"])

lemma replace_file_effect:
  assumes "replace_file p rnd d s = (r, t)" "snd p \<noteq> []" "look s p = Some (NFile c)"
  shows "r \<noteq> Inl RestartFailed"
    "length (snd x) = length (snd p) \<Longrightarrow> x \<noteq> config_temp p rnd \<Longrightarrow> x \<noteq> p \<Longrightarrow> look t x = look s x"
    "r = Inl e \<Longrightarrow> look t p = look s p"
    "r = Inr () \<Longrightarrow> look t p = Some (NFile (Blob d)) \<and> look t (parent p) = Some NDir \<and>
       look s (config_temp p rnd) = None"
proof -
  let ?q = "config_temp p rnd"
  obtain x1 s1 where 1: "write_temp ?q d s = (x1, s1)" by fastforce
  note w = write_temp_effect [OF 1]
  have s1: "look s1 x = look s x" if "length (snd x) = length (snd p)" "x \<noteq> ?q" for x
    using that config_siblings(3) [OF assms(2), of rnd x] touches_look [OF w(1), of x] by blast
  have same: "look s1 = look s" if "?q = p" using write_temp_exists [of s ?q "NFile c" d] assms(3) 1 that by auto
  have p1: "look s1 p = look s p" using s1 [of p] same by (cases "?q = p") auto
  have "r \<noteq> Inl RestartFailed \<and> (length (snd x) = length (snd p) \<longrightarrow> x \<noteq> ?q \<longrightarrow> x \<noteq> p \<longrightarrow> look t x = look s x) \<and>
    (r = Inl e \<longrightarrow> look t p = look s p) \<and>
    (r = Inr () \<longrightarrow> look t p = Some (NFile (Blob d)) \<and> look t (parent p) = Some NDir \<and> look s ?q = None)"
  proof (cases x1)
    case (Inl e1)
    then have "r = Inl e1" "t = s1" using assms(1) 1 by (auto simp: replace_file_def)
    then show ?thesis using w(3) Inl s1 p1 by auto
  next
    case (Inr u)
    then have l: "look s1 ?q = Some (NFile (Blob d))" and n: "look s ?q = None"
      using w(2) write_temp_exists [of s ?q _ d] 1 by (cases "look s ?q"; fastforce)+
    then have q: "?q \<noteq> p" using assms(3) by auto
    obtain x2 s2 where 2: "os_rename ?q p s1 = (x2, s2)" by fastforce
    obtain sc where e2: "s2 = (case x2 of Inl e \<Rightarrow> s1 | Inr _ \<Rightarrow> put_entry p (NFile (Blob d)) (del_entry ?q s1))\<lparr>script := sc\<rparr>"
      using os_effects(7) [OF l 2] by blast
    show ?thesis
    proof (cases x2)
      case (Inl e2)
      then have "r = Inl (CliOSErr e2)" "t = remove_temp ?q s2" using assms(1) 1 2 Inr by (auto simp: replace_file_def)
      moreover have "touches {?q} s2 (remove_temp ?q s2)"
        unfolding remove_temp_def by (intro touch_intros) simp
      then have "look (remove_temp ?q s2) x = look s2 x" if "length (snd x) = length (snd p)" "x \<noteq> ?q" for x
        using that config_siblings(3) [OF assms(2), of rnd x] touches_look [of "{?q}" s2 _ x] by blast
      ultimately show ?thesis using Inl e2 s1 p1 q by auto
    next
      case x2: (Inr u2)
      then have "r = Inr ()" "t = s2" using assms(1) 1 2 Inr by (auto simp: replace_file_def)
      moreover have "look s1 (parent p) = Some NDir"
        using 2 x2 by (auto simp: os_rename_def syscall_def tick_def look_def split: list.splits option.splits if_splits)
      moreover have "parent p \<noteq> p" "parent p \<noteq> ?q" using config_siblings(6,7) [OF assms(2)] by (metis under_refl)+
      ultimately show ?thesis using e2 x2 s1 q n by auto
    qed
  qed
  then show "r \<noteq> Inl RestartFailed"
    "length (snd x) = length (snd p) \<Longrightarrow> x \<noteq> config_temp p rnd \<Longrightarrow> x \<noteq> p \<Longrightarrow> look t x = look s x"
    "r = Inl e \<Longrightarrow> look t p = look s p"
    "r = Inr () \<Longrightarrow> look t p = Some (NFile (Blob d)) \<and> look t (parent p) = Some NDir \<and>
       look s (config_temp p rnd) = None" by auto
qed

lemma os_write_file_effect:
  assumes "os_write_file p d s = (r, t)"
  shows "touches {p} s t" "same_rest s t" "r = Inr () \<Longrightarrow> look t p = Some (NFile (Blob d))"
    "script s = [] \<Longrightarrow> look s (parent p) = Some NDir \<Longrightarrow> look s p \<noteq> Some NDir \<Longrightarrow> r = Inr ()"
proof -
  have "touches {p} s (snd (os_write_file p d s))" "same_rest s (snd (os_write_file p d s))"
    unfolding os_write_file_def by (intro touch_intros rest_intros; simp)+
  then show "touches {p} s t" "same_rest s t" using assms by simp_all
  show "script s = [] \<Longrightarrow> look s (parent p) = Some NDir \<Longrightarrow> look s p \<noteq> Some NDir \<Longrightarrow> r = Inr ()"
    using assms by (simp add: os_write_file_def go_simps)
  assume "r = Inr ()"
  then obtain s1 s2 where "os_write p (Blob d) s1 = (Inr (), s2)" "os_close s2 = (Inr (), t)"
    using assms by (auto simp: os_write_file_def split: prod.splits sum.splits)
  then show "look t p = Some (NFile (Blob d))"
    using os_effects(6) [of p "Blob d" s1 "Inr ()" s2] os_effects(4) [of s2 "Inr ()" t] by auto
qed

definition restart_command :: "string list" where
  "restart_command = [''systemctl'', ''restart'', xionSystemdUnit]"

lemma restart_service_effect:
  assumes "restart_service p d s = (r, t)"
  shows "r = Inr () \<Longrightarrow> look t = look s \<and> hCommands t = hCommands s @ [restart_command]"
    "touches {p} s t" "r = Inl e \<Longrightarrow> e = RestartFailed"
    "r = Inl e \<Longrightarrow> script s = [] \<Longrightarrow> look s (parent p) = Some NDir \<Longrightarrow> look s p \<noteq> Some NDir \<Longrightarrow>
       look t p = Some (NFile (Blob d))"
proof -
  obtain x s1 where 1: "systemctlRunner [''restart'', xionSystemdUnit] s = (x, s1)" by fastforce
  then have s1: "look s1 = look s" "script s1 = script s" "x = Inl e' \<Longrightarrow> e' = RestartFailed"
    "hCommands s1 = hCommands s @ [restart_command]" for e'
    by (auto simp: systemctlRunner_def run_command_def look_def fun_eq_iff restart_command_def split: if_splits)
  obtain y s2 where 2: "os_write_file p d s1 = (y, s2)" by fastforce
  have l: "look (snd (systemctlRunner c w)) = look w" for c w
    by (simp add: systemctlRunner_def run_command_def look_def fun_eq_iff)
  note w = os_write_file_effect [OF 2]
  have t: "r = (case x of Inl e \<Rightarrow> Inl e | Inr _ \<Rightarrow> Inr ())" "look t = (case x of Inl e \<Rightarrow> look s2 | Inr _ \<Rightarrow> look s1)"
    "x = Inr () \<Longrightarrow> t = s1"
    using assms 1 2 l by (auto simp: restart_service_def split: sum.splits)
  show "r = Inr () \<Longrightarrow> look t = look s \<and> hCommands t = hCommands s @ [restart_command]" "r = Inl e \<Longrightarrow> e = RestartFailed"
    using t s1 by (cases x; auto)+
  show "touches {p} s t" using t(2) w(1) s1(1) by (cases x) (simp_all add: touches_def)
  show "r = Inl e \<Longrightarrow> script s = [] \<Longrightarrow> look s (parent p) = Some NDir \<Longrightarrow> look s p \<noteq> Some NDir \<Longrightarrow>
       look t p = Some (NFile (Blob d))"
    using t w(3,4) s1 by (cases x) simp_all
qed

section \<open>Changing the limit\<close>

lemma readEnvFile_effect:
  assumes "readEnvFile (Some p) s = (r, t)" "look s p = Some (NFile (Blob data))"
  shows "look t = look s" "same_rest s t" "r = Inr v \<Longrightarrow> \<exists>ls. scan_lines data = Inr ls \<and> v = env_values ls"
    "r \<noteq> Inl (CliOSErr ENOENT)" "r \<noteq> Inl RestartFailed"
    "script s = [] \<Longrightarrow> r = map_sum id env_values (scan_lines data)"
proof -
  have "touches {} s (snd (readEnvFile (Some p) s))"
    unfolding readEnvFile_def option.case by (intro touch_intros)
  moreover have "same_rest s (snd (readEnvFile (Some p) s))"
    unfolding readEnvFile_def option.case by (intro rest_intros)
  ultimately show "look t = look s" "same_rest s t" using assms by (simp_all add: touches_def fun_eq_iff)
  have o: "e = EIO" if "os_open p s = (Inl e, u)" for e u
    using that assms(2) by (auto simp: os_open_def syscall_def tick_def look_def split: list.splits option.splits)
  have f: "e = EIO" if "os_read_file p u = (Inl e, w)" "look u p = look s p" for e u w
    using that assms(2) by (auto simp: os_read_file_def syscall_def tick_def look_def split: list.splits option.splits)
  have rf: "c = Blob data" if "os_read_file p u = (Inr c, w)" "look u p = look s p" for c u w
    using os_effects(9) [OF that(1)] that(2) assms(2) by auto
  obtain x u where 1: "os_open p s = (x, u)" by fastforce
  have u: "look u = look s" using os_effects(5) [OF 1] by auto
  obtain y w where 2: "os_read_file p u = (y, w)" by fastforce
  have r: "r = (case x of Inl e \<Rightarrow> Inl (CliOSErr e) | Inr _ \<Rightarrow> (case y of Inl e \<Rightarrow> Inl (CliOSErr e)
      | Inr c \<Rightarrow> map_sum id env_values (scan_lines data)))"
  proof -
    have "y = Inr c \<Longrightarrow> c = Blob data" for c using rf [of u c w] 2 u by simp
    then show ?thesis using assms(1) 1 2 by (auto simp: readEnvFile_def split: sum.splits)
  qed
  show "r = Inr v \<Longrightarrow> \<exists>ls. scan_lines data = Inr ls \<and> v = env_values ls"
    using r by (cases "scan_lines data") (auto split: sum.splits)
  show "r \<noteq> Inl (CliOSErr ENOENT)" "r \<noteq> Inl RestartFailed"
    using r o [of _ u] f [of u _ w] 1 2 u by (auto simp: scan_lines_def split: sum.splits if_splits)
  show "script s = [] \<Longrightarrow> r = map_sum id env_values (scan_lines data)"
    using assms by (simp add: readEnvFile_def go_simps)
qed

lemma update_config_effect:
  assumes "update_config p n stamp rnd s = (r, t)" "snd p \<noteq> []" "look s p = Some (NFile (Blob data))"
  shows "r = Inr out \<Longrightarrow> out = ConfigUpdated n (backup_path p stamp) \<and> hCommands t = hCommands s @ [restart_command] \<and>
      look t (backup_path p stamp) = Some (NFile (Blob data)) \<and>
      look t p = Some (NFile (Blob (setEnvValue data maxUploadBytesKey (show_int n))))"
    and "r = Inl e \<Longrightarrow> look t p = look s p \<or> e = RestartFailed \<and> look t (backup_path p stamp) = Some (NFile (Blob data))"
    and "r = Inl e \<Longrightarrow> script s = [] \<Longrightarrow> look t p = look s p"
proof -
  let ?b = "backup_path p stamp" and ?d = "setEnvValue data maxUploadBytesKey (show_int n)"
  obtain x1 s1 where 1: "os_read_file p s = (x1, s1)" by fastforce
  have s1: "look s1 = look s" "same_rest s s1" "x1 = Inr c \<Longrightarrow> c = Blob data" for c
    using os_effects(9) [OF 1] assms(3) same_rest_calls(11) [OF same_rest_refl, of s p] 1 by auto
  obtain x2 s2 where 2: "os_write_file ?b data s1 = (x2, s2)" by fastforce
  note w2 = os_write_file_effect [OF 2]
  have p2: "look s2 p = look s p"
    using touches_look [OF w2(1), of p] config_siblings(1) [OF assms(2), of stamp]
      config_siblings(2) [OF assms(2), of stamp p] s1(1) by auto
  obtain x3 s3 where 3: "os_stat p s2 = (x3, s3)" by fastforce
  have s3: "look s3 = look s2" "same_rest s2 s3"
    using touches_readers(1) [OF touches_refl, of "{}" s2 p] same_rest_calls(1) [OF same_rest_refl, of s2 p] 3
    by (simp_all add: touches_def fun_eq_iff)
  have p3: "look s3 p = Some (NFile (Blob data))" using s3(1) p2 assms(3) by simp
  obtain x4 s4 where 4: "replace_file p rnd ?d s3 = (x4, s4)" by fastforce
  note r4 = replace_file_effect [OF 4 assms(2) p3]
  have "same_rest s3 (snd (replace_file p rnd ?d s3))"
    unfolding replace_file_def write_temp_def remove_temp_def Let_def by (intro rest_intros)
  then have s4: "same_rest s3 s4" using 4 by simp
  obtain x5 s5 where 5: "restart_service p data s4 = (x5, s5)" by fastforce
  note r5 = restart_service_effect [OF 5]
  have run: "(r, t) = (case x1 of Inl e \<Rightarrow> (Inl (CliOSErr e), s1) | Inr c \<Rightarrow>
      case x2 of Inl e \<Rightarrow> (Inl (CliOSErr e), s2) | Inr _ \<Rightarrow>
      case x4 of Inl e \<Rightarrow> (Inl e, s4) | Inr _ \<Rightarrow>
      case x5 of Inl e \<Rightarrow> (Inl e, s5) | Inr _ \<Rightarrow> (Inr (ConfigUpdated n ?b), s5))"
    using assms(1) 1 2 3 4 5 s1(3) by (cases x1) (auto simp: update_config_def split: sum.splits)
  have b4: "look s4 ?b = Some (NFile (Blob data))" if "x2 = Inr ()" "x4 = Inr ()"
  proof -
    have "look s3 ?b = Some (NFile (Blob data))" using w2(3) that(1) s3(1) by simp
    moreover from this have "?b \<noteq> config_temp p rnd" using r4(4) that(2) by auto
    ultimately show ?thesis using r4(2) [of ?b] config_siblings(1,4) [OF assms(2), of stamp] by simp
  qed
  have b5: "look s5 ?b = look s4 ?b"
  proof -
    have "\<not> under p ?b"
      using config_siblings(1,4) [OF assms(2), of stamp] by (cases p; cases "?b") (auto simp: prefix_def)
    then show ?thesis using touches_look [OF r5(2), of ?b] by simp
  qed
  show "r = Inr out \<Longrightarrow> out = ConfigUpdated n ?b \<and> hCommands t = hCommands s @ [restart_command] \<and>
      look t ?b = Some (NFile (Blob data)) \<and> look t p = Some (NFile (Blob ?d))"
  proof -
    assume "r = Inr out"
    then have x: "x2 = Inr ()" "x4 = Inr ()" "x5 = Inr ()" "t = s5" "out = ConfigUpdated n ?b"
      using run by (auto split: sum.splits)
    have "same_rest s s4"
      using s1(2) w2(2) s3(2) s4 by (simp add: same_rest_def)
    then have "hCommands s4 = hCommands s" by (cases s; cases s4) (simp add: same_rest_def)
    then show ?thesis using x b4 b5 r5(1) r4(4) by simp
  qed
  show "r = Inl e \<Longrightarrow> look t p = look s p \<or> e = RestartFailed \<and> look t ?b = Some (NFile (Blob data))"
    using run s1(1) p2 r4(3) p3 assms(3) b4 b5 r5(3) by (auto split: sum.splits)
  show "r = Inl e \<Longrightarrow> script s = [] \<Longrightarrow> look t p = look s p"
  proof -
    assume r: "r = Inl e" and c: "script s = []"
    have "script s4 = []" using c s1(2) w2(2) s3(2) s4 by (simp add: same_rest_def)
    then show ?thesis
      using r run s1(1) p2 r4(3,4) p3 assms(3) r5(4) by (auto split: sum.splits)
  qed
qed

lemma set_raw_lines:
  "set (raw_lines data) \<subseteq> set (split_on (CHR 0x0A) data)"
  "set (split_on (CHR 0x0A) data) \<subseteq> insert '''' (set (raw_lines data))"
proof -
  let ?ls = "split_on (CHR 0x0A) data"
  have "set ?ls = insert (last ?ls) (set (butlast ?ls))"
    by (metis append_butlast_last_id insert_is_Un list.simps(15) set_append split_on_not_Nil sup_commute set_empty2)
  then show "set (raw_lines data) \<subseteq> set ?ls" "set ?ls \<subseteq> insert '''' (set (raw_lines data))"
    by (auto simp: raw_lines_def Let_def)
qed

lemma scan_lines_ok: "(\<exists>ls. scan_lines data = Inr ls) \<longleftrightarrow> (\<forall>l\<in>set (split_on (CHR 0x0A) data). length l < 65536)"
proof -
  have "(\<forall>l\<in>A. P l) \<longleftrightarrow> (\<forall>l\<in>B. P l)" if "A \<subseteq> B" "B \<subseteq> insert '''' A" "P ''''" for A B and P :: "string \<Rightarrow> bool"
    using that by blast
  from this [OF set_raw_lines [of data], of "\<lambda>l. length l < 65536"]
  show ?thesis by (auto simp: scan_lines_def list_ex_iff not_le not_less)
qed

lemma newline_free: "0 \<le> n \<Longrightarrow> CHR 0x0A \<notin> set (maxUploadBytesKey @ ''='' @ show_int n)"
  using show_int_free [of n "CHR 0x0A"] by (auto simp: maxUploadBytesKey_def is_digit_def less_eq_char_def)

lemma show_nat_short: "n < 10 ^ k \<Longrightarrow> 0 < k \<Longrightarrow> length (show_nat n) \<le> k"
proof (induction k arbitrary: n)
  case (Suc k)
  show ?case
  proof (cases "n < 10")
    case False
    then have "n div 10 < 10 ^ k" "0 < k" using Suc.prems by (auto simp: less_mult_imp_div_less intro: gr0I)
    then show ?thesis using Suc.IH False by (subst show_nat.simps) simp
  qed (subst show_nat.simps; simp)
qed simp

lemma show_int_short: "0 < n \<Longrightarrow> n \<le> 2 ^ 62 \<Longrightarrow> length (show_int n) \<le> 100"
proof -
  assume n: "0 < n" "n \<le> 2 ^ 62"
  have "(2 :: int) ^ 62 < 10 ^ 100" by simp
  then have "nat n < 10 ^ 100" using n by (simp add: nat_less_iff)
  then show ?thesis using show_nat_short [of "nat n" 100] n by (simp add: show_int_def)
qed

lemma scan_lines_set:
  assumes "scan_lines data = Inr ls" "length v \<le> 100" "CHR 0x0A \<notin> set (maxUploadBytesKey @ ''='' @ v)"
  shows "\<exists>ks. scan_lines (setEnvValue data maxUploadBytesKey v) = Inr ks"
proof -
  have "\<forall>l\<in>set (split_on (CHR 0x0A) data). length l < 65536" using assms(1) scan_lines_ok by blast
  then show ?thesis
    unfolding scan_lines_ok setEnvValue_lines [OF assms(3)] Let_def using assms(2)
    by (auto simp: maxUploadBytesKey_def)
qed

lemma runConfig_cases:
  assumes "runConfig pd (Some p) args stamp rnd s = (r, t)" "look s p = Some (NFile (Blob data))"
  obtains (shown) m where "r = Inr (ConfigShown m)" "look t = look s"
  | (failed) e where "r = Inl e" "look t = look s"
  | (updated) n s1 ls where "update_config p n stamp rnd s1 = (r, t)" "0 < n" "n \<le> 2 ^ 62" "scan_lines data = Inr ls"
      "look s1 = look s" "same_rest s s1"
proof (cases "parse_flags pd config_flags args")
  case (Inl e)
  then have "r = Inl (FlagError e)" "t = s" using assms(1) by (auto simp: runConfig_def)
  then show ?thesis using that(2) by simp
next
  case parsed: (Inr x)
  obtain fs rest where x: "x = (fs, rest)" by fastforce
  obtain y s1 where y: "readEnvFile (Some p) s = (y, s1)" by fastforce
  note f = readEnvFile_effect [OF y assms(2)]
  show ?thesis
  proof (cases "rest = []")
    case False
    then have "r = Inl UsageError" "t = s" using assms(1) parsed x by (auto simp: runConfig_def)
    then show ?thesis using that(2) by simp
  next
    case True
    show ?thesis
    proof (cases y)
      case (Inl e)
      then have "r = Inl e" "t = s1" using assms(1) parsed x True y f(4) by (auto simp: runConfig_def)
      then show ?thesis using that(2) f(1) by simp
    next
      case y': (Inr vs)
      then obtain ls where ls: "scan_lines data = Inr ls" using f(3) by blast
      show ?thesis
        using assms(1) parsed x True y' y f(1,2) ls that parseUploadSize_range
        by (auto simp: runConfig_def Let_def split: sum.splits if_splits)
    qed
  qed
qed


definition example_env_file :: bytes where
  "example_env_file = ''XION_SERVICE_TOKEN=t'' @ CHR 0x0A # ''XION_MAX_UPLOAD_BYTES=5'' @ [CHR 0x0A]"

definition example_host :: host where
  "example_host = \<lparr>entries = [(((), []), NDir), (((), [''xion.env'']), NFile (Blob example_env_file))], script = [],
     hOutcomes = [], hCommands = []\<rparr>"


text \<open>With the blank the later line wins over the one that the command changed.\<close>

lemma blank_line_wins:
  "settings (setEnvValue (''XION_MAX_UPLOAD_BYTES=5'' @ CHR 0x0A # ''XION_MAX_UPLOAD_BYTES =6'') maxUploadBytesKey ''7'')
     maxUploadBytesKey = Some ''6''"
  by code_simp

end
