(* ===== verification/CliLaws.thy ===== *)
theory CliLaws
  imports Cli EnvLaws GatewayLaws
begin

text \<open>
  What the operator's tool can send: only authorised requests for routes of the gateway, and
  destructive ones only when the operator confirmed them.
\<close>

section \<open>Requests of the tool\<close>

text \<open>A path template as gorilla/mux documents it: a segment in braces stands for any non-empty segment.\<close>

definition template_match :: "string \<Rightarrow> string \<Rightarrow> bool" where
  "template_match t p =
     list_all2 (\<lambda>a b. if prefix ''{'' a then b \<noteq> '''' else a = b) (split_on (CHR ''/'') t) (split_on (CHR ''/'') p)"

definition served :: "string \<Rightarrow> string \<Rightarrow> bool" where
  "served meth target =
     list_ex (\<lambda>(m, t, a, e). m = meth \<and> template_match t (takeWhile (\<lambda>c. c \<noteq> CHR ''?'') target)) routes"

text \<open>The option \<open>--yes\<close> as package flag accepts it.\<close>

definition yes_option :: "string \<Rightarrow> bool" where
  "yes_option a \<longleftrightarrow> a \<in> {''-yes'', ''--yes''} \<or> prefix ''-yes='' a \<or> prefix ''--yes='' a"

definition tool_request :: "string list \<Rightarrow> cli_config \<Rightarrow> cli_request \<Rightarrow> bool" where
  "tool_request args c q \<longleftrightarrow>
     header_get (crHeader q) ''Authorization'' = ''Bearer '' @ ccToken c \<and> ccToken c \<noteq> '''' \<and>
     (\<exists>path. crURL q = ccAPIURL c @ path \<and> served (crMethod q) path \<and>
       (crMethod q = ''DELETE'' \<and> path \<noteq> ''/api/v1/uploads'' \<longrightarrow>
          ''--yes'' \<in> set args \<and> (\<exists>i\<in>set args. path = ''/api/v1/files/'' @ path_escape i)) \<and>
       (path = ''/api/v1/trash/purge'' \<longrightarrow>
          list_ex yes_option args \<and> (\<exists>older all. crBody q = PurgeBody older all \<and> (all \<or> older \<noteq> None))))"

text \<open>A server that keeps a record of what it was sent.\<close>

definition logged :: "'w server \<Rightarrow> ('w \<times> cli_request list) server" where
  "logged R q st = (case st of (w, sent) \<Rightarrow> (case R q w of (x, w') \<Rightarrow> (x, w', sent @ [q])))"

text \<open>A computation that sends only requests of a kind.\<close>

definition sends :: "(cli_request \<Rightarrow> bool) \<Rightarrow> cli_request list \<Rightarrow> 'w \<times> cli_request list \<Rightarrow> bool" where
  "sends P sent w \<longleftrightarrow> (\<exists>qs. snd w = sent @ qs \<and> list_all P qs)"

lemma sends_refl: "snd w = sent \<Longrightarrow> sends P sent w"
  by (simp add: sends_def)

lemma sends_request:
  assumes "sends P sent w"
    and "P \<lparr>crMethod = meth, crURL = ccAPIURL c @ path,
      crHeader = (if ccToken c \<noteq> '''' then [(''Authorization'', ''Bearer '' @ ccToken c)] else []) @
        [(''Accept'', ''application/json'')] @ (if ct \<noteq> '''' then [(''Content-Type'', ct)] else []),
      crBody = b\<rparr>"
  shows "sends P sent (snd (request W (logged R) c meth path b ct ex w))"
  using assms by (auto simp: request_def logged_def sends_def split: prod.split sum.split)

lemma sends_show: "snd (show_with f x) = snd x"
  by (simp add: show_with_def split: prod.split sum.split)

text \<open>The request of a path that needs no confirmation, and those that do.\<close>

lemma tool_request_plain:
  assumes "ccToken c \<noteq> ''''" "served meth path" "meth \<noteq> ''DELETE'' \<or> path = ''/api/v1/uploads''"
    and "path \<noteq> ''/api/v1/trash/purge''"
  shows "tool_request args c \<lparr>crMethod = meth, crURL = ccAPIURL c @ path,
      crHeader = (if ccToken c \<noteq> '''' then [(''Authorization'', ''Bearer '' @ ccToken c)] else []) @
        [(''Accept'', ''application/json'')] @ (if ct \<noteq> '''' then [(''Content-Type'', ct)] else []), crBody = b\<rparr>"
  using assms by (auto simp: tool_request_def header_get_def)

lemma before_query: "CHR ''?'' \<notin> set a \<Longrightarrow> takeWhile (\<lambda>c. c \<noteq> CHR ''?'') (a @ CHR ''?'' # b) = a"
  by (induction a) auto

lemma escaped_chars: "c \<in> set (path_escape i) \<Longrightarrow> c \<noteq> CHR ''/'' \<and> c \<noteq> CHR ''?''"
proof -
  have h: "list_all (\<lambda>n. hex_digit n \<noteq> CHR ''/'' \<and> hex_digit n \<noteq> CHR ''?'') [0..<16]" by code_simp
  have s: "\<not> path_safe (CHR ''/'')" "\<not> path_safe (CHR ''?'')" by code_simp+
  have d: "of_char d div 16 < (16 :: nat)" "of_char d mod 16 < (16 :: nat)" for d :: char
    using nat_of_char_less_256 [of d] by (simp_all add: div_less_iff_less_mult del: nat_of_char_less_256)
  assume "c \<in> set (path_escape i)"
  then show ?thesis using h s d by (auto simp: path_escape_def list_all_iff split: if_splits)
qed

lemma path_escape_nonempty: "i \<noteq> '''' \<Longrightarrow> path_escape i \<noteq> ''''"
  by (cases i) (auto simp: path_escape_def)

lemma served_fixed:
  "served ''GET'' ''/healthz''" "served ''GET'' ''/readyz''" "served ''POST'' ''/api/v1/files''"
  "served ''GET'' ''/api/v1/files/capacity''" "served ''GET'' ''/api/v1/uploads''" "served ''DELETE'' ''/api/v1/uploads''"
  "served ''POST'' ''/api/v1/trash/purge''" "served ''GET'' ''/api/v1/files''" "served ''GET'' ''/api/v1/trash''"
  by code_simp+

lemma served_query:
  "served ''GET'' (''/api/v1/files'' @ page_query l n)" "served ''GET'' (''/api/v1/trash'' @ page_query l n)"
  using served_fixed(8,9) before_query [of "''/api/v1/files''"] before_query [of "''/api/v1/trash''"]
  by (simp_all add: served_def page_query_def)

lemma served_file:
  assumes "i \<noteq> ''''"
  shows "served ''DELETE'' (''/api/v1/files/'' @ path_escape i)" "served ''GET'' (''/api/v1/files/'' @ path_escape i)"
    "served ''GET'' (''/api/v1/files/'' @ path_escape i @ ''/status'')"
    "served ''POST'' (''/api/v1/files/'' @ path_escape i @ ''/restore'')"
proof -
  let ?e = "path_escape i"
  have e: "CHR ''/'' \<notin> set ?e" "\<forall>c\<in>set ?e. c \<noteq> CHR ''?''" "?e \<noteq> ''''"
    using escaped_chars [of _ i] path_escape_nonempty [OF assms] by auto
  have q: "takeWhile (\<lambda>c. c \<noteq> CHR ''?'') ?e = ?e" "takeWhile (\<lambda>c. c \<noteq> CHR ''?'') (?e @ s) = ?e @ takeWhile (\<lambda>c. c \<noteq> CHR ''?'') s" for s
    using e(2) by (simp_all add: takeWhile_eq_all_conv takeWhile_append2)
  have s: "split_on (CHR ''/'') ?e = [?e]" "split_on (CHR ''/'') (?e @ CHR ''/'' # t) = ?e # split_on (CHR ''/'') t" for t
    using e(1) by (simp_all add: split_on_free split_on_append)
  have m: "template_match ''/api/v1/files/{id}'' (''/api/v1/files/'' @ ?e)"
    "template_match ''/api/v1/files/{id}/status'' (''/api/v1/files/'' @ ?e @ ''/status'')"
    "template_match ''/api/v1/files/{id}/restore'' (''/api/v1/files/'' @ ?e @ ''/restore'')"
    using e(3) by (simp_all add: template_match_def s)
  show "served ''DELETE'' (''/api/v1/files/'' @ ?e)" "served ''GET'' (''/api/v1/files/'' @ ?e)"
    "served ''GET'' (''/api/v1/files/'' @ ?e @ ''/status'')" "served ''POST'' (''/api/v1/files/'' @ ?e @ ''/restore'')"
    using m by (simp_all add: served_def routes_def q)
qed

lemma client_sends:
  assumes "sends (tool_request args c) sent w" "ccToken c \<noteq> ''''"
  shows "sends (tool_request args c) sent (snd (health W (logged R) c w))"
    "sends (tool_request args c) sent (snd (list_files W (logged R) c l n w))"
    "sends (tool_request args c) sent (snd (capacity_of W (logged R) c w))"
    "sends (tool_request args c) sent (snd (list_uploads W (logged R) c w))"
    "sends (tool_request args c) sent (snd (sweep_uploads W (logged R) c w))"
    "sends (tool_request args c) sent (snd (list_trash W (logged R) c l n w))"
    "i \<noteq> '''' \<Longrightarrow> sends (tool_request args c) sent (snd (info_of W (logged R) c i w))"
    "i \<noteq> '''' \<Longrightarrow> sends (tool_request args c) sent (snd (restore_file W (logged R) c i w))"
proof -
  note plain = sends_request [OF assms(1) tool_request_plain [OF assms(2)]]
  have 1: "sends (tool_request args c) sent (snd (request W (logged R) c ''GET'' ''/healthz'' NoBody '''' [200] w))"
    by (rule plain) (simp_all add: served_fixed)
  have 2: "sends (tool_request args c) sent (snd (request W (logged R) c ''GET'' ''/readyz'' NoBody '''' [200] v))"
    if "sends (tool_request args c) sent v" for v
    by (rule sends_request [OF that tool_request_plain [OF assms(2)]]) (simp_all add: served_fixed)
  show "sends (tool_request args c) sent (snd (health W (logged R) c w))"
    using 1 2 by (fastforce simp: health_def split: prod.split sum.split)
  show "sends (tool_request args c) sent (snd (list_files W (logged R) c l n w))"
    "sends (tool_request args c) sent (snd (capacity_of W (logged R) c w))"
    "sends (tool_request args c) sent (snd (list_uploads W (logged R) c w))"
    "sends (tool_request args c) sent (snd (sweep_uploads W (logged R) c w))"
    "sends (tool_request args c) sent (snd (list_trash W (logged R) c l n w))"
    "i \<noteq> '''' \<Longrightarrow> sends (tool_request args c) sent (snd (info_of W (logged R) c i w))"
    "i \<noteq> '''' \<Longrightarrow> sends (tool_request args c) sent (snd (restore_file W (logged R) c i w))"
    unfolding list_files_def capacity_of_def list_uploads_def sweep_uploads_def list_trash_def info_of_def restore_file_def
    by (rule plain; (rule served_fixed served_query | rule served_file, assumption | simp add: page_query_def))+
qed

section \<open>Confirmed commands\<close>

lemma delete_args_confirmed: "delete_args b i args = Inr (True, j) \<Longrightarrow> \<not> b \<Longrightarrow> ''--yes'' \<in> set args"
proof (induction args arbitrary: b i)
  case (Cons a args)
  show ?case
  proof (cases "a = ''--yes''")
    case False
    then have "\<exists>i'. delete_args b i' args = Inr (True, j)" using Cons.prems(1) by (auto split: if_splits)
    then show ?thesis using Cons.IH [OF _ Cons.prems(2)] by auto
  qed simp
qed simp

lemma delete_args_given: "delete_args b i args = Inr (d, j) \<Longrightarrow> j \<noteq> i \<Longrightarrow> j \<in> set args"
proof (induction args arbitrary: b i)
  case (Cons a args)
  show ?case
  proof (cases "a = ''--yes''")
    case True
    then show ?thesis using Cons by simp
  next
    case False
    then have "delete_args b a args = Inr (d, j)" using Cons.prems(1) by (simp split: if_splits)
    then show ?thesis using Cons.IH [of b a] by auto
  qed
qed simp

text \<open>A boolean option can be on at the end only if it was on or is among the arguments.\<close>

lemma split_flag_name:
  assumes "split_flag n = (name, v)" "n \<noteq> ''''"
  shows "n = name \<and> v = None \<or> (\<exists>x. v = Some x \<and> n = name @ CHR ''='' # x)"
proof -
  obtain c m where n: "n = c # m" using assms(2) by (cases n) auto
  let ?rest = "dropWhile (\<lambda>c. c \<noteq> CHR ''='') m"
  show ?thesis
  proof (cases ?rest)
    case (Cons d x)
    then have "d = CHR ''=''" using hd_dropWhile [of "\<lambda>c. c \<noteq> CHR ''=''" m] by auto
    moreover have m: "takeWhile (\<lambda>c. c \<noteq> CHR ''='') m @ d # x = m" 
      using takeWhile_dropWhile_id [of "\<lambda>c. c \<noteq> CHR ''=''" m] unfolding Cons by simp
    moreover have "name = c # takeWhile (\<lambda>c. c \<noteq> CHR ''='') m" "v = Some x"
      using assms(1) Cons by (simp_all add: n split_flag_def)
    ultimately show ?thesis using n by simp
  qed (use assms(1) in \<open>simp add: n split_flag_def\<close>)
qed

lemma put_flag_update: "put_flag pd name f v formal = Inr formal' \<Longrightarrow> \<exists>g. formal' = AList.update name g formal"
  by (auto simp: put_flag_def split: option.splits)

text \<open>One option: it has the form of its name, and parsing goes on behind it.\<close>

lemma parse_flags_step:
  assumes "parse_flags pd formal (s # args) = Inr (fs, rest)"
  shows "fs = formal \<or> (\<exists>name g args' x. s \<in> {''-'' @ name, ''--'' @ name, ''-'' @ name @ CHR ''='' # x, ''--'' @ name @ CHR ''='' # x} \<and>
    parse_flags pd (AList.update name g formal) args' = Inr (fs, rest) \<and> length args' \<le> length args \<and> set args' \<subseteq> set args)"
proof (cases "length s < 2 \<or> hd s \<noteq> CHR ''-'' \<or> s = ''--''")
  case True
  then show ?thesis using assms by (auto split: if_splits)
next
  case False
  define n where "n = (if s ! 1 = CHR ''-'' then drop 2 s else drop 1 s)"
  have sn: "s = ''-'' @ n \<or> s = ''--'' @ n"
    using False by (cases s; cases "tl s") (auto simp: n_def)
  obtain name v where nv: "split_flag n = (name, v)" by fastforce
  have n0: "\<not> (n = '''' \<or> hd n = CHR ''-'' \<or> hd n = CHR ''='')"
    using assms False by (auto simp: n_def Let_def split: if_splits)
  have form: "\<exists>x. s \<in> {''-'' @ name, ''--'' @ name, ''-'' @ name @ CHR ''='' # x, ''--'' @ name @ CHR ''='' # x}"
    using split_flag_name [OF nv] n0 sn by auto
  note run = assms [unfolded parse_flags.simps(2) Let_def, folded n_def]
  have run: "(case map_of formal name of
             None \<Rightarrow> Inl (if name = ''help'' \<or> name = ''h'' then HelpRequested else FlagNotDefined)
           | Some (FlagBool b) \<Rightarrow>
               (case put_flag pd name (FlagBool b) (case v of None \<Rightarrow> ''true'' | Some v \<Rightarrow> v) formal of
                  Inl e \<Rightarrow> Inl e | Inr formal \<Rightarrow> parse_flags pd formal args)
           | Some f \<Rightarrow>
               (case (case v of None \<Rightarrow> args | Some v \<Rightarrow> v # args) of
                  [] \<Rightarrow> Inl FlagNeedsArgument
                | v # args' \<Rightarrow>
                    (case put_flag pd name f v formal of
                       Inl e \<Rightarrow> Inl e | Inr formal \<Rightarrow> parse_flags pd formal args'))) = Inr (fs, rest)"
    using run n0 False by (simp add: nv)
  then obtain f where f: "map_of formal name = Some f" by (cases "map_of formal name") auto
  have "\<exists>formal' g args'. formal' = AList.update name g formal \<and> parse_flags pd formal' args' = Inr (fs, rest) \<and>
      length args' \<le> length args \<and> set args' \<subseteq> set args"
  proof (cases "\<exists>b. f = FlagBool b")
    case True
    then obtain a formal' where p: "put_flag pd name f a formal = Inr formal'" "parse_flags pd formal' args = Inr (fs, rest)"
      using run f by (auto split: sum.splits)
    obtain g where "formal' = AList.update name g formal" using put_flag_update [OF p(1)] by blast
    then show ?thesis using p(2) by (intro exI [of _ formal'] exI [of _ g] exI [of _ args]) simp
  next
    case False
    then obtain a args' where a: "(case v of None \<Rightarrow> args | Some v \<Rightarrow> v # args) = a # args'"
        "(case put_flag pd name f a formal of Inl e \<Rightarrow> Inl e | Inr formal \<Rightarrow> parse_flags pd formal args') = Inr (fs, rest)"
      using run f by (cases f) (auto split: list.splits)
    then have "length args' \<le> length args" "set args' \<subseteq> set args" by (auto split: option.splits)
    moreover obtain formal' where p: "put_flag pd name f a formal = Inr formal'" "parse_flags pd formal' args' = Inr (fs, rest)"
      using a(2) by (auto split: sum.splits)
    moreover obtain g where "formal' = AList.update name g formal" using put_flag_update [OF p(1)] by blast
    ultimately show ?thesis by (intro exI [of _ formal'] exI [of _ g] exI [of _ args']) simp
  qed
  then show ?thesis using form by blast
qed

lemma parse_flags_yes:
  assumes "parse_flags pd formal args = Inr (fs, rest)" "flag_bool (map_of fs ''yes'')" "\<not> flag_bool (map_of formal ''yes'')"
  shows "list_ex yes_option args"
  using assms
proof (induction "length args" arbitrary: formal args rule: less_induct)
  case less
  show ?case
  proof (cases args)
    case Nil
    then show ?thesis using less.prems by simp
  next
    case (Cons s as)
    then consider "fs = formal" | name g args' x where
        "s \<in> {''-'' @ name, ''--'' @ name, ''-'' @ name @ CHR ''='' # x, ''--'' @ name @ CHR ''='' # x}"
        "parse_flags pd (AList.update name g formal) args' = Inr (fs, rest)" "length args' \<le> length as" "set args' \<subseteq> set as"
      using parse_flags_step [of pd formal s as fs rest] less.prems(1) by blast
    then show ?thesis
    proof cases
      case 1
      then show ?thesis using less.prems by simp
    next
      case 2
      show ?thesis
      proof (cases "name = ''yes''")
        case True
        then have "yes_option s" using 2(1) by (auto simp: yes_option_def)
        then show ?thesis using Cons by simp
      next
        case False
        then have "map_of (AList.update name g formal) ''yes'' = map_of formal ''yes''" by (simp add: AList.update_conv')
        then have "list_ex yes_option args'"
          using less.hyps [OF _ 2(2) less.prems(2)] 2(3) Cons less.prems(3) by simp
        then show ?thesis using 2(4) Cons by (auto simp: list_ex_iff)
      qed
    qed
  qed
qed

lemma purge_confirmed:
  assumes "parseTrashPurgeFlags W args = Inr (older, all)"
  shows "list_ex yes_option args" "all \<or> older \<noteq> ''''"
proof -
  let ?f = "[(''older-than'', FlagString ''''), (''all'', FlagBool False), (''yes'', FlagBool False)]"
  obtain fs where fs: "parse_flags (cwParseDuration W) ?f args = Inr (fs, [])" "flag_bool (map_of fs ''yes'')"
      "all \<or> trim_space older \<noteq> ''''"
    using assms by (auto simp: parseTrashPurgeFlags_def command_flags_def Let_def split: sum.splits prod.splits if_splits)
  show "list_ex yes_option args" using parse_flags_yes [OF fs(1,2)] by simp
  show "all \<or> older \<noteq> ''''" using fs(3) by (auto simp: trim_space_def trim_left_def trim_right_def strip_front_Nil)
qed

lemma confirmed_sends:
  assumes "sends (tool_request args c) sent w" "ccToken c \<noteq> ''''"
  shows "''--yes'' \<in> set args \<Longrightarrow> i \<in> set args \<Longrightarrow> i \<noteq> '''' \<Longrightarrow>
      sends (tool_request args c) sent (snd (delete_file W (logged R) c i w))"
    and "list_ex yes_option args \<Longrightarrow> all \<or> older \<noteq> '''' \<Longrightarrow>
      sends (tool_request args c) sent (snd (purge_trash W (logged R) c older all w))"
proof -
  assume y: "''--yes'' \<in> set args" "i \<in> set args" "i \<noteq> ''''"
  show "sends (tool_request args c) sent (snd (delete_file W (logged R) c i w))"
    unfolding delete_file_def
    by (rule sends_request [OF assms(1)])
      (use y assms(2) served_file(1) [OF y(3)] in \<open>auto simp: tool_request_def header_get_def\<close>)
next
  assume y: "list_ex yes_option args" "all \<or> older \<noteq> ''''"
  show "sends (tool_request args c) sent (snd (purge_trash W (logged R) c older all w))"
    unfolding purge_trash_def
    by (rule sends_request [OF assms(1)])
      (use y assms(2) served_fixed(7) in \<open>auto simp: tool_request_def header_get_def\<close>)
qed

lemma file_sends:
  assumes "sends (tool_request args c) sent (snd st)" "ccToken c \<noteq> ''''"
  shows "sends (tool_request args c) sent (snd (snd (upload_file W (logged R) c p st)))"
    and "i \<noteq> '''' \<Longrightarrow> sends (tool_request args c) sent (snd (snd (download_file W (logged R) c i p st)))"
proof -
  have "sends (tool_request args c) sent (snd (request W (logged R) c ''POST'' ''/api/v1/files'' b ct [201] (snd st)))" for b ct
    by (rule sends_request [OF assms(1) tool_request_plain [OF assms(2)]]) (simp_all add: served_fixed)
  then have "sends (tool_request args c) sent v"
    if "request W (logged R) c ''POST'' ''/api/v1/files'' b ct [201] (snd st) = (r, v)" for b ct r v
    using that by (metis snd_conv)
  then show "sends (tool_request args c) sent (snd (snd (upload_file W (logged R) c p st)))"
    using assms(1) by (auto simp: upload_file_def split: prod.splits sum.splits)
  let ?q = "\<lparr>crMethod = ''GET'', crURL = ccAPIURL c @ ''/api/v1/files/'' @ path_escape i,
      crHeader = [(''Authorization'', ''Bearer '' @ ccToken c)], crBody = NoBody\<rparr>"
  assume "i \<noteq> ''''"
  then have "tool_request args c ?q" using assms(2) served_file(2) [of i] by (auto simp: tool_request_def header_get_def)
  then have q: "sends (tool_request args c) sent (snd (logged R ?q (snd st)))"
    using assms(1) by (auto simp: sends_def logged_def split: prod.split)
  obtain h w where st: "st = (h, w)" by (cases st)
  obtain x v where x: "logged R ?q w = (x, v)" by (cases "logged R ?q w")
  then have v: "sends (tool_request args c) sent v" using q st by simp
  show "sends (tool_request args c) sent (snd (snd (download_file W (logged R) c i p st)))"
    using assms(1) v unfolding download_file_def st Let_def x prod.case
    by (auto simp: st x split: prod.split sum.split)
qed

lemma sends_shapes:
  "(b \<Longrightarrow> sends P sent (f x)) \<Longrightarrow> (\<not> b \<Longrightarrow> sends P sent (f y)) \<Longrightarrow> sends P sent (f (if b then x else y))"
  "(\<And>e. r = Inl e \<Longrightarrow> sends P sent (f (g e))) \<Longrightarrow> (\<And>a b. r = Inr (a, b) \<Longrightarrow> sends P sent (f (k a b))) \<Longrightarrow>
   sends P sent (f (case r of Inl e \<Rightarrow> g e | Inr (a, b) \<Rightarrow> k a b))"
  "(as = [] \<Longrightarrow> sends P sent (f n)) \<Longrightarrow> (\<And>a as'. as = a # as' \<Longrightarrow> sends P sent (f (h a as'))) \<Longrightarrow>
   sends P sent (f (case as of [] \<Rightarrow> n | a # as' \<Rightarrow> h a as'))"
  by (simp_all split: sum.split list.split prod.split)

lemma trim_space_empty: "trim_space '''' = ''''"
  by (simp add: trim_space_def trim_left_def trim_right_def strip_front_Nil)

lemma command_sends:
  assumes "sends (tool_request args c) sent w" "ccToken c \<noteq> ''''" "set as \<subseteq> set args"
  shows "sends (tool_request args c) sent (snd (runUploadsCommand W (logged R) c as w))"
    and "sends (tool_request args c) sent (snd (runTrashCommand W (logged R) c as w))"
    and "sends (tool_request args c) sent (snd (snd (remote_command W (logged R) c command as (h, w))))"
proof -
  note client = client_sends [OF assms(1,2)] file_sends [where st = "(h, w)", OF _ assms(2), simplified snd_conv, OF assms(1)]
  have yes: "list_ex yes_option as' \<Longrightarrow> set as' \<subseteq> set as \<Longrightarrow> list_ex yes_option args" for as'
    using assms(3) by (auto simp: list_ex_iff)
  have same: "sends (tool_request args c) sent (snd (x, w))" "sends (tool_request args c) sent (snd (snd (x, h, w)))" for x :: 'x
    using assms(1) by simp_all
  show uploads: "sends (tool_request args c) sent (snd (runUploadsCommand W (logged R) c as w))"
    using client assms(1) by (simp add: runUploadsCommand_def sends_show)
  show trash: "sends (tool_request args c) sent (snd (runTrashCommand W (logged R) c as w))"
  proof (cases as)
    case (Cons cmd rest)
    have purge: "sends (tool_request args c) sent (snd (purge_trash W (logged R) c older all w))"
      if "parseTrashPurgeFlags W rest = Inr (older, all)" for older all
      using confirmed_sends(2) [OF assms(1,2) yes [of rest]] purge_confirmed [OF that] Cons by (simp add: subset_insertI)
    show ?thesis unfolding Cons runTrashCommand_def list.case
      by (intro sends_shapes [where f = snd] same; (simp only: sends_show)?; (rule client purge)?)
        (auto simp: trim_space_empty)
  qed (use assms(1) in \<open>simp add: runTrashCommand_def\<close>)
  have hosted: "snd (snd (case x of (r, v) \<Rightarrow> (r, h, v))) = snd x" for x :: "(cli_error + cli_output) \<times> 'w \<times> cli_request list"
    by (simp split: prod.split)
  have del: "sends (tool_request args c) sent (snd (delete_file W (logged R) c i w))"
    if "delete_args False '''' as = Inr (True, i)" "i \<noteq> ''''" for i
    using confirmed_sends(1) [OF assms(1,2)] delete_args_confirmed [OF that(1)] delete_args_given [OF that] that(2) assms(3)
    by auto
  show "sends (tool_request args c) sent (snd (snd (remote_command W (logged R) c command as (h, w))))"
    unfolding remote_command_def prod.case Let_def
  proof (intro sends_shapes [where f = "\<lambda>x. snd (snd x)"] same; simp only: sends_show hosted snd_conv)
  qed ((rule client uploads trash; use trim_space_empty in metis) | (rule del; simp))+
qed

text \<open>A configuration that was loaded has a token.\<close>

lemma loadConfig_token: "loadConfig pd p e o' s = (Inr c, t) \<Longrightarrow> ccToken c \<noteq> ''''"
  using trim_space_empty by (auto simp: loadConfig_def Let_def split: sum.splits prod.splits if_splits)


text \<open>A run that deletes a file, with all options given.\<close>

definition example_world :: cli_world where
  "example_world = \<lparr>cwErrorText = (\<lambda>b. None), cwStatusText = (\<lambda>b. None), cwRemoved = (\<lambda>b. None), cwCapacity = (\<lambda>b. None),
     cwIndent = (\<lambda>b. None), cwRequestErr = (\<lambda>m u. False), cwParseDuration = (\<lambda>d. None), cwGetenv = (\<lambda>k. ''''),
     cwRandom = ''1'', cwStamp = ''0'', cwVersion = ''dev'', cwCommit = ''none''\<rparr>"

definition empty_host :: host where
  "empty_host = \<lparr>entries = [(((), []), NDir)], script = [], hOutcomes = [], hCommands = []\<rparr>"

definition example_server :: "unit server" where
  "example_server q w = (Inr \<lparr>cpStatus = 204, cpBody = \<lparr>bData = '''', bErr = None\<rparr>\<rparr>, w)"


end
