(* ===== verification/RecoveryMoves.thy ===== *)
theory RecoveryMoves
  imports StoreReady
begin

text \<open>
  The moves of \<open>Recover\<close> one by one: \<open>quarantinePath\<close> moves a file or a whole tree to a free name of
  the quarantine, and each loop moves what the package leaves behind when its process dies. The
  relation \<open>progress\<close> says what a recovery has done so far.
\<close>

section \<open>Names in the quarantine\<close>

text \<open>The names that \<open>Recover\<close> gives to what it moves into each group, for files that the package
  writes itself.\<close>

definition left_suffixes :: "string \<Rightarrow> string set" where
  "left_suffixes g =
     (if g = ''partials'' then {''.part''}
      else if g = ''metadata'' then {''.json.tmp''}
      else if g = ''uploads'' then {'''', ''-manifest.json.tmp''}
      else {})"

definition left_name :: "string \<Rightarrow> string \<Rightarrow> bool" where
  "left_name g n \<longleftrightarrow> (\<exists>i e. n = i @ e \<and> validFileID i \<and> e \<in> left_suffixes g)"

definition stamped :: "time \<Rightarrow> string \<Rightarrow> string" where
  "stamped now n = show_int (unixNano now) @ ''-'' @ n"

lemma split_on_length: "sum_list (map length (split_on c s)) + length (split_on c s) = length s + 1"
  by (induction s) (auto split: list.split)

lemma validFileID_length: "validFileID i \<Longrightarrow> length i = 36"
  using split_on_length [of "CHR ''-''" i]
  by (auto simp: validFileID_def map_eq_Cons_conv)

lemma left_name_base:
  assumes "left_name g n"
  shows "filepath_base n = n" "g \<in> quarantine_groups"
proof -
  obtain i e where n: "n = i @ e" "validFileID i" "e \<in> left_suffixes g"
    using assms by (auto simp: left_name_def)
  have "CHR ''/'' \<notin> set i" using validFileID_chars [OF n(2), of "CHR ''/''"] by (auto simp: is_lower_hex_def)
  moreover have "i \<noteq> ''''" using validFileID_length [OF n(2)] by auto
  moreover have "CHR ''/'' \<notin> set e" using n(3) by (auto simp: left_suffixes_def split: if_splits)
  ultimately show "filepath_base n = n" unfolding n(1) by (intro filepath_base_no_slash) auto
  show "g \<in> quarantine_groups" using n(3) by (auto simp: left_suffixes_def quarantine_groups_def split: if_splits)
qed

lemma stamped_neq:
  assumes "left_name g n" "left_name g m"
  shows "stamped now n \<noteq> m"
proof
  assume eq: "stamped now n = m"
  obtain i e where n: "n = i @ e" "validFileID i" "e \<in> left_suffixes g"
    using assms(1) by (auto simp: left_name_def)
  obtain j f where m: "m = j @ f" "validFileID j" "f \<in> left_suffixes g"
    using assms(2) by (auto simp: left_name_def)
  have "length f > length e"
    using arg_cong [OF eq, of length] n m by (simp add: stamped_def validFileID_length)
  then have "e = ''''" "f = ''-manifest.json.tmp''"
    using n(3) m(3) by (auto simp: left_suffixes_def split: if_splits)
  moreover have ne: "i \<noteq> ''''" using validFileID_length [OF n(2)] by auto
  ultimately have "last i = CHR ''p''"
    using arg_cong [OF eq, of last] n(1) m(1) by (simp add: stamped_def)
  then show False using validFileID_chars [OF n(2) last_in_set [OF ne]] by (auto simp: is_lower_hex_def)
qed

lemma stamped_inject [simp]: "stamped now n = stamped now m \<longleftrightarrow> n = m"
  by (simp add: stamped_def)

lemma stamped_longer [simp]: "stamped now n \<noteq> n"
proof -
  have "length (stamped now n) \<noteq> length n" by (simp add: stamped_def)
  then show ?thesis by metis
qed

section \<open>Whole trees\<close>

text \<open>What is at a path, with everything above an entry of the tree a directory.\<close>

definition rooted :: "store \<Rightarrow> area path \<Rightarrow> bool" where
  "rooted s p \<longleftrightarrow> look s p \<noteq> None \<and>
     (\<forall>q. under p q \<and> q \<noteq> p \<and> look s q \<noteq> None \<longrightarrow> look s (parent q) = Some NDir)"

definition quarantine_tree :: "store \<Rightarrow> bool" where
  "quarantine_tree s \<longleftrightarrow>
     (\<forall>q. fst q = Quarantine \<and> snd q \<noteq> [] \<and> look s q \<noteq> None \<longrightarrow> look s (parent q) = Some NDir)"

lemma under_append: "under p q \<Longrightarrow> \<exists>r. q = (fst p, snd p @ r)"
  by (cases p; cases q) (auto simp: prefix_def)

lemma below_nothing:
  assumes "\<And>q. under p q \<Longrightarrow> q \<noteq> p \<Longrightarrow> look s q \<noteq> None \<Longrightarrow> look s (parent q) = Some NDir"
    and "look s p \<noteq> Some NDir"
  shows "r \<noteq> [] \<Longrightarrow> look s (fst p, snd p @ r) = None"
proof (induction r rule: rev_induct)
  case (snoc y r)
  let ?q = "(fst p, snd p @ r @ [y])"
  have "look s (parent ?q) = Some NDir" if "look s ?q \<noteq> None"
    by (rule assms(1) [OF _ _ that]) (cases p; simp)+
  then have "look s ?q = None \<or> look s (fst p, snd p @ r) = Some NDir"
    by (cases "look s ?q") (simp_all add: butlast_append)
  moreover have "look s (fst p, snd p @ r) \<noteq> Some NDir"
    using snoc.IH assms(2) by (cases "r = []") auto
  ultimately show ?case by blast
qed simp

lemma free_in_quarantine:
  assumes "quarantine_tree s" "fst p = Quarantine" "look s p = None"
  shows "free_below s p"
  unfolding free_below_def
proof (intro allI impI)
  fix q assume "under p q"
  then obtain r where q: "q = (fst p, snd p @ r)" using under_append by blast
  have "look s (parent q') = Some NDir" if "under p q'" "q' \<noteq> p" "look s q' \<noteq> None" for q'
    using assms(1,2) that unfolding quarantine_tree_def by (cases p; cases q') (auto simp: prefix_def)
  then show "look s q = None"
    using below_nothing [where p = p and s = s and r = r] assms(3) by (cases "r = []") (auto simp: q)
qed

lemma fold_max_start: "(m::nat) \<le> fold (\<lambda>x m. max m (f x)) xs m"
proof (induction xs arbitrary: m)
  case (Cons x xs)
  then show ?case using order_trans [OF max.cobounded1 Cons.IH] by simp
qed simp

lemma fold_max_ge: "x \<in> set xs \<Longrightarrow> f x \<le> fold (\<lambda>x m. max m (f x)) xs (m::nat)"
proof (induction xs arbitrary: m)
  case (Cons y xs)
  have "f y \<le> fold (\<lambda>x m. max m (f x)) xs (max m (f y))"
    using fold_max_start [of "max m (f y)" f xs] by simp
  with Cons show ?case by auto
qed simp

lemma tree_fuel_enough: "look s q \<noteq> None \<Longrightarrow> length (snd q) < tree_fuel s"
proof -
  assume "look s q \<noteq> None"
  then obtain n where "(q, n) \<in> set (entries s)" by (auto simp: look_def dest: map_of_SomeD)
  from fold_max_ge [OF this, of "\<lambda>x. length (snd (fst x))" 0] show ?thesis by (simp add: tree_fuel_def)
qed

lemma tree_at_rooted: "rooted s p \<Longrightarrow> look s p = Some NDir \<Longrightarrow> tree_at s p (tree_fuel s)"
  unfolding tree_at_def rooted_def by (metis tree_fuel_enough trans_less_add2)

section \<open>One move to the quarantine\<close>

lemma only_entries_step:
  assumes "only_entries s t"
  shows "only_entries s (put_entry p n t)" "only_entries s (del_entry p t)" "only_entries s (prune_entry p t)"
  using assms only_entries_entry only_entries_trans by blast+

lemma quarantinePath_calm:
  assumes s: "script s = []" "quarantine_ok s" "quarantine_tree s"
    and n: "left_name g n" "look s (Quarantine, [g, stamped now n]) = None"
    and p: "rooted s p" "fst p \<noteq> Quarantine"
  shows "\<exists>t target. quarantinePath now p g n s = (Inr (), t) \<and> only_entries s t \<and>
    target \<in> {(Quarantine, [g, n]), (Quarantine, [g, stamped now n])} \<and> look s target = None \<and>
    (\<forall>q. look t q =
       (if fst q = Quarantine then
          if under target q then look s (rebase target p q)
          else if q = (Quarantine, [g]) then Some NDir else look s q
        else if under p q then None else look s q))"
proof -
  define target where "target = (Quarantine, [g, if look s (Quarantine, [g, n]) \<noteq> None then stamped now n else n])"
  define s1 where "s1 = (if look s (Quarantine, [g]) = None then put_entry (Quarantine, [g]) NDir s else s)"
  have g: "look s (Quarantine, []) = Some NDir" "look s (Quarantine, [g]) = None \<or> look s (Quarantine, [g]) = Some NDir"
    using s(2) by (auto simp: quarantine_ok_def)
  have mk: "os_mkdir_all (Quarantine, [g]) s = (Inr (), s1)"
    using g by (subst os_mkdir_all_calm [OF s(1)]) (auto simp: s1_def strict_prefix_def prefix_Cons)
  have s1: "script s1 = []" "only_entries s s1"
    "look s1 = (look s)((Quarantine, [g]) \<mapsto> NDir)"
    using s(1) g(2) by (auto simp: s1_def fun_eq_iff)
  have base: "filepath_base n = n" using left_name_base(1) [OF n(1)] .
  have t: "target \<in> {(Quarantine, [g, n]), (Quarantine, [g, stamped now n])}" "look s target = None"
    using n(2) by (auto simp: target_def)
  have free: "free_below s target" by (rule free_in_quarantine [OF s(3) _ t(2)]) (simp add: target_def)
  have ne: "\<not> under target q" if "fst q \<noteq> Quarantine" for q using that by (cases q) (simp add: target_def)
  obtain x where x: "look s p = Some x" using p(1) by (auto simp: rooted_def)
  have keep: "look s1 q = look s q" if "fst q \<noteq> Quarantine" for q using that by (auto simp: s1(3))
  have run: "quarantinePath now p g n s =
      (case (if x = NDir
             then (case copyTree (tree_fuel s1) p target s1 of
                     (Inl e, s) \<Rightarrow> (Inl e, s)
                   | (Inr _, s) \<Rightarrow> apfst lift_err (os_remove_all p s))
             else apfst lift_err (os_rename p target s1)) of
         (Inl e, s) \<Rightarrow> (Inl e, s)
       | (Inr _, s) \<Rightarrow> apfst lift_err (syncDirectory (Quarantine, []) s))"
  proof -
    have "p \<noteq> (Quarantine, [g])" "look s1 p = Some x" using x p(2) keep by auto
    then show ?thesis
      using s1(1) by (simp add: quarantinePath_def mk base pathExists_calm go_simps target_def stamped_def s1(3))
  qed
  show ?thesis
  proof (cases x)
    case (NFile c)
    have below: "look s (rebase target p q) = (if q = target then Some (NFile c) else None)" if u: "under target q" for q
    proof -
      obtain r where q: "q = (fst target, snd target @ r)" using under_append [OF u] by blast
      have "look s (fst p, snd p @ r) = None" if "r \<noteq> []"
        using below_nothing [OF _ _ that, where p = p and s = s] p(1) x NFile by (auto simp: rooted_def)
      then show ?thesis using x NFile by (cases "r = []") (auto simp: q rebase_def prod_eq_iff)
    qed
    let ?t = "put_entry target (NFile c) (del_entry p s1)"
    have "os_rename p target s1 = (Inr (), ?t)"
      using s1(1) t(2) x NFile p(2) by (simp add: go_simps keep) (simp add: s1(3) target_def)
    then have "quarantinePath now p g n s = (Inr (), ?t)"
      using NFile s1(1) g(1) p(2) by (auto simp: run go_simps s1(3) target_def)
    moreover have "only_entries s ?t"
      using s1(2) by (intro only_entries_step)
    moreover have "look ?t q = (if fst q = Quarantine then
          if under target q then look s (rebase target p q)
          else if q = (Quarantine, [g]) then Some NDir else look s q
        else if under p q then None else look s q)" for q
    proof -
      have "look s q = None" if u: "under p q" "q \<noteq> p"
      proof -
        obtain r where "q = (fst p, snd p @ r)" using under_append [OF u(1)] by blast
        moreover from this u(2) have "r \<noteq> []" by auto
        ultimately show ?thesis
          using below_nothing [where p = p and s = s and r = r] p(1) x NFile by (auto simp: rooted_def)
      qed
      moreover have "look s q = None" "fst q = Quarantine" if "under target q"
        using free that ne [of q] unfolding free_below_def by blast+
      moreover have "fst target = Quarantine" "\<not> under target (Quarantine, [g])" by (simp_all add: target_def)
      ultimately show ?thesis
        using below [of q] p(2) by (cases "under target q") (auto simp: s1(3))
    qed
    ultimately show ?thesis using t by blast
  next
    case NDir
    have "rooted s1 p"
      using p unfolding rooted_def by (metis keep parent_def fst_conv under_def)
    then have tree: "tree_at s1 p (tree_fuel s1)" using x NDir keep [OF p(2)] by (intro tree_at_rooted) auto
    have nu: "\<not> under target (Quarantine, [g])" by (simp add: target_def)
    have "free_below s1 target"
      using free nu unfolding free_below_def s1(3) by (metis fun_upd_other)
    moreover have "dirs_above s1 target"
    proof -
      have "d = [] \<or> d = [g]" if "strict_prefix d (snd target)" for d
        using that by (auto simp: target_def strict_prefix_def prefix_Cons split: if_splits)
      moreover have "fst target = Quarantine" by (simp add: target_def)
      ultimately show ?thesis using g by (fastforce simp: dirs_above_def s1(3))
    qed
    moreover have "fst p \<noteq> fst target" using p(2) by (simp add: target_def)
    ultimately obtain u where u: "copyTree (tree_fuel s1) p target s1 = (Inr (), u)" "only_entries s1 u" "copied p target s1 u"
      using copyTree_calm [OF s1(1) tree] by blast
    have su: "script u = []" using u(2) s1(1) by (simp add: only_entries_def)
    let ?t = "prune_entry p u"
    have lu: "look u q = (if under target q then look s (rebase target p q) else look s1 q)" for q
    proof -
      have "look s1 (rebase target p q) = look s (rebase target p q)" using p(2) by (intro keep) (simp add: rebase_def)
      with u(3) show ?thesis unfolding copied_def by metis
    qed
    have root: "look ?t (Quarantine, []) = Some NDir"
      using p(2) g(1) by (cases p) (auto simp: lu s1(3) target_def)
    have "quarantinePath now p g n s = (Inr (), ?t)"
      using NDir su root by (auto simp: run u(1) go_simps)
    moreover have "only_entries s ?t" using only_entries_trans [OF s1(2) u(2)] by (rule only_entries_step)
    moreover have "look ?t q = (if fst q = Quarantine then
          if under target q then look s (rebase target p q)
          else if q = (Quarantine, [g]) then Some NDir else look s q
        else if under p q then None else look s q)" for q
      using p(2) ne [of q] by (cases p; cases q) (auto simp: lu s1(3))
    ultimately show ?thesis using t by blast
  qed
qed

section \<open>Recovery in progress\<close>

text \<open>The state \<open>s\<close> of a recovery that began in \<open>s0\<close> and has moved the trees \<open>P\<close> to the quarantine
  under the group and name pairs \<open>D\<close>: nothing else has changed, what was in the quarantine is still
  there, and every file moved is in it with its contents.\<close>

definition progress :: "time \<Rightarrow> store \<Rightarrow> (string \<times> string) set \<Rightarrow> area path set \<Rightarrow> store \<Rightarrow> bool" where
  "progress now s0 D P s \<longleftrightarrow>
     script s = [] \<and> only_entries s0 s \<and> quarantine_ok s \<and> quarantine_tree s \<and>
     (\<forall>q. fst q \<noteq> Quarantine \<longrightarrow> look s q = (if \<exists>p\<in>P. under p q then None else look s0 q)) \<and>
     (\<forall>q. fst q = Quarantine \<and> look s0 q \<noteq> None \<longrightarrow> look s q = look s0 q) \<and>
     (\<forall>g n. left_name g n \<and> (g, n) \<notin> D \<longrightarrow> look s (Quarantine, [g, stamped now n]) = None) \<and>
     (\<forall>p\<in>P. \<forall>q c. under p q \<and> look s0 q = Some (NFile c) \<longrightarrow>
        (\<exists>q'. fst q' = Quarantine \<and> look s q' = Some (NFile c)))"

lemma progress_start:
  assumes "script s = []" "quarantine_ok s" "quarantine_tree s"
    and "\<And>g n. left_name g n \<Longrightarrow> look s (Quarantine, [g, stamped now n]) = None"
  shows "progress now s {} {} s"
  using assms by (auto simp: progress_def)

lemma progress_look:
  assumes "progress now s0 D P s"
  shows "fst q \<noteq> Quarantine \<Longrightarrow> look s q = (if \<exists>p\<in>P. under p q then None else look s0 q)"
    and "fst q = Quarantine \<Longrightarrow> look s0 q \<noteq> None \<Longrightarrow> look s q = look s0 q"
    and "p \<in> P \<Longrightarrow> under p q \<Longrightarrow> look s0 q = Some (NFile c) \<Longrightarrow> \<exists>q'. fst q' = Quarantine \<and> look s q' = Some (NFile c)"
  using assms unfolding progress_def by blast+

lemma parent_rebase:
  "under x q \<Longrightarrow> q \<noteq> x \<Longrightarrow> parent (rebase x p q) = rebase x p (parent q) \<and> under x (parent q)"
  by (cases x; cases p; cases q) (auto simp: rebase_def prefix_def butlast_append)

lemma under_rebase_strict: "under x q \<Longrightarrow> q \<noteq> x \<Longrightarrow> under p (rebase x p q) \<and> rebase x p q \<noteq> p"
  by (cases x; cases p; cases q) (auto simp: rebase_def prefix_def)

lemma rebase_back: "under p q \<Longrightarrow> rebase x p (rebase p x q) = q \<and> under x (rebase p x q)"
  by (cases x; cases p; cases q) (auto simp: rebase_def prefix_def)

lemma under_child_of_parent: "under x (parent q) \<Longrightarrow> under x q"
  by (cases x; cases q) (auto simp: prefix_def, metis append_assoc append_butlast_last_id butlast.simps(1))

text \<open>The quarantine after a move keeps its form.\<close>

lemma quarantine_grows:
  assumes ok: "quarantine_ok s" "quarantine_tree s" and g: "g \<in> quarantine_groups"
    and target: "target = (Quarantine, [g, m])" "look s target = None" and p: "rooted s p"
    and t: "\<And>q. fst q = Quarantine \<Longrightarrow> look t q =
      (if under target q then look s (rebase target p q) else if q = (Quarantine, [g]) then Some NDir else look s q)"
  shows "quarantine_ok t" "quarantine_tree t"
    and "fst q = Quarantine \<Longrightarrow> look s q \<noteq> None \<Longrightarrow> look t q = look s q"
proof -
  have free: "under target q \<Longrightarrow> look s q = None" for q
    using free_in_quarantine [OF ok(2) _ target(2)] target(1) unfolding free_below_def by (metis fst_conv)
  have gd: "look s (Quarantine, [g]) \<noteq> None \<Longrightarrow> look s (Quarantine, [g]) = Some NDir"
    using ok(1) by (simp add: quarantine_ok_def)
  show kept: "fst q = Quarantine \<Longrightarrow> look s q \<noteq> None \<Longrightarrow> look t q = look s q" for q
    using free [of q] gd by (auto simp: t simp del: split_paired_All)
  show "quarantine_ok t"
    using ok(1) g by (auto simp: quarantine_ok_def t target(1) prefix_Cons split: if_splits)
  show "quarantine_tree t" unfolding quarantine_tree_def
  proof (intro allI impI)
    fix q assume q: "fst q = Quarantine \<and> snd q \<noteq> [] \<and> look t q \<noteq> None"
    have fp: "fst (parent q) = Quarantine" using q by (simp add: parent_def)
    have root: "look t (Quarantine, []) = Some NDir" using ok(1) by (simp add: t target(1) quarantine_ok_def)
    have gdir: "look t (Quarantine, [g]) = Some NDir" by (simp add: t target(1))
    consider "q = target" | "under target q" "q \<noteq> target" | "q = (Quarantine, [g])"
      | "\<not> under target q" "q \<noteq> (Quarantine, [g])" "look s q \<noteq> None"
      using q t [of q] by (metis (no_types))
    then show "look t (parent q) = Some NDir"
    proof cases
      case 2
      then have "look s (rebase target p q) \<noteq> None" using q t [of q] by simp
      then have "look s (parent (rebase target p q)) = Some NDir"
        using p under_rebase_strict [OF 2] unfolding rooted_def by blast
      then show ?thesis using parent_rebase [OF 2, of p] fp by (simp add: t)
    next
      case 4
      then have "look s (parent q) = Some NDir" using ok(2) q unfolding quarantine_tree_def by blast
      then show ?thesis using kept [OF fp] by simp
    qed (use root gdir target(1) in auto)
  qed
qed

lemma progress_move:
  assumes s: "progress now s0 D P s" and n: "left_name g n" "(g, n) \<notin> D"
    and p: "rooted s p" "fst p \<noteq> Quarantine"
  shows "\<exists>t. quarantinePath now p g n s = (Inr (), t) \<and> progress now s0 (insert (g, n) D) (insert p P) t \<and>
    (\<forall>q. fst q \<noteq> Quarantine \<longrightarrow> look t q = (if under p q then None else look s q))"
proof -
  have ok: "script s = []" "quarantine_ok s" "quarantine_tree s" "look s (Quarantine, [g, stamped now n]) = None"
    and oe: "only_entries s0 s"
    using s n unfolding progress_def by blast+
  obtain t target where t: "quarantinePath now p g n s = (Inr (), t)" "only_entries s t"
    "target \<in> {(Quarantine, [g, n]), (Quarantine, [g, stamped now n])}" "look s target = None"
    and lt: "\<And>q. look t q = (if fst q = Quarantine then
          if under target q then look s (rebase target p q)
          else if q = (Quarantine, [g]) then Some NDir else look s q
        else if under p q then None else look s q)"
    using quarantinePath_calm [OF ok(1-3) n(1) ok(4) p] by blast
  obtain m where m: "target = (Quarantine, [g, m])" "m = n \<or> m = stamped now n" using t(3) by auto
  note grows = quarantine_grows [OF ok(2,3) left_name_base(2) [OF n(1)] m(1) t(4) p(1)]
  have q: "quarantine_ok t" "quarantine_tree t" "\<And>q. fst q = Quarantine \<Longrightarrow> look s q \<noteq> None \<Longrightarrow> look t q = look s q"
    by (rule grows; simp add: lt)+
  have out: "look t q = (if \<exists>p\<in>insert p P. under p q then None else look s0 q)" if "fst q \<noteq> Quarantine" for q
    using progress_look(1) [OF s that] that by (simp add: lt)
  have new: "look t (Quarantine, [g', stamped now n']) = None" if "left_name g' n'" "(g', n') \<notin> insert (g, n) D" for g' n'
  proof -
    have "m \<noteq> stamped now n'" if "g' = g"
      using m(2) that \<open>left_name g' n'\<close> \<open>(g', n') \<notin> insert (g, n) D\<close> stamped_neq [of g n' n now] n(1) by auto
    then have "\<not> under target (Quarantine, [g', stamped now n'])" by (auto simp: m(1))
    then show ?thesis using s that by (simp add: lt progress_def)
  qed
  have evidence: "\<exists>q'. fst q' = Quarantine \<and> look t q' = Some (NFile c)"
    if c: "p' \<in> insert p P" "under p' q" "look s0 q = Some (NFile c)" for p' q c
  proof (cases "\<exists>p'\<in>P. under p' q")
    case True
    then obtain q' where "fst q' = Quarantine" "look s q' = Some (NFile c)"
      using progress_look(3) [OF s] c(3) by blast
    then show ?thesis using q(3) [of q'] by (intro exI [of _ q']) simp
  next
    case False
    then have u: "under p q" using c(1,2) by auto
    then have "fst q \<noteq> Quarantine" using p(2) by (auto simp: Disk.under_def)
    then have "look s q = Some (NFile c)" using progress_look(1) [OF s] False c(3) by simp
    then show ?thesis
      using rebase_back [OF u, of target] m(1) by (intro exI [of _ "rebase p target q"]) (simp add: lt rebase_def)
  qed
  have "progress now s0 (insert (g, n) D) (insert p P) t"
    unfolding progress_def
  proof (intro conjI)
    show "script t = []" using ok(1) t(2) by (simp add: only_entries_def)
    show "only_entries s0 t" by (rule only_entries_trans [OF oe t(2)])
    show "\<forall>q. fst q = Quarantine \<and> look s0 q \<noteq> None \<longrightarrow> look t q = look s0 q"
      using progress_look(2) [OF s] q(3) by metis
    show "\<forall>q. fst q \<noteq> Quarantine \<longrightarrow> look t q = (if \<exists>p\<in>insert p P. under p q then None else look s0 q)"
      using out by blast
    show "\<forall>g' n'. left_name g' n' \<and> (g', n') \<notin> insert (g, n) D \<longrightarrow> look t (Quarantine, [g', stamped now n']) = None"
      using new by blast
    show "\<forall>p\<in>insert p P. \<forall>q c. under p q \<and> look s0 q = Some (NFile c) \<longrightarrow>
        (\<exists>q'. fst q' = Quarantine \<and> look t q' = Some (NFile c))"
      using evidence by blast
  qed (fact q(1,2))+
  then show ?thesis using t(1) by (auto simp: lt simp del: split_paired_All)
qed

section \<open>The loops\<close>

lemma progress_more: "progress now s0 D P s \<Longrightarrow> D \<subseteq> D' \<Longrightarrow> progress now s0 D' P s"
  unfolding progress_def by blast

lemma rooted_remove:
  assumes "rooted s p" "fst p \<noteq> Quarantine" "\<not> under x p"
    and "\<forall>q. fst q \<noteq> Quarantine \<longrightarrow> look t q = (if under x q then None else look s q)"
  shows "rooted t p"
  unfolding rooted_def
proof (intro conjI allI impI)
  have look: "look t q = (if under x q then None else look s q)" if "fst q \<noteq> Quarantine" for q
    using assms(4) that by blast
  show "look t p \<noteq> None" using assms(1-3) look [of p] by (simp add: rooted_def)
  fix q assume q: "under p q \<and> q \<noteq> p \<and> look t q \<noteq> None"
  then have fq: "fst q \<noteq> Quarantine" "fst (parent q) \<noteq> Quarantine"
    using assms(2) by (auto simp: Disk.under_def parent_def)
  then have "\<not> under x q" "look s q \<noteq> None" using q look [of q] by (auto split: if_splits)
  moreover have "\<not> under x (parent q)" using under_child_of_parent \<open>\<not> under x q\<close> by blast
  moreover have "look s (parent q) = Some NDir" using assms(1) q \<open>look s q \<noteq> None\<close> unfolding rooted_def by blast
  ultimately show "look t (parent q) = Some NDir" using look [OF fq(2)] by simp
qed

lemma recover_partials_progress:
  assumes "progress now s0 D P s" "distinct ns"
    and "\<forall>n\<in>set ns. left_name ''partials'' n \<and> suffix ''.part'' n \<and> (''partials'', n) \<notin> D \<and> rooted s (Tmp, [n])"
  shows "\<exists>t. recover_partials now (map (\<lambda>n. (n, False)) ns) r s =
      (Inr (r\<lparr>rPartialObjects := rPartialObjects r + int (length ns)\<rparr>), t) \<and>
    progress now s0 (D \<union> Pair ''partials'' ` set ns) (P \<union> (\<lambda>n. (Tmp, [n])) ` set ns) t"
  using assms
proof (induction ns arbitrary: D P r s)
  case (Cons n ns)
  obtain t where t: "quarantinePath now (Tmp, [n]) ''partials'' n s = (Inr (), t)"
    "progress now s0 (insert (''partials'', n) D) (insert (Tmp, [n]) P) t"
    "\<forall>q. fst q \<noteq> Quarantine \<longrightarrow> look t q = (if under (Tmp, [n]) q then None else look s q)"
    using progress_move [OF Cons.prems(1), of "''partials''" n "(Tmp, [n])"] Cons.prems(3) by auto
  have "rooted t (Tmp, [m])" if "m \<in> set ns" for m
    using Cons.prems(2,3) that by (intro rooted_remove [OF _ _ _ t(3)]) auto
  then have "\<forall>m\<in>set ns. left_name ''partials'' m \<and> suffix ''.part'' m \<and>
      (''partials'', m) \<notin> insert (''partials'', n) D \<and> rooted t (Tmp, [m])"
    using Cons.prems(2,3) by auto
  from Cons.IH [OF t(2) _ this, of "r\<lparr>rPartialObjects := rPartialObjects r + 1\<rparr>"] Cons.prems(2,3) t(1)
  show ?case by (simp add: add.assoc)
qed simp

definition interrupted :: "(string \<times> bool) list \<Rightarrow> string list" where
  "interrupted es = map fst (filter (\<lambda>(n, d). \<not> d \<and> suffix ''.json.tmp'' n) es)"

lemma interrupted_simps [simp]:
  "interrupted [] = []"
  "interrupted ((n, d) # es) = (if \<not> d \<and> suffix ''.json.tmp'' n then n # interrupted es else interrupted es)"
  by (simp_all add: interrupted_def)

lemma set_interrupted: "set (interrupted es) = {n. (n, False) \<in> set es \<and> suffix ''.json.tmp'' n}"
  by (force simp: interrupted_def)

lemma recover_metadata_progress:
  assumes "progress now s0 D P s" "distinct (map fst es)"
    and "\<forall>n\<in>set (interrupted es). left_name ''metadata'' n \<and> (''metadata'', n) \<notin> D \<and> rooted s (Metadata, [n])"
  shows "\<exists>t. recover_metadata now es r s =
      (Inr (r\<lparr>rMetadataManifests := rMetadataManifests r + int (length (interrupted es))\<rparr>), t) \<and>
    progress now s0 (D \<union> Pair ''metadata'' ` set (interrupted es)) (P \<union> (\<lambda>n. (Metadata, [n])) ` set (interrupted es)) t"
  using assms
proof (induction es arbitrary: D P r s)
  case (Cons e es)
  obtain n d where e: "e = (n, d)" by (cases e)
  show ?case
  proof (cases "\<not> d \<and> suffix ''.json.tmp'' n")
    case True
    obtain t where t: "quarantinePath now (Metadata, [n]) ''metadata'' n s = (Inr (), t)"
      "progress now s0 (insert (''metadata'', n) D) (insert (Metadata, [n]) P) t"
      "\<forall>q. fst q \<noteq> Quarantine \<longrightarrow> look t q = (if under (Metadata, [n]) q then None else look s q)"
      using progress_move [OF Cons.prems(1), of "''metadata''" n "(Metadata, [n])"] Cons.prems(3) True by (auto simp: e)
    have ne: "m \<noteq> n" if "m \<in> set (interrupted es)" for m
      using Cons.prems(2) that by (force simp: e set_interrupted)
    have "rooted t (Metadata, [m])" if "m \<in> set (interrupted es)" for m
      using Cons.prems(3) True that ne [OF that] by (intro rooted_remove [OF _ _ _ t(3)]) (auto simp: e)
    then have "\<forall>m\<in>set (interrupted es). left_name ''metadata'' m \<and>
        (''metadata'', m) \<notin> insert (''metadata'', n) D \<and> rooted t (Metadata, [m])"
      using Cons.prems(3) True ne by (auto simp: e)
    from Cons.IH [OF t(2) _ this, of "r\<lparr>rMetadataManifests := rMetadataManifests r + 1\<rparr>"] Cons.prems(2) t(1) True
    show ?thesis by (simp add: e add.assoc)
  qed (use Cons in \<open>auto simp: e\<close>)
qed simp

text \<open>A session directory as a crash leaves it: its manifest or not, its data, an interrupted manifest.\<close>

definition child_names :: "string set" where
  "child_names = {''manifest.json'', ''data.part'', ''manifest.json.tmp''}"

definition session_left :: "store \<Rightarrow> string \<Rightarrow> bool" where
  "session_left s i \<longleftrightarrow> validFileID i \<and> look s (Uploads, [i]) = Some NDir \<and> rooted s (Uploads, [i]) \<and>
     (\<forall>m. look s (Uploads, [i, m]) \<noteq> None \<longrightarrow> m \<in> child_names)"

definition manifest_tmp :: "string \<Rightarrow> area path" where
  "manifest_tmp i = (Uploads, [i, ''manifest.json.tmp''])"

lemma recover_children_progress:
  assumes "progress now s0 D P s" "distinct (map fst es)" "fst ` set es \<subseteq> child_names" "validFileID i"
    and "''manifest.json.tmp'' \<in> fst ` set es \<Longrightarrow>
      (''uploads'', i @ ''-manifest.json.tmp'') \<notin> D \<and> rooted s (manifest_tmp i)"
  shows "\<exists>t. recover_children now i es h r s =
      (Inr (h \<or> ''manifest.json'' \<in> fst ` set es,
        r\<lparr>rUploadManifests := rUploadManifests r + (if ''manifest.json.tmp'' \<in> fst ` set es then 1 else 0)\<rparr>), t) \<and>
    progress now s0 (insert (''uploads'', i @ ''-manifest.json.tmp'') D)
      (if ''manifest.json.tmp'' \<in> fst ` set es then insert (manifest_tmp i) P else P) t \<and>
    (\<forall>q. fst q \<noteq> Quarantine \<longrightarrow> look t q =
       (if ''manifest.json.tmp'' \<in> fst ` set es \<and> under (manifest_tmp i) q then None else look s q))"
  using assms
proof (induction es arbitrary: D P h r s)
  case Nil
  then show ?case by (auto intro: progress_more)
next
  case (Cons e es)
  obtain n d where e: "e = (n, d)" by (cases e)
  have sub: "fst ` set es \<subseteq> child_names" using Cons.prems(3) by simp
  show ?case
  proof (cases "n = ''manifest.json.tmp''")
    case True
    have no: "''manifest.json.tmp'' \<notin> fst ` set es" using Cons.prems(2) True by (auto simp: e)
    have name: "left_name ''uploads'' (i @ ''-manifest.json.tmp'')"
      using Cons.prems(4) by (auto simp: left_name_def left_suffixes_def)
    obtain t where t: "quarantinePath now (manifest_tmp i) ''uploads'' (i @ ''-manifest.json.tmp'') s = (Inr (), t)"
      "progress now s0 (insert (''uploads'', i @ ''-manifest.json.tmp'') D) (insert (manifest_tmp i) P) t"
      "\<forall>q. fst q \<noteq> Quarantine \<longrightarrow> look t q = (if under (manifest_tmp i) q then None else look s q)"
      using progress_move [OF Cons.prems(1) name, of "manifest_tmp i"] Cons.prems(5) True
      by (auto simp: e manifest_tmp_def)
    have "suffix ''.json.tmp'' ''manifest.json.tmp''" by code_simp
    then have step: "recover_children now i (e # es) h r s =
        recover_children now i es h (r\<lparr>rUploadManifests := rUploadManifests r + 1\<rparr>) t"
      using t(1) True by (simp add: e manifest_tmp_def)
    have "distinct (map fst es)" using Cons.prems(2) by simp
    from Cons.IH [OF t(2) this sub Cons.prems(4), of h "r\<lparr>rUploadManifests := rUploadManifests r + 1\<rparr>"] no
    obtain u where u: "recover_children now i es h (r\<lparr>rUploadManifests := rUploadManifests r + 1\<rparr>) t =
        (Inr (h \<or> ''manifest.json'' \<in> fst ` set es, r\<lparr>rUploadManifests := rUploadManifests r + 1\<rparr>), u)"
      "progress now s0 (insert (''uploads'', i @ ''-manifest.json.tmp'') D) (insert (manifest_tmp i) P) u"
      "\<forall>q. fst q \<noteq> Quarantine \<longrightarrow> look u q = look t q"
      by (simp del: split_paired_All) blast
    have k: "''manifest.json.tmp'' \<in> fst ` set (e # es)" using True by (simp add: e)
    have m: "''manifest.json'' \<in> fst ` set (e # es) \<longleftrightarrow> ''manifest.json'' \<in> fst ` set es" using True by (auto simp: e)
    show ?thesis
      unfolding step u(1) m using k u(2,3) t(3) by (intro exI [of _ u]) (simp del: split_paired_All)
  next
    case False
    then have n: "n = ''manifest.json'' \<or> n = ''data.part''" using Cons.prems(3) by (auto simp: e child_names_def)
    moreover have "\<not> suffix ''.json.tmp'' ''data.part''" by code_simp
    ultimately have step: "recover_children now i (e # es) h r s = recover_children now i es (h \<or> n = ''manifest.json'') r s"
      by (auto simp: e)
    have k: "''manifest.json.tmp'' \<in> fst ` set (e # es) \<longleftrightarrow> ''manifest.json.tmp'' \<in> fst ` set es"
      using False by (auto simp: e)
    have m: "h \<or> ''manifest.json'' \<in> fst ` set (e # es) \<longleftrightarrow> (h \<or> n = ''manifest.json'') \<or> ''manifest.json'' \<in> fst ` set es"
      by (auto simp: e)
    have "distinct (map fst es)" using Cons.prems(2) by simp
    from Cons.IH [OF Cons.prems(1) this sub Cons.prems(4) Cons.prems(5), of "h \<or> n = ''manifest.json''" r]
    show ?thesis unfolding step k m by simp
  qed
qed

text \<open>The sessions among \<open>is\<close> with an interrupted manifest, and those without a manifest.\<close>

definition torn_sessions :: "store \<Rightarrow> string list \<Rightarrow> string list" where
  "torn_sessions s is = filter (\<lambda>i. look s (manifest_tmp i) \<noteq> None) is"

definition lost_sessions :: "store \<Rightarrow> string list \<Rightarrow> string list" where
  "lost_sessions s is = filter (\<lambda>i. look s (sessionManifest i) = None) is"

definition session_moves :: "string \<Rightarrow> (string \<times> string) set" where
  "session_moves i = {(''uploads'', i), (''uploads'', i @ ''-manifest.json.tmp'')}"

lemma session_left_same:
  assumes "session_left s i" "\<And>q. under (Uploads, [i]) q \<Longrightarrow> look t q = look s q"
  shows "session_left t i"
proof -
  have "look t (parent q) = look s (parent q)" if "under (Uploads, [i]) q" "q \<noteq> (Uploads, [i])" for q
    using that by (intro assms(2)) (cases q; auto simp: prefix_def butlast_append)
  then show ?thesis using assms unfolding session_left_def rooted_def by auto
qed

lemma recover_session:
  assumes s: "progress now s0 D P s" "session_left s i" and D: "session_moves i \<inter> D = {}"
  shows "\<exists>t. recover_uploads now ((i, True) # es) r s = recover_uploads now es
      (r\<lparr>rUploadManifests := rUploadManifests r + int (length (torn_sessions s [i])),
         rUploadSessions := rUploadSessions r + int (length (lost_sessions s [i]))\<rparr>) t \<and>
    progress now s0 (D \<union> session_moves i)
      (P \<union> manifest_tmp ` set (torn_sessions s [i]) \<union> sessionDir ` set (lost_sessions s [i])) t \<and>
    (\<forall>q. fst q \<noteq> Quarantine \<and> \<not> under (Uploads, [i]) q \<longrightarrow> look t q = look s q)"
proof -
  have script: "script s = []" using s(1) by (simp add: progress_def)
  have i: "validFileID i" "look s (sessionDir i) = Some NDir" "rooted s (sessionDir i)"
    using s(2) by (simp_all add: session_left_def sessionDir_def)
  define ks where "ks = map (\<lambda>m. (m, look s (child (sessionDir i) m) = Some NDir)) (names s (sessionDir i))"
  have dir: "os_read_dir (sessionDir i) s = (Inr ks, s)" using script i(2) by (simp add: go_simps ks_def)
  have names: "fst ` set ks = {m. look s (Uploads, [i, m]) \<noteq> None}"
    unfolding ks_def children_names by (simp add: sessionDir_def)
  have sub: "fst ` set ks \<subseteq> child_names" using s(2) names by (auto simp: session_left_def)
  have tmp: "''manifest.json.tmp'' \<in> fst ` set ks \<longleftrightarrow> torn_sessions s [i] = [i]"
    and man: "''manifest.json'' \<in> fst ` set ks \<longleftrightarrow> lost_sessions s [i] = []"
    unfolding names by (auto simp: torn_sessions_def lost_sessions_def manifest_tmp_def sessionManifest_def)
  have torn: "torn_sessions s [i] \<noteq> [i] \<Longrightarrow> torn_sessions s [i] = []"
    and lost: "lost_sessions s [i] \<noteq> [] \<Longrightarrow> lost_sessions s [i] = [i]"
    by (simp_all add: torn_sessions_def lost_sessions_def split: if_splits)
  have root: "rooted s (manifest_tmp i)" if "''manifest.json.tmp'' \<in> fst ` set ks"
  proof -
    have "look s (manifest_tmp i) \<noteq> None" using that names by (simp add: manifest_tmp_def)
    moreover have "under (sessionDir i) q \<and> q \<noteq> sessionDir i" if u: "under (manifest_tmp i) q" for q
      using under_append [OF u] by (auto simp: manifest_tmp_def sessionDir_def)
    ultimately show ?thesis using i(3) unfolding rooted_def by blast
  qed
  have dist: "distinct (map fst ks)" by (simp add: ks_def comp_def)
  obtain t where t: "recover_children now i ks False r s =
      (Inr (''manifest.json'' \<in> fst ` set ks,
        r\<lparr>rUploadManifests := rUploadManifests r + int (length (torn_sessions s [i]))\<rparr>), t)"
    "progress now s0 (insert (''uploads'', i @ ''-manifest.json.tmp'') D)
      (P \<union> manifest_tmp ` set (torn_sessions s [i])) t"
    "\<forall>q. fst q \<noteq> Quarantine \<longrightarrow> look t q =
       (if ''manifest.json.tmp'' \<in> fst ` set ks \<and> under (manifest_tmp i) q then None else look s q)"
  proof (cases "''manifest.json.tmp'' \<in> fst ` set ks")
    case True
    then have "torn_sessions s [i] = [i]" using tmp by simp
    then show thesis
      using that recover_children_progress [OF s(1) dist sub i(1), of False r] root D True
      by (auto simp: session_moves_def simp del: split_paired_All)
  next
    case False
    then have "torn_sessions s [i] = []" using tmp torn by blast
    then show thesis
      using that recover_children_progress [OF s(1) dist sub i(1), of False r] False
      by (auto simp del: split_paired_All)
  qed
  have outside: "look t q = look s q" if "fst q \<noteq> Quarantine" "\<not> under (Uploads, [i]) q" for q
  proof -
    have "\<not> under (manifest_tmp i) q" using that(2) under_append [of "manifest_tmp i" q] by (auto simp: manifest_tmp_def)
    then show ?thesis using t(3) that(1) by (simp del: split_paired_All)
  qed
  show ?thesis
  proof (cases "''manifest.json'' \<in> fst ` set ks")
    case True
    then have "lost_sessions s [i] = []" using man by simp
    moreover have "progress now s0 (D \<union> session_moves i) (P \<union> manifest_tmp ` set (torn_sessions s [i])) t"
      by (rule progress_more [OF t(2)]) (auto simp: session_moves_def)
    ultimately show ?thesis
      using True dir t(1) outside by (intro exI [of _ t]) (simp del: split_paired_All)
  next
    case False
    then have l: "lost_sessions s [i] = [i]" using man lost by blast
    have "rooted t (sessionDir i)"
    proof (cases "''manifest.json.tmp'' \<in> fst ` set ks")
      case True
      then show ?thesis
        using rooted_remove [OF i(3), of "manifest_tmp i" t] t(3) by (auto simp: sessionDir_def manifest_tmp_def simp del: split_paired_All)
    next
      case False
      then have same: "look t q = look s q" if "under (sessionDir i) q" for q
        using t(3) that by (simp add: sessionDir_def Disk.under_def del: split_paired_All)
      have "session_left t i" using session_left_same [OF s(2)] same by (simp add: sessionDir_def)
      then show ?thesis by (simp add: session_left_def sessionDir_def)
    qed
    moreover have "left_name ''uploads'' i" using i(1) by (auto simp: left_name_def left_suffixes_def)
    ultimately obtain u where u: "quarantinePath now (sessionDir i) ''uploads'' i t = (Inr (), u)"
      "progress now s0 (insert (''uploads'', i) (insert (''uploads'', i @ ''-manifest.json.tmp'') D))
        (insert (sessionDir i) (P \<union> manifest_tmp ` set (torn_sessions s [i]))) u"
      "\<forall>q. fst q \<noteq> Quarantine \<longrightarrow> look u q = (if under (sessionDir i) q then None else look t q)"
      using progress_move [OF t(2), of "''uploads''" i "sessionDir i"] D
      by (auto simp: session_moves_def sessionDir_def simp del: split_paired_All)
    have D': "insert (''uploads'', i) (insert (''uploads'', i @ ''-manifest.json.tmp'') D) = D \<union> session_moves i"
      by (auto simp: session_moves_def)
    have P': "insert (sessionDir i) (P \<union> manifest_tmp ` set (torn_sessions s [i])) =
        P \<union> manifest_tmp ` set (torn_sessions s [i]) \<union> sessionDir ` set (lost_sessions s [i])"
      by (auto simp: l)
    show ?thesis
      using False dir t(1) u(1,3) u(2) [unfolded D' P'] outside
      by (intro exI [of _ u]) (auto simp: l sessionDir_def simp del: split_paired_All)
  qed
qed

lemma session_moves_disjoint:
  assumes "validFileID i" "validFileID j" "i \<noteq> j"
  shows "session_moves i \<inter> session_moves j = {}"
proof -
  have "length i = length j" using assms by (simp add: validFileID_length)
  then have "i \<noteq> j @ ''-manifest.json.tmp''" "j \<noteq> i @ ''-manifest.json.tmp''" by (auto dest: arg_cong [of _ _ length])
  with assms(3) show ?thesis by (auto simp: session_moves_def)
qed

lemma recover_uploads_progress:
  assumes "progress now s0 D P s" "distinct is"
    and "\<forall>i\<in>set is. session_left s i \<and> session_moves i \<inter> D = {}"
  shows "\<exists>t. recover_uploads now (map (\<lambda>i. (i, True)) is) r s =
      (Inr (r\<lparr>rUploadManifests := rUploadManifests r + int (length (torn_sessions s is)),
              rUploadSessions := rUploadSessions r + int (length (lost_sessions s is))\<rparr>), t) \<and>
    progress now s0 (D \<union> \<Union> (session_moves ` set is))
      (P \<union> manifest_tmp ` set (torn_sessions s is) \<union> sessionDir ` set (lost_sessions s is)) t"
  using assms
proof (induction "is" arbitrary: D P r s)
  case Nil
  then show ?case by (simp add: torn_sessions_def lost_sessions_def)
next
  case (Cons i "is")
  let ?r = "r\<lparr>rUploadManifests := rUploadManifests r + int (length (torn_sessions s [i])),
      rUploadSessions := rUploadSessions r + int (length (lost_sessions s [i]))\<rparr>"
  obtain t where t: "recover_uploads now (map (\<lambda>i. (i, True)) (i # is)) r s =
      recover_uploads now (map (\<lambda>i. (i, True)) is) ?r t"
    "progress now s0 (D \<union> session_moves i)
      (P \<union> manifest_tmp ` set (torn_sessions s [i]) \<union> sessionDir ` set (lost_sessions s [i])) t"
    "\<forall>q. fst q \<noteq> Quarantine \<and> \<not> under (Uploads, [i]) q \<longrightarrow> look t q = look s q"
    using recover_session [OF Cons.prems(1), of i "map (\<lambda>i. (i, True)) is" r] Cons.prems(3) by auto
  have same: "look t q = look s q" if u: "under (Uploads, [j]) q" "j \<in> set is" for j q
  proof -
    obtain r where "q = (Uploads, [j] @ r)" using under_append [OF u(1)] by auto
    moreover have "i \<noteq> j" using u(2) Cons.prems(2) by auto
    ultimately show ?thesis using t(3) by (simp del: split_paired_All)
  qed
  have left: "session_left t j \<and> session_moves j \<inter> (D \<union> session_moves i) = {}" if "j \<in> set is" for j
  proof -
    have "session_left s j" "session_left s i" "i \<noteq> j" "session_moves j \<inter> D = {}" using Cons.prems(2,3) that by auto
    moreover from this have "session_moves j \<inter> session_moves i = {}"
      by (intro session_moves_disjoint) (auto simp: session_left_def)
    ultimately show ?thesis using session_left_same [of s j t] same [OF _ that] by auto
  qed
  have eq: "torn_sessions t is = torn_sessions s is" "lost_sessions t is = lost_sessions s is"
    using same by (auto simp: torn_sessions_def lost_sessions_def manifest_tmp_def sessionManifest_def intro!: filter_cong)
  have split: "torn_sessions s (i # is) = torn_sessions s [i] @ torn_sessions s is"
    "lost_sessions s (i # is) = lost_sessions s [i] @ lost_sessions s is"
    by (simp_all add: torn_sessions_def lost_sessions_def)
  have ass: "D \<union> session_moves i \<union> \<Union> (session_moves ` set is) = D \<union> \<Union> (session_moves ` set (i # is))"
    "P \<union> manifest_tmp ` set (torn_sessions s [i]) \<union> sessionDir ` set (lost_sessions s [i]) \<union>
       manifest_tmp ` set (torn_sessions s is) \<union> sessionDir ` set (lost_sessions s is) =
     P \<union> manifest_tmp ` set (torn_sessions s (i # is)) \<union> sessionDir ` set (lost_sessions s (i # is))"
    unfolding split by auto
  have "distinct is" using Cons.prems(2) by simp
  from Cons.IH [OF t(2) this, of ?r] left show ?case
    unfolding t(1) eq ass split by (simp add: add.assoc)
qed

end
