(* ===== verification/RecoveryLaws.thy ===== *)
theory RecoveryLaws
  imports RecoveryMoves
begin

text \<open>
  What crash recovery achieves. A store whose process died has temporary files and unfinished
  session directories among its contents; \<open>Recover\<close> moves exactly those to the quarantine, keeps
  everything else and leaves a store that \<open>Ready\<close> accepts. The last section has the crashes that
  it does not repair.
\<close>

section \<open>What a crash leaves\<close>

text \<open>A file that an operation on \<open>i\<close> was writing when the process died: the body of a \<open>Put\<close> or a
  manifest not yet renamed into place.\<close>

definition crash_file :: "string \<Rightarrow> area path \<Rightarrow> bool" where
  "crash_file i p \<longleftrightarrow> p = tmpPath i \<or> p = tmp_of (manifestPath i) \<or> p = manifest_tmp i"

definition crash_path :: "astore \<Rightarrow> store \<Rightarrow> area path \<Rightarrow> bool" where
  "crash_path a s p \<longleftrightarrow> (\<exists>i. validFileID i \<and>
     (crash_file i p \<and> (\<exists>c. look s p = Some (NFile c)) \<or>
      aUploads a i = None \<and> p = sessionData i \<and> (\<exists>c. look s p = Some (NFile c)) \<or>
      aUploads a i = None \<and> p = sessionDir i \<and> look s p = Some NDir))"

text \<open>The disk holds the store \<open>a\<close> and, beside it, only what a crash may leave.\<close>

definition littered :: "astore \<Rightarrow> store \<Rightarrow> bool" where
  "littered a s \<longleftrightarrow>
     quarantine_ok s \<and> quarantine_tree s \<and>
     (\<forall>p. fst p \<noteq> Quarantine \<and> look s p \<noteq> disk_of a p \<longrightarrow> crash_path a s p) \<and>
     (\<forall>i. look s (sessionDir i) = None \<longrightarrow> look s (manifest_tmp i) = None \<and> look s (sessionData i) = None)"

lemma crash_path_simps:
  "crash_path a s (Objects, ns) \<longleftrightarrow> False" "crash_path a s (Trash, ns) \<longleftrightarrow> False" "crash_path a s (ar, []) \<longleftrightarrow> False"
  "crash_path a s (Tmp, [n]) \<longleftrightarrow> (\<exists>i. validFileID i \<and> n = i @ ''.part'') \<and> (\<exists>c. look s (Tmp, [n]) = Some (NFile c))"
  "crash_path a s (Metadata, [n]) \<longleftrightarrow>
     (\<exists>i. validFileID i \<and> n = i @ ''.json.tmp'') \<and> (\<exists>c. look s (Metadata, [n]) = Some (NFile c))"
  "crash_path a s (Uploads, [i]) \<longleftrightarrow> validFileID i \<and> aUploads a i = None \<and> look s (Uploads, [i]) = Some NDir"
  "crash_path a s (Uploads, [i, m]) \<longleftrightarrow> validFileID i \<and> (\<exists>c. look s (Uploads, [i, m]) = Some (NFile c)) \<and>
     (m = ''manifest.json.tmp'' \<or> m = ''data.part'' \<and> aUploads a i = None)"
  "crash_path a s (Tmp, n # m # ns) \<longleftrightarrow> False" "crash_path a s (Metadata, n # m # ns) \<longleftrightarrow> False"
  "crash_path a s (Uploads, n # m # k # ns) \<longleftrightarrow> False"
  by (auto simp: crash_path_def crash_file_def manifest_tmp_def path_defs)

lemma crash_path_new: "crash_path a s p \<Longrightarrow> disk_of a p = None"
  by (auto simp: crash_path_def crash_file_def manifest_tmp_def path_defs session_child_def split: option.split)

lemma littered_look:
  assumes "littered a s" "fst p \<noteq> Quarantine"
  shows "look s p = disk_of a p \<or> disk_of a p = None \<and> crash_path a s p"
  using assms crash_path_new unfolding littered_def by blast

lemma littered_cases:
  assumes "littered a s" "good a"
  shows "look s (Tmp, [n]) \<noteq> None \<Longrightarrow> (\<exists>i. validFileID i \<and> n = i @ ''.part'') \<and> (\<exists>c. look s (Tmp, [n]) = Some (NFile c))"
    and "look s (Metadata, [n]) \<noteq> None \<Longrightarrow> suffix ''.json.tmp'' n \<Longrightarrow>
      (\<exists>i. validFileID i \<and> n = i @ ''.json.tmp'') \<and> (\<exists>c. look s (Metadata, [n]) = Some (NFile c))"
    and "look s (Uploads, [i]) \<noteq> None \<Longrightarrow> validFileID i \<and> look s (Uploads, [i]) = Some NDir"
    and "look s (Uploads, [i, m]) \<noteq> None \<Longrightarrow> m \<in> child_names \<and> look s (Uploads, [i]) = Some NDir"
    and "look s (Tmp, n # m # ns) = None" "look s (Metadata, n # m # ns) = None" "look s (Uploads, n # m # k # ns) = None"
    and "look s (ar, []) = Some NDir"
proof -
  note l = littered_look [OF assms(1)]
  have j: "\<not> (suffix ''.json'' n \<and> suffix ''.json.tmp'' n)" for n by (auto simp: suffix_def)
  show "look s (Tmp, [n]) \<noteq> None \<Longrightarrow> (\<exists>i. validFileID i \<and> n = i @ ''.part'') \<and> (\<exists>c. look s (Tmp, [n]) = Some (NFile c))"
    using l [of "(Tmp, [n])"] by (auto simp: crash_path_simps)
  show "look s (Metadata, [n]) \<noteq> None \<Longrightarrow> suffix ''.json.tmp'' n \<Longrightarrow>
      (\<exists>i. validFileID i \<and> n = i @ ''.json.tmp'') \<and> (\<exists>c. look s (Metadata, [n]) = Some (NFile c))"
    using l [of "(Metadata, [n])"] j [of n] by (auto simp: crash_path_simps split: if_splits)
  show up: "look s (Uploads, [i]) \<noteq> None \<Longrightarrow> validFileID i \<and> look s (Uploads, [i]) = Some NDir" for i
    using l [of "(Uploads, [i])"] session_status [OF assms(2), of i] by (auto simp: crash_path_simps)
  show "look s (Uploads, [i, m]) \<noteq> None \<Longrightarrow> m \<in> child_names \<and> look s (Uploads, [i]) = Some NDir"
  proof (cases "aUploads a i")
    case (Some x)
    then have "look s (Uploads, [i]) = Some NDir" using l [of "(Uploads, [i])"] by (auto simp: crash_path_simps)
    then show "look s (Uploads, [i, m]) \<noteq> None \<Longrightarrow> m \<in> child_names \<and> look s (Uploads, [i]) = Some NDir"
      using l [of "(Uploads, [i, m])"] Some
      by (auto simp: crash_path_simps child_names_def session_child_def split: if_splits)
  next
    case None
    assume ne: "look s (Uploads, [i, m]) \<noteq> None"
    then have m: "m = ''manifest.json.tmp'' \<or> m = ''data.part''"
      using l [of "(Uploads, [i, m])"] None by (auto simp: crash_path_simps)
    then have "look s (Uploads, [i]) \<noteq> None"
      using assms(1) ne by (auto simp: littered_def path_defs manifest_tmp_def)
    then show "m \<in> child_names \<and> look s (Uploads, [i]) = Some NDir" using m up by (auto simp: child_names_def)
  qed
  show "look s (Tmp, n # m # ns) = None" "look s (Metadata, n # m # ns) = None" "look s (Uploads, n # m # k # ns) = None"
    using l [of "(Tmp, n # m # ns)"] l [of "(Metadata, n # m # ns)"] l [of "(Uploads, n # m # k # ns)"]
    by (auto simp: crash_path_simps)
  show "look s (ar, []) = Some NDir"
  proof (cases "ar = Quarantine")
    case True
    then show ?thesis using assms(1) by (simp add: littered_def quarantine_ok_def)
  next
    case False
    then show ?thesis using l [of "(ar, [])"] by (cases ar) (auto simp: crash_path_simps)
  qed
qed

lemma rooted_leaf:
  assumes "look s (ar, ns) \<noteq> None" "\<And>m ms. look s (ar, ns @ m # ms) = None"
  shows "rooted s (ar, ns)"
proof -
  have none: "look s q = None" if u: "under (ar, ns) q" "q \<noteq> (ar, ns)" for q
  proof -
    obtain r where "q = (ar, ns @ r)" using under_append [OF u(1)] by auto
    with u(2) assms(2) show ?thesis by (cases r) auto
  qed
  show ?thesis unfolding rooted_def
  proof (intro conjI allI impI)
    show "look s (ar, ns) \<noteq> None" by (rule assms(1))
    fix q assume "under (ar, ns) q \<and> q \<noteq> (ar, ns) \<and> look s q \<noteq> None"
    with none [of q] show "look s (parent q) = Some NDir" by simp
  qed
qed

lemma littered_session:
  assumes "littered a s" "good a" "look s (Uploads, [i]) \<noteq> None"
  shows "session_left s i"
proof -
  note c = littered_cases [OF assms(1,2)]
  have "rooted s (Uploads, [i])" unfolding rooted_def
  proof (intro conjI allI impI)
    fix q assume q: "under (Uploads, [i]) q \<and> q \<noteq> (Uploads, [i]) \<and> look s q \<noteq> None"
    then obtain r where r: "q = (Uploads, i # r)" "r \<noteq> []" using under_append [of "(Uploads, [i])" q] by auto
    then obtain m ms where "r = m # ms" by (cases r) auto
    then show "look s (parent q) = Some NDir"
      using q r c(3) [OF assms(3)] c(7) by (cases ms) auto
  qed (use assms(3) in simp)
  then show ?thesis using c(3) [OF assms(3)] c(4) by (simp add: session_left_def)
qed

section \<open>The whole run\<close>

text \<open>The four kinds of leftovers by their identifiers.\<close>

definition left_ids :: "store \<Rightarrow> (string \<Rightarrow> area path) \<Rightarrow> string set" where
  "left_ids s f = {i. look s (f i) \<noteq> None}"

definition lost_ids :: "store \<Rightarrow> string set" where
  "lost_ids s = {i. look s (sessionDir i) \<noteq> None \<and> look s (sessionManifest i) = None}"

definition moved_paths :: "store \<Rightarrow> area path set" where
  "moved_paths s = tmpPath ` left_ids s tmpPath \<union> (\<lambda>i. tmp_of (manifestPath i)) ` left_ids s (\<lambda>i. tmp_of (manifestPath i)) \<union>
     manifest_tmp ` left_ids s manifest_tmp \<union> sessionDir ` lost_ids s"

definition crash_report :: "store \<Rightarrow> report" where
  "crash_report s =
     \<lparr>rPartialObjects = int (card (left_ids s tmpPath)),
      rMetadataManifests = int (card (left_ids s (\<lambda>i. tmp_of (manifestPath i)))),
      rUploadManifests = int (card (left_ids s manifest_tmp)), rUploadSessions = int (card (lost_ids s)),
      rExpiredUploads = 0, rExpiredTrash = 0\<rparr>"

lemma card_names:
  assumes "distinct ns" "set ns = f ` A" "inj f"
  shows "int (length ns) = int (card A)"
proof -
  have "card (f ` A) = card A" using assms(3) by (intro card_image) (auto simp: inj_on_def inj_def)
  then show ?thesis using distinct_card [OF assms(1)] assms(2) by simp
qed

lemma partial_names:
  assumes "littered a s" "good a"
  shows "set (names s (Tmp, [])) = (\<lambda>i. i @ ''.part'') ` left_ids s tmpPath"
    and "map (\<lambda>n. (n, look s (child (Tmp, []) n) = Some NDir)) (names s (Tmp, [])) = map (\<lambda>n. (n, False)) (names s (Tmp, []))"
proof -
  note c = littered_cases(1) [OF assms]
  show "set (names s (Tmp, [])) = (\<lambda>i. i @ ''.part'') ` left_ids s tmpPath"
    using c by (fastforce simp: set_names left_ids_def tmpPath_def image_iff)
  show "map (\<lambda>n. (n, look s (child (Tmp, []) n) = Some NDir)) (names s (Tmp, [])) = map (\<lambda>n. (n, False)) (names s (Tmp, []))"
    using c by (fastforce simp: set_names)
qed

definition listed :: "store \<Rightarrow> area \<Rightarrow> (string \<times> bool) list" where
  "listed s ar = map (\<lambda>n. (n, look s (child (ar, []) n) = Some NDir)) (names s (ar, []))"

lemma manifest_names:
  assumes "littered a s" "good a"
  shows "set (interrupted (listed s Metadata)) = (\<lambda>i. i @ ''.json.tmp'') ` left_ids s (\<lambda>i. tmp_of (manifestPath i))"
    and "distinct (map fst (listed s Metadata))" "distinct (interrupted (listed s Metadata))"
proof -
  note c = littered_cases(2) [OF assms]
  show "set (interrupted (listed s Metadata)) = (\<lambda>i. i @ ''.json.tmp'') ` left_ids s (\<lambda>i. tmp_of (manifestPath i))"
    using c by (fastforce simp: set_interrupted listed_def set_names left_ids_def path_defs image_iff)
  show d: "distinct (map fst (listed s Metadata))" by (simp add: listed_def comp_def)
  then show "distinct (interrupted (listed s Metadata))" by (simp add: interrupted_def distinct_map_filter)
qed

lemma session_list:
  assumes "littered a s" "good a"
  shows "listed s Uploads = map (\<lambda>i. (i, True)) (names s (Uploads, []))"
    and "set (torn_sessions s (names s (Uploads, []))) = left_ids s manifest_tmp"
    and "set (lost_sessions s (names s (Uploads, []))) = lost_ids s"
proof -
  note c = littered_cases [OF assms]
  show "listed s Uploads = map (\<lambda>i. (i, True)) (names s (Uploads, []))"
    using c(3) by (fastforce simp: listed_def set_names)
  show "set (torn_sessions s (names s (Uploads, []))) = left_ids s manifest_tmp"
    using c(4) by (fastforce simp: torn_sessions_def left_ids_def set_names manifest_tmp_def)
  show "set (lost_sessions s (names s (Uploads, []))) = lost_ids s"
    by (auto simp: lost_sessions_def lost_ids_def set_names sessionDir_def)
qed

lemma listed_cong:
  assumes "\<And>n. look t (ar, [n]) = look s (ar, [n])"
  shows "listed t ar = listed s ar" "names t (ar, []) = names s (ar, [])"
  using assms names_cong [of t "(ar, [])" s] by (simp_all add: listed_def)

lemma read_area: "script s = [] \<Longrightarrow> look s (ar, []) = Some NDir \<Longrightarrow> os_read_dir (ar, []) s = (Inr (listed s ar), s)"
  by (simp add: go_simps listed_def)

lemma rooted_area:
  assumes "rooted s p" "\<And>q. fst q = fst p \<Longrightarrow> look t q = look s q"
  shows "rooted t p"
proof -
  have q: "look t (parent q) = look s (parent q) \<and> look t q = look s q" if "under p q" for q
    using that by (intro conjI assms(2)) (simp_all add: Disk.under_def parent_def)
  have p: "look t p = look s p" by (rule assms(2)) simp
  show ?thesis unfolding rooted_def
  proof (intro conjI allI impI)
    show "look t p \<noteq> None" using assms(1) p by (simp add: rooted_def)
    fix x assume x: "under p x \<and> x \<noteq> p \<and> look t x \<noteq> None"
    with q [of x] have "look s x \<noteq> None" by simp
    with x assms(1) have "look s (parent x) = Some NDir" unfolding rooted_def by blast
    then show "look t (parent x) = Some NDir" using q [of x] x by simp
  qed
qed

lemma recover_moves:
  assumes s: "script s = []" "littered a s" "good a"
    and fresh: "\<And>g n. left_name g n \<Longrightarrow> look s (Quarantine, [g, stamped now n]) = None"
  shows "\<exists>D u. progress now s D (moved_paths s) u \<and>
    recover None now s =
      (case sweepUploadsUnlocked now u of
         (Inl x, v) \<Rightarrow> (Inl (fst x, crash_report s), v)
       | (Inr n, v) \<Rightarrow>
           (if recovered (crash_report s\<lparr>rExpiredUploads := n\<rparr>)
            then (case rebuildUsageLocked v of
                    (Inl e, v) \<Rightarrow> (Inl (e, crash_report s\<lparr>rExpiredUploads := n\<rparr>), v)
                  | (Inr _, v) \<Rightarrow> (Inr (crash_report s\<lparr>rExpiredUploads := n\<rparr>), v))
            else (Inr (crash_report s\<lparr>rExpiredUploads := n\<rparr>), v)))"
proof -
  note c = littered_cases [OF s(2,3)]
  define ns where "ns = names s (Tmp, [])"
  define ms where "ms = interrupted (listed s Metadata)"
  define us where "us = names s (Uploads, [])"
  have q: "quarantine_ok s" "quarantine_tree s" using s(2) by (simp_all add: littered_def)
  have p0: "progress now s {} {} s" using progress_start [OF s(1) q fresh] .
  have tmp: "\<forall>n\<in>set ns. left_name ''partials'' n \<and> suffix ''.part'' n \<and> (''partials'', n) \<notin> {} \<and> rooted s (Tmp, [n])"
  proof
    fix n assume "n \<in> set ns"
    then have n: "look s (Tmp, [n]) \<noteq> None" by (simp add: ns_def set_names)
    then obtain i where "validFileID i" "n = i @ ''.part''" using c(1) by blast
    then show "left_name ''partials'' n \<and> suffix ''.part'' n \<and> (''partials'', n) \<notin> {} \<and> rooted s (Tmp, [n])"
      using rooted_leaf [OF n] c(5) by (auto simp: left_name_def left_suffixes_def)
  qed
  obtain s1 where s1: "recover_partials now (map (\<lambda>n. (n, False)) ns) no_report s =
      (Inr (no_report\<lparr>rPartialObjects := rPartialObjects no_report + int (length ns)\<rparr>), s1)"
    "progress now s (Pair ''partials'' ` set ns) ((\<lambda>n. (Tmp, [n])) ` set ns) s1"
    using recover_partials_progress [OF p0 _ tmp, of no_report] by (auto simp: ns_def)
  have l1: "look s1 x = look s x" if "fst x \<noteq> Quarantine" "fst x \<noteq> Tmp" for x
    using progress_look(1) [OF s1(2) that(1)] that(2) by (auto simp: Disk.under_def)
  have e1: "script s1 = []" using s1(2) by (simp add: progress_def)
  have meta: "\<forall>n\<in>set ms. left_name ''metadata'' n \<and> (''metadata'', n) \<notin> Pair ''partials'' ` set ns \<and> rooted s1 (Metadata, [n])"
  proof
    fix n assume "n \<in> set ms"
    then have n: "look s (Metadata, [n]) \<noteq> None" "suffix ''.json.tmp'' n"
      by (auto simp: ms_def set_interrupted listed_def set_names)
    then obtain i where "validFileID i" "n = i @ ''.json.tmp''" using c(2) by blast
    then show "left_name ''metadata'' n \<and> (''metadata'', n) \<notin> Pair ''partials'' ` set ns \<and> rooted s1 (Metadata, [n])"
      using rooted_area [OF rooted_leaf [OF n(1)], of s1] c(6) l1 by (auto simp: left_name_def left_suffixes_def)
  qed
  obtain r2 s2 where r2: "r2 = no_report\<lparr>rPartialObjects := int (length ns), rMetadataManifests := int (length ms)\<rparr>"
    and s2: "recover_metadata now (listed s Metadata) (no_report\<lparr>rPartialObjects := int (length ns)\<rparr>) s1 = (Inr r2, s2)"
    "progress now s (Pair ''partials'' ` set ns \<union> Pair ''metadata'' ` set ms)
      ((\<lambda>n. (Tmp, [n])) ` set ns \<union> (\<lambda>n. (Metadata, [n])) ` set ms) s2"
    using recover_metadata_progress [OF s1(2) manifest_names(2) [OF s(2,3)] meta [unfolded ms_def],
      of "no_report\<lparr>rPartialObjects := int (length ns)\<rparr>"]
    by (auto simp: ms_def no_report_def)
  have l2: "look s2 x = look s x" if "fst x \<noteq> Quarantine" "fst x \<noteq> Tmp" "fst x \<noteq> Metadata" for x
    using progress_look(1) [OF s2(2) that(1)] that(2,3) by (auto simp: Disk.under_def)
  have e2: "script s2 = []" using s2(2) by (simp add: progress_def)
  have ups: "\<forall>i\<in>set us. session_left s2 i \<and>
      session_moves i \<inter> (Pair ''partials'' ` set ns \<union> Pair ''metadata'' ` set ms) = {}"
  proof
    fix i assume "i \<in> set us"
    then have "session_left s i" by (intro littered_session [OF s(2,3)]) (simp add: us_def set_names)
    then have "session_left s2 i" by (rule session_left_same) (intro l2; simp add: Disk.under_def)
    then show "session_left s2 i \<and> session_moves i \<inter> (Pair ''partials'' ` set ns \<union> Pair ''metadata'' ` set ms) = {}"
      by (auto simp: session_moves_def)
  qed
  have same: "torn_sessions s2 us = torn_sessions s us" "lost_sessions s2 us = lost_sessions s us"
    by (simp_all add: torn_sessions_def lost_sessions_def l2 manifest_tmp_def sessionManifest_def)
  obtain D u where u: "recover_uploads now (map (\<lambda>i. (i, True)) us) r2 s2 =
      (Inr (r2\<lparr>rUploadManifests := rUploadManifests r2 + int (length (torn_sessions s us)),
               rUploadSessions := rUploadSessions r2 + int (length (lost_sessions s us))\<rparr>), u)"
    "progress now s D ((\<lambda>n. (Tmp, [n])) ` set ns \<union> (\<lambda>n. (Metadata, [n])) ` set ms \<union>
       manifest_tmp ` set (torn_sessions s us) \<union> sessionDir ` set (lost_sessions s us)) u"
    using recover_uploads_progress [OF s2(2) _ ups, of r2] by (auto simp: us_def same [unfolded us_def])
  have moved: "(\<lambda>n. (Tmp, [n])) ` set ns \<union> (\<lambda>n. (Metadata, [n])) ` set ms \<union>
       manifest_tmp ` set (torn_sessions s us) \<union> sessionDir ` set (lost_sessions s us) = moved_paths s"
    unfolding ns_def ms_def us_def partial_names(1) [OF s(2,3)] manifest_names(1) [OF s(2,3)] session_list(2,3) [OF s(2,3)]
    by (simp add: moved_paths_def image_image path_defs)
  have lens: "int (length ns) = int (card (left_ids s tmpPath))"
    "int (length ms) = int (card (left_ids s (\<lambda>i. tmp_of (manifestPath i))))"
    "int (length (torn_sessions s us)) = int (card (left_ids s manifest_tmp))"
    "int (length (lost_sessions s us)) = int (card (lost_ids s))"
    using card_names [OF _ partial_names(1) [OF s(2,3)]] card_names [OF manifest_names(3,1) [OF s(2,3)]]
      session_list(2,3) [OF s(2,3)] distinct_card [of "torn_sessions s us"] distinct_card [of "lost_sessions s us"]
    by (simp_all add: ns_def ms_def us_def inj_def torn_sessions_def lost_sessions_def)
  have d0: "os_read_dir (Tmp, []) s = (Inr (map (\<lambda>n. (n, False)) ns), s)"
    using read_area [OF s(1) c(8)] partial_names(2) [OF s(2,3)] by (simp add: listed_def ns_def)
  have d1: "os_read_dir (Metadata, []) s1 = (Inr (listed s Metadata), s1)"
    using read_area [OF e1, of Metadata] listed_cong(1) [of s1 Metadata s] l1 c(8) by simp
  have d2: "os_read_dir (Uploads, []) s2 = (Inr (map (\<lambda>i. (i, True)) us), s2)"
    using read_area [OF e2, of Uploads] listed_cong(1) [of s2 Uploads s] l2 c(8) session_list(1) [OF s(2,3)]
    by (simp add: us_def)
  have s1': "recover_partials now (map (\<lambda>n. (n, False)) ns) no_report s =
      (Inr (no_report\<lparr>rPartialObjects := int (length ns)\<rparr>), s1)"
    using s1(1) by (simp add: no_report_def)
  have run: "recover None now s =
      (case sweepUploadsUnlocked now u of
         (Inl x, s) \<Rightarrow> (Inl (fst x, r), s)
       | (Inr n, s) \<Rightarrow>
           (let r = r\<lparr>rExpiredUploads := n\<rparr> in
            if recovered r
            then (case rebuildUsageLocked s of
                    (Inl e, s) \<Rightarrow> (Inl (e, r), s)
                  | (Inr _, s) \<Rightarrow> (Inr r, s))
            else (Inr r, s)))"
    if "r = r2\<lparr>rUploadManifests := rUploadManifests r2 + int (length (torn_sessions s us)),
               rUploadSessions := rUploadSessions r2 + int (length (lost_sessions s us))\<rparr>" for r
    by (simp only: that recover_def d0 s1' d1 s2(1) d2 u(1) option.case sum.case prod.case)
  have "r2\<lparr>rUploadManifests := rUploadManifests r2 + int (length (torn_sessions s us)),
      rUploadSessions := rUploadSessions r2 + int (length (lost_sessions s us))\<rparr> = crash_report s"
    by (simp add: r2 lens no_report_def crash_report_def)
  from run [OF this [symmetric]] have "recover None now s =
      (case sweepUploadsUnlocked now u of
         (Inl x, v) \<Rightarrow> (Inl (fst x, crash_report s), v)
       | (Inr n, v) \<Rightarrow>
           (if recovered (crash_report s\<lparr>rExpiredUploads := n\<rparr>)
            then (case rebuildUsageLocked v of
                    (Inl e, v) \<Rightarrow> (Inl (e, crash_report s\<lparr>rExpiredUploads := n\<rparr>), v)
                  | (Inr _, v) \<Rightarrow> (Inr (crash_report s\<lparr>rExpiredUploads := n\<rparr>), v))
            else (Inr (crash_report s\<lparr>rExpiredUploads := n\<rparr>), v)))"
    unfolding Let_def .
  with u(2) [unfolded moved] show ?thesis by blast
qed

section \<open>A repaired store\<close>

lemma lost_is_new:
  assumes "littered a s" "i \<in> lost_ids s"
  shows "aUploads a i = None"
proof (rule ccontr)
  assume "aUploads a i \<noteq> None"
  then have "disk_of a (sessionManifest i) \<noteq> None" by (auto simp: path_defs session_child_def)
  then show False using littered_look [OF assms(1), of "sessionManifest i"] assms(2)
    by (auto simp: lost_ids_def path_defs)
qed

lemma moved_cases:
  assumes "m \<in> moved_paths s"
  obtains (partial) i where "m = (Tmp, [i @ ''.part''])"
    | (manifest) i where "m = (Metadata, [i @ ''.json.tmp''])"
    | (torn) i where "m = (Uploads, [i, ''manifest.json.tmp''])"
    | (lost) i where "i \<in> lost_ids s" "m = (Uploads, [i])"
  using assms unfolding moved_paths_def by (auto simp: path_defs manifest_tmp_def)

lemma moved_new:
  assumes "littered a s" "m \<in> moved_paths s" "under m p"
  shows "disk_of a p = None"
proof -
  obtain r where p: "p = (fst m, snd m @ r)" using under_append [OF assms(3)] by auto
  from assms(2) show ?thesis
  proof (cases rule: moved_cases)
    case partial
    then show ?thesis by (simp add: p)
  next
    case manifest
    then show ?thesis by (cases r) (simp_all add: p)
  next
    case torn
    then show ?thesis by (cases r) (auto simp: p session_child_def split: option.split bind_split)
  next
    case (lost i)
    then show ?thesis using lost_is_new [OF assms(1) lost(1)]
      by (cases r; cases "tl r") (auto simp: p)
  qed
qed

lemma crash_moved:
  assumes "littered a s" "crash_path a s p"
  shows "\<exists>m\<in>moved_paths s. under m p"
proof -
  obtain i where i: "crash_file i p \<and> look s p \<noteq> None \<or>
      aUploads a i = None \<and> look s p \<noteq> None \<and> (p = sessionData i \<or> p = sessionDir i)"
    using assms(2) unfolding crash_path_def by auto
  show ?thesis
  proof (cases "crash_file i p \<and> look s p \<noteq> None")
    case True
    then have "p \<in> moved_paths s" by (auto simp: crash_file_def moved_paths_def left_ids_def)
    then show ?thesis by (intro bexI [of _ p]) simp_all
  next
    case False
    with i have 2: "aUploads a i = None" "look s p \<noteq> None" "p = sessionData i \<or> p = sessionDir i" by auto
    have "look s (sessionManifest i) = disk_of a (sessionManifest i)"
      using littered_look [OF assms(1), of "sessionManifest i"] by (auto simp: path_defs crash_path_simps)
    then have "look s (sessionManifest i) = None" using 2(1) by (simp add: path_defs)
    moreover have "look s (sessionDir i) \<noteq> None" using 2 assms(1) unfolding littered_def by auto
    ultimately have "sessionDir i \<in> moved_paths s" by (auto simp: moved_paths_def lost_ids_def)
    moreover have "under (sessionDir i) p" using 2(3) by (auto simp: path_defs Disk.under_def)
    ultimately show ?thesis by blast
  qed
qed

lemma moved_rest:
  assumes "littered a s" "progress now s D (moved_paths s) u"
  shows "on_disk a u"
  unfolding on_disk_def
proof (intro conjI allI impI)
  show "quarantine_ok u" using assms(2) by (simp add: progress_def)
  fix p :: "area path" assume p: "fst p \<noteq> Quarantine"
  note look = progress_look(1) [OF assms(2) p]
  show "look u p = disk_of a p"
  proof (cases "\<exists>m\<in>moved_paths s. under m p")
    case True
    then have "disk_of a p = None" using moved_new [OF assms(1)] by blast
    with True show ?thesis by (simp add: look)
  next
    case False
    then have "look s p = disk_of a p" using crash_moved [OF assms(1)] littered_look [OF assms(1) p] by blast
    with False show ?thesis unfolding look by simp
  qed
qed

text \<open>The sweep stays below \<open>uploads\<close>.\<close>

lemma touches_sweep:
  fixes s t :: store
  assumes "touches {p. fst p = Uploads} s t"
  shows "touches {p. fst p = Uploads} s (snd (sweep_entries now es n t))"
    and "touches {p. fst p = Uploads} s (snd (sweepUploadsUnlocked now t))"
proof -
  have w: "touches {p. fst p = Uploads} s (snd (sweep_entries now es n u))" if u: "touches {p. fst p = Uploads} s u" for es n u
    using u
  proof (induction es arbitrary: n u)
    case (Cons e es)
    then show ?case by (cases e) (auto simp: path_defs intro!: touch_intros)
  qed simp
  show "touches {p. fst p = Uploads} s (snd (sweep_entries now es n t))" by (rule w [OF assms])
  show "touches {p. fst p = Uploads} s (snd (sweepUploadsUnlocked now t))"
    unfolding sweepUploadsUnlocked_def using assms by (intro touch_intros w; simp)
qed

lemma represents_rebuilt:
  assumes "script s = []" "represents a s"
  shows "\<exists>t. rebuildUsageLocked s = (Inr (), t) \<and> represents a t \<and> script t = []"
proof -
  have p: "on_disk a s" "good a" "totals_fit a" using assms(2) by (auto simp: represents_def)
  obtain u where u: "rebuildUsageLocked s = (Inr (), s\<lparr>sUsage := u, sUsageValid := True\<rparr>)" "ledger.balanced (books a) u"
    using rebuildUsageLocked_calm [OF assms(1) p] by blast
  moreover have "represents a (s\<lparr>sUsage := u, sUsageValid := True\<rparr>)"
    using assms(2) u(2) by (auto simp: represents_def accounted_def on_disk_def quarantine_ok_def look_def)
  ultimately show ?thesis using assms(1) by auto
qed

lemma recover_repaired:
  assumes "script s = []" "littered a s" "good a" "totals_fit a" "accounted a s"
    and "0 \<le> sOwnerQuotaBytes s" "sOwnerQuotaBytes s \<le> max_int64"
    and "\<And>g n. left_name g n \<Longrightarrow> look s (Quarantine, [g, stamped now n]) = None"
  shows "\<exists>t. recover None now s =
      (Inr (crash_report s\<lparr>rExpiredUploads := int (card (swept (sUploadTTL s) now a))\<rparr>), t) \<and>
    represents (drop_uploads (swept (sUploadTTL s) now a) a) t \<and>
    ready None rnd t = (Inr (), t) \<and>
    (\<forall>p c. fst p \<noteq> Quarantine \<and> disk_of a p = None \<and> look s p = Some (NFile c) \<longrightarrow>
       (\<exists>q. fst q = Quarantine \<and> look t q = Some (NFile c))) \<and>
    (\<forall>q. fst q = Quarantine \<and> look s q \<noteq> None \<longrightarrow> look t q = look s q)"
proof -
  let ?a = "drop_uploads (swept (sUploadTTL s) now a) a"
  obtain D u where u: "progress now s D (moved_paths s) u" and run: "recover None now s =
      (case sweepUploadsUnlocked now u of
         (Inl x, s') \<Rightarrow> (Inl (fst x, crash_report s), s')
       | (Inr n, s') \<Rightarrow>
           (if recovered (crash_report s\<lparr>rExpiredUploads := n\<rparr>)
            then (case rebuildUsageLocked s' of
                    (Inl e, s'') \<Rightarrow> (Inl (e, crash_report s\<lparr>rExpiredUploads := n\<rparr>), s'')
                  | (Inr _, s'') \<Rightarrow> (Inr (crash_report s\<lparr>rExpiredUploads := n\<rparr>), s''))
            else (Inr (crash_report s\<lparr>rExpiredUploads := n\<rparr>), s')))"
    using recover_moves [OF assms(1,2,3,8)] by blast
  have only: "script u = []" "sUploadTTL u = sUploadTTL s" and rep: "represents a u"
    using u moved_rest [OF assms(2) u] assms(1,3-7)
    by (auto simp: progress_def only_entries_def same_index_def same_config_def represents_def accounted_def)
  obtain v where v: "sweepUploadsUnlocked now u = (Inr (int (card (swept (sUploadTTL s) now a))), v)"
    "represents ?a v" "script v = []"
    using sweepUploadsUnlocked_calm [OF only(1) rep, of now] only(2) by auto
  obtain w where w: "rebuildUsageLocked v = (Inr (), w)" "represents ?a w" "script w = []"
    using represents_rebuilt [OF v(3,2)] by blast
  let ?r = "crash_report s\<lparr>rExpiredUploads := int (card (swept (sUploadTTL s) now a))\<rparr>"
  have "recover None now s = (if recovered ?r then (Inr ?r, w) else (Inr ?r, v))"
    unfolding run by (simp add: v(1) w(1))
  then obtain t where t: "recover None now s = (Inr ?r, t)" "t = v \<or> t = w"
    by (cases "recovered ?r") simp_all
  have kept: "look t q = look u q" if "fst q = Quarantine" for q
  proof -
    have "touches {p. fst p = Uploads} u v" using touches_sweep(2) [OF touches_refl, of u now] by (simp add: v(1))
    moreover from this have "touches {p. fst p = Uploads} u w"
      using touches_rebuild [of "{p. fst p = Uploads}" u v] by (simp add: w(1))
    ultimately have "touches {p. fst p = Uploads} u t" using t(2) by blast
    then show ?thesis by (rule touches_look) (use that in \<open>auto simp: Disk.under_def\<close>)
  qed
  have ready: "represents ?a t" "ready None rnd t = (Inr (), t)" using t(2) v(2,3) w(2,3) ready_represented by blast+
  have evidence: "\<exists>q. fst q = Quarantine \<and> look t q = Some (NFile c)"
    if p: "fst p \<noteq> Quarantine" "disk_of a p = None" "look s p = Some (NFile c)" for p c
  proof -
    obtain m where "m \<in> moved_paths s" "under m p"
      using crash_moved [OF assms(2), of p] littered_look [OF assms(2) p(1)] p(2,3) by auto
    then obtain q where "fst q = Quarantine" "look u q = Some (NFile c)"
      using progress_look(3) [OF u _ _ p(3)] by blast
    then show ?thesis using kept [of q] by (intro exI [of _ q]) simp
  qed
  have stays: "look t q = look s q" if "fst q = Quarantine" "look s q \<noteq> None" for q
    using progress_look(2) [OF u that] kept [OF that(1)] by simp
  show ?thesis using t(1) ready evidence stays by blast
qed

text \<open>A store with one file whose process died while it wrote a second file and a manifest, and
  while it started an upload.\<close>

definition crashed_store :: store where
  "crashed_store = new_state example_options
     (fresh_entries @ [(objectPath example_id, NFile (Blob ''hello'')),
        (manifestPath example_id, NFile (Doc (FileDoc example_file))),
        (tmpPath other_id, NFile (Blob ''par'')), (tmp_of (manifestPath other_id), NFile (Blob [])),
        (sessionDir other_id, NDir), (manifest_tmp other_id, NFile (Blob []))])"

lemma look_crashed:
  "look crashed_store = (look file_store)(tmpPath other_id \<mapsto> NFile (Blob ''par''),
     tmp_of (manifestPath other_id) \<mapsto> NFile (Blob []), sessionDir other_id \<mapsto> NDir,
     manifest_tmp other_id \<mapsto> NFile (Blob []))"
proof
  fix p
  show "look crashed_store p = ((look file_store)(tmpPath other_id \<mapsto> NFile (Blob ''par''),
     tmp_of (manifestPath other_id) \<mapsto> NFile (Blob []), sessionDir other_id \<mapsto> NDir,
     manifest_tmp other_id \<mapsto> NFile (Blob []))) p"
    unfolding crashed_store_def file_store_def look_new_state
    by (auto simp: map_add_def path_defs manifest_tmp_def fresh_entries_def all_areas_def split: option.split)
qed

lemma crashed_quarantine: "look crashed_store (Quarantine, ns) = (if ns = [] then Some NDir else None)"
proof -
  have "look file_store (Quarantine, ns) = (if ns = [] then Some NDir else None)"
    by (auto simp: file_store_def look_new_state fresh_entries_def all_areas_def path_defs)
  then show ?thesis by (simp add: look_crashed path_defs manifest_tmp_def)
qed

lemma crashed_littered: "littered file_astore crashed_store"
proof -
  have d: "on_disk file_astore file_store" using file_represents by (simp add: represents_def)
  have ids: "validFileID other_id" "aUploads file_astore other_id = None"
    by (code_simp, simp add: file_astore_def empty_astore_def)
  show ?thesis unfolding littered_def
  proof (intro conjI allI impI)
    show "quarantine_ok crashed_store" by (simp add: quarantine_ok_def crashed_quarantine)
    show "quarantine_tree crashed_store"
      unfolding quarantine_tree_def by (auto simp: crashed_quarantine split: if_splits)
    fix p :: "area path" assume p: "fst p \<noteq> Quarantine \<and> look crashed_store p \<noteq> disk_of file_astore p"
    then have "p = tmpPath other_id \<or> p = tmp_of (manifestPath other_id) \<or> p = sessionDir other_id \<or> p = manifest_tmp other_id"
      using on_disk_look [OF d, of p] by (auto simp: look_crashed split: if_splits)
    then show "crash_path file_astore crashed_store p"
      using ids by (auto simp: crash_path_simps look_crashed path_defs manifest_tmp_def)
  next
    fix i assume "look crashed_store (sessionDir i) = None"
    then have "i \<noteq> other_id" by (auto simp: look_crashed path_defs manifest_tmp_def)
    then show "look crashed_store (manifest_tmp i) = None" "look crashed_store (sessionData i) = None"
      using on_disk_look [OF d, of "manifest_tmp i"] on_disk_look [OF d, of "sessionData i"]
      by (simp_all add: look_crashed path_defs manifest_tmp_def file_astore_def empty_astore_def)
  qed
qed

lemma crashed_fields [simp]: "script crashed_store = []" "sUploadTTL crashed_store = 60" "sOwnerQuotaBytes crashed_store = 1000"
  "accounted a crashed_store"
  by (simp_all add: crashed_store_def new_state_def example_options_def accounted_def)

lemma crashed_ids: "left_ids crashed_store tmpPath = {other_id}"
  "left_ids crashed_store (\<lambda>i. tmp_of (manifestPath i)) = {other_id}"
  "left_ids crashed_store manifest_tmp = {other_id}" "lost_ids crashed_store = {other_id}"
proof -
  have d: "on_disk file_astore file_store" using file_represents by (simp add: represents_def)
  show "left_ids crashed_store tmpPath = {other_id}"
    "left_ids crashed_store (\<lambda>i. tmp_of (manifestPath i)) = {other_id}"
    "left_ids crashed_store manifest_tmp = {other_id}" "lost_ids crashed_store = {other_id}"
    by (auto simp: left_ids_def lost_ids_def look_crashed path_defs manifest_tmp_def on_disk_look [OF d]
        file_astore_def empty_astore_def split: if_splits)
qed



section \<open>What recovery cannot repair\<close>

text \<open>Recovery works on the quarantine, the sessions and the two kinds of temporary names only,
  whatever fails.\<close>

definition recovery_paths :: "area path set" where
  "recovery_paths = {p. fst p = Quarantine \<or> fst p = Uploads \<or> (\<exists>n. suffix ''.part'' n \<and> p = (Tmp, [n])) \<or>
     (\<exists>n. suffix ''.json.tmp'' n \<and> p = (Metadata, [n]))}"

lemma recovery_path_simps [simp]:
  "(Quarantine, ns) \<in> recovery_paths" "(Uploads, ns) \<in> recovery_paths"
  "suffix ''.part'' n \<Longrightarrow> (Tmp, [n]) \<in> recovery_paths"
  "suffix ''.json.tmp'' n \<Longrightarrow> (Metadata, [n]) \<in> recovery_paths"
  by (simp_all add: recovery_paths_def)

lemma touches_quarantinePath:
  assumes "touches recovery_paths s t" "path \<in> recovery_paths"
  shows "touches recovery_paths s (snd (quarantinePath now path grp name t))"
proof -
  have mono: "quarantine_paths \<subseteq> recovery_paths" by (auto simp: recovery_paths_def quarantine_paths_def)
  have tree: "touches recovery_paths s (snd (copyTree n p (Quarantine, [g, m]) u))" if "touches recovery_paths s u" for n p g m u
    using touches_trans [OF that touches_mono [OF touches_copyTree [OF _ touches_refl] mono]] by simp
  have split: "touches recovery_paths s (snd (case m of (x, u) \<Rightarrow> f x u))"
    if "touches recovery_paths s (snd m)" "\<And>x u. touches recovery_paths s u \<Longrightarrow> touches recovery_paths s (snd (f x u))"
    for m :: "'b \<times> store" and f :: "'b \<Rightarrow> store \<Rightarrow> 'c \<times> store"
    using that by (cases m) simp
  show ?thesis
    unfolding quarantinePath_def Let_def snd_apfst if_distrib [of snd]
    using assms by (intro touch_intros split tree; simp add: touch_intros tree)
qed

lemma touches_recover:
  assumes "touches recovery_paths s t"
  shows "touches recovery_paths s (snd (recover cx now t))"
proof -
  have p: "touches recovery_paths s (snd (recover_partials now es r t))" if "touches recovery_paths s t" for es r t
    using that
  proof (induction es arbitrary: r t)
    case (Cons e es)
    then show ?case by (cases e) (auto intro!: touch_intros touches_quarantinePath)
  qed simp
  have m: "touches recovery_paths s (snd (recover_metadata now es r t))" if "touches recovery_paths s t" for es r t
    using that
  proof (induction es arbitrary: r t)
    case (Cons e es)
    then show ?case by (cases e) (auto intro!: touch_intros touches_quarantinePath)
  qed simp
  have c: "touches recovery_paths s (snd (recover_children now i es b r t))" if "touches recovery_paths s t" for i es b r t
    using that
  proof (induction es arbitrary: b r t)
    case (Cons e es)
    then show ?case by (cases e) (auto intro!: touch_intros touches_quarantinePath)
  qed simp
  have u: "touches recovery_paths s (snd (recover_uploads now es r t))" if "touches recovery_paths s t" for es r t
    using that
  proof (induction es arbitrary: r t)
    case (Cons e es)
    have split: "touches recovery_paths s (snd (case m of (Inl x, u) \<Rightarrow> (Inl (g x), u) | (Inr (b, r), u) \<Rightarrow> f b r u))"
      if "touches recovery_paths s (snd m)" "\<And>b r u. touches recovery_paths s u \<Longrightarrow> touches recovery_paths s (snd (f b r u))"
      for m :: "('b + bool \<times> report) \<times> store" and f :: "bool \<Rightarrow> report \<Rightarrow> store \<Rightarrow> ('c + 'd) \<times> store" and g
      using that by (auto split: prod.split sum.split)
    show ?case using Cons
      by (cases e) (auto intro!: touch_intros touches_quarantinePath split c simp: sessionDir_def)
  qed simp
  have w: "touches recovery_paths s (snd (sweepUploadsUnlocked now t))" if "touches recovery_paths s t" for t
    using touches_trans [OF that touches_mono [OF touches_sweep(2) [OF touches_refl]]]
    by (auto simp: recovery_paths_def)
  show ?thesis
    unfolding recover_def Let_def using assms
    by (intro touch_intros p m u w; simp add: touch_intros)
qed

text \<open>A store that \<open>Ready\<close> accepts is consistent.\<close>

lemma read_dir_ok: "os_read_dir p s = (Inr es, t) \<Longrightarrow> look s p = Some NDir"
  by (auto simp: os_read_dir_def syscall_def tick_def look_def
      split: list.splits option.splits prod.splits sum.splits inode.splits if_splits)

lemma touches_ready_loops [touch_intros]:
  assumes "touches R s t"
  shows "touches R s (snd (ready_manifests es ids t))" "touches R s (snd (ready_uploads es t))"
    and "touches R s (snd (ready_trash es t))" "touches R s (snd (readyQuarantineUnlocked t))"
  using assms
proof -
  show "touches R s (snd (ready_manifests es ids t))" using assms
  proof (induction es arbitrary: ids t)
    case (Cons e es)
    then show ?case by (cases e) (auto simp: Let_def intro!: touch_intros)
  qed simp
  show "touches R s (snd (ready_uploads es t))" using assms
  proof (induction es arbitrary: t)
    case (Cons e es)
    have split: "touches R s (snd (case m of (Inl x, u) \<Rightarrow> (g x, u) | (Inr v, u) \<Rightarrow> f v u))"
      if "touches R s (snd m)" "\<And>v u. touches R s u \<Longrightarrow> touches R s (snd (f v u))"
      for m :: "('b + 'c) \<times> store" and f :: "'c \<Rightarrow> store \<Rightarrow> 'd \<times> store" and g
      using that by (auto split: prod.split sum.split)
    show ?case using Cons by (cases e) (auto simp: Let_def intro!: touch_intros split)
  qed simp
  show "touches R s (snd (ready_trash es t))" using assms
  proof (induction es arbitrary: t)
    case (Cons e es)
    have split: "touches R s (snd (case o' of Inl x \<Rightarrow> f x | Inr (b, c) \<Rightarrow> g b c))"
      if "\<And>x. touches R s (snd (f x))" "\<And>b c. touches R s (snd (g b c))"
      for o' :: "'b + 'c \<times> 'd" and f :: "'b \<Rightarrow> 'e \<times> store" and g
      using that by (auto split: prod.split sum.split)
    show ?case using Cons by (cases e) (auto simp: Let_def intro!: touch_intros split)
  qed simp
  show "touches R s (snd (readyQuarantineUnlocked t))"
    unfolding readyQuarantineUnlocked_def using assms by (intro touch_intros)
qed

lemma bind_okE:
  fixes k :: "'b \<Rightarrow> 's \<Rightarrow> ('e + 'c) \<times> 's"
  assumes "fst (case m of (Inl e, t) \<Rightarrow> (Inl (f e), t) | (Inr x, t) \<Rightarrow> k x t) = Inr r"
  obtains x t where "m = (Inr x, t)" "fst (k x t) = Inr r"
  using assms by (auto split: prod.splits sum.splits)

lemma choice_okE:
  assumes "fst (case o' of Inl e \<Rightarrow> (Inl e, t) | Inr x \<Rightarrow> k x) = Inr r"
  obtains x where "o' = Inr x" "fst (k x) = Inr r"
  using assms by (auto split: sum.splits)

lemma ready_walk_dirs:
  assumes "fst (ready_walk s) = Inr ()"
  shows "look s (ar, []) = Some NDir"
proof -
  have same: "look u = look v" if "touches {} v u" for u v :: store
    using that by (auto simp: touches_def)
  have dir: "look t = look u \<and> look u p = Some NDir" if "os_read_dir p u = (Inr es, t)" for es p and u t :: store
    using read_dir_ok [OF that] same [OF touches_readers(7) [OF touches_refl], of p u] that by auto
  have loops: "ready_manifests es ids u = (r1, t) \<Longrightarrow> look t = look u" "ready_uploads es u = (r2, t) \<Longrightarrow> look t = look u"
    "ready_trash es u = (r3, t) \<Longrightarrow> look t = look u" for es ids u r1 r2 r3 t
    using same [OF touches_ready_loops(1) [OF touches_refl], of es ids u]
      same [OF touches_ready_loops(2) [OF touches_refl], of es u]
      same [OF touches_ready_loops(3) [OF touches_refl], of es u] by auto
  have groups: "look t = look u \<and> look u (Quarantine, []) = Some NDir" if "readyQuarantineUnlocked u = (Inr x, t)" for u t x
    using that by (auto simp: readyQuarantineUnlocked_def dest!: dir split: prod.splits sum.splits)
  show ?thesis
    using assms unfolding ready_walk_def
    apply (elim bind_okE choice_okE)
    subgoal premises p
      using dir [OF p(1)] loops(1) [OF p(2)] dir [OF p(3)] dir [OF p(5)] loops(2) [OF p(6)] dir [OF p(7)]
        loops(3) [OF p(8)] groups [OF p(9)] dir [OF p(10)] by (cases ar) simp_all
    done
qed

lemma create_excl_ok:
  assumes "script s = []" "os_create_excl p s = (Inr x, t)"
  shows "look s (parent p) = Some NDir \<and> look s p = None"
  using assms by (simp add: os_create_excl_def syscall_calm look_def split: if_splits)

lemma ready_consistent:
  assumes "script s = []" "fst (ready None rnd s) = Inr ()"
  shows "consistent s"
proof -
  obtain t where t: "ready_probe rnd s = (Inr (), t)" "fst (ready_walk t) = Inr ()"
    using assms(2) by (auto simp: ready_def split: prod.splits sum.splits)
  have "\<exists>x u. os_create_excl (probe_path rnd) s = (Inr x, u)"
    using t(1) by (auto simp: ready_probe_def split: prod.splits sum.splits)
  then have "look s (parent (probe_path rnd)) = Some NDir \<and> look s (probe_path rnd) = None"
    using assms(1) create_excl_ok by blast
  then have "look s (Tmp, []) = Some NDir \<and> look s (probe_path rnd) = None" by (simp add: probe_path_def)
  then have "t = s" using t(1) assms(1) by (simp add: ready_probe_def probe_path_def go_simps)
  with ready_walk_calm [OF assms(1)] ready_walk_dirs [OF t(2)] t(2) show ?thesis by auto
qed

end
