(* ===== verification/Restart.thy ===== *)
theory Restart
  imports RecoveryLaws
begin

text \<open>
  A process killed in the middle of a \<open>Put\<close>, and its successor: the successor opens the store, runs
  \<open>Recover\<close> and asks \<open>Ready\<close>. Every moment of death is followed through.
\<close>

section \<open>Leftovers that stay\<close>

text \<open>An object without its manifest, or a name in the temporary directory that is not a partial
  object, is still there after any recovery, and \<open>Ready\<close> rejects the store.\<close>

lemma orphan_stays:
  assumes "look s (objectPath i) \<noteq> None" "look s (manifestPath i) = None"
  shows "fst (ready None rnd (snd (recover cx now s)\<lparr>script := []\<rparr>)) \<noteq> Inr ()"
proof
  let ?t = "snd (recover cx now s)\<lparr>script := []\<rparr>"
  assume "fst (ready None rnd ?t) = Inr ()"
  then have c: "consistent ?t" by (intro ready_consistent) simp_all
  have "touches recovery_paths s (snd (recover cx now s))" by (rule touches_recover [OF touches_refl])
  then have "look (snd (recover cx now s)) (objectPath i) = look s (objectPath i)"
    "look (snd (recover cx now s)) (manifestPath i) = look s (manifestPath i)"
    by (rule touches_look; force simp: recovery_paths_def path_defs Disk.under_def suffix_to_prefix)+
  with assms have "look ?t (Objects, [i]) \<noteq> None" "look ?t (manifestPath i) = None"
    by (simp_all add: look_def path_defs)
  with c show False unfolding consistent_def object_name_ok_def by blast
qed

lemma probe_stays:
  assumes "look s (Tmp, [n]) \<noteq> None" "\<not> suffix ''.part'' n"
  shows "fst (ready None rnd (snd (recover cx now s)\<lparr>script := []\<rparr>)) \<noteq> Inr ()"
proof
  let ?t = "snd (recover cx now s)\<lparr>script := []\<rparr>"
  assume "fst (ready None rnd ?t) = Inr ()"
  then have c: "consistent ?t" by (intro ready_consistent) simp_all
  have "touches recovery_paths s (snd (recover cx now s))" by (rule touches_recover [OF touches_refl])
  then have "look (snd (recover cx now s)) (Tmp, [n]) = look s (Tmp, [n])"
    by (rule touches_look) (use assms(2) in \<open>auto simp: recovery_paths_def Disk.under_def\<close>)
  with assms have "look ?t (Tmp, [n]) \<noteq> None" by (simp add: look_def)
  moreover have "look ?t (Tmp, [n]) = None" using c by (simp only: consistent_def)
  ultimately show False by simp
qed

section \<open>The moment of death\<close>

text \<open>The fault script of a process killed at its call \<open>m\<close>, when that call has written \<open>w\<close> bytes:
  none of the later calls takes place. A \<open>Put\<close> makes fewer than twenty after its first failure.\<close>

definition killed :: "nat \<Rightarrow> nat \<Rightarrow> fault list" where
  "killed m w = replicate m None @ replicate 20 (Some w)"

lemma killed_simps [simp]:
  "killed 0 w = replicate 20 (Some w)" "killed (Suc m) w = None # killed m w"
  by (simp_all add: killed_def)

lemma killed_split: "m < n \<or> killed m w = replicate n None @ killed (m - n) w"
  unfolding killed_def
  by (metis append_assoc le_add_diff_inverse linorder_not_less replicate_add)

lemma put_commit_killed:
  assumes "script s = killed m w"
    and "look s (tmpPath i) = Some (NFile (Blob b))" "look s (objectPath i) = None"
    and "look s (manifestPath i) = None" "look s (tmp_of (manifestPath i)) = None"
    and "look s (Objects, []) = Some NDir" "look s (Metadata, []) = Some NDir"
  shows "let t = snd (put_commit E i sz now input bd s) in
     look t = look s \<or>
     look t = (look s)(tmpPath i := None, objectPath i \<mapsto> NFile (Blob b)) \<or>
     (\<exists>c. look t = (look s)(tmpPath i := None, objectPath i \<mapsto> NFile (Blob b), tmp_of (manifestPath i) \<mapsto> NFile c)) \<or>
     look t = (look s)(tmpPath i := None, objectPath i \<mapsto> NFile (Blob b),
                 manifestPath i \<mapsto> NFile (Doc (FileDoc (stored_file E i sz now input bd))))"
proof -
  note eval = put_commit_code go_simps step_simps put_path_facts
  consider "m < 10" | "script s = replicate 10 None @ killed (m - 10) w"
    using killed_split [of m 10 w] assms(1) by auto
  then show ?thesis
  proof cases
    case 1
    from less_nat_10 [OF this] show ?thesis
      by (elim disjE; use assms in \<open>simp add: eval numeral_eq_Suc; blast?\<close>)
  next
    case 2
    then show ?thesis using assms(2-) by (simp add: eval)
  qed
qed

lemma put_killed:
  assumes "script s = killed m w" "on_disk a s" "sLoaded s" "sLoadErr s = None" "sPauseAtPercent s = 0"
    and "aFiles a i = None" "aTrash a i = None" "bErr bd = None"
    and "\<not> over_quota s (ownerFromMetadata (iMetadata input)) (int (length (bData bd)))"
  shows "let t = snd (put_locked E i now input bd s); c = NFile (Blob (bData bd)) in
     look t = look s \<or> (\<exists>d. look t = (look s)(tmpPath i \<mapsto> NFile d)) \<or>
     look t = (look s)(objectPath i \<mapsto> c) \<or> (\<exists>d. look t = (look s)(objectPath i \<mapsto> c, tmp_of (manifestPath i) \<mapsto> NFile d)) \<or>
     look t = (look s)(objectPath i \<mapsto> c,
       manifestPath i \<mapsto> NFile (Doc (FileDoc (stored_file E i (int (length (bData bd))) now input bd))))"
proof -
  note eval = put_locked_def writesPausedUnlocked_def ensureUsageLocked_def put_exists_def
    pathExists_def put_write_def copy_body_def remove_quiet_def go_simps step_simps put_path_facts
    enforceQuotaUnlocked_loaded over_quota_frame
  note here = assms on_disk_paths [OF assms(2), of i]
  consider "m < 7" | "script s = replicate 7 None @ killed (m - 7) w"
    using killed_split [of m 7 w] assms(1) by auto
  then show ?thesis
  proof cases
    case 1
    then have "m = 0 \<or> m = 1 \<or> m = 2 \<or> m = 3 \<or> m = 4 \<or> m = 5 \<or> m = 6" by presburger
    then show ?thesis by (elim disjE; use here in \<open>simp add: eval put_commit_code numeral_eq_Suc; blast?\<close>)
  next
    case 2
    let ?t = "put_entry (tmpPath i) (NFile (Blob (bData bd))) s\<lparr>script := killed (m - 7) w\<rparr>"
    have run: "put_locked E i now input bd s = put_commit E i (int (length (bData bd))) now input bd ?t"
      using 2 here(2-) by (simp add: eval)
    have same: "(look s)(tmpPath i := None) = look s"
      using here by (simp add: fun_upd_idem)
    show ?thesis unfolding run
      using put_commit_killed [of ?t "m - 7" w i "bData bd" E "int (length (bData bd))" now input bd]
        here same by (auto simp: put_path_facts Let_def)
  qed
qed

section \<open>The next process\<close>

lemma littered_on_disk:
  assumes "on_disk a s" "quarantine_tree s"
  shows "littered a s"
proof -
  have up: "look s (sessionDir i) = None \<Longrightarrow> look s (manifest_tmp i) = None \<and> look s (sessionData i) = None" for i
    using on_disk_look [OF assms(1), of "sessionDir i"] on_disk_look [OF assms(1), of "manifest_tmp i"]
      on_disk_look [OF assms(1), of "sessionData i"] by (simp add: path_defs manifest_tmp_def)
  have eq: "fst p \<noteq> Quarantine \<Longrightarrow> look s p = disk_of a p" for p by (rule on_disk_look [OF assms(1)])
  show ?thesis unfolding littered_def
    using assms up eq by (auto simp: on_disk_def simp del: split_paired_All)
qed

lemma littered_partial:
  assumes "on_disk a s" "quarantine_tree s" "validFileID i" "look t = (look s)(tmpPath i \<mapsto> NFile d)"
  shows "littered a t"
proof -
  note l = littered_on_disk [OF assms(1,2)]
  have q: "look t (Quarantine, ns) = look s (Quarantine, ns)" "look t (Uploads, ns) = look s (Uploads, ns)" for ns
    by (simp_all add: assms(4) path_defs)
  have crash: "crash_path a t p" if "fst p \<noteq> Quarantine" "look t p \<noteq> disk_of a p" for p
  proof -
    have "p = tmpPath i" using that on_disk_look [OF assms(1)] by (auto simp: assms(4) split: if_splits)
    then show ?thesis using assms(3) by (auto simp: crash_path_def crash_file_def assms(4))
  qed
  show ?thesis unfolding littered_def
  proof (intro conjI allI impI)
    show "quarantine_ok t" using l by (simp add: littered_def quarantine_ok_def q)
    show "quarantine_tree t" unfolding quarantine_tree_def
    proof (intro allI impI)
      fix p assume p: "fst p = Quarantine \<and> snd p \<noteq> [] \<and> look t p \<noteq> None"
      then have "look s p \<noteq> None" using q(1) [of "snd p"] by (cases p) simp
      then have "look s (parent p) = Some NDir" using p assms(2) unfolding quarantine_tree_def by blast
      then show "look t (parent p) = Some NDir" using p q(1) [of "butlast (snd p)"] by (cases p) (simp add: parent_def)
    qed
  next
    fix p assume "fst p \<noteq> Quarantine \<and> look t p \<noteq> disk_of a p"
    then show "crash_path a t p" using crash by blast
  next
    fix j assume "look t (sessionDir j) = None"
    then show "look t (manifest_tmp j) = None" "look t (sessionData j) = None"
      using l unfolding littered_def by (simp_all add: q path_defs manifest_tmp_def)
  qed
qed

definition orphaned :: "string \<Rightarrow> store \<Rightarrow> bool" where
  "orphaned i s \<longleftrightarrow> look s (objectPath i) \<noteq> None \<and> look s (manifestPath i) = None"

text \<open>The store a new process opens on the disk of the dead one.\<close>

definition reopened :: "options \<Rightarrow> store \<Rightarrow> store" where
  "reopened opts s = new_state opts (entries s)"

lemma reopened_simps [simp]:
  "look (reopened opts s) = look s" "script (reopened opts s) = []" "sUploadTTL (reopened opts s) = oUploadTTL opts"
  "accounted a (reopened opts s)" "sOwnerQuotaBytes (reopened opts s) = oOwnerQuotaBytes opts"
  by (simp_all add: reopened_def look_new_state look_def fun_eq_iff)
     (simp_all add: new_state_def accounted_def)

lemma littered_reopened: "littered a s \<Longrightarrow> littered a (reopened opts s)"
  by (simp add: littered_def quarantine_ok_def quarantine_tree_def crash_path_def)

lemma restart_repairs:
  assumes "littered a s" "good a" "totals_fit a" "valid_options opts"
    and "\<And>g n. left_name g n \<Longrightarrow> look s (Quarantine, [g, stamped later n]) = None"
  shows "\<exists>r u. recover None later (reopened opts s) = (Inr r, u) \<and> ready None rnd u = (Inr (), u) \<and>
    represents (drop_uploads (swept (oUploadTTL opts) later a) a) u"
proof -
  note t = recover_repaired [OF _ littered_reopened [OF assms(1), of opts] assms(2,3), of later rnd]
  show ?thesis using t assms(4,5) by (force simp: valid_options_def)
qed

lemma new_file_fits:
  fixes now :: time
  assumes "represents a s" "validFileID i" "digest_nonempty E" "aFiles a i = None" "aTrash a i = None"
    and "owned a (ownerFromMetadata (iMetadata input)) + int (length (bData bd)) \<le>
      (if sOwnerQuotaBytes s = 0 then max_int64 else sOwnerQuotaBytes s)"
  defines "b \<equiv> a\<lparr>aFiles := (aFiles a)(i \<mapsto> (stored_file E i (int (length (bData bd))) now input bd, bData bd))\<rparr>"
  shows "good b \<and> totals_fit b"
proof -
  have d: "good a" "totals_fit a" using assms(1) by (auto simp: represents_def)
  have "good b" using d(1) assms(5) stored_file_ok [OF assms(2,3)] by (auto simp: good_def b_def)
  moreover have "owned b w \<le> max_int64" for w
    using owned_put_file [OF d(1) assms(4), of "(stored_file E i (int (length (bData bd))) now input bd, bData bd)" w]
      d(2) assms(1,6) by (auto simp: totals_fit_def represents_def b_def split: if_splits)
  ultimately show ?thesis by (simp add: totals_fit_def)
qed

lemma dead_put_littered:
  assumes "on_disk a s" "quarantine_tree s" "validFileID i" "aFiles a i = None"
    and dead: "look t = look s \<or> (\<exists>d. look t = (look s)(tmpPath i \<mapsto> NFile d)) \<or>
      look t = (look s)(objectPath i \<mapsto> NFile (Blob b)) \<or>
      (\<exists>d. look t = (look s)(objectPath i \<mapsto> NFile (Blob b), tmp_of (manifestPath i) \<mapsto> NFile d)) \<or>
      look t = (look s)(objectPath i \<mapsto> NFile (Blob b), manifestPath i \<mapsto> NFile (Doc (FileDoc f)))"
    and "\<not> orphaned i t"
  shows "littered a t \<or> littered (a\<lparr>aFiles := (aFiles a)(i \<mapsto> (f, b))\<rparr>) t"
proof -
  have none: "look s (manifestPath i) = None" using on_disk_paths(2) [OF assms(1), of i] assms(4) by simp
  have not_orphan: "look t \<noteq> (look s)(objectPath i \<mapsto> NFile (Blob b))"
    "look t \<noteq> (look s)(objectPath i \<mapsto> NFile (Blob b), tmp_of (manifestPath i) \<mapsto> NFile d)" for d
    using assms(6) none by (auto simp: orphaned_def put_path_facts)
  with dead consider "look t = look s" | d where "look t = (look s)(tmpPath i \<mapsto> NFile d)"
    | "look t = (look s)(objectPath i \<mapsto> NFile (Blob b), manifestPath i \<mapsto> NFile (Doc (FileDoc f)))" by blast
  then show ?thesis
  proof cases
    case 1
    then show ?thesis using littered_on_disk [OF assms(1,2)]
      by (simp add: littered_def quarantine_ok_def quarantine_tree_def crash_path_def)
  next
    case 2
    then show ?thesis using littered_partial [OF assms(1-3)] by blast
  next
    case 3
    then have "on_disk (a\<lparr>aFiles := (aFiles a)(i \<mapsto> (f, b))\<rparr>) t"
      using on_disk_put_file [OF assms(1), of t i "(f, b)"] by simp
    moreover have "quarantine_tree t"
      using assms(2) 3 by (auto simp: quarantine_tree_def path_defs parent_def)
    ultimately show ?thesis using littered_on_disk by blast
  qed
qed

text \<open>C4. A process killed in the middle of a Put, at any of its system calls and after any number of
  bytes, restarts into a store that Recover makes ready with the old contents, or with the old
  contents and the complete new file, unless it died between the rename of the object and the
  rename of the manifest: then the object has no manifest, Recover leaves it where it is, and the
  service never becomes ready again.\<close>

theorem killed_put:
  assumes "represents a s" "sLoaded s" "sPauseAtPercent s = 0" "script s = killed m w" "quarantine_tree s"
    and "validFileID i" "digest_nonempty E" "aFiles a i = None" "aTrash a i = None" "bErr bd = None"
    and "owned a (ownerFromMetadata (iMetadata input)) + int (length (bData bd)) \<le>
      (if sOwnerQuotaBytes s = 0 then max_int64 else sOwnerQuotaBytes s)"
    and "valid_options opts" "\<And>g n. left_name g n \<Longrightarrow> look s (Quarantine, [g, stamped later n]) = None"
  shows "let f = stored_file E i (int (length (bData bd))) now input bd;
             t = reopened opts (snd (put_locked E i now input bd s)) in
     if orphaned i t then \<forall>cx later rnd. fst (ready None rnd (snd (recover cx later t)\<lparr>script := []\<rparr>)) \<noteq> Inr ()
     else \<exists>b\<in>{a, a\<lparr>aFiles := (aFiles a)(i \<mapsto> (f, bData bd))\<rparr>}. \<exists>r u.
       recover None later t = (Inr r, u) \<and> ready None rnd u = (Inr (), u) \<and>
       represents (drop_uploads (swept (oUploadTTL opts) later b) b) u"
proof -
  let ?f = "stored_file E i (int (length (bData bd))) now input bd"
  let ?t = "snd (put_locked E i now input bd s)" and ?a = "a\<lparr>aFiles := (aFiles a)(i \<mapsto> (?f, bData bd))\<rparr>"
  have quota: "\<not> over_quota s (ownerFromMetadata (iMetadata input)) (int (length (bData bd)))"
    using over_quota_owned [OF assms(1,2)] assms(11) by (auto split: if_splits)
  have d: "on_disk a s" "sLoadErr s = None" using assms(1,2) by (auto simp: represents_def accounted_def)
  note dead = put_killed [OF assms(4) d(1) assms(2) d(2) assms(3,8-10) quota, of E now, unfolded Let_def]
  note ok = new_file_fits [OF assms(1,6-9,11)]
  show ?thesis
  proof (cases "orphaned i ?t")
    case True
    then have "look (reopened opts ?t) (objectPath i) \<noteq> None" "look (reopened opts ?t) (manifestPath i) = None"
      by (simp_all add: orphaned_def)
    from orphan_stays [OF this] show ?thesis using True by (simp add: orphaned_def Let_def)
  next
    case False
    have "\<exists>b\<in>{a, ?a}. littered b ?t \<and> good b \<and> totals_fit b"
      using dead_put_littered [OF d(1) assms(5,6,8) dead False] ok assms(1) by (auto simp: represents_def)
    moreover have "look ?t (Quarantine, [g, stamped later n]) = None" if "left_name g n" for g n
      using dead False assms(13) [OF that] by (auto simp: path_defs)
    ultimately show ?thesis
      using False restart_repairs [OF _ _ _ assms(12), of _ ?t later rnd] by (auto simp: orphaned_def Let_def)
  qed
qed

text \<open>The process dies at the first call after the rename of the object.\<close>

definition doomed_store :: store where
  "doomed_store = (loaded example_store)\<lparr>script := killed 8 0\<rparr>"

theorem killed_put_witness:
  "let t = reopened example_options (snd (put_locked example_env example_id 7 example_input
       \<lparr>bData = ''hello'', bErr = None\<rparr> doomed_store)) in
   orphaned example_id t \<and> (\<forall>cx later rnd. fst (ready None rnd (snd (recover cx later t)\<lparr>script := []\<rparr>)) \<noteq> Inr ())"
proof -
  note ld = ensureUsageLocked_calm [OF example_calm example_represents]
  let ?t = "reopened example_options (snd (put_locked example_env example_id 7 example_input
       \<lparr>bData = ''hello'', bErr = None\<rparr> doomed_store))"
  have e: "sOwnerQuotaBytes example_store = 1000" "sPauseAtPercent example_store = 0"
    by (simp_all add: example_store_def new_state_def example_options_def)
  have s: "represents empty_astore doomed_store" "sLoaded doomed_store" "sOwnerQuotaBytes doomed_store = 1000"
    "script doomed_store = killed 8 0" "sPauseAtPercent doomed_store = 0" "look doomed_store = look example_store"
    using ld e by (auto simp: doomed_store_def represents_def on_disk_def quarantine_ok_def accounted_def)
  have q: "look doomed_store (Quarantine, ns) = (if ns = [] then Some NDir else None)" for ns
    by (simp add: s(6) example_store_def look_new_state fresh_entries_def all_areas_def)
  have o: "orphaned example_id ?t" by code_simp
  have "quarantine_tree doomed_store" by (simp add: quarantine_tree_def q parent_def)
  moreover have "owned empty_astore v + 5 \<le> 1000" "aFiles empty_astore j = None" "aTrash empty_astore j = None" for v j
    by (simp_all add: owned_empty)
  moreover have "valid_options example_options" by (simp add: valid_options_def example_options_def max_int64_def)
  ultimately show ?thesis
    using o killed_put [OF s(1,2,5,4) _ example_id_valid example_digest, of "\<lparr>bData = ''hello'', bErr = None\<rparr>" example_input
        example_options 100 7] s(3) q
    by simp
qed

end
