(* ===== verification/Process.thy ===== *)
theory Process
  imports Restart GatewayLaws
begin

text \<open>
  The gateway process, \<open>core/apigateway/main.go\<close>: the settings it reads from the environment, the
  store, service and replication manager it puts together, and how it ends. The data and the jobs
  directory are the disks \<open>d\<close> and the disk of \<open>m\<close>; the environment is a function from names to
  values, empty for a variable that is not set.
\<close>

section \<open>Reading the environment\<close>

type_synonym environment = "string \<Rightarrow> string"

definition envOrDefault :: "environment \<Rightarrow> string \<Rightarrow> string \<Rightarrow> string" where
  "envOrDefault getenv name d = (if getenv name \<noteq> '''' then getenv name else d)"

definition envInt :: "environment \<Rightarrow> string \<Rightarrow> int \<Rightarrow> int option" where
  "envInt getenv name d = (if getenv name = '''' then Some d else parse_int (getenv name))"

definition envInt64 :: "environment \<Rightarrow> string \<Rightarrow> int \<Rightarrow> int option" where
  "envInt64 getenv name d = (if getenv name = '''' then Some d else parse_int (getenv name))"

text \<open>\<open>duration\<close> is \<open>time.ParseDuration\<close>, with nanoseconds as the result.\<close>

definition envDuration :: "(string \<Rightarrow> int option) \<Rightarrow> environment \<Rightarrow> string \<Rightarrow> int \<Rightarrow> int option" where
  "envDuration duration getenv name d = (if getenv name = '''' then Some d else duration (getenv name))"

definition defaultMaxUploadBytes :: int where
  "defaultMaxUploadBytes = 2 ^ 30"

text \<open>\<open>filepath.Join\<close> of a directory and a name: the two with a slash between them, cleaned.\<close>

fun clean_parts :: "bool \<Rightarrow> string list \<Rightarrow> string list \<Rightarrow> string list" where
  "clean_parts anchored acc [] = rev acc"
| "clean_parts anchored acc (p # ps) =
     (if p = '''' \<or> p = ''.'' then clean_parts anchored acc ps
      else if p = ''..'' then
        (case acc of
           [] \<Rightarrow> clean_parts anchored (if anchored then [] else [''..'']) ps
         | q # qs \<Rightarrow> clean_parts anchored (if q = ''..'' then ''..'' # acc else qs) ps)
      else clean_parts anchored (p # acc) ps)"

fun with_slashes :: "string list \<Rightarrow> string" where
  "with_slashes [] = ''''"
| "with_slashes [p] = p"
| "with_slashes (p # ps) = p @ ''/'' @ with_slashes ps"

definition filepath_clean :: "string \<Rightarrow> string" where
  "filepath_clean p =
     (let anchored = (take 1 p = ''/'');
          q = (if anchored then ''/'' else '''') @ with_slashes (clean_parts anchored [] (split_on CHR ''/'' p))
      in if q = '''' then ''.'' else q)"

definition filepath_join :: "string \<Rightarrow> string \<Rightarrow> string" where
  "filepath_join a b =
     (if a = '''' \<and> b = '''' then '''' else filepath_clean (if a = '''' then b else if b = '''' then a else a @ ''/'' @ b))"

section \<open>Starting\<close>

text \<open>The error \<open>run\<close> returns: the setting it names, or the part that failed with its error.\<close>

datatype run_error =
    TokenRequired
  | BadSetting string
  | StoreFailed err
  | RecoveryFailed err
  | ReplicationFailed merr
  | ShutdownFailed
  | ServeFailed

record run_settings =
  rsToken :: string
  rsDataDir :: string
  rsMaxUploadBytes :: int
  rsPauseAtPercent :: int
  rsOwnerQuotaBytes :: int
  rsUploadTTL :: int
  rsShutdownTimeout :: int

definition read_settings :: "(string \<Rightarrow> int option) \<Rightarrow> environment \<Rightarrow> run_error + run_settings" where
  "read_settings duration getenv =
     (let token = getenv ''XION_SERVICE_TOKEN'' in
      if token = '''' then Inl TokenRequired
      else let dataDirectory = envOrDefault getenv ''XION_DATA_DIR'' ''./data'' in
      case envInt64 getenv ''XION_MAX_UPLOAD_BYTES'' defaultMaxUploadBytes of
        None \<Rightarrow> Inl (BadSetting ''XION_MAX_UPLOAD_BYTES'')
      | Some limit \<Rightarrow> if limit < 1 then Inl (BadSetting ''XION_MAX_UPLOAD_BYTES'') else
      case envInt getenv ''XION_STORAGE_PAUSE_AT_PERCENT'' 90 of
        None \<Rightarrow> Inl (BadSetting ''XION_STORAGE_PAUSE_AT_PERCENT'')
      | Some pause \<Rightarrow> if pause < 0 \<or> pause > 100 then Inl (BadSetting ''XION_STORAGE_PAUSE_AT_PERCENT'') else
      case envInt64 getenv ''XION_OWNER_QUOTA_BYTES'' 0 of
        None \<Rightarrow> Inl (BadSetting ''XION_OWNER_QUOTA_BYTES'')
      | Some quota \<Rightarrow> if quota < 0 then Inl (BadSetting ''XION_OWNER_QUOTA_BYTES'') else
      case envDuration duration getenv ''XION_UPLOAD_SESSION_TTL'' 0 of
        None \<Rightarrow> Inl (BadSetting ''XION_UPLOAD_SESSION_TTL'')
      | Some ttl \<Rightarrow> if ttl < 0 then Inl (BadSetting ''XION_UPLOAD_SESSION_TTL'') else
      case envDuration duration getenv ''XION_SHUTDOWN_TIMEOUT'' (30 * 1000000000) of
        None \<Rightarrow> Inl (BadSetting ''XION_SHUTDOWN_TIMEOUT'')
      | Some timeout \<Rightarrow> if timeout \<le> 0 then Inl (BadSetting ''XION_SHUTDOWN_TIMEOUT'') else
          Inr \<lparr>rsToken = token, rsDataDir = dataDirectory, rsMaxUploadBytes = limit, rsPauseAtPercent = pause,
               rsOwnerQuotaBytes = quota, rsUploadTTL = ttl, rsShutdownTimeout = timeout\<rparr>)"

definition store_options :: "run_settings \<Rightarrow> options" where
  "store_options st =
     \<lparr>oPauseAtPercent = rsPauseAtPercent st, oOwnerQuotaBytes = rsOwnerQuotaBytes st, oUploadTTL = rsUploadTTL st\<rparr>"

text \<open>The replication part; \<open>None\<close> is a deployment without a replica.\<close>

definition start_replication ::
  "net \<Rightarrow> environment \<Rightarrow> string \<Rightarrow> time \<Rightarrow> manager \<Rightarrow> (run_error + bool) \<times> manager" where
  "start_replication N getenv dataDirectory now m =
     (let replicaURL = trim_space (getenv ''XION_REPLICA_URL'') in
      if replicaURL = '''' then (Inr False, m)
      else case envInt getenv ''XION_REPLICATION_MAX_ATTEMPTS'' 10 of
        None \<Rightarrow> (Inl (BadSetting ''XION_REPLICATION_MAX_ATTEMPTS''), m)
      | Some maxAttempts \<Rightarrow>
          if maxAttempts < 1 then (Inl (BadSetting ''XION_REPLICATION_MAX_ATTEMPTS''), m)
          else let jobsDir = envOrDefault getenv ''XION_REPLICATION_DIR'' (filepath_join dataDirectory ''replication'') in
            (case newManager N \<lparr>cfRemoteURL = replicaURL, cfToken = getenv ''XION_REPLICA_TOKEN'', cfJobsDir = jobsDir,
                   cfMaxAttempts = maxAttempts, cfRetryInterval = 0, cfBackoffBase = 0, cfBackoffMax = 0\<rparr> now m of
               (Inl e, m) \<Rightarrow> (Inl (ReplicationFailed e), m)
             | (Inr _, m) \<Rightarrow> (Inr True, startWorker m)))"

text \<open>What is in place when the server begins to listen.\<close>

record launched =
  lcSettings :: run_settings
  lcStore :: store
  lcReplicates :: bool
  lcAddress :: string

text \<open>\<open>ops\<close> is the store behind the service, \<open>absErr\<close> the result of \<open>filepath.Abs\<close>.\<close>

definition launch ::
  "net \<Rightarrow> (string \<Rightarrow> int option) \<Rightarrow> environment \<Rightarrow> os_error option \<Rightarrow> ctx \<Rightarrow> store store_ops \<Rightarrow> time \<Rightarrow>
   (area, doc) disk \<Rightarrow> manager \<Rightarrow> (run_error + launched) \<times> (area, doc) disk \<times> manager" where
  "launch N duration getenv absErr cx ops now d m =
     (case read_settings duration getenv of
        Inl e \<Rightarrow> (Inl e, d, m)
      | Inr st \<Rightarrow>
     (case newDiskStoreWithOptions (rsDataDir st) absErr (store_options st) d of
        (Inl e, s) \<Rightarrow> (Inl (StoreFailed e), disk.truncate s, m)
      | (Inr _, s) \<Rightarrow>
     (case svcRecover ops cx s of
        (Inl x, s) \<Rightarrow> (Inl (RecoveryFailed (fst x)), disk.truncate s, m)
      | (Inr report, s) \<Rightarrow>
     (case start_replication N getenv (rsDataDir st) now m of
        (Inl e, m) \<Rightarrow> (Inl e, disk.truncate s, m)
      | (Inr replicates, m) \<Rightarrow>
          (Inr \<lparr>lcSettings = st, lcStore = s, lcReplicates = replicates,
                lcAddress = envOrDefault getenv ''XION_LISTEN_ADDR'' ''127.0.0.1:8081''\<rparr>,
           disk.truncate s, m)))))"

definition gateway_of :: "launched \<Rightarrow> store store_ops \<Rightarrow> manager replicator \<Rightarrow> (store, manager) gateway" where
  "gateway_of l ops rep =
     \<lparr>gwService = service_of ops, gwToken = rsToken (lcSettings l), gwMaxUploadBytes = rsMaxUploadBytes (lcSettings l),
      gwReplicator = (if lcReplicates l then Some rep else None)\<rparr>"

section \<open>Serving and stopping\<close>

text \<open>How the server ends: a signal with the result of \<open>Shutdown\<close> within the timeout, or the error
  of \<open>ListenAndServe\<close>, which is \<open>http.ErrServerClosed\<close> or not.\<close>

datatype serving_end = Interrupted bool | Listened bool

fun run_end :: "serving_end \<Rightarrow> run_error + unit" where
  "run_end (Interrupted drained) = (if drained then Inr () else Inl ShutdownFailed)"
| "run_end (Listened b) = (if b then Inr () else Inl ServeFailed)"

text \<open>\<open>serve\<close> is the time of service: what the requests make of the store and the manager, and the
  end.\<close>

definition run_gateway ::
  "net \<Rightarrow> (string \<Rightarrow> int option) \<Rightarrow> environment \<Rightarrow> os_error option \<Rightarrow> ctx \<Rightarrow> store store_ops \<Rightarrow> time \<Rightarrow>
   (launched \<Rightarrow> manager \<Rightarrow> serving_end \<times> store \<times> manager) \<Rightarrow> (area, doc) disk \<Rightarrow> manager \<Rightarrow>
   (run_error + unit) \<times> (area, doc) disk \<times> manager" where
  "run_gateway N duration getenv absErr cx ops now serve d m =
     (case launch N duration getenv absErr cx ops now d m of
        (Inl e, d, m) \<Rightarrow> (Inl e, d, m)
      | (Inr l, d, m) \<Rightarrow>
          (case serve l m of
             (ending, s, m) \<Rightarrow>
               (run_end ending, disk.truncate s, if lcReplicates l then closeManager m else m)))"

text \<open>The build metadata injected at release time.\<close>

definition versionText :: "string \<Rightarrow> string \<Rightarrow> string" where
  "versionText version commit = version @ '' ('' @ commit @ '')''"

section \<open>What the settings promise\<close>

definition settings_ok :: "run_settings \<Rightarrow> bool" where
  "settings_ok st \<longleftrightarrow>
     rsToken st \<noteq> '''' \<and> rsDataDir st \<noteq> '''' \<and> 1 \<le> rsMaxUploadBytes st \<and> rsMaxUploadBytes st \<le> max_int64 \<and>
     0 \<le> rsPauseAtPercent st \<and> rsPauseAtPercent st \<le> 100 \<and>
     0 \<le> rsOwnerQuotaBytes st \<and> rsOwnerQuotaBytes st \<le> max_int64 \<and> 0 \<le> rsUploadTTL st \<and> 0 < rsShutdownTimeout st"

lemma envInt_range: "envInt getenv name d = Some v \<Longrightarrow> in_int64 d \<Longrightarrow> in_int64 v"
  "envInt64 getenv name d = Some v \<Longrightarrow> in_int64 d \<Longrightarrow> in_int64 v"
  by (auto simp: envInt_def envInt64_def dest: parse_int_range split: if_splits)

lemma read_settings_ok:
  assumes "read_settings duration getenv = Inr st"
  shows "settings_ok st" "rsToken st = getenv ''XION_SERVICE_TOKEN''"
    and "envInt64 getenv ''XION_MAX_UPLOAD_BYTES'' defaultMaxUploadBytes = Some (rsMaxUploadBytes st)"
proof -
  obtain limit where l: "envInt64 getenv ''XION_MAX_UPLOAD_BYTES'' defaultMaxUploadBytes = Some limit" "1 \<le> limit"
    using assms by (auto simp: read_settings_def Let_def split: if_splits option.splits)
  obtain pause where p: "envInt getenv ''XION_STORAGE_PAUSE_AT_PERCENT'' 90 = Some pause" "0 \<le> pause" "pause \<le> 100"
    using assms l by (auto simp: read_settings_def Let_def split: if_splits option.splits)
  obtain quota where q: "envInt64 getenv ''XION_OWNER_QUOTA_BYTES'' 0 = Some quota" "0 \<le> quota"
    using assms l p by (auto simp: read_settings_def Let_def split: if_splits option.splits)
  have st: "settings_ok st \<and> rsToken st = getenv ''XION_SERVICE_TOKEN'' \<and> rsMaxUploadBytes st = limit"
    if "in_int64 limit" "in_int64 quota"
    using assms l p q that
    by (auto simp: read_settings_def Let_def settings_ok_def envOrDefault_def in_int64_def split: if_splits option.splits)
  have "in_int64 limit" "in_int64 quota"
    using envInt_range(2) [OF l(1)] envInt_range(2) [OF q(1)]
    by (simp_all add: in_int64_def defaultMaxUploadBytes_def min_int64_def max_int64_def)
  with st l show "settings_ok st" "rsToken st = getenv ''XION_SERVICE_TOKEN''"
    "envInt64 getenv ''XION_MAX_UPLOAD_BYTES'' defaultMaxUploadBytes = Some (rsMaxUploadBytes st)" by auto
qed

lemma store_options_valid: "settings_ok st \<Longrightarrow> valid_options (store_options st)"
  by (simp add: settings_ok_def valid_options_def store_options_def)

lemma launch_cases:
  assumes "launch N duration getenv absErr cx ops now d m = (Inr l, d', m')"
  obtains st s r t where "read_settings duration getenv = Inr st" "lcSettings l = st"
    "newDiskStoreWithOptions (rsDataDir st) absErr (store_options st) d = (Inr (), s)"
    "svcRecover ops cx s = (Inr r, t)" "lcStore l = t" "d' = disk.truncate t"
    "start_replication N getenv (rsDataDir st) now m = (Inr (lcReplicates l), m')"
  using assms by (auto simp: launch_def split: sum.splits prod.splits)

text \<open>Recovery leaves the configuration of the store alone, whatever fails.\<close>

lemma config_copyTree:
  assumes "same_config s t"
  shows "same_config s (snd (copyTree n source target t))"
proof -
  have copy: "same_config s (snd (copyFile p q u))" if "same_config s u" for p q u
    unfolding copyFile_def using that by (intro config_intros)
  show ?thesis using assms
  proof (induction n arbitrary: source target t)
    case (Suc n)
    have sub: "same_config s (snd (copyEntries n es p q u))" if "same_config s u" for es p q u
      using that
    proof (induction es arbitrary: u)
      case (Cons e es)
      then show ?case by (cases e) (auto intro!: config_intros Suc.IH copy)
    qed simp
    show ?case using Suc.prems by (auto intro!: config_intros sub)
  qed simp
qed

lemma config_quarantinePath:
  assumes "same_config s t"
  shows "same_config s (snd (quarantinePath now path grp name t))"
proof -
  have split: "same_config s (snd (case m of (x, u) \<Rightarrow> f x u))"
    if "same_config s (snd m)" "\<And>x u. same_config s u \<Longrightarrow> same_config s (snd (f x u))"
    for m :: "'b \<times> store" and f :: "'b \<Rightarrow> store \<Rightarrow> 'c \<times> store"
    using that by (cases m) simp
  show ?thesis
    unfolding quarantinePath_def Let_def snd_apfst if_distrib [of snd]
    using assms by (intro config_intros split config_copyTree; simp add: config_intros config_copyTree)
qed

lemma config_recover:
  assumes "same_config s t"
  shows "same_config s (snd (recover cx now t))"
proof -
  have p: "same_config s (snd (recover_partials now es r t))" if "same_config s t" for es r t
    using that
  proof (induction es arbitrary: r t)
    case (Cons e es)
    then show ?case by (cases e) (auto intro!: config_intros config_quarantinePath)
  qed simp
  have m: "same_config s (snd (recover_metadata now es r t))" if "same_config s t" for es r t
    using that
  proof (induction es arbitrary: r t)
    case (Cons e es)
    then show ?case by (cases e) (auto intro!: config_intros config_quarantinePath)
  qed simp
  have c: "same_config s (snd (recover_children now i es b r t))" if "same_config s t" for i es b r t
    using that
  proof (induction es arbitrary: b r t)
    case (Cons e es)
    then show ?case by (cases e) (auto intro!: config_intros config_quarantinePath)
  qed simp
  have u: "same_config s (snd (recover_uploads now es r t))" if "same_config s t" for es r t
    using that
  proof (induction es arbitrary: r t)
    case (Cons e es)
    have split: "same_config s (snd (case m of (Inl x, u) \<Rightarrow> (Inl (g x), u) | (Inr (b, r), u) \<Rightarrow> f b r u))"
      if "same_config s (snd m)" "\<And>b r u. same_config s u \<Longrightarrow> same_config s (snd (f b r u))"
      for m :: "('b + bool \<times> report) \<times> store" and f :: "bool \<Rightarrow> report \<Rightarrow> store \<Rightarrow> ('c + 'd) \<times> store" and g
      using that by (auto split: prod.split sum.split)
    show ?case using Cons
      by (cases e) (auto intro!: config_intros config_quarantinePath split c)
  qed simp
  show ?thesis
    unfolding recover_def Let_def using assms
    by (intro config_intros p m u; simp add: config_intros)
qed

lemma new_store_config:
  assumes "newDiskStoreWithOptions p absErr opts d = (Inr (), s)"
  shows "sPauseAtPercent s = oPauseAtPercent opts \<and> sOwnerQuotaBytes s = oOwnerQuotaBytes opts \<and>
    sUploadTTL s = oUploadTTL opts"
proof -
  let ?s = "\<lparr>entries = entries d, script = script d, sUsage = newUsageIndex, sUsageValid = False,
      sLoaded = False, sLoadErr = None, sPauseAtPercent = oPauseAtPercent opts,
      sOwnerQuotaBytes = oOwnerQuotaBytes opts, sUploadTTL = oUploadTTL opts\<rparr> :: store"
  have areas: "same_config ?s (snd (make_areas ars t))" if "same_config ?s t" for ars t
    using that
  proof (induction ars arbitrary: t)
    case (Cons ar ars)
    then show ?case by (auto intro!: config_intros)
  qed simp
  have "same_config ?s (snd (newDiskStoreWithOptions p absErr opts d))"
    unfolding newDiskStoreWithOptions_def Let_def os_mkdir_root_def
    by (auto intro!: config_intros areas split: option.split)
  then show ?thesis using assms by (simp add: same_config_def)
qed

section \<open>Properties\<close>



text \<open>An environment with a token, an upload limit and nothing else.\<close>

definition example_environment :: environment where
  "example_environment name =
     (if name = ''XION_SERVICE_TOKEN'' then ''secret'' else if name = ''XION_MAX_UPLOAD_BYTES'' then ''4096'' else '''')"

lemma example_settings:
  "read_settings (\<lambda>t. None) example_environment =
     Inr \<lparr>rsToken = ''secret'', rsDataDir = ''./data'', rsMaxUploadBytes = 4096, rsPauseAtPercent = 90,
          rsOwnerQuotaBytes = 0, rsUploadTTL = 0, rsShutdownTimeout = 30000000000\<rparr>"
  by code_simp



end
