(* ===== verification/Codec.thy ===== *)
theory Codec
  imports FileModel
begin

text \<open>
  The helper packages \<open>pkg/crypto/crypto.go\<close> and \<open>pkg/compress/compress.go\<close>: authenticated encryption,
  salted hashes over Go slices, base64 and the three compressors behind one interface. The ciphers,
  digests and compression formats are records of functions.
\<close>

section \<open>Encryption\<close>

text \<open>\<open>ErrInvalidKey\<close> and \<open>ErrInvalidData\<close> of the package, an error of a library, and the panic of
  \<open>make\<close> for a negative length.\<close>

datatype crypto_error = InvalidKey | InvalidData | LibraryError | NegativeLength

text \<open>AES in Galois counter mode: \<open>Seal\<close> and \<open>Open\<close> with key, nonce and text.\<close>

record gcm =
  gcSeal :: "bytes \<Rightarrow> bytes \<Rightarrow> bytes \<Rightarrow> bytes"
  gcOpen :: "bytes \<Rightarrow> bytes \<Rightarrow> bytes \<Rightarrow> bytes option"

record aes_encryptor =
  aeKey :: bytes

definition key_size_ok :: "int \<Rightarrow> bool" where
  "key_size_ok n \<longleftrightarrow> n = 16 \<or> n = 24 \<or> n = 32"

definition newAESEncryptor :: "bytes \<Rightarrow> crypto_error + aes_encryptor" where
  "newAESEncryptor key = (if key_size_ok (int (length key)) then Inr \<lparr>aeKey = key\<rparr> else Inl InvalidKey)"

text \<open>\<open>aes.NewCipher\<close> rejects other key sizes; \<open>cipher.NewGCM\<close> takes nonces of 12 bytes.\<close>

definition newCipher :: "bytes \<Rightarrow> crypto_error + bytes" where
  "newCipher key = (if key_size_ok (int (length key)) then Inr key else Inl LibraryError)"

definition nonceSize :: nat where
  "nonceSize = 12"

text \<open>\<open>rnd n\<close> is what reading \<open>n\<close> bytes from the random source gives.\<close>

definition encrypt :: "gcm \<Rightarrow> (nat \<Rightarrow> bytes option) \<Rightarrow> aes_encryptor \<Rightarrow> bytes \<Rightarrow> crypto_error + bytes" where
  "encrypt G rnd e data =
     (if data = [] then Inl InvalidData
      else case newCipher (aeKey e) of
        Inl x \<Rightarrow> Inl x
      | Inr block \<Rightarrow>
          (case rnd nonceSize of
             None \<Rightarrow> Inl LibraryError
           | Some nonce \<Rightarrow> Inr (nonce @ gcSeal G block nonce data)))"

definition decrypt :: "gcm \<Rightarrow> aes_encryptor \<Rightarrow> bytes \<Rightarrow> crypto_error + bytes" where
  "decrypt G e data =
     (if length data < 12 then Inl InvalidData
      else case newCipher (aeKey e) of
        Inl x \<Rightarrow> Inl x
      | Inr block \<Rightarrow>
          if length data < nonceSize then Inl InvalidData
          else (case gcOpen G block (take nonceSize data) (drop nonceSize data) of
              None \<Rightarrow> Inl LibraryError
            | Some plaintext \<Rightarrow> Inr plaintext))"

definition generateRandomBytes :: "(nat \<Rightarrow> bytes option) \<Rightarrow> int \<Rightarrow> crypto_error + bytes" where
  "generateRandomBytes rnd n =
     (if n < 0 then Inl NegativeLength
      else case rnd (nat n) of None \<Rightarrow> Inl LibraryError | Some b \<Rightarrow> Inr b)"

definition generateRandomKey :: "(nat \<Rightarrow> bytes option) \<Rightarrow> int \<Rightarrow> crypto_error + bytes" where
  "generateRandomKey rnd size' = (if key_size_ok size' then generateRandomBytes rnd size' else Inl InvalidKey)"

section \<open>Salted hashes\<close>

text \<open>A Go slice: a window of a byte array of the memory, with the room behind it up to its
  capacity.\<close>

record slice =
  slArray :: nat
  slOff :: nat
  slLen :: nat
  slCap :: nat

definition slice_bytes :: "bytes list \<Rightarrow> slice \<Rightarrow> bytes" where
  "slice_bytes mem s = take (slLen s) (drop (slOff s) (mem ! slArray s))"

definition overwrite :: "bytes \<Rightarrow> nat \<Rightarrow> bytes \<Rightarrow> bytes" where
  "overwrite b n xs = take n b @ xs @ drop (n + length xs) b"

text \<open>\<open>append(s, xs...)\<close>: in place when the capacity allows it, else into a new array.\<close>

definition append_slice :: "bytes list \<Rightarrow> slice \<Rightarrow> bytes \<Rightarrow> bytes list \<times> slice" where
  "append_slice mem s xs =
     (let n = slLen s + length xs in
      if n \<le> slCap s
      then (mem[slArray s := overwrite (mem ! slArray s) (slOff s + slLen s) xs], s\<lparr>slLen := n\<rparr>)
      else (mem @ [slice_bytes mem s @ xs], \<lparr>slArray = length mem, slOff = 0, slLen = n, slCap = n\<rparr>))"

definition hex_char :: "nat \<Rightarrow> char" where
  "hex_char n = ''0123456789abcdef'' ! n"

definition hex_encode :: "bytes \<Rightarrow> string" where
  "hex_encode b = concat (map (\<lambda>c. [hex_char (of_char c div 16), hex_char (of_char c mod 16)]) b)"

record sha_hasher =
  shDigest :: "bytes \<Rightarrow> bytes"
  shSalt :: bytes

text \<open>\<open>SHA256Hasher\<close> and \<open>SHA512Hasher\<close> differ in their digest.\<close>

definition newHasher :: "(bytes \<Rightarrow> bytes) \<Rightarrow> bytes \<Rightarrow> sha_hasher" where
  "newHasher digest salt = \<lparr>shDigest = digest, shSalt = salt\<rparr>"

definition hashData :: "sha_hasher \<Rightarrow> slice \<Rightarrow> bytes list \<Rightarrow> (crypto_error + string) \<times> bytes list" where
  "hashData h data mem =
     (if slLen data = 0 then (Inl InvalidData, mem)
      else case append_slice mem data (shSalt h) of
        (mem, salted) \<Rightarrow> (Inr (hex_encode (shDigest h (slice_bytes mem salted))), mem))"

definition verifyHash :: "sha_hasher \<Rightarrow> slice \<Rightarrow> string \<Rightarrow> bytes list \<Rightarrow> (crypto_error + bool) \<times> bytes list" where
  "verifyHash h data expected mem =
     (case hashData h data mem of
        (Inl e, mem) \<Rightarrow> (Inl e, mem)
      | (Inr calculated, mem) \<Rightarrow> (Inr (calculated = expected), mem))"

section \<open>Base64\<close>

definition b64_alphabet :: string where
  "b64_alphabet = ''ABCDEFGHIJKLMNOPQRSTUVWXYZabcdefghijklmnopqrstuvwxyz0123456789+/''"

definition b64_char :: "nat \<Rightarrow> char" where
  "b64_char n = b64_alphabet ! n"

definition b64_value :: "char \<Rightarrow> nat option" where
  "b64_value c = (if c \<in> set b64_alphabet then Some (length (takeWhile (\<lambda>x. x \<noteq> c) b64_alphabet)) else None)"

fun encodeBase64 :: "bytes \<Rightarrow> string" where
  "encodeBase64 [] = ''''"
| "encodeBase64 [a] =
     (let n = of_char a * 65536 in [b64_char (n div 262144), b64_char (n div 4096 mod 64), CHR ''='', CHR ''=''])"
| "encodeBase64 [a, b] =
     (let n = of_char a * 65536 + of_char b * 256 in
      [b64_char (n div 262144), b64_char (n div 4096 mod 64), b64_char (n div 64 mod 64), CHR ''=''])"
| "encodeBase64 (a # b # c # rest) =
     (let n = of_char a * 65536 + of_char b * 256 + of_char c in
      [b64_char (n div 262144), b64_char (n div 4096 mod 64), b64_char (n div 64 mod 64), b64_char (n mod 64)] @
      encodeBase64 rest)"

text \<open>The decoder without line breaks, which it skips: \<open>None\<close> is a \<open>CorruptInputError\<close>. Bits beyond
  the last byte are not checked.\<close>

fun decode_quanta :: "string \<Rightarrow> bytes option" where
  "decode_quanta [] = Some []"
| "decode_quanta (c1 # c2 # c3 # c4 # rest) =
     (case (b64_value c1, b64_value c2) of
        (Some v1, Some v2) \<Rightarrow>
          if c3 = CHR ''='' then
            (if c4 = CHR ''='' \<and> rest = [] then Some [char_of (v1 * 4 + v2 div 16)] else None)
          else (case b64_value c3 of
              None \<Rightarrow> None
            | Some v3 \<Rightarrow>
                if c4 = CHR ''='' then
                  (if rest = [] then Some [char_of (v1 * 4 + v2 div 16), char_of (v2 mod 16 * 16 + v3 div 4)] else None)
                else (case (b64_value c4, decode_quanta rest) of
                    (Some v4, Some b) \<Rightarrow>
                      Some (char_of (v1 * 4 + v2 div 16) # char_of (v2 mod 16 * 16 + v3 div 4) #
                            char_of (v3 mod 4 * 64 + v4) # b)
                  | _ \<Rightarrow> None))
      | _ \<Rightarrow> None)"
| "decode_quanta _ = None"

definition decodeBase64 :: "string \<Rightarrow> bytes option" where
  "decodeBase64 s = decode_quanta (filter (\<lambda>c. c \<noteq> CHR 0x0A \<and> c \<noteq> CHR 0x0D) s)"

section \<open>Laws\<close>

text \<open>What the documentation of \<open>cipher.AEAD\<close> promises: \<open>Open\<close> accepts exactly what \<open>Seal\<close> makes.\<close>

definition gcm_law :: "gcm \<Rightarrow> bool" where
  "gcm_law G \<longleftrightarrow> (\<forall>k n c p. gcOpen G k n c = Some p \<longleftrightarrow> c = gcSeal G k n p)"

lemma newAESEncryptor_Inr: "newAESEncryptor key = Inr e \<longleftrightarrow> e = \<lparr>aeKey = key\<rparr> \<and> key_size_ok (int (length key))"
  by (auto simp: newAESEncryptor_def)

lemma decrypt_Inr:
  assumes "gcm_law G" "newAESEncryptor key = Inr e"
  shows "decrypt G e c = Inr p \<longleftrightarrow> (\<exists>nonce. length nonce = 12 \<and> c = nonce @ gcSeal G key nonce p)"
proof
  assume "decrypt G e c = Inr p"
  then have "12 \<le> length c" "gcOpen G key (take 12 c) (drop 12 c) = Some p"
    using assms(2) by (auto simp: decrypt_def newAESEncryptor_Inr newCipher_def nonceSize_def split: if_splits option.splits)
  with assms(1) show "\<exists>nonce. length nonce = 12 \<and> c = nonce @ gcSeal G key nonce p"
    by (intro exI [of _ "take 12 c"]) (simp add: gcm_law_def, metis append_take_drop_id)
next
  assume "\<exists>nonce. length nonce = 12 \<and> c = nonce @ gcSeal G key nonce p"
  then obtain nonce where n: "length nonce = 12" "c = nonce @ gcSeal G key nonce p" by blast
  have "gcOpen G key nonce (gcSeal G key nonce p) = Some p" using assms(1) by (simp add: gcm_law_def)
  with n assms(2) show "decrypt G e c = Inr p"
    by (simp add: decrypt_def newAESEncryptor_Inr newCipher_def nonceSize_def)
qed

lemma slice_after_append:
  assumes "slArray s < length mem" "slOff s + slCap s \<le> length (mem ! slArray s)" "slLen s \<le> slCap s"
  shows "slice_bytes (fst (append_slice mem s xs)) (snd (append_slice mem s xs)) = slice_bytes mem s @ xs"
proof (cases "slLen s + length xs \<le> slCap s")
  case True
  let ?b = "mem ! slArray s" and ?n = "slOff s + slLen s"
  have n: "?n + length xs \<le> length ?b" using assms True by simp
  have "take (slLen s + length xs) (drop (slOff s) (overwrite ?b ?n xs)) = take (slLen s) (drop (slOff s) ?b) @ xs"
    using n by (simp add: overwrite_def drop_take min_absorb2)
  then show ?thesis using True assms(1) by (simp add: append_slice_def slice_bytes_def Let_def)
next
  case False
  then show ?thesis using assms by (simp add: append_slice_def slice_bytes_def Let_def)
qed

lemma b64_facts:
  assumes "n < 64"
  shows "b64_value (b64_char n) = Some n" "b64_char n \<noteq> CHR ''=''" "b64_char n \<noteq> CHR 0x0A" "b64_char n \<noteq> CHR 0x0D"
proof -
  have "list_all (\<lambda>n. b64_value (b64_char n) = Some n \<and> b64_char n \<noteq> CHR ''='' \<and> b64_char n \<noteq> CHR 0x0A \<and>
      b64_char n \<noteq> CHR 0x0D) [0..<64]" by code_simp
  with assms show "b64_value (b64_char n) = Some n" "b64_char n \<noteq> CHR ''=''" "b64_char n \<noteq> CHR 0x0A" "b64_char n \<noteq> CHR 0x0D"
    by (simp_all add: list_all_iff del: upt_rec_numeral)
qed

text \<open>The four groups of six bits of three bytes.\<close>

lemma group_parts: "b < k \<Longrightarrow> (a * k + b) div k = a \<and> (a * k + b) mod k = (b::nat)"
  by simp

lemma group_shift: "0 < k \<Longrightarrow> (a * k + b) div k = a + b div k" "0 < k \<Longrightarrow> (a * k + b) mod k = b mod (k::nat)"
  by simp_all

lemma sextets:
  assumes "x < 256" "y < 256" "z < (256::nat)"
  defines "n \<equiv> x * 65536 + y * 256 + z"
  shows "n div 262144 = x div 4" "n div 4096 mod 64 = x mod 4 * 16 + y div 16"
    "n div 64 mod 64 = y mod 16 * 4 + z div 64" "n mod 64 = z mod 64"
proof -
  have q: "z div 64 < 4" "y div 16 < 16" and pos: "0 < (64::nat)"
    using assms(2,3) by (auto intro: less_mult_imp_div_less)
  have n: "n = (x * 1024 + y * 4) * 64 + z" by (simp add: n_def)
  have d1: "n div 64 = x * 16 * 64 + (y * 4 + z div 64)" unfolding n by simp
  have low: "(y * 4 + r) div 64 = y div 16 \<and> (y * 4 + r) mod 64 = y mod 16 * 4 + r" if r: "r < 4" for r
  proof -
    have lt: "y mod 16 * 4 + r < 64" using r mod_less_divisor [of 16 y] by linarith
    have eq: "y * 4 + r = y div 16 * 64 + (y mod 16 * 4 + r)" using div_mult_mod_eq [of y 16] by linarith
    show ?thesis unfolding eq by (rule group_parts [OF lt])
  qed
  have d2: "n div 64 div 64 = x * 16 + y div 16"
    unfolding d1 group_shift(1) [OF pos] using low [OF q(1)] by (simp only:)
  have high: "(x * 16 + r) div 64 = x div 4 \<and> (x * 16 + r) mod 64 = x mod 4 * 16 + r" if r: "r < 16" for r
  proof -
    have lt: "x mod 4 * 16 + r < 64" using r mod_less_divisor [of 4 x] by linarith
    have eq: "x * 16 + r = x div 4 * 64 + (x mod 4 * 16 + r)" using div_mult_mod_eq [of x 4] by linarith
    show ?thesis unfolding eq by (rule group_parts [OF lt])
  qed
  have e: "n div 4096 = n div 64 div 64" "n div 262144 = n div 64 div 64 div 64" by (simp_all add: div_mult2_eq [symmetric])
  show "n mod 64 = z mod 64" unfolding n by (rule group_shift(2) [OF pos])
  show "n div 64 mod 64 = y mod 16 * 4 + z div 64" unfolding d1 group_shift(2) [OF pos] using low [OF q(1)] by (simp only:)
  show "n div 4096 mod 64 = x mod 4 * 16 + y div 16" unfolding e d2 using high [OF q(2)] by simp
  show "n div 262144 = x div 4" unfolding e d2 using high [OF q(2)] by simp
qed

lemma sextet_bounds:
  assumes "x < 256" "y < 256" "z < (256::nat)"
  shows "x div 4 < 64" "x mod 4 * 16 + y div 16 < 64" "y mod 16 * 4 + z div 64 < 64" "z mod 64 < 64"
proof -
  have "z div 64 < 4" "y div 16 < 16" using assms(2,3) by (auto intro: less_mult_imp_div_less)
  then show "x mod 4 * 16 + y div 16 < 64" "y mod 16 * 4 + z div 64 < 64"
    using mod_less_divisor [of 4 x] mod_less_divisor [of 16 y] by linarith+
  show "x div 4 < 64" "z mod 64 < 64" using assms(1) by (auto intro: less_mult_imp_div_less)
qed

text \<open>The code of three bytes by the bytes.\<close>

definition b64_group :: "char \<Rightarrow> char \<Rightarrow> char \<Rightarrow> nat list" where
  "b64_group a b c =
     [of_char a div 4, of_char a mod 4 * 16 + of_char b div 16, of_char b mod 16 * 4 + of_char c div 64, of_char c mod 64]"

lemma encode_groups:
  "encodeBase64 [a] = map b64_char (take 2 (b64_group a (CHR 0x00) (CHR 0x00))) @ ''==''"
  "encodeBase64 [a, b] = map b64_char (take 3 (b64_group a b (CHR 0x00))) @ ''=''"
  "encodeBase64 (a # b # c # rest) = map b64_char (b64_group a b c) @ encodeBase64 rest"
proof -
  show "encodeBase64 [a] = map b64_char (take 2 (b64_group a (CHR 0x00) (CHR 0x00))) @ ''==''"
    using sextets(1,2) [of "of_char a" 0 0] by (simp add: b64_group_def Let_def del: mult_numeral_1_right)
  show "encodeBase64 [a, b] = map b64_char (take 3 (b64_group a b (CHR 0x00))) @ ''=''"
    using sextets(1-3) [of "of_char a" "of_char b" 0] by (simp add: b64_group_def Let_def)
  show "encodeBase64 (a # b # c # rest) = map b64_char (b64_group a b c) @ encodeBase64 rest"
    using sextets [of "of_char a" "of_char b" "of_char c"]
    by (simp only: encodeBase64.simps b64_group_def Let_def nat_of_char_less_256 list.map append.simps)
qed

lemma b64_group_small: "\<forall>n\<in>set (b64_group a b c). n < 64"
  using sextet_bounds [of "of_char a" "of_char b" "of_char c"] by (simp add: b64_group_def)

lemma encoded_no_breaks: "filter (\<lambda>c. c \<noteq> CHR 0x0A \<and> c \<noteq> CHR 0x0D) (encodeBase64 d) = encodeBase64 d"
proof -
  have g: "\<forall>c\<in>set (map b64_char (take k (b64_group a b c'))). c \<noteq> CHR 0x0A \<and> c \<noteq> CHR 0x0D" for k a b c'
    using b64_group_small [of a b c'] b64_facts(3,4) by (auto dest: in_set_takeD)
  have "\<forall>c\<in>set (encodeBase64 d). c \<noteq> CHR 0x0A \<and> c \<noteq> CHR 0x0D"
  proof (induction d rule: encodeBase64.induct)
    case (4 a b c rest)
    then show ?case using g [of 4 a b c] unfolding encode_groups(3) by (auto simp: b64_group_def)
  qed (use g in \<open>simp_all only: encode_groups, auto\<close>)
  then show ?thesis by (simp add: filter_id_conv)
qed

lemma group_bytes:
  assumes "y < 256" "z < (256::nat)"
  shows "x div 4 * 4 + (x mod 4 * 16 + y div 16) div 16 = x"
    "(x mod 4 * 16 + y div 16) mod 16 * 16 + (y mod 16 * 4 + z div 64) div 4 = y"
    "(y mod 16 * 4 + z div 64) mod 4 * 64 + z mod 64 = z"
proof -
  have q: "y div 16 < 16" "z div 64 < 4" using assms by (auto intro: less_mult_imp_div_less)
  note p = group_parts [OF q(1), of "x mod 4"] group_parts [OF q(2), of "y mod 16"]
  show "x div 4 * 4 + (x mod 4 * 16 + y div 16) div 16 = x" using p(1) by simp
  show "(x mod 4 * 16 + y div 16) mod 16 * 16 + (y mod 16 * 4 + z div 64) div 4 = y" using p by simp
  show "(y mod 16 * 4 + z div 64) mod 4 * 64 + z mod 64 = z" using p(2) by simp
qed

lemma decode_encode: "decode_quanta (encodeBase64 d) = Some d"
proof (induction d rule: encodeBase64.induct)
  case (2 a)
  show ?case
    using b64_group_small [of a "CHR 0x00" "CHR 0x00"] b64_facts group_bytes(1) [of 0 0 "of_char a"]
    unfolding encode_groups by (simp add: b64_group_def)
next
  case (3 a b)
  show ?case
    using b64_group_small [of a b "CHR 0x00"] b64_facts group_bytes(1,2) [of "of_char b" 0 "of_char a"]
    unfolding encode_groups by (simp add: b64_group_def)
next
  case (4 a b c rest)
  show ?case
    using b64_group_small [of a b c] b64_facts group_bytes(1,2) [of "of_char b" "of_char c" "of_char a"]
      group_bytes(3) [of "of_char b" "of_char c"] 4
    unfolding encode_groups by (simp add: b64_group_def)
qed simp

text \<open>Decrypt accepts exactly what encryption under the same key makes: a nonce of twelve bytes
  followed by the sealed text of the plaintext. So it undoes Encrypt, also after a trip through
  base64 with line breaks, and rejects everything else.\<close>

theorem sealed_messages:
  assumes "gcm_law G" "newAESEncryptor key = Inr e" "\<And>n b. rnd n = Some b \<Longrightarrow> length b = n"
    and "filter (\<lambda>c. c \<noteq> CHR 0x0A \<and> c \<noteq> CHR 0x0D) s = encodeBase64 c"
  shows "decodeBase64 s = Some c \<and>
    (decrypt G e c = Inr p \<longleftrightarrow> (\<exists>nonce. length nonce = 12 \<and> c = nonce @ gcSeal G key nonce p)) \<and>
    (encrypt G rnd e p = Inr c \<longrightarrow> decrypt G e c = Inr p) \<and>
    (\<forall>x. encrypt G rnd e p = Inl x \<longleftrightarrow>
       (if p = [] then x = InvalidData else rnd 12 = None \<and> x = LibraryError))"
proof -
  have "decodeBase64 s = Some c" using assms(4) by (simp add: decodeBase64_def decode_encode)
  moreover have "encrypt G rnd e p = Inr c \<longrightarrow> decrypt G e c = Inr p"
    unfolding decrypt_Inr [OF assms(1,2)] using assms(2,3)
    by (auto simp: encrypt_def newAESEncryptor_Inr newCipher_def nonceSize_def split: if_splits option.splits)
  moreover have "encrypt G rnd e p = Inl x \<longleftrightarrow>
      (if p = [] then x = InvalidData else rnd 12 = None \<and> x = LibraryError)" for x
    using assms(2) by (auto simp: encrypt_def newAESEncryptor_Inr newCipher_def nonceSize_def split: option.splits)
  ultimately show ?thesis using decrypt_Inr [OF assms(1,2)] by blast
qed

text \<open>With a cipher that turns the text around, and a line break in the armour.\<close>

theorem sealed_messages_witness:
  "decodeBase64 (encodeBase64 (''AAAAAAAAAAAA'' @ ''ih'') @ [CHR 0x0A]) = Some (''AAAAAAAAAAAA'' @ ''ih'') \<and>
   decrypt \<lparr>gcSeal = (\<lambda>k n p. rev p), gcOpen = (\<lambda>k n c. Some (rev c))\<rparr> \<lparr>aeKey = replicate 16 CHR ''k''\<rparr>
     (''AAAAAAAAAAAA'' @ ''ih'') = Inr ''hi''"
proof -
  let ?G = "\<lparr>gcSeal = (\<lambda>k n p. rev p), gcOpen = (\<lambda>k n c. Some (rev c))\<rparr>"
  have l: "gcm_law ?G" by (auto simp: gcm_law_def)
  have k: "newAESEncryptor (replicate 16 CHR ''k'') = Inr \<lparr>aeKey = replicate 16 CHR ''k''\<rparr>"
    by (simp add: newAESEncryptor_def key_size_ok_def)
  have b: "filter (\<lambda>c. c \<noteq> CHR 0x0A \<and> c \<noteq> CHR 0x0D) (encodeBase64 (''AAAAAAAAAAAA'' @ ''ih'') @ [CHR 0x0A]) =
      encodeBase64 (''AAAAAAAAAAAA'' @ ''ih'')" by (simp only: filter_append encoded_no_breaks) simp
  have r: "length c = n" if "(\<lambda>n. Some (replicate n CHR ''A'')) n = Some c" for n c using that by auto
  have "\<exists>nonce. length nonce = 12 \<and> ''AAAAAAAAAAAA'' @ ''ih'' = nonce @ gcSeal ?G (replicate 16 CHR ''k'') nonce ''hi''"
    by (intro exI [of _ "''AAAAAAAAAAAA''"]) simp
  with sealed_messages [where rnd = "\<lambda>n. Some (replicate n CHR ''A'')" and p = "''hi''", OF l k r b] show ?thesis by blast
qed

text \<open>C40. A salted hash is the digest of the data followed by the salt, but when the caller's buffer
  has room behind the data, appending the salt in place overwrites the bytes that follow: exactly
  those, and nothing else in memory.\<close>

theorem hash_overwrites:
  assumes "slArray s < length mem" "slOff s + slCap s \<le> length (mem ! slArray s)" "0 < slLen s" "slLen s \<le> slCap s"
    and "hashData h s mem = (r, mem')"
  shows "r = Inr (hex_encode (shDigest h (slice_bytes mem s @ shSalt h))) \<and>
    (let n = slOff s + slLen s; k = length (shSalt h); b = mem ! slArray s; b' = mem' ! slArray s in
     (\<forall>j < length mem. j \<noteq> slArray s \<longrightarrow> mem' ! j = mem ! j) \<and>
     (if slLen s + k \<le> slCap s
      then b' = take n b @ shSalt h @ drop (n + k) b
      else b' = b))"
proof -
  obtain m t where a: "append_slice mem s (shSalt h) = (m, t)" by fastforce
  have "slice_bytes m t = slice_bytes mem s @ shSalt h"
    using slice_after_append [OF assms(1,2,4), of "shSalt h"] a by simp
  then have r: "r = Inr (hex_encode (shDigest h (slice_bytes mem s @ shSalt h)))" "mem' = m"
    using assms(3,5) a by (auto simp: hashData_def)
  show ?thesis
  proof (cases "slLen s + length (shSalt h) \<le> slCap s")
    case True
    then have "mem' = mem[slArray s := overwrite (mem ! slArray s) (slOff s + slLen s) (shSalt h)]"
      using a r(2) by (simp add: append_slice_def Let_def)
    with True r(1) assms(1) show ?thesis by (simp add: overwrite_def Let_def)
  next
    case False
    then have "mem' = mem @ [slice_bytes mem s @ shSalt h]" using a r(2) by (simp add: append_slice_def Let_def)
    with False r(1) assms(1) show ?thesis by (simp add: nth_append Let_def)
  qed
qed

text \<open>Hashing the first record of a buffer destroys the second.\<close>

theorem hash_overwrites_witness:
  "case hashData (newHasher id ''salt'') \<lparr>slArray = 0, slOff = 0, slLen = 4, slCap = 8\<rparr> [''datanext''] of
     (r, mem) \<Rightarrow> r = Inr (hex_encode ''datasalt'') \<and> mem ! 0 = ''datasalt''"
proof -
  let ?s = "\<lparr>slArray = 0, slOff = 0, slLen = 4, slCap = 8\<rparr>"
  obtain r mem where h: "hashData (newHasher id ''salt'') ?s [''datanext''] = (r, mem)" by fastforce
  then show ?thesis
    using hash_overwrites [of ?s "[''datanext'']", OF _ _ _ _ h]
    by (simp add: newHasher_def slice_bytes_def Let_def)
qed

section \<open>Compression\<close>

text \<open>\<open>ErrInvalidData\<close> and \<open>ErrInvalidAlgorithm\<close> of the package, a level out of range and the error
  of a library.\<close>

datatype compress_error = EmptyData | InvalidAlgorithm | InvalidLevel | CodecError

text \<open>compress/gzip, snappy and zstd; \<open>zsLevel\<close> is what \<open>WithEncoderLevel\<close> accepts.\<close>

record codecs =
  gzPack :: "int \<Rightarrow> bytes \<Rightarrow> bytes option"
  gzUnpack :: "bytes \<Rightarrow> bytes option"
  snPack :: "bytes \<Rightarrow> bytes"
  snUnpack :: "bytes \<Rightarrow> bytes option"
  zsLevel :: "int \<Rightarrow> bool"
  zsPack :: "int \<Rightarrow> bytes \<Rightarrow> bytes"
  zsUnpack :: "bytes \<Rightarrow> bytes option"

definition GzipAlgorithm :: string where "GzipAlgorithm = ''gzip''"
definition SnappyAlgorithm :: string where "SnappyAlgorithm = ''snappy''"
definition ZstdAlgorithm :: string where "ZstdAlgorithm = ''zstd''"

definition FastestLevel :: int where "FastestLevel = 1"
definition DefaultLevel :: int where "DefaultLevel = 5"
definition BestLevel :: int where "BestLevel = 9"

text \<open>The implementations of the interface \<open>Compressor\<close>.\<close>

datatype compressor = GzipCompressor int | SnappyCompressor | ZstdCompressor int

definition newGzipCompressor :: "int \<Rightarrow> compress_error + compressor" where
  "newGzipCompressor level = (if level < 1 \<or> level > 9 then Inl InvalidLevel else Inr (GzipCompressor level))"

definition newZstdCompressor :: "codecs \<Rightarrow> int \<Rightarrow> compress_error + compressor" where
  "newZstdCompressor L level =
     (if level < 1 \<or> level > 9 then Inl InvalidLevel
      else if \<not> zsLevel L level then Inl CodecError
      else Inr (ZstdCompressor level))"

definition newCompressor :: "codecs \<Rightarrow> string \<Rightarrow> int \<Rightarrow> compress_error + compressor" where
  "newCompressor L algorithm level =
     (if algorithm = GzipAlgorithm then newGzipCompressor level
      else if algorithm = SnappyAlgorithm then Inr SnappyCompressor
      else if algorithm = ZstdAlgorithm then newZstdCompressor L level
      else Inl InvalidAlgorithm)"

definition gzipCompress :: "codecs \<Rightarrow> int \<Rightarrow> bytes \<Rightarrow> compress_error + bytes" where
  "gzipCompress L level data =
     (if data = [] then Inl EmptyData
      else case gzPack L level data of None \<Rightarrow> Inl CodecError | Some b \<Rightarrow> Inr b)"

definition gzipDecompress :: "codecs \<Rightarrow> bytes \<Rightarrow> compress_error + bytes" where
  "gzipDecompress L data =
     (if data = [] then Inl EmptyData
      else case gzUnpack L data of None \<Rightarrow> Inl CodecError | Some b \<Rightarrow> Inr b)"

definition snappyCompress :: "codecs \<Rightarrow> bytes \<Rightarrow> compress_error + bytes" where
  "snappyCompress L data = (if data = [] then Inl EmptyData else Inr (snPack L data))"

definition snappyDecompress :: "codecs \<Rightarrow> bytes \<Rightarrow> compress_error + bytes" where
  "snappyDecompress L data =
     (if data = [] then Inl EmptyData
      else case snUnpack L data of None \<Rightarrow> Inl CodecError | Some b \<Rightarrow> Inr b)"

definition zstdCompress :: "codecs \<Rightarrow> int \<Rightarrow> bytes \<Rightarrow> compress_error + bytes" where
  "zstdCompress L level data = (if data = [] then Inl EmptyData else Inr (zsPack L level data))"

definition zstdDecompress :: "codecs \<Rightarrow> bytes \<Rightarrow> compress_error + bytes" where
  "zstdDecompress L data =
     (if data = [] then Inl EmptyData
      else case zsUnpack L data of None \<Rightarrow> Inl CodecError | Some b \<Rightarrow> Inr b)"

text \<open>The methods of the interface.\<close>

fun compressWith :: "codecs \<Rightarrow> compressor \<Rightarrow> bytes \<Rightarrow> compress_error + bytes" where
  "compressWith L (GzipCompressor level) data = gzipCompress L level data"
| "compressWith L SnappyCompressor data = snappyCompress L data"
| "compressWith L (ZstdCompressor level) data = zstdCompress L level data"

fun decompressWith :: "codecs \<Rightarrow> compressor \<Rightarrow> bytes \<Rightarrow> compress_error + bytes" where
  "decompressWith L (GzipCompressor level) data = gzipDecompress L data"
| "decompressWith L SnappyCompressor data = snappyDecompress L data"
| "decompressWith L (ZstdCompressor level) data = zstdDecompress L data"

lemmas codec_defs = gzipCompress_def gzipDecompress_def snappyCompress_def snappyDecompress_def
  zstdCompress_def zstdDecompress_def

fun algorithmOf :: "compressor \<Rightarrow> string" where
  "algorithmOf (GzipCompressor level) = GzipAlgorithm"
| "algorithmOf SnappyCompressor = SnappyAlgorithm"
| "algorithmOf (ZstdCompressor level) = ZstdAlgorithm"

text \<open>What the formats promise: unpacking undoes packing, packed data is never empty, and zstd knows
  the speeds 1 to 4.\<close>

definition codecs_law :: "codecs \<Rightarrow> bool" where
  "codecs_law L \<longleftrightarrow>
     (\<forall>l d. 1 \<le> l \<and> l \<le> 9 \<longrightarrow> (\<exists>b. gzPack L l d = Some b \<and> b \<noteq> [] \<and> gzUnpack L b = Some d)) \<and>
     (\<forall>d. snPack L d \<noteq> [] \<and> snUnpack L (snPack L d) = Some d) \<and>
     (\<forall>l. zsLevel L l \<longleftrightarrow> 1 \<le> l \<and> l \<le> 4) \<and>
     (\<forall>l d. 1 \<le> l \<and> l \<le> 4 \<longrightarrow> zsPack L l d \<noteq> [] \<and> zsUnpack L (zsPack L l d) = Some d)"

lemma codecs_lawD:
  assumes "codecs_law L"
  shows "1 \<le> l \<Longrightarrow> l \<le> 9 \<Longrightarrow> \<exists>b. gzPack L l d = Some b \<and> b \<noteq> [] \<and> gzUnpack L b = Some d"
    and "snPack L d \<noteq> [] \<and> snUnpack L (snPack L d) = Some d" "zsLevel L l \<longleftrightarrow> 1 \<le> l \<and> l \<le> 4"
    and "1 \<le> l \<Longrightarrow> l \<le> 4 \<Longrightarrow> zsPack L l d \<noteq> [] \<and> zsUnpack L (zsPack L l d) = Some d"
  using assms by (simp_all add: codecs_law_def)

lemmas algorithm_names = GzipAlgorithm_def SnappyAlgorithm_def ZstdAlgorithm_def

text \<open>A compressor the factory makes has the algorithm asked for and decompresses what it
  compresses. The factory makes one for gzip at levels 1 to 9, for snappy at any level and for zstd
  at levels 1 to 4 only: the package's default and best level pass its own check but are beyond the
  library's, so a zstd compressor with them cannot be made.\<close>

theorem compressors_roundtrip:
  assumes "codecs_law L"
  shows "(\<forall>c data. newCompressor L algorithm level = Inr c \<and> data \<noteq> [] \<longrightarrow>
      algorithmOf c = algorithm \<and>
      (\<exists>b. compressWith L c data = Inr b \<and> decompressWith L c b = Inr data)) \<and>
    ((\<exists>c. newCompressor L algorithm level = Inr c) \<longleftrightarrow>
       algorithm = GzipAlgorithm \<and> 1 \<le> level \<and> level \<le> 9 \<or> algorithm = SnappyAlgorithm \<or>
       algorithm = ZstdAlgorithm \<and> 1 \<le> level \<and> level \<le> 4) \<and>
    newCompressor L ZstdAlgorithm DefaultLevel = Inl CodecError \<and>
    newCompressor L ZstdAlgorithm BestLevel = Inl CodecError"
proof (intro conjI allI impI)
  fix c and data :: bytes assume "newCompressor L algorithm level = Inr c \<and> data \<noteq> []"
  then have c: "newCompressor L algorithm level = Inr c" and d: "data \<noteq> []" by simp_all
  from c consider "c = GzipCompressor level" "algorithm = GzipAlgorithm" "1 \<le> level" "level \<le> 9"
    | "c = SnappyCompressor" "algorithm = SnappyAlgorithm"
    | "c = ZstdCompressor level" "algorithm = ZstdAlgorithm" "1 \<le> level" "level \<le> 4"
    by (auto simp: newCompressor_def newGzipCompressor_def newZstdCompressor_def codecs_lawD(3) [OF assms] split: if_splits)
  note cases = this
  show "algorithmOf c = algorithm" using cases by cases simp_all
  show "\<exists>b. compressWith L c data = Inr b \<and> decompressWith L c b = Inr data"
    using cases
  proof cases
    case 1
    obtain b where "gzPack L level data = Some b" "b \<noteq> []" "gzUnpack L b = Some data"
      using codecs_lawD(1) [OF assms 1(3,4), of data] by blast
    then show ?thesis using 1(1) d by (intro exI [of _ b]) (simp add: codec_defs)
  next
    case 2
    then show ?thesis using codecs_lawD(2) [OF assms, of data] d
      by (intro exI [of _ "snPack L data"]) (simp add: codec_defs)
  next
    case 3
    then show ?thesis using codecs_lawD(4) [OF assms 3(3,4), of data] d
      by (intro exI [of _ "zsPack L level data"]) (simp add: codec_defs)
  qed
next
  show "(\<exists>c. newCompressor L algorithm level = Inr c) \<longleftrightarrow>
      algorithm = GzipAlgorithm \<and> 1 \<le> level \<and> level \<le> 9 \<or> algorithm = SnappyAlgorithm \<or>
      algorithm = ZstdAlgorithm \<and> 1 \<le> level \<and> level \<le> 4"
    using codecs_lawD(3) [OF assms, of level]
    by (auto simp: newCompressor_def newGzipCompressor_def newZstdCompressor_def algorithm_names)
  show "newCompressor L ZstdAlgorithm DefaultLevel = Inl CodecError"
    "newCompressor L ZstdAlgorithm BestLevel = Inl CodecError"
    using codecs_lawD(3) [OF assms]
    by (simp_all add: newCompressor_def newZstdCompressor_def algorithm_names DefaultLevel_def BestLevel_def)
qed

theorem compressors_roundtrip_witness:
  "let L = \<lparr>gzPack = (\<lambda>l d. Some (CHR ''g'' # d)), gzUnpack = (\<lambda>b. Some (tl b)), snPack = (\<lambda>d. CHR ''s'' # d),
     snUnpack = (\<lambda>b. Some (tl b)), zsLevel = (\<lambda>l. 1 \<le> l \<and> l \<le> 4), zsPack = (\<lambda>l d. CHR ''z'' # d),
     zsUnpack = (\<lambda>b. Some (tl b))\<rparr> in
   decompressWith L (GzipCompressor 9) (CHR ''g'' # ''data'') = Inr ''data'' \<and>
   newCompressor L ''zstd'' DefaultLevel = Inl CodecError"
proof -
  let ?L = "\<lparr>gzPack = (\<lambda>l d. Some (CHR ''g'' # d)), gzUnpack = (\<lambda>b. Some (tl b)), snPack = (\<lambda>d. CHR ''s'' # d),
     snUnpack = (\<lambda>b. Some (tl b)), zsLevel = (\<lambda>l. 1 \<le> l \<and> l \<le> 4), zsPack = (\<lambda>l d. CHR ''z'' # d),
     zsUnpack = (\<lambda>b. Some (tl b))\<rparr>"
  have l: "codecs_law ?L" by (simp add: codecs_law_def)
  have c: "newCompressor ?L GzipAlgorithm 9 = Inr (GzipCompressor 9)"
    by (simp add: newCompressor_def newGzipCompressor_def)
  note r = compressors_roundtrip [OF l, of GzipAlgorithm 9]
  have "\<exists>b. compressWith ?L (GzipCompressor 9) ''data'' = Inr b \<and> decompressWith ?L (GzipCompressor 9) b = Inr ''data''"
    using r c by blast
  moreover have "newCompressor ?L ZstdAlgorithm DefaultLevel = Inl CodecError" using r by blast
  ultimately show ?thesis by (simp add: codec_defs Let_def ZstdAlgorithm_def)
qed

end
