(* ===== verification/GoClient.thy ===== *)
theory GoClient
  imports Flags Disk
begin

text \<open>
  The client library \<open>client/go/client.go\<close> and its command line \<open>client/go/cmd/main.go\<close>. The library
  is a stand-in: its operations answer without talking to a gateway. The texts the tool prints, in
  Chinese, are the constructors of \<open>notice\<close>.
\<close>

section \<open>The library\<close>

record client_config =
  ccAPIGateway :: string
  ccTimeout :: int
  ccMaxRetries :: int
  ccRetryInterval :: int
  ccChunkSize :: int
  ccParallelUploads :: int
  ccParallelDownloads :: int
  ccEnableCache :: bool
  ccCacheTTL :: int
  ccCacheMaxSize :: int

record upload_reply =
  urFileID :: string
  urSuccess :: bool

record delete_reply =
  drSuccess :: bool

record status_reply =
  srFileID :: string
  srFilename :: string
  srSize :: int
  srStatus :: string
  srMetadata :: "(string \<times> string) list"

text \<open>The file at the path is not read.\<close>

definition loadClientConfig :: "string \<Rightarrow> client_config" where
  "loadClientConfig file_path =
     \<lparr>ccAPIGateway = ''http://localhost:8080'', ccTimeout = 30000000000, ccMaxRetries = 3,
      ccRetryInterval = 1000000000, ccChunkSize = 4194304, ccParallelUploads = 3, ccParallelDownloads = 3,
      ccEnableCache = True, ccCacheTTL = 60000000000, ccCacheMaxSize = 104857600\<rparr>"

definition newClient :: "client_config \<Rightarrow> client_config" where
  "newClient cfg = cfg"

text \<open>The operations never fail. \<open>reader\<close> is what is left of the body, \<open>out\<close> what has been written.\<close>

definition uploadFile ::
  "client_config \<Rightarrow> bytes \<Rightarrow> string \<Rightarrow> (string \<times> string) list \<Rightarrow> upload_reply \<times> bytes" where
  "uploadFile c reader filename metadata = (\<lparr>urFileID = ''mock-file-id'', urSuccess = True\<rparr>, reader)"

definition downloadFile :: "client_config \<Rightarrow> string \<Rightarrow> bytes \<Rightarrow> bytes" where
  "downloadFile c fileID out = out"

definition deleteRemote :: "client_config \<Rightarrow> string \<Rightarrow> delete_reply" where
  "deleteRemote c fileID = \<lparr>drSuccess = True\<rparr>"

definition getFileStatus :: "client_config \<Rightarrow> string \<Rightarrow> status_reply" where
  "getFileStatus c fileID =
     \<lparr>srFileID = fileID, srFilename = ''example.jpg'', srSize = 1024000, srStatus = ''available'',
      srMetadata = [(''content_type'', ''image/jpeg''), (''created_by'', ''user123'')]\<rparr>"

section \<open>The command line\<close>

datatype notice =
    Usage
  | MissingPath
  | DownloadUsage
  | MissingID
  | UnknownCommand string
  | OpenFailed os_error
  | Uploading string
  | UploadDone string
  | CreateFailed os_error
  | Downloading string string
  | DownloadDone
  | Querying string
  | StatusLines status_reply
  | Deleting string
  | DeleteDone
  | DeleteRefused

text \<open>The exit status, what was printed, and the files of the machine.\<close>

type_synonym workstation = "(unit, unit) disk"
type_synonym 'a tool_run = "(int \<times> notice list) \<times> 'a"

definition client_flags :: flags where
  "client_flags =
     [(''config'', FlagString ''xion-client.yaml''), (''api'', FlagString ''http://localhost:8080''),
      (''timeout'', FlagDuration 30000000000)]"

text \<open>\<open>resolve\<close> is the file a name means in the working directory.\<close>

definition upload_command ::
  "(string \<Rightarrow> unit path) \<Rightarrow> string \<Rightarrow> client_config \<Rightarrow> string \<Rightarrow> workstation \<Rightarrow> workstation tool_run" where
  "upload_command resolve user c filePath s =
     (case os_open (resolve filePath) s of
        (Inl e, s) \<Rightarrow> ((1, [OpenFailed e]), s)
      | (Inr _, s) \<Rightarrow>
          (let filename = filepath_base filePath;
               body = (case look s (resolve filePath) of Some (NFile (Blob b)) \<Rightarrow> b | _ \<Rightarrow> []);
               resp = fst (uploadFile c body filename [(''created_by'', user)])
           in ((0, [Uploading filename, UploadDone (urFileID resp)]), snd (os_close s))))"

definition download_command ::
  "(string \<Rightarrow> unit path) \<Rightarrow> client_config \<Rightarrow> string \<Rightarrow> string \<Rightarrow> workstation \<Rightarrow> workstation tool_run" where
  "download_command resolve c fileID outputPath s =
     (case os_create (resolve outputPath) s of
        (Inl e, s) \<Rightarrow> ((1, [CreateFailed e]), s)
      | (Inr _, s) \<Rightarrow>
          (let b = downloadFile c fileID [];
               s = (if b = [] then s else snd (os_write (resolve outputPath) (Blob b) s))
           in ((0, [Downloading fileID outputPath, DownloadDone]), snd (os_close s))))"

definition status_command :: "client_config \<Rightarrow> string \<Rightarrow> int \<times> notice list" where
  "status_command c fileID = (0, [Querying fileID, StatusLines (getFileStatus c fileID)])"

definition delete_command :: "client_config \<Rightarrow> string \<Rightarrow> int \<times> notice list" where
  "delete_command c fileID =
     (0, [Deleting fileID, if drSuccess (deleteRemote c fileID) then DeleteDone else DeleteRefused])"

text \<open>A wrong option ends the program with status 2, a request for help with 0.\<close>

definition client_main ::
  "(string \<Rightarrow> int option) \<Rightarrow> (string \<Rightarrow> unit path) \<Rightarrow> string \<Rightarrow> string list \<Rightarrow> workstation \<Rightarrow> workstation tool_run" where
  "client_main duration resolve user args s =
     (case parse_flags duration client_flags args of
        Inl e \<Rightarrow> ((if e = HelpRequested then 0 else 2, [Usage]), s)
      | Inr (vals, []) \<Rightarrow> ((1, [Usage]), s)
      | Inr (vals, cmd # rest) \<Rightarrow>
          (let c = newClient
                 \<lparr>ccAPIGateway = flag_string (map_of vals ''api''), ccTimeout = flag_int (map_of vals ''timeout''),
                  ccMaxRetries = 3, ccRetryInterval = 0, ccChunkSize = 0, ccParallelUploads = 0,
                  ccParallelDownloads = 0, ccEnableCache = False, ccCacheTTL = 0, ccCacheMaxSize = 0\<rparr> in
           if cmd = ''upload'' then
             (case rest of [] \<Rightarrow> ((1, [MissingPath]), s) | p # _ \<Rightarrow> upload_command resolve user c p s)
           else if cmd = ''download'' then
             (case rest of
                i # p # _ \<Rightarrow> download_command resolve c i p s
              | _ \<Rightarrow> ((1, [DownloadUsage]), s))
           else if cmd = ''status'' then
             (case rest of [] \<Rightarrow> ((1, [MissingID]), s) | i # _ \<Rightarrow> (status_command c i, s))
           else if cmd = ''delete'' then
             (case rest of [] \<Rightarrow> ((1, [MissingID]), s) | i # _ \<Rightarrow> (delete_command c i, s))
           else ((1, [UnknownCommand cmd, Usage]), s)))"

section \<open>What the commands do\<close>

lemma download_effect:
  assumes "download_command resolve c i p s = (out, t)"
  shows "look t = look s \<or> look t = (look s)(resolve p \<mapsto> NFile (Blob []))"
  using assms
  by (cases s rule: script_cases)
    (auto simp: download_command_def downloadFile_def os_create_def os_close_def syscall_def tick_def look_def
      update_conv' fun_eq_iff split: list.splits option.splits sum.splits prod.splits if_splits)

text \<open>The client library pretends. An upload of any readable file answers with one and the same
  identifier and sends nothing; a download of anything reports success and leaves the file at the
  output path empty, whatever it held before, and whatever fails it never writes a byte; status and
  delete answer the same for every identifier.\<close>

theorem client_pretends:
  assumes "client_main duration resolve user [''download'', i, p] s = (out, t)"
  shows "(look t = look s \<or> look t = (look s)(resolve p \<mapsto> NFile (Blob []))) \<and>
    (script s = [] \<longrightarrow>
      (look s (parent (resolve p)) = Some NDir \<and> look s (resolve p) \<noteq> Some NDir \<longrightarrow>
        out = (0, [Downloading i p, DownloadDone]) \<and> look t (resolve p) = Some (NFile (Blob []))) \<and>
      (look s (resolve p) \<noteq> None \<longrightarrow>
        client_main duration resolve user [''upload'', p] s =
          ((0, [Uploading (filepath_base p), UploadDone ''mock-file-id'']), s))) \<and>
    (\<exists>f. client_main duration resolve user [''status'', i] s = ((0, [Querying i, StatusLines f]), s) \<and>
       srSize f = 1024000 \<and> srStatus f = ''available'') \<and>
    client_main duration resolve user [''delete'', i] s = ((0, [Deleting i, DeleteDone]), s)"
proof -
  obtain c where "download_command resolve c i p s = (out, t)"
    using assms by (simp add: client_main_def)
  then have effect: "look t = look s \<or> look t = (look s)(resolve p \<mapsto> NFile (Blob []))" by (rule download_effect)
  have "script s = [] \<longrightarrow>
      (look s (parent (resolve p)) = Some NDir \<and> look s (resolve p) \<noteq> Some NDir \<longrightarrow>
        out = (0, [Downloading i p, DownloadDone]) \<and> look t (resolve p) = Some (NFile (Blob []))) \<and>
      (look s (resolve p) \<noteq> None \<longrightarrow>
        client_main duration resolve user [''upload'', p] s =
          ((0, [Uploading (filepath_base p), UploadDone ''mock-file-id'']), s))"
    using assms
    by (auto simp: client_main_def upload_command_def download_command_def uploadFile_def downloadFile_def go_simps)
  moreover have "client_main duration resolve user [''delete'', i] s = ((0, [Deleting i, DeleteDone]), s)"
    "\<exists>f. client_main duration resolve user [''status'', i] s = ((0, [Querying i, StatusLines f]), s) \<and>
       srSize f = 1024000 \<and> srStatus f = ''available''"
    by (simp_all add: client_main_def status_command_def delete_command_def deleteRemote_def getFileStatus_def)
  ultimately show ?thesis using effect by blast
qed

text \<open>A download over an existing file.\<close>

theorem client_pretends_witness:
  "case client_main (\<lambda>t. None) (\<lambda>n. ((), [n])) ''me'' [''download'', ''some-id'', ''photo.jpg'']
       \<lparr>entries = [(((), []), NDir), (((), [''photo.jpg'']), NFile (Blob ''pixels''))], script = []\<rparr> of
     (out, t) \<Rightarrow> fst out = 0 \<and> look t ((), [''photo.jpg'']) = Some (NFile (Blob []))"
proof -
  let ?s = "\<lparr>entries = [(((), []), NDir), (((), [''photo.jpg'']), NFile (Blob ''pixels''))], script = []\<rparr> :: workstation"
  obtain out t where run: "client_main (\<lambda>t. None) (\<lambda>n. ((), [n])) ''me'' [''download'', ''some-id'', ''photo.jpg''] ?s = (out, t)"
    by fastforce
  then show ?thesis using client_pretends [OF run] by (simp add: look_def parent_def)
qed

end
