(* ===== verification/Monitor.thy ===== *)
theory Monitor
  imports Http
begin

text \<open>
  The monitoring package: \<open>pkg/monitor/prometheus.go\<close> with the types of \<open>monitor.go\<close> and its
  \<open>MonitorServer\<close>. The Prometheus client library is a record of functions over its own state \<open>'r\<close>, a
  notifier its name, a \<open>float64\<close> a rational.
\<close>

section \<open>Metrics, rules and alerts\<close>

text \<open>The type of a definition and the level of an alert are strings; \<open>Untyped\<close> and \<open>OtherLevel\<close> are any others.\<close>

datatype metric_type = CounterMetric | GaugeMetric | HistogramMetric | SummaryMetric | Untyped string

record metric_definition =
  mdName :: string
  mdType :: metric_type
  mdHelp :: string
  mdLabels :: "string list"
  mdBuckets :: "rat list"
  mdObjectives :: "(rat \<times> rat) list"
  mdConstlabels :: "(string \<times> string) list"

datatype alert_level = InfoAlert | WarnAlert | ErrorAlert | CriticalAlert | OtherLevel string

fun level_text :: "alert_level \<Rightarrow> string" where
  "level_text InfoAlert = ''info''"
| "level_text WarnAlert = ''warning''"
| "level_text ErrorAlert = ''error''"
| "level_text CriticalAlert = ''critical''"
| "level_text (OtherLevel s) = s"

record alert_rule =
  ruName :: string
  ruQuery :: string
  ruDuration :: int
  ruLabels :: "(string \<times> string) list"
  ruAnnotations :: "(string \<times> string) list"
  ruLevel :: alert_level

record alert =
  alName :: string
  alLevel :: alert_level
  alMessage :: string
  alLabels :: "(string \<times> string) list"
  alAnnotations :: "(string \<times> string) list"
  alStartsAt :: time
  alEndsAt :: time
  alGeneratorURL :: string

record monitor_config =
  moEndpoint :: string
  moCollectInterval :: int
  moEnablePrometheus :: bool
  moEnableJaeger :: bool
  moEnableAlerts :: bool
  moAlertManagerURL :: string
  moDefaultLabels :: "(string \<times> string) list"

section \<open>The Prometheus monitor\<close>

text \<open>A metric of the library: its kind, whether it is a vector with labels, its name.\<close>

record metric =
  mtType :: metric_type
  mtVector :: bool
  mtName :: string

text \<open>
  The library: making a metric (\<open>None\<close> is a panic of the constructor), registering it, the type
  assertions to its interfaces \<open>Counter\<close>, \<open>Gauge\<close>, \<open>Histogram\<close> and \<open>Summary\<close>, the labels
  \<open>GetMetricWith\<close> accepts, and the effect of \<open>Add\<close>, \<open>Set\<close> and \<open>Observe\<close> (\<open>None\<close> is a panic).
\<close>

record 'r metrics_lib =
  mlMakes :: "metric_definition \<Rightarrow> bool"
  mlRegister :: "metric_definition \<Rightarrow> 'r \<Rightarrow> 'r option"
  mlImplements :: "metric_type \<Rightarrow> metric \<Rightarrow> bool"
  mlLabels :: "metric \<Rightarrow> (string \<times> string) list \<Rightarrow> 'r \<Rightarrow> bool"
  mlAdd :: "metric \<Rightarrow> (string \<times> string) list option \<Rightarrow> rat \<Rightarrow> 'r \<Rightarrow> 'r option"
  mlSet :: "metric \<Rightarrow> (string \<times> string) list option \<Rightarrow> rat \<Rightarrow> 'r \<Rightarrow> 'r option"
  mlObserve :: "metric \<Rightarrow> (string \<times> string) list option \<Rightarrow> rat \<Rightarrow> 'r \<Rightarrow> 'r option"

datatype monitor_error =
    MetricExists
  | UnsupportedType
  | RegisterFailed
  | MetricMissing
  | LabelsRejected
  | NotOfKind
  | RuleExists
  | RuleMissing
  | StopFailed
  | MetricPanic

record 'r prom_monitor =
  pmRegistry :: 'r
  pmMetrics :: "(string \<times> metric) list"
  pmRules :: "(string \<times> alert_rule) list"
  pmNotifiers :: "string list"
  pmConfig :: monitor_config
  pmRunning :: bool

definition newPrometheusMonitor :: "'r \<Rightarrow> monitor_config \<Rightarrow> 'r prom_monitor" where
  "newPrometheusMonitor registry config =
     \<lparr>pmRegistry = registry, pmMetrics = [], pmRules = [], pmNotifiers = [], pmConfig = config, pmRunning = False\<rparr>"

definition registerMetric ::
  "'r metrics_lib \<Rightarrow> metric_definition \<Rightarrow> 'r prom_monitor \<Rightarrow> (monitor_error + unit) \<times> 'r prom_monitor" where
  "registerMetric L d m =
     (if map_of (pmMetrics m) (mdName d) \<noteq> None then (Inl MetricExists, m)
      else case mdType d of
        Untyped t \<Rightarrow> (Inl UnsupportedType, m)
      | t \<Rightarrow>
          (if \<not> mlMakes L d then (Inl MetricPanic, m)
           else case mlRegister L d (pmRegistry m) of
             None \<Rightarrow> (Inl RegisterFailed, m)
           | Some r \<Rightarrow>
               (Inr (), m\<lparr>pmRegistry := r,
                          pmMetrics := AList.update (mdName d)
                            \<lparr>mtType = t, mtVector = (mdLabels d \<noteq> []), mtName = mdName d\<rparr> (pmMetrics m)\<rparr>)))"

text \<open>An update of a metric without labels, then of a vector: \<open>f\<close> is the method called.\<close>

definition update_plain ::
  "(metric \<Rightarrow> (string \<times> string) list option \<Rightarrow> rat \<Rightarrow> 'r \<Rightarrow> 'r option) \<Rightarrow> metric \<Rightarrow> rat \<Rightarrow> 'r prom_monitor \<Rightarrow>
   (monitor_error + unit) \<times> 'r prom_monitor" where
  "update_plain f x v m =
     (case f x None v (pmRegistry m) of None \<Rightarrow> (Inl MetricPanic, m) | Some r \<Rightarrow> (Inr (), m\<lparr>pmRegistry := r\<rparr>))"

definition update_vector ::
  "'r metrics_lib \<Rightarrow> (metric \<Rightarrow> (string \<times> string) list option \<Rightarrow> rat \<Rightarrow> 'r \<Rightarrow> 'r option) \<Rightarrow> metric \<Rightarrow>
   (string \<times> string) list \<Rightarrow> rat \<Rightarrow> 'r prom_monitor \<Rightarrow> (monitor_error + unit) \<times> 'r prom_monitor" where
  "update_vector L f x labels v m =
     (if \<not> mlLabels L x labels (pmRegistry m) then (Inl LabelsRejected, m)
      else case f x (Some labels) v (pmRegistry m) of
        None \<Rightarrow> (Inl MetricPanic, m)
      | Some r \<Rightarrow> (Inr (), m\<lparr>pmRegistry := r\<rparr>))"

definition incCounter ::
  "'r metrics_lib \<Rightarrow> string \<Rightarrow> rat \<Rightarrow> (string \<times> string) list \<Rightarrow> 'r prom_monitor \<Rightarrow>
   (monitor_error + unit) \<times> 'r prom_monitor" where
  "incCounter L name v labels m =
     (case map_of (pmMetrics m) name of
        None \<Rightarrow> (Inl MetricMissing, m)
      | Some x \<Rightarrow>
          if mlImplements L CounterMetric x then update_plain (mlAdd L) x v m
          else if mtType x = CounterMetric \<and> mtVector x then update_vector L (mlAdd L) x labels v m
          else (Inl NotOfKind, m))"

definition setGauge ::
  "'r metrics_lib \<Rightarrow> string \<Rightarrow> rat \<Rightarrow> (string \<times> string) list \<Rightarrow> 'r prom_monitor \<Rightarrow>
   (monitor_error + unit) \<times> 'r prom_monitor" where
  "setGauge L name v labels m =
     (case map_of (pmMetrics m) name of
        None \<Rightarrow> (Inl MetricMissing, m)
      | Some x \<Rightarrow>
          if mlImplements L GaugeMetric x then update_plain (mlSet L) x v m
          else if mtType x = GaugeMetric \<and> mtVector x then update_vector L (mlSet L) x labels v m
          else (Inl NotOfKind, m))"

definition addGauge ::
  "'r metrics_lib \<Rightarrow> string \<Rightarrow> rat \<Rightarrow> (string \<times> string) list \<Rightarrow> 'r prom_monitor \<Rightarrow>
   (monitor_error + unit) \<times> 'r prom_monitor" where
  "addGauge L name v labels m =
     (case map_of (pmMetrics m) name of
        None \<Rightarrow> (Inl MetricMissing, m)
      | Some x \<Rightarrow>
          if mlImplements L GaugeMetric x then update_plain (mlAdd L) x v m
          else if mtType x = GaugeMetric \<and> mtVector x then update_vector L (mlAdd L) x labels v m
          else (Inl NotOfKind, m))"

definition observe ::
  "'r metrics_lib \<Rightarrow> string \<Rightarrow> rat \<Rightarrow> (string \<times> string) list \<Rightarrow> 'r prom_monitor \<Rightarrow>
   (monitor_error + unit) \<times> 'r prom_monitor" where
  "observe L name v labels m =
     (case map_of (pmMetrics m) name of
        None \<Rightarrow> (Inl MetricMissing, m)
      | Some x \<Rightarrow>
          if mlImplements L HistogramMetric x then update_plain (mlObserve L) x v m
          else if mtType x = HistogramMetric \<and> mtVector x then update_vector L (mlObserve L) x labels v m
          else if mlImplements L SummaryMetric x then update_plain (mlObserve L) x v m
          else if mtType x = SummaryMetric \<and> mtVector x then update_vector L (mlObserve L) x labels v m
          else (Inl NotOfKind, m))"

definition addAlertRule :: "alert_rule \<Rightarrow> 'r prom_monitor \<Rightarrow> (monitor_error + unit) \<times> 'r prom_monitor" where
  "addAlertRule rule m =
     (if map_of (pmRules m) (ruName rule) \<noteq> None then (Inl RuleExists, m)
      else (Inr (), m\<lparr>pmRules := AList.update (ruName rule) rule (pmRules m)\<rparr>))"

definition removeAlertRule :: "string \<Rightarrow> 'r prom_monitor \<Rightarrow> (monitor_error + unit) \<times> 'r prom_monitor" where
  "removeAlertRule name m =
     (if map_of (pmRules m) name = None then (Inl RuleMissing, m)
      else (Inr (), m\<lparr>pmRules := AList.delete name (pmRules m)\<rparr>))"

definition registerNotifier :: "string \<Rightarrow> 'r prom_monitor \<Rightarrow> 'r prom_monitor" where
  "registerNotifier n m = m\<lparr>pmNotifiers := pmNotifiers m @ [n]\<rparr>"

text \<open>The server listens in a goroutine of its own; \<open>drained\<close> is the outcome of \<open>Shutdown\<close>.\<close>

definition startMonitor :: "'r prom_monitor \<Rightarrow> 'r prom_monitor" where
  "startMonitor m = (if pmRunning m then m else m\<lparr>pmRunning := True\<rparr>)"

definition stopMonitor :: "bool \<Rightarrow> 'r prom_monitor \<Rightarrow> (monitor_error + unit) \<times> 'r prom_monitor" where
  "stopMonitor drained m =
     (if \<not> pmRunning m then (Inr (), m)
      else if \<not> drained then (Inl StopFailed, m)
      else (Inr (), m\<lparr>pmRunning := False\<rparr>))"

section \<open>The plain server\<close>

record monitor_server =
  msConfig :: monitor_config
  msNotifiers :: "string list"
  msRunning :: bool

definition newMonitorServer :: "monitor_config \<Rightarrow> monitor_server" where
  "newMonitorServer config = \<lparr>msConfig = config, msNotifiers = [], msRunning = False\<rparr>"

definition registerServerNotifier :: "string \<Rightarrow> monitor_server \<Rightarrow> monitor_server" where
  "registerServerNotifier n s = s\<lparr>msNotifiers := msNotifiers s @ [n]\<rparr>"

text \<open>What its handlers answer; other paths are not found.\<close>

definition server_answer :: "monitor_server \<Rightarrow> string \<Rightarrow> string option" where
  "server_answer s p =
     (if p = ''/metrics'' \<and> moEnablePrometheus (msConfig s)
      then Some (''# Prometheus metrics will be exported here'' @ [CHR 0x0A])
      else if p = ''/health'' then Some ''OK'' else None)"

definition startServer :: "monitor_server \<Rightarrow> monitor_server" where
  "startServer s = (if msRunning s then s else s\<lparr>msRunning := True\<rparr>)"

definition stopServer :: "bool \<Rightarrow> monitor_server \<Rightarrow> (monitor_error + unit) \<times> monitor_server" where
  "stopServer drained s =
     (if \<not> msRunning s then (Inr (), s)
      else if \<not> drained then (Inl StopFailed, s)
      else (Inr (), s\<lparr>msRunning := False\<rparr>))"

section \<open>Which updates a metric takes\<close>

text \<open>
  Go's type assertions to the library's interfaces look at methods alone: a gauge has every method of a
  counter, and a summary the one method of a histogram. Vectors have none of them.
\<close>

definition structural :: "'r metrics_lib \<Rightarrow> bool" where
  "structural L \<longleftrightarrow>
     (\<forall>x. (mlImplements L CounterMetric x \<longleftrightarrow> \<not> mtVector x \<and> mtType x \<in> {CounterMetric, GaugeMetric}) \<and>
          (mlImplements L GaugeMetric x \<longleftrightarrow> \<not> mtVector x \<and> mtType x = GaugeMetric) \<and>
          (mlImplements L HistogramMetric x \<longleftrightarrow> \<not> mtVector x \<and> mtType x \<in> {HistogramMetric, SummaryMetric}) \<and>
          (mlImplements L SummaryMetric x \<longleftrightarrow> \<not> mtVector x \<and> mtType x \<in> {HistogramMetric, SummaryMetric}))"

lemma structuralD:
  assumes "structural L"
  shows "mlImplements L CounterMetric x \<longleftrightarrow> \<not> mtVector x \<and> mtType x \<in> {CounterMetric, GaugeMetric}"
    "mlImplements L GaugeMetric x \<longleftrightarrow> \<not> mtVector x \<and> mtType x = GaugeMetric"
    "mlImplements L HistogramMetric x \<longleftrightarrow> \<not> mtVector x \<and> mtType x \<in> {HistogramMetric, SummaryMetric}"
    "mlImplements L SummaryMetric x \<longleftrightarrow> \<not> mtVector x \<and> mtType x \<in> {HistogramMetric, SummaryMetric}"
  using assms unfolding structural_def by blast+

lemmas update_defs = incCounter_def setGauge_def addGauge_def observe_def

lemma registered_metric:
  assumes "registerMetric L d m = (Inr (), m')"
  shows "map_of (pmMetrics m') (mdName d) = Some \<lparr>mtType = mdType d, mtVector = (mdLabels d \<noteq> []), mtName = mdName d\<rparr>"
  using assms
  by (auto simp: registerMetric_def update_conv' split: metric_type.splits option.splits if_splits)

lemma registered_others:
  assumes "registerMetric L d m = (r, m')" "name \<noteq> mdName d"
  shows "map_of (pmMetrics m') name = map_of (pmMetrics m) name"
  using assms
  by (auto simp: registerMetric_def update_conv' split: metric_type.splits option.splits if_splits)

lemma registered_again:
  assumes "map_of (pmMetrics m) (mdName d) = Some x"
  shows "registerMetric L d m = (Inl MetricExists, m)"
  using assms by (simp add: registerMetric_def)

lemma registered_type:
  assumes "registerMetric L d m = (Inr (), m')"
  shows "mdType d \<in> {CounterMetric, GaugeMetric, HistogramMetric, SummaryMetric}"
  using assms by (auto simp: registerMetric_def split: metric_type.splits option.splits if_splits)

text \<open>No update changes anything but the library's own state.\<close>

lemma update_frame:
  "pmMetrics (snd (update_plain f x v m)) = pmMetrics m"
  "pmMetrics (snd (update_vector L f x labels v m)) = pmMetrics m"
  by (auto simp: update_plain_def update_vector_def split: option.splits)

text \<open>What \<open>RegisterMetric\<close> and the four updates of the monitor promise each other: a name that is
  taken keeps its metric; under a name just registered \<open>SetGauge\<close> and \<open>AddGauge\<close> reach gauges alone and
  \<open>Observe\<close> histograms and summaries alone, each other metric is reported as one of another kind and
  nothing is changed. \<open>IncCounter\<close> is not as strict: on a gauge without labels it is \<open>AddGauge\<close>, a
  negative amount included, while on a gauge with labels it is an error. Labels given for a metric
  without labels are ignored.\<close>
theorem metric_kinds:
  assumes lib: "structural L" and reg: "registerMetric L d m = (Inr (), m')"
  shows "(mdName d' = mdName d \<longrightarrow> registerMetric L d' m' = (Inl MetricExists, m')) \<and>
    (mdType d \<noteq> GaugeMetric \<longrightarrow>
       setGauge L (mdName d) v labels m' = (Inl NotOfKind, m') \<and>
       addGauge L (mdName d) v labels m' = (Inl NotOfKind, m')) \<and>
    (mdType d \<notin> {HistogramMetric, SummaryMetric} \<longrightarrow> observe L (mdName d) v labels m' = (Inl NotOfKind, m')) \<and>
    (mdType d \<in> {HistogramMetric, SummaryMetric} \<longrightarrow> incCounter L (mdName d) v labels m' = (Inl NotOfKind, m')) \<and>
    (mdType d = GaugeMetric \<longrightarrow> incCounter L (mdName d) v labels m' =
       (if mdLabels d = [] then addGauge L (mdName d) v labels m' else (Inl NotOfKind, m'))) \<and>
    (mdLabels d = [] \<longrightarrow> incCounter L (mdName d) v labels m' = incCounter L (mdName d) v [] m' \<and>
       setGauge L (mdName d) v labels m' = setGauge L (mdName d) v [] m' \<and>
       addGauge L (mdName d) v labels m' = addGauge L (mdName d) v [] m' \<and>
       observe L (mdName d) v labels m' = observe L (mdName d) v [] m')"
  using registered_metric [OF reg] registered_type [OF reg]
  by (auto simp: update_defs registered_again structuralD [OF lib])

text \<open>A library that adds up what it is told under each name.\<close>

definition tally :: "metric \<Rightarrow> (string \<times> string) list option \<Rightarrow> rat \<Rightarrow> (string \<times> rat) list \<Rightarrow> (string \<times> rat) list option" where
  "tally x ls v r = Some (AList.update (mtName x) ((case map_of r (mtName x) of None \<Rightarrow> 0 | Some w \<Rightarrow> w) + v) r)"

definition tally_lib :: "(string \<times> rat) list metrics_lib" where
  "tally_lib =
     \<lparr>mlMakes = (\<lambda>d. True), mlRegister = (\<lambda>d r. Some r),
      mlImplements = (\<lambda>t x. \<not> mtVector x \<and>
        (if t = CounterMetric then mtType x \<in> {CounterMetric, GaugeMetric}
         else if t = GaugeMetric then mtType x = GaugeMetric
         else mtType x \<in> {HistogramMetric, SummaryMetric})),
      mlLabels = (\<lambda>x ls r. True), mlAdd = tally, mlSet = tally, mlObserve = tally\<rparr>"

definition active_uploads :: metric_definition where
  "active_uploads = \<lparr>mdName = ''active'', mdType = GaugeMetric, mdHelp = '''', mdLabels = [], mdBuckets = [],
     mdObjectives = [], mdConstlabels = []\<rparr>"

lemma structural_tally: "structural tally_lib"
  by (simp add: structural_def tally_lib_def)

theorem metric_kinds_witness:
  "\<forall>c. incCounter tally_lib ''active'' (- 3) [] (snd (registerMetric tally_lib active_uploads (newPrometheusMonitor [] c))) =
     addGauge tally_lib ''active'' (- 3) [] (snd (registerMetric tally_lib active_uploads (newPrometheusMonitor [] c)))"
proof
  fix c
  have "registerMetric tally_lib active_uploads (newPrometheusMonitor [] c) =
          (Inr (), snd (registerMetric tally_lib active_uploads (newPrometheusMonitor [] c)))"
    by (simp add: registerMetric_def active_uploads_def newPrometheusMonitor_def tally_lib_def)
  from metric_kinds [OF structural_tally this, of active_uploads "- 3" "[]"]
  show "incCounter tally_lib ''active'' (- 3) [] (snd (registerMetric tally_lib active_uploads (newPrometheusMonitor [] c))) =
     addGauge tally_lib ''active'' (- 3) [] (snd (registerMetric tally_lib active_uploads (newPrometheusMonitor [] c)))"
    by (simp add: active_uploads_def)
qed

end
