(* ===== verification/Notifier.thy ===== *)
theory Notifier
  imports Monitor
begin

text \<open>
  The notifiers of \<open>pkg/monitor/notifier.go\<close>: the mail sent for an alert, byte by byte, and the webhook
  notifier, which only prints. Delivery (\<open>smtp.SendMail\<close>) and the text of a time are parameters.
\<close>

section \<open>Texts\<close>

text \<open>The program's texts are Chinese; these are their UTF-8 bytes, with what they say.\<close>

text \<open>Name of the alert.\<close>

definition name_label :: string where
  "name_label =
     [CHR 0xE5, CHR 0x91, CHR 0x8A, CHR 0xE8, CHR 0xAD, CHR 0xA6, CHR 0xE5, CHR 0x90, CHR 0x8D, CHR 0xE7,
     CHR 0xA7, CHR 0xB0, CHR 0x3A, CHR 0x20]"

text \<open>Level of the alert.\<close>

definition level_label :: string where
  "level_label =
     [CHR 0xE5, CHR 0x91, CHR 0x8A, CHR 0xE8, CHR 0xAD, CHR 0xA6, CHR 0xE7, CHR 0xBA, CHR 0xA7, CHR 0xE5,
     CHR 0x88, CHR 0xAB, CHR 0x3A, CHR 0x20]"

text \<open>Message of the alert.\<close>

definition message_label :: string where
  "message_label =
     [CHR 0xE5, CHR 0x91, CHR 0x8A, CHR 0xE8, CHR 0xAD, CHR 0xA6, CHR 0xE6, CHR 0xB6, CHR 0x88, CHR 0xE6,
     CHR 0x81, CHR 0xAF, CHR 0x3A, CHR 0x20]"

text \<open>Start.\<close>

definition start_label :: string where
  "start_label =
     [CHR 0xE5, CHR 0xBC, CHR 0x80, CHR 0xE5, CHR 0xA7, CHR 0x8B, CHR 0xE6, CHR 0x97, CHR 0xB6, CHR 0xE9,
     CHR 0x97, CHR 0xB4, CHR 0x3A, CHR 0x20]"

text \<open>End.\<close>

definition end_label :: string where
  "end_label =
     [CHR 0xE7, CHR 0xBB, CHR 0x93, CHR 0xE6, CHR 0x9D, CHR 0x9F, CHR 0xE6, CHR 0x97, CHR 0xB6, CHR 0xE9,
     CHR 0x97, CHR 0xB4, CHR 0x3A, CHR 0x20]"

text \<open>Labels.\<close>

definition labels_heading :: string where
  "labels_heading =
     [CHR 0xE6, CHR 0xA0, CHR 0x87, CHR 0xE7, CHR 0xAD, CHR 0xBE, CHR 0x3A]"

text \<open>Annotations.\<close>

definition annotations_heading :: string where
  "annotations_heading =
     [CHR 0xE6, CHR 0xB3, CHR 0xA8, CHR 0xE9, CHR 0x87, CHR 0x8A, CHR 0x3A]"

text \<open>Details.\<close>

definition details_label :: string where
  "details_label =
     [CHR 0xE8, CHR 0xAF, CHR 0xA6, CHR 0xE6, CHR 0x83, CHR 0x85, CHR 0x3A, CHR 0x20]"

text \<open>Sending an alert to the webhook.\<close>

definition webhook_label :: string where
  "webhook_label =
     [CHR 0xE5, CHR 0x8F, CHR 0x91, CHR 0xE9, CHR 0x80, CHR 0x81, CHR 0xE5, CHR 0x91, CHR 0x8A, CHR 0xE8,
     CHR 0xAD, CHR 0xA6, CHR 0xE5, CHR 0x88, CHR 0xB0, CHR 0x57, CHR 0x65, CHR 0x62, CHR 0x68, CHR 0x6F,
     CHR 0x6F, CHR 0x6B, CHR 0x3A, CHR 0x20]"

definition newline :: string where "newline = [CHR 0x0A]"

definition crlf :: string where "crlf = [CHR 0x0D, CHR 0x0A]"

section \<open>Mail\<close>

record email_notifier =
  enHost :: string
  enPort :: int
  enUsername :: string
  enPassword :: string
  enFrom :: string
  enTo :: "string list"
  enSsl :: bool

definition newEmailNotifier ::
  "string \<Rightarrow> int \<Rightarrow> string \<Rightarrow> string \<Rightarrow> string \<Rightarrow> string list \<Rightarrow> bool \<Rightarrow> email_notifier" where
  "newEmailNotifier host port username password sender rcpts ssl =
     \<lparr>enHost = host, enPort = port, enUsername = username, enPassword = password, enFrom = sender, enTo = rcpts,
      enSsl = ssl\<rparr>"

text \<open>\<open>visit\<close> is the order in which a map is visited, \<open>rfc\<close> the text of a time.\<close>

definition mail_pairs :: "string \<Rightarrow> (string \<times> string) list \<Rightarrow> string" where
  "mail_pairs heading kvs =
     (if kvs = [] then ''''
      else newline @ heading @ newline @ concat (map (\<lambda>(k, v). ''  '' @ k @ '': '' @ v @ newline) kvs))"

definition mail_body ::
  "((string \<times> string) list \<Rightarrow> (string \<times> string) list) \<Rightarrow> (time \<Rightarrow> string) \<Rightarrow> alert \<Rightarrow> string" where
  "mail_body visit rfc a =
     name_label @ alName a @ newline @
     level_label @ level_text (alLevel a) @ newline @
     message_label @ alMessage a @ newline @
     start_label @ rfc (alStartsAt a) @ newline @
     (if is_zero_time (alEndsAt a) then '''' else end_label @ rfc (alEndsAt a) @ newline) @
     mail_pairs labels_heading (visit (alLabels a)) @
     mail_pairs annotations_heading (visit (alAnnotations a)) @
     (if alGeneratorURL a = '''' then '''' else newline @ details_label @ alGeneratorURL a @ newline)"

definition alert_subject :: "alert \<Rightarrow> string" where
  "alert_subject a = ''['' @ level_text (alLevel a) @ ''] '' @ alName a"

fun join_commas :: "string list \<Rightarrow> string" where
  "join_commas [] = ''''"
| "join_commas [s] = s"
| "join_commas (s # ss) = s @ '','' @ join_commas ss"

definition mail_message ::
  "((string \<times> string) list \<Rightarrow> (string \<times> string) list) \<Rightarrow> (time \<Rightarrow> string) \<Rightarrow> email_notifier \<Rightarrow> alert \<Rightarrow> string" where
  "mail_message visit rfc n a =
     ''From: '' @ enFrom n @ crlf @
     ''To: '' @ join_commas (enTo n) @ crlf @
     ''Subject: '' @ alert_subject a @ crlf @
     ''Content-Type: text/plain; charset=UTF-8'' @ crlf @
     crlf @ mail_body visit rfc a"

text \<open>What \<open>smtp.SendMail\<close> is called with; \<open>deliver\<close> says whether it succeeds.\<close>

record envelope =
  evAddress :: string
  evUser :: string
  evPassword :: string
  evFrom :: string
  evTo :: "string list"
  evMessage :: string

definition sendEmail ::
  "((string \<times> string) list \<Rightarrow> (string \<times> string) list) \<Rightarrow> (time \<Rightarrow> string) \<Rightarrow> (envelope \<Rightarrow> 'w \<Rightarrow> bool \<times> 'w) \<Rightarrow>
   email_notifier \<Rightarrow> alert \<Rightarrow> 'w \<Rightarrow> bool \<times> 'w" where
  "sendEmail visit rfc deliver n a w =
     deliver \<lparr>evAddress = enHost n @ '':'' @ show_int (enPort n), evUser = enUsername n, evPassword = enPassword n,
              evFrom = enFrom n, evTo = enTo n, evMessage = mail_message visit rfc n a\<rparr> w"

section \<open>Webhook\<close>

record webhook_notifier =
  whURL :: string
  whTimeout :: int

definition newWebhookNotifier :: "string \<Rightarrow> int \<Rightarrow> webhook_notifier" where
  "newWebhookNotifier url timeout =
     (let timeout = (if timeout = 0 then 5 * 1000000000 else timeout) in \<lparr>whURL = url, whTimeout = timeout\<rparr>)"

text \<open>The lines printed; the call never fails.\<close>

definition sendWebhook :: "webhook_notifier \<Rightarrow> alert \<Rightarrow> string list" where
  "sendWebhook n a =
     [webhook_label @ whURL n, name_label @ alName a, level_label @ level_text (alLevel a),
      message_label @ alMessage a]"

section \<open>The headers a mail has\<close>

text \<open>How a reader of mail finds the headers: the lines before the first empty one.\<close>

fun header_lines :: "string \<Rightarrow> string \<Rightarrow> string list" where
  "header_lines cur [] = (if cur = [] then [] else [cur])"
| "header_lines cur (c # cs) =
     (if c = CHR 0x0D \<and> take 1 cs = [CHR 0x0A]
      then (if cur = [] then [] else cur # header_lines [] (drop 1 cs))
      else header_lines (cur @ [c]) cs)"

lemma header_line:
  assumes "CHR 0x0D \<notin> set l"
  shows "header_lines cur (l @ crlf @ rest) = (if cur @ l = [] then [] else (cur @ l) # header_lines [] rest)"
  using assms by (induction l arbitrary: cur) (auto simp: crlf_def)

text \<open>An alert whose name has no carriage return is sent with exactly the four headers the notifier
  writes. But the name is not checked: with a line break in it, what follows the break is a header
  of its own, so whoever names an alert adds headers to the mail.\<close>

theorem mail_headers:
  assumes "CHR 0x0D \<notin> set (enFrom n)" "CHR 0x0D \<notin> set (join_commas (enTo n))" "CHR 0x0D \<notin> set (level_text (alLevel a))"
  shows "(CHR 0x0D \<notin> set (alName a) \<longrightarrow>
      header_lines [] (mail_message visit rfc n a) =
        [''From: '' @ enFrom n, ''To: '' @ join_commas (enTo n), ''Subject: '' @ alert_subject a,
         ''Content-Type: text/plain; charset=UTF-8'']) \<and>
    (\<forall>x y. alName a = x @ crlf @ y \<and> CHR 0x0D \<notin> set x \<and> CHR 0x0D \<notin> set y \<and> y \<noteq> [] \<longrightarrow>
      y \<in> set (header_lines [] (mail_message visit rfc n a)))"
proof -
  let ?f = "''From: '' @ enFrom n" and ?t = "''To: '' @ join_commas (enTo n)"
    and ?c = "''Content-Type: text/plain; charset=UTF-8''" and ?b = "crlf @ mail_body visit rfc a"
  let ?rest = "(''Subject: '' @ alert_subject a) @ crlf @ ?c @ crlf @ ?b"
  have m: "mail_message visit rfc n a = ?f @ crlf @ ?t @ crlf @ ?rest"
    by (simp add: mail_message_def)
  have f: "CHR 0x0D \<notin> set ?f" and t: "CHR 0x0D \<notin> set ?t" and c: "CHR 0x0D \<notin> set ?c" using assms by simp_all
  have b: "header_lines [] ?b = []" using header_line [of "[]" "[]"] by simp
  have front: "header_lines [] (mail_message visit rfc n a) = ?f # ?t # header_lines [] ?rest"
    unfolding m header_line [OF f] header_line [OF t] by simp
  have "header_lines [] ?rest = [''Subject: '' @ alert_subject a, ?c]" if "CHR 0x0D \<notin> set (alName a)"
  proof -
    have s: "CHR 0x0D \<notin> set (''Subject: '' @ alert_subject a)" using that assms(3) by (simp add: alert_subject_def)
    show ?thesis unfolding header_line [OF s] header_line [OF c] b by simp
  qed
  moreover have "y \<in> set (header_lines [] ?rest)"
    if "alName a = x @ crlf @ y" "CHR 0x0D \<notin> set x" and y: "CHR 0x0D \<notin> set y" and ne: "y \<noteq> []" for x y
  proof -
    let ?s = "''Subject: ['' @ level_text (alLevel a) @ ''] '' @ x"
    have s: "CHR 0x0D \<notin> set ?s" using that(2) assms(3) by simp
    have e: "?rest = ?s @ crlf @ y @ crlf @ ?c @ crlf @ ?b"
      using that(1) by (simp add: alert_subject_def)
    show ?thesis unfolding e header_line [OF s] header_line [OF y] using ne by simp
  qed
  ultimately show ?thesis unfolding front by auto
qed

end
