(* ===== verification/Raft.thy ===== *)
theory Raft
  imports Process
begin

text \<open>
  The wrapper around the Raft library: \<open>pkg/raft/hashicorp_raft.go\<close> with the types of \<open>node.go\<close>. The
  library and its log files are a record of functions over their own state \<open>'w\<close>; \<open>'n\<close> and \<open>'t\<close> are
  its instances and its transports.
\<close>

section \<open>Nodes\<close>

record raft_config =
  rcNodeID :: string
  rcAddress :: string
  rcDataDir :: string
  rcPeers :: "string list"
  rcHeartbeatTimeout :: int
  rcElectionTimeout :: int
  rcPreVote :: bool

record raft_state =
  rsNodeID :: string
  rsRole :: string
  rsTerm :: int
  rsLastIndex :: int
  rsPeers :: "string list"
  rsCommitIndex :: int

record ('n, 't) raft_node =
  rnConfig :: raft_config
  rnRaft :: "'n option"
  rnTransport :: "'t option"

datatype raft_error =
    NodeIDEmpty
  | AddressEmpty
  | DataDirEmpty
  | DataDirFailed
  | AlreadyStarted
  | LogStoreFailed
  | StableStoreFailed
  | SnapshotStoreFailed
  | TransportFailed
  | RaftFailed
  | BootstrapFailed
  | NodeNotStarted
  | NotLeader
  | ShutdownFailed
  | TransportCloseFailed
  | NoTransport
  | ApplyFailed
  | AddFailed
  | RemoveFailed

datatype raft_role = Leader | Candidate | OtherRole

datatype bootstrap_outcome = Bootstrapped | CannotBootstrap | BootstrapError

text \<open>
  The library. Opening a log file may never return (\<open>None\<close>). The settings of an instance are its
  identifier and its two timeouts in nanoseconds; the last function gives the servers of the current
  configuration, when it is to be had.
\<close>

record ('n, 't, 'w) raft_lib =
  rlMkdirAll :: "string \<Rightarrow> 'w \<Rightarrow> bool \<times> 'w"
  rlOpenBolt :: "string \<Rightarrow> 'w \<Rightarrow> (bool \<times> 'w) option"
  rlSnapshots :: "string \<Rightarrow> 'w \<Rightarrow> bool \<times> 'w"
  rlTransport :: "string \<Rightarrow> 'w \<Rightarrow> 't option \<times> 'w"
  rlNew :: "string \<Rightarrow> int \<Rightarrow> int \<Rightarrow> 't \<Rightarrow> 'w \<Rightarrow> 'n option \<times> 'w"
  rlBootstrap :: "'n \<Rightarrow> (string \<times> string) list \<Rightarrow> 'w \<Rightarrow> bootstrap_outcome \<times> 'w"
  rlShutdown :: "'n \<Rightarrow> 'w \<Rightarrow> bool \<times> 'w"
  rlClose :: "'t \<Rightarrow> 'w \<Rightarrow> bool \<times> 'w"
  rlState :: "'n \<Rightarrow> 'w \<Rightarrow> raft_role"
  rlApply :: "'n \<Rightarrow> string \<Rightarrow> int \<Rightarrow> 'w \<Rightarrow> string option \<times> 'w"
  rlAddVoter :: "'n \<Rightarrow> string \<Rightarrow> string \<Rightarrow> 'w \<Rightarrow> bool \<times> 'w"
  rlRemoveServer :: "'n \<Rightarrow> string \<Rightarrow> 'w \<Rightarrow> bool \<times> 'w"
  rlLeader :: "'n \<Rightarrow> 'w \<Rightarrow> string"
  rlLastIndex :: "'n \<Rightarrow> 'w \<Rightarrow> int"
  rlCommitIndex :: "'n \<Rightarrow> 'w \<Rightarrow> int"
  rlServers :: "'n \<Rightarrow> 'w \<Rightarrow> string list option"

definition newRaftNode ::
  "('n, 't, 'w) raft_lib \<Rightarrow> raft_config \<Rightarrow> 'w \<Rightarrow> (raft_error + ('n, 't) raft_node) \<times> 'w" where
  "newRaftNode L c w =
     (if rcNodeID c = '''' then (Inl NodeIDEmpty, w)
      else if rcAddress c = '''' then (Inl AddressEmpty, w)
      else if rcDataDir c = '''' then (Inl DataDirEmpty, w)
      else case rlMkdirAll L (rcDataDir c) w of
        (False, w) \<Rightarrow> (Inl DataDirFailed, w)
      | (True, w) \<Rightarrow>
          let c = (if rcHeartbeatTimeout c = 0 then c\<lparr>rcHeartbeatTimeout := 1000\<rparr> else c);
              c = (if rcElectionTimeout c = 0 then c\<lparr>rcElectionTimeout := 1000\<rparr> else c)
          in (Inr \<lparr>rnConfig = c, rnRaft = None, rnTransport = None\<rparr>, w))"

section \<open>Starting and stopping\<close>

definition milliseconds :: "int \<Rightarrow> int" where
  "milliseconds n = wrap64 (n * 1000000)"

definition log_file :: "raft_config \<Rightarrow> string" where
  "log_file c = filepath_join (rcDataDir c) ''raft-log.bolt''"

definition stable_file :: "raft_config \<Rightarrow> string" where
  "stable_file c = filepath_join (rcDataDir c) ''raft-stable.bolt''"

text \<open>The first peer bootstraps the cluster, each peer's identifier being its address as well.\<close>

definition bootstrap_peers ::
  "('n, 't, 'w) raft_lib \<Rightarrow> 'n \<Rightarrow> raft_config \<Rightarrow> 'w \<Rightarrow> (raft_error + unit) \<times> 'w" where
  "bootstrap_peers L r c w =
     (case rcPeers c of
        [] \<Rightarrow> (Inr (), w)
      | p # ps \<Rightarrow>
          if rcNodeID c \<noteq> p then (Inr (), w)
          else case rlBootstrap L r (map (\<lambda>q. (q, q)) (rcPeers c)) w of
            (BootstrapError, w) \<Rightarrow> (Inl BootstrapFailed, w)
          | (_, w) \<Rightarrow> (Inr (), w))"

definition start_raft ::
  "('n, 't, 'w) raft_lib \<Rightarrow> ('n, 't) raft_node \<Rightarrow> 'w \<Rightarrow> (raft_error + unit) \<times> ('n, 't) raft_node \<times> 'w" where
  "start_raft L n w =
     (let c = rnConfig n in
      case rlSnapshots L (rcDataDir c) w of
        (False, w) \<Rightarrow> (Inl SnapshotStoreFailed, n, w)
      | (True, w) \<Rightarrow>
     (case rlTransport L (rcAddress c) w of
        (None, w) \<Rightarrow> (Inl TransportFailed, n, w)
      | (Some t, w) \<Rightarrow>
          let n = n\<lparr>rnTransport := Some t\<rparr> in
     (case rlNew L (rcNodeID c) (milliseconds (rcHeartbeatTimeout c)) (milliseconds (rcElectionTimeout c)) t w of
        (None, w) \<Rightarrow> (Inl RaftFailed, n, w)
      | (Some r, w) \<Rightarrow>
          let n = n\<lparr>rnRaft := Some r\<rparr> in
     (case bootstrap_peers L r c w of (e, w) \<Rightarrow> (e, n, w)))))"

definition startNode ::
  "('n, 't, 'w) raft_lib \<Rightarrow> ('n, 't) raft_node \<Rightarrow> 'w \<Rightarrow> ((raft_error + unit) \<times> ('n, 't) raft_node \<times> 'w) option" where
  "startNode L n w =
     (if rnRaft n \<noteq> None then Some (Inl AlreadyStarted, n, w)
      else case rlOpenBolt L (log_file (rnConfig n)) w of
        None \<Rightarrow> None
      | Some (False, w) \<Rightarrow> Some (Inl LogStoreFailed, n, w)
      | Some (True, w) \<Rightarrow>
     (case rlOpenBolt L (stable_file (rnConfig n)) w of
        None \<Rightarrow> None
      | Some (False, w) \<Rightarrow> Some (Inl StableStoreFailed, n, w)
      | Some (True, w) \<Rightarrow> Some (start_raft L n w)))"

definition stopNode ::
  "('n, 't, 'w) raft_lib \<Rightarrow> ('n, 't) raft_node \<Rightarrow> 'w \<Rightarrow> (raft_error + unit) \<times> ('n, 't) raft_node \<times> 'w" where
  "stopNode L n w =
     (case rnRaft n of
        None \<Rightarrow> (Inl NodeNotStarted, n, w)
      | Some r \<Rightarrow>
     (case rlShutdown L r w of
        (False, w) \<Rightarrow> (Inl ShutdownFailed, n, w)
      | (True, w) \<Rightarrow>
     (case rnTransport n of
        None \<Rightarrow> (Inl NoTransport, n, w)
      | Some t \<Rightarrow>
     (case rlClose L t w of
        (False, w) \<Rightarrow> (Inl TransportCloseFailed, n, w)
      | (True, w) \<Rightarrow> (Inr (), n\<lparr>rnRaft := None\<rparr>, w)))))"

section \<open>Commands and membership\<close>

text \<open>The instance is read under the lock and used after the lock is released; \<open>r\<close> is the instance read.\<close>

definition applyOn ::
  "('n, 't, 'w) raft_lib \<Rightarrow> 'n \<Rightarrow> string \<Rightarrow> int \<Rightarrow> 'w \<Rightarrow> (raft_error + string) \<times> 'w" where
  "applyOn L r cmd timeout w =
     (if rlState L r w \<noteq> Leader then (Inl NotLeader, w)
      else let timeout = (if timeout \<le> 0 then 5000 else timeout) in
        case rlApply L r cmd (milliseconds timeout) w of
          (None, w) \<Rightarrow> (Inl ApplyFailed, w)
        | (Some answer, w) \<Rightarrow> (Inr answer, w))"

definition applyCommand ::
  "('n, 't, 'w) raft_lib \<Rightarrow> string \<Rightarrow> int \<Rightarrow> ('n, 't) raft_node \<Rightarrow> 'w \<Rightarrow> (raft_error + string) \<times> 'w" where
  "applyCommand L cmd timeout n w =
     (case rnRaft n of None \<Rightarrow> (Inl NodeNotStarted, w) | Some r \<Rightarrow> applyOn L r cmd timeout w)"

definition addPeer ::
  "('n, 't, 'w) raft_lib \<Rightarrow> string \<Rightarrow> string \<Rightarrow> ('n, 't) raft_node \<Rightarrow> 'w \<Rightarrow> (raft_error + unit) \<times> 'w" where
  "addPeer L nodeID address n w =
     (case rnRaft n of
        None \<Rightarrow> (Inl NodeNotStarted, w)
      | Some r \<Rightarrow>
          if rlState L r w \<noteq> Leader then (Inl NotLeader, w)
          else case rlAddVoter L r nodeID address w of
            (False, w) \<Rightarrow> (Inl AddFailed, w)
          | (True, w) \<Rightarrow> (Inr (), w))"

definition removePeer ::
  "('n, 't, 'w) raft_lib \<Rightarrow> string \<Rightarrow> ('n, 't) raft_node \<Rightarrow> 'w \<Rightarrow> (raft_error + unit) \<times> 'w" where
  "removePeer L nodeID n w =
     (case rnRaft n of
        None \<Rightarrow> (Inl NodeNotStarted, w)
      | Some r \<Rightarrow>
          if rlState L r w \<noteq> Leader then (Inl NotLeader, w)
          else case rlRemoveServer L r nodeID w of
            (False, w) \<Rightarrow> (Inl RemoveFailed, w)
          | (True, w) \<Rightarrow> (Inr (), w))"

definition isLeader :: "('n, 't, 'w) raft_lib \<Rightarrow> ('n, 't) raft_node \<Rightarrow> 'w \<Rightarrow> bool" where
  "isLeader L n w = (case rnRaft n of None \<Rightarrow> False | Some r \<Rightarrow> rlState L r w = Leader)"

definition getLeader :: "('n, 't, 'w) raft_lib \<Rightarrow> ('n, 't) raft_node \<Rightarrow> 'w \<Rightarrow> string" where
  "getLeader L n w = (case rnRaft n of None \<Rightarrow> '''' | Some r \<Rightarrow> rlLeader L r w)"

definition getState :: "('n, 't, 'w) raft_lib \<Rightarrow> ('n, 't) raft_node \<Rightarrow> 'w \<Rightarrow> raft_state" where
  "getState L n w =
     (let st = \<lparr>rsNodeID = rcNodeID (rnConfig n), rsRole = ''follower'', rsTerm = 0, rsLastIndex = 0,
                rsPeers = [], rsCommitIndex = 0\<rparr> in
      case rnRaft n of
        None \<Rightarrow> st
      | Some r \<Rightarrow>
          let st = st\<lparr>rsRole := (case rlState L r w of Leader \<Rightarrow> ''leader'' | Candidate \<Rightarrow> ''candidate''
                                 | OtherRole \<Rightarrow> ''follower'')\<rparr>;
              st = (if rlServers L r w \<noteq> None
                    then st\<lparr>rsTerm := 0, rsLastIndex := rlLastIndex L r w, rsCommitIndex := rlCommitIndex L r w\<rparr>
                    else st)
          in (case rlServers L r w of None \<Rightarrow> st | Some servers \<Rightarrow> st\<lparr>rsPeers := rsPeers st @ servers\<rparr>))"

section \<open>The log files stay open\<close>

text \<open>
  What the documentation of the log store says: a file that is open holds a lock, and opening it once more
  waits until it is closed. Only closing the store closes it, which no function here does; \<open>held w\<close> are
  the files open in \<open>w\<close>.
\<close>

definition locks_files :: "('n, 't, 'w) raft_lib \<Rightarrow> ('w \<Rightarrow> string set) \<Rightarrow> bool" where
  "locks_files L held \<longleftrightarrow>
     (\<forall>p w. p \<in> held w \<longrightarrow> rlOpenBolt L p w = None) \<and>
     (\<forall>p w w'. rlOpenBolt L p w = Some (True, w') \<longrightarrow> insert p (held w) \<subseteq> held w') \<and>
     (\<forall>p w w'. rlOpenBolt L p w = Some (False, w') \<longrightarrow> held w \<subseteq> held w') \<and>
     (\<forall>p w b w'. rlSnapshots L p w = (b, w') \<longrightarrow> held w \<subseteq> held w') \<and>
     (\<forall>a w t w'. rlTransport L a w = (t, w') \<longrightarrow> held w \<subseteq> held w') \<and>
     (\<forall>i h e t w r w'. rlNew L i h e t w = (r, w') \<longrightarrow> held w \<subseteq> held w') \<and>
     (\<forall>r ps w b w'. rlBootstrap L r ps w = (b, w') \<longrightarrow> held w \<subseteq> held w') \<and>
     (\<forall>r w b w'. rlShutdown L r w = (b, w') \<longrightarrow> held w \<subseteq> held w') \<and>
     (\<forall>t w b w'. rlClose L t w = (b, w') \<longrightarrow> held w \<subseteq> held w') \<and>
     (\<forall>r c n w a w'. rlApply L r c n w = (a, w') \<longrightarrow> held w \<subseteq> held w') \<and>
     (\<forall>r i a w b w'. rlAddVoter L r i a w = (b, w') \<longrightarrow> held w \<subseteq> held w') \<and>
     (\<forall>r i w b w'. rlRemoveServer L r i w = (b, w') \<longrightarrow> held w \<subseteq> held w')"

lemma locks_filesD:
  assumes "locks_files L held"
  shows "p \<in> held w \<Longrightarrow> rlOpenBolt L p w = None"
    "rlOpenBolt L p w = Some (True, w') \<Longrightarrow> insert p (held w) \<subseteq> held w'"
    "rlOpenBolt L p w = Some (False, w') \<Longrightarrow> held w \<subseteq> held w'"
    "rlSnapshots L p w = (b, w') \<Longrightarrow> held w \<subseteq> held w'"
    "rlTransport L a w = (to, w') \<Longrightarrow> held w \<subseteq> held w'"
    "rlNew L i h e t w = (no, w') \<Longrightarrow> held w \<subseteq> held w'"
    "rlBootstrap L r ps w = (bo, w') \<Longrightarrow> held w \<subseteq> held w'"
    "rlShutdown L r w = (b, w') \<Longrightarrow> held w \<subseteq> held w'"
    "rlClose L t w = (b, w') \<Longrightarrow> held w \<subseteq> held w'"
    "rlApply L r c n w = (ao, w') \<Longrightarrow> held w \<subseteq> held w'"
    "rlAddVoter L r i a w = (b, w') \<Longrightarrow> held w \<subseteq> held w'"
    "rlRemoveServer L r i w = (b, w') \<Longrightarrow> held w \<subseteq> held w'"
proof -
  note L = assms [unfolded locks_files_def]
  show "p \<in> held w \<Longrightarrow> rlOpenBolt L p w = None" using L by metis
  show "rlOpenBolt L p w = Some (True, w') \<Longrightarrow> insert p (held w) \<subseteq> held w'" using L by metis
  show "rlOpenBolt L p w = Some (False, w') \<Longrightarrow> held w \<subseteq> held w'" using L by metis
  show "rlSnapshots L p w = (b, w') \<Longrightarrow> held w \<subseteq> held w'" using L by metis
  show "rlTransport L a w = (to, w') \<Longrightarrow> held w \<subseteq> held w'" using L by metis
  show "rlNew L i h e t w = (no, w') \<Longrightarrow> held w \<subseteq> held w'" using L by metis
  show "rlBootstrap L r ps w = (bo, w') \<Longrightarrow> held w \<subseteq> held w'" using L by metis
  show "rlShutdown L r w = (b, w') \<Longrightarrow> held w \<subseteq> held w'" using L by metis
  show "rlClose L t w = (b, w') \<Longrightarrow> held w \<subseteq> held w'" using L by metis
  show "rlApply L r c n w = (ao, w') \<Longrightarrow> held w \<subseteq> held w'" using L by metis
  show "rlAddVoter L r i a w = (b, w') \<Longrightarrow> held w \<subseteq> held w'" using L by metis
  show "rlRemoveServer L r i w = (b, w') \<Longrightarrow> held w \<subseteq> held w'" using L by metis
qed

datatype raft_op =
    StartOp
  | StopOp
  | ApplyOp string int
  | AddOp string string
  | RemoveOp string

text \<open>One call on a node; \<open>None\<close> is a call that never returns.\<close>

fun raft_call ::
  "('n, 't, 'w) raft_lib \<Rightarrow> raft_op \<Rightarrow> ('n, 't) raft_node \<times> 'w \<Rightarrow> (('n, 't) raft_node \<times> 'w) option" where
  "raft_call L StartOp (n, w) = map_option snd (startNode L n w)"
| "raft_call L StopOp (n, w) = Some (snd (stopNode L n w))"
| "raft_call L (ApplyOp c t) (n, w) = Some (n, snd (applyCommand L c t n w))"
| "raft_call L (AddOp i a) (n, w) = Some (n, snd (addPeer L i a n w))"
| "raft_call L (RemoveOp i) (n, w) = Some (n, snd (removePeer L i n w))"

fun raft_calls ::
  "('n, 't, 'w) raft_lib \<Rightarrow> raft_op list \<Rightarrow> ('n, 't) raft_node \<times> 'w \<Rightarrow> (('n, 't) raft_node \<times> 'w) option" where
  "raft_calls L [] s = Some s"
| "raft_calls L (c # cs) s = (case raft_call L c s of None \<Rightarrow> None | Some t \<Rightarrow> raft_calls L cs t)"

lemma bootstrap_held:
  assumes "locks_files L held" "bootstrap_peers L r c w = (e, w')"
  shows "held w \<subseteq> held w'"
  using assms(2)
  by (auto simp: bootstrap_peers_def split: list.splits if_splits prod.splits bootstrap_outcome.splits
      dest!: locks_filesD(7) [OF assms(1)])

lemma start_raft_held:
  assumes L: "locks_files L held" and s: "start_raft L n w = (e, n', w')"
  shows "held w \<subseteq> held w' \<and> rnConfig n' = rnConfig n"
  using s
  by (auto simp: start_raft_def Let_def split: prod.splits bool.splits option.splits
      dest!: locks_filesD(4-6) [OF L] bootstrap_held [OF L])

lemma startNode_held:
  assumes L: "locks_files L held" and s: "startNode L n w = Some (e, n', w')"
  shows "held w \<subseteq> held w' \<and> rnConfig n' = rnConfig n"
  using s
  by (auto simp: startNode_def split: if_splits option.splits prod.splits bool.splits
      dest!: locks_filesD(2,3) [OF L] start_raft_held [OF L])

lemma stopNode_held:
  assumes L: "locks_files L held" and s: "stopNode L n w = (e, n', w')"
  shows "held w \<subseteq> held w' \<and> rnConfig n' = rnConfig n"
  using s
  by (auto simp: stopNode_def split: option.splits prod.splits bool.splits
      dest!: locks_filesD(8,9) [OF L])

lemma call_held:
  assumes L: "locks_files L held" and s: "raft_call L c (n, w) = Some (n', w')"
  shows "held w \<subseteq> held w' \<and> rnConfig n' = rnConfig n"
proof (cases c)
  case StartOp
  then obtain e where "startNode L n w = Some (e, n', w')" using s by auto
  then show ?thesis using startNode_held [OF L] by blast
next
  case StopOp
  then obtain e where "stopNode L n w = (e, n', w')" using s by (cases "stopNode L n w") auto
  then show ?thesis using stopNode_held [OF L] by blast
qed (use s in \<open>auto simp: applyCommand_def applyOn_def addPeer_def removePeer_def Let_def
    split: option.splits prod.splits bool.splits if_splits dest!: locks_filesD(10-12) [OF L]\<close>)

lemma calls_held:
  assumes "locks_files L held" "raft_calls L cs (n, w) = Some (n', w')"
  shows "held w \<subseteq> held w' \<and> rnConfig n' = rnConfig n"
  using assms(2)
proof (induction cs arbitrary: n w)
  case (Cons c cs)
  then obtain n1 w1 where "raft_call L c (n, w) = Some (n1, w1)" "raft_calls L cs (n1, w1) = Some (n', w')"
    by (auto split: option.splits)
  then show ?case using Cons.IH call_held [OF assms(1)] by (metis subset_trans)
qed simp

lemma started_holds_log:
  assumes L: "locks_files L held" and s: "startNode L n w = Some (e, n', w')"
    and e: "e \<noteq> Inl AlreadyStarted" "e \<noteq> Inl LogStoreFailed"
  shows "log_file (rnConfig n) \<in> held w'"
proof -
  obtain w1 where o: "rlOpenBolt L (log_file (rnConfig n)) w = Some (True, w1)"
    and rest: "(case rlOpenBolt L (stable_file (rnConfig n)) w1 of
        None \<Rightarrow> None
      | Some (False, w) \<Rightarrow> Some (Inl StableStoreFailed, n, w)
      | Some (True, w) \<Rightarrow> Some (start_raft L n w)) = Some (e, n', w')"
    using s e by (auto simp: startNode_def split: if_splits option.splits prod.splits bool.splits)
  have "held w1 \<subseteq> held w'"
    using rest
    by (auto split: option.splits prod.splits bool.splits dest!: locks_filesD(2,3) [OF L] start_raft_held [OF L])
  then show ?thesis using locks_filesD(2) [OF L o] by blast
qed

lemma running_iff_started:
  assumes "startNode L n w = Some (e, n', w')" "rnRaft n = None"
  shows "rnRaft n' \<noteq> None \<longleftrightarrow> e = Inr () \<or> e = Inl BootstrapFailed"
  using assms
  by (auto simp: startNode_def start_raft_def bootstrap_peers_def Let_def
      split: option.splits prod.splits bool.splits list.splits if_splits bootstrap_outcome.splits)

text \<open>C39. A node starts once. Whatever a first \<open>Start\<close> reports once it has opened the log, and whatever
  calls follow it, every later \<open>Start\<close> in the process either reports that the node runs and changes
  nothing, or never returns, and with it, since it keeps the lock, no later call on the node. That
  holds in particular after a \<open>Stop\<close> that succeeded. A \<open>Start\<close> that reports that the cluster cannot be
  bootstrapped leaves the node running; one that reports any other error does not.\<close>
theorem node_starts_once:
  assumes "locks_files L held" "rnRaft n = None" "startNode L n w = Some (e, n1, w1)" "e \<noteq> Inl LogStoreFailed"
    and "raft_calls L cs (n1, w1) = Some (n2, w2)"
  shows "startNode L n2 w2 = (if rnRaft n2 \<noteq> None then Some (Inl AlreadyStarted, n2, w2) else None) \<and>
    (\<forall>n3 w3. stopNode L n2 w2 = (Inr (), n3, w3) \<longrightarrow> startNode L n3 w3 = None) \<and>
    (rnRaft n1 \<noteq> None \<longleftrightarrow> e = Inr () \<or> e = Inl BootstrapFailed)"
proof -
  note L = assms(1)
  have run: "rnRaft n1 \<noteq> None \<longleftrightarrow> e = Inr () \<or> e = Inl BootstrapFailed"
    by (rule running_iff_started [OF assms(3,2)])
  have e: "e \<noteq> Inl AlreadyStarted"
    using assms(2,3) by (auto simp: startNode_def start_raft_def bootstrap_peers_def Let_def
        split: option.splits prod.splits bool.splits list.splits if_splits bootstrap_outcome.splits)
  have log: "log_file (rnConfig n2) \<in> held w2"
    using started_holds_log [OF L assms(3) e assms(4)] startNode_held [OF L assms(3)] calls_held [OF L assms(5)]
    by auto
  have stopped: "startNode L m v = None"
    if "rnRaft m = None" "rnConfig m = rnConfig n2" "held w2 \<subseteq> held v" for m v
    using that log locks_filesD(1) [OF L, of "log_file (rnConfig m)" v] by (auto simp: startNode_def)
  have "startNode L n3 w3 = None" if "stopNode L n2 w2 = (Inr (), n3, w3)" for n3 w3
    using stopNode_held [OF L that] that
    by (intro stopped) (auto simp: stopNode_def split: option.splits prod.splits bool.splits)
  moreover have "startNode L n2 w2 = (if rnRaft n2 \<noteq> None then Some (Inl AlreadyStarted, n2, w2) else None)"
    using stopped [of n2 w2] by (auto simp: startNode_def)
  ultimately show ?thesis using run by blast
qed

text \<open>A library that does everything at once and keeps the list of open files.\<close>

definition ready_lib :: "(unit, unit, string list) raft_lib" where
  "ready_lib =
     \<lparr>rlMkdirAll = (\<lambda>p w. (True, w)),
      rlOpenBolt = (\<lambda>p w. if p \<in> set w then None else Some (True, p # w)),
      rlSnapshots = (\<lambda>p w. (True, w)), rlTransport = (\<lambda>a w. (Some (), w)), rlNew = (\<lambda>i h e t w. (Some (), w)),
      rlBootstrap = (\<lambda>r ps w. (Bootstrapped, w)), rlShutdown = (\<lambda>r w. (True, w)), rlClose = (\<lambda>t w. (True, w)),
      rlState = (\<lambda>r w. Leader), rlApply = (\<lambda>r c n w. (Some c, w)), rlAddVoter = (\<lambda>r i a w. (True, w)),
      rlRemoveServer = (\<lambda>r i w. (True, w)), rlLeader = (\<lambda>r w. ''a''), rlLastIndex = (\<lambda>r w. 0),
      rlCommitIndex = (\<lambda>r w. 0), rlServers = (\<lambda>r w. Some [''a''])\<rparr>"

definition lone_node :: "(unit, unit) raft_node" where
  "lone_node =
     \<lparr>rnConfig = \<lparr>rcNodeID = ''a'', rcAddress = ''a'', rcDataDir = ''d'', rcPeers = [''a''],
        rcHeartbeatTimeout = 1000, rcElectionTimeout = 1000, rcPreVote = False\<rparr>,
      rnRaft = None, rnTransport = None\<rparr>"

lemma ready_lib_locks: "locks_files ready_lib set"
  by (auto simp: locks_files_def ready_lib_def)

definition lone_started :: "(unit, unit) raft_node" where
  "lone_started = lone_node\<lparr>rnTransport := Some (), rnRaft := Some ()\<rparr>"

theorem node_starts_once_witness:
  "startNode ready_lib lone_node [] = Some (Inr (), lone_started, [''d/raft-stable.bolt'', ''d/raft-log.bolt'']) \<and>
   stopNode ready_lib lone_started [''d/raft-stable.bolt'', ''d/raft-log.bolt''] =
     (Inr (), lone_started\<lparr>rnRaft := None\<rparr>, [''d/raft-stable.bolt'', ''d/raft-log.bolt'']) \<and>
   startNode ready_lib (lone_started\<lparr>rnRaft := None\<rparr>) [''d/raft-stable.bolt'', ''d/raft-log.bolt''] = None"
proof -
  have s: "startNode ready_lib lone_node [] = Some (Inr (), lone_started, [''d/raft-stable.bolt'', ''d/raft-log.bolt''])"
    by code_simp
  have t: "stopNode ready_lib lone_started [''d/raft-stable.bolt'', ''d/raft-log.bolt''] =
     (Inr (), lone_started\<lparr>rnRaft := None\<rparr>, [''d/raft-stable.bolt'', ''d/raft-log.bolt''])"
    by code_simp
  have n: "rnRaft lone_node = None" by (simp add: lone_node_def)
  show ?thesis
    using node_starts_once [OF ready_lib_locks n s, of "[]"] s t by auto
qed

end
