(* ===== verification/Repository.thy ===== *)
theory Repository
  imports Metadata
begin

text \<open>
  The metadata repository of \<open>pkg/metadata/repository.go\<close>: its statements on the three tables of
  \<open>deploy/mysql/init.sql\<close>, its transactions, and what the operations promise. The database answers each
  call as the next entry of a script says.
\<close>

section \<open>The database\<close>

record access_stats =
  asFileID :: string
  asAccessCount :: int
  asLastAccess :: time

record file_row =
  frFileID :: string
  frShardKey :: "32 word"
  frCreatedAt :: time

record tables =
  tbFiles :: "file_row list"
  tbChunks :: "(string \<times> chunk_info) list"
  tbStats :: "access_stats list"

text \<open>\<open>Lost\<close>: the call took effect, but its answer did not arrive. Calls beyond the script are done.\<close>

datatype db_outcome = Done | Failing | Lost

record database =
  dbTables :: tables
  dbScript :: "db_outcome list"

text \<open>
  What the server decides: whether two keys are the same in its collation, which texts fit a column, what a
  time is rounded to, and the order of rows where a query leaves it open.
\<close>

record db_rules =
  dbSame :: "string \<Rightarrow> string \<Rightarrow> bool"
  dbFits :: "string \<Rightarrow> bool"
  dbStamp :: "time \<Rightarrow> time option"
  dbChunkOrder :: "(string \<times> chunk_info) list \<Rightarrow> (string \<times> chunk_info) list"
  dbStatsOrder :: "access_stats list \<Rightarrow> access_stats list"

datatype sql_error = DBFailed | DuplicateKey | NoRows | Rejected

definition next_call :: "database \<Rightarrow> db_outcome \<times> database" where
  "next_call db = (case dbScript db of [] \<Rightarrow> (Done, db) | x # xs \<Rightarrow> (x, db\<lparr>dbScript := xs\<rparr>))"

text \<open>A transaction works on a copy of the tables, which \<open>Commit\<close> installs; the deferred \<open>Rollback\<close> drops it.\<close>

definition beginTx :: "database \<Rightarrow> (sql_error + tables) \<times> database" where
  "beginTx db = (case next_call db of (Done, db) \<Rightarrow> (Inr (dbTables db), db) | (_, db) \<Rightarrow> (Inl DBFailed, db))"

definition exec_stmt ::
  "(tables \<Rightarrow> sql_error + tables) \<Rightarrow> tables \<Rightarrow> database \<Rightarrow> (sql_error + tables) \<times> database" where
  "exec_stmt f t db = (case next_call db of (Done, db) \<Rightarrow> (f t, db) | (_, db) \<Rightarrow> (Inl DBFailed, db))"

definition commitTx :: "tables \<Rightarrow> database \<Rightarrow> (sql_error + unit) \<times> database" where
  "commitTx t db =
     (case next_call db of
        (Done, db) \<Rightarrow> (Inr (), db\<lparr>dbTables := t\<rparr>)
      | (Failing, db) \<Rightarrow> (Inl DBFailed, db)
      | (Lost, db) \<Rightarrow> (Inl DBFailed, db\<lparr>dbTables := t\<rparr>))"

section \<open>The statements\<close>

definition insert_file :: "db_rules \<Rightarrow> file_metadata \<Rightarrow> tables \<Rightarrow> sql_error + tables" where
  "insert_file E m t =
     (if \<not> dbFits E (mdFileID m) then Inl Rejected
      else if list_ex (\<lambda>r. dbSame E (frFileID r) (mdFileID m)) (tbFiles t) then Inl DuplicateKey
      else case dbStamp E (mdCreatedAt m) of
        None \<Rightarrow> Inl Rejected
      | Some tm \<Rightarrow>
          Inr (t\<lparr>tbFiles := tbFiles t @ [\<lparr>frFileID = mdFileID m, frShardKey = mdShardKey m, frCreatedAt = tm\<rparr>]\<rparr>))"

definition insert_chunk :: "db_rules \<Rightarrow> string \<Rightarrow> chunk_info \<Rightarrow> tables \<Rightarrow> sql_error + tables" where
  "insert_chunk E fileID c t =
     (if dbFits E fileID \<and> dbFits E (ciChunkID c) \<and> dbFits E (ciNodeID c)
      then Inr (t\<lparr>tbChunks := tbChunks t @ [(fileID, c)]\<rparr>) else Inl Rejected)"

definition insert_stats :: "db_rules \<Rightarrow> string \<Rightarrow> time \<Rightarrow> tables \<Rightarrow> sql_error + tables" where
  "insert_stats E fileID now t =
     (if \<not> dbFits E fileID then Inl Rejected
      else if list_ex (\<lambda>r. dbSame E (asFileID r) fileID) (tbStats t) then Inl DuplicateKey
      else case dbStamp E now of
        None \<Rightarrow> Inl Rejected
      | Some tm \<Rightarrow>
          Inr (t\<lparr>tbStats := tbStats t @ [\<lparr>asFileID = fileID, asAccessCount = 0, asLastAccess = tm\<rparr>]\<rparr>))"

definition update_file :: "db_rules \<Rightarrow> file_metadata \<Rightarrow> tables \<Rightarrow> sql_error + tables" where
  "update_file E m t =
     Inr (t\<lparr>tbFiles := map (\<lambda>r. if dbSame E (frFileID r) (mdFileID m) then r\<lparr>frShardKey := mdShardKey m\<rparr> else r)
                         (tbFiles t)\<rparr>)"

definition delete_file_row :: "db_rules \<Rightarrow> string \<Rightarrow> tables \<Rightarrow> sql_error + tables" where
  "delete_file_row E i t = Inr (t\<lparr>tbFiles := filter (\<lambda>r. \<not> dbSame E (frFileID r) i) (tbFiles t)\<rparr>)"

definition delete_chunks :: "db_rules \<Rightarrow> string \<Rightarrow> tables \<Rightarrow> sql_error + tables" where
  "delete_chunks E i t = Inr (t\<lparr>tbChunks := filter (\<lambda>r. \<not> dbSame E (fst r) i) (tbChunks t)\<rparr>)"

definition delete_stats :: "db_rules \<Rightarrow> string \<Rightarrow> tables \<Rightarrow> sql_error + tables" where
  "delete_stats E i t = Inr (t\<lparr>tbStats := filter (\<lambda>r. \<not> dbSame E (asFileID r) i) (tbStats t)\<rparr>)"

definition bump_stats :: "db_rules \<Rightarrow> string \<Rightarrow> time \<Rightarrow> tables \<Rightarrow> sql_error + tables" where
  "bump_stats E i now t =
     (case dbStamp E now of
        None \<Rightarrow> Inl Rejected
      | Some tm \<Rightarrow>
          if list_ex (\<lambda>r. dbSame E (asFileID r) i \<and> \<not> in_int64 (asAccessCount r + 1)) (tbStats t) then Inl Rejected
          else Inr (t\<lparr>tbStats := map (\<lambda>r. if dbSame E (asFileID r) i
                 then r\<lparr>asAccessCount := asAccessCount r + 1, asLastAccess := tm\<rparr> else r) (tbStats t)\<rparr>))"

section \<open>The operations\<close>

definition chunks_of :: "file_metadata \<Rightarrow> chunk_info list" where
  "chunks_of m = (case mdChunks m of None \<Rightarrow> [] | Some cs \<Rightarrow> cs)"

fun insert_chunks ::
  "db_rules \<Rightarrow> string \<Rightarrow> chunk_info list \<Rightarrow> tables \<Rightarrow> database \<Rightarrow> (sql_error + tables) \<times> database" where
  "insert_chunks E i [] t db = (Inr t, db)"
| "insert_chunks E i (c # cs) t db =
     (case exec_stmt (insert_chunk E i c) t db of
        (Inl e, db) \<Rightarrow> (Inl e, db)
      | (Inr t, db) \<Rightarrow> insert_chunks E i cs t db)"

definition saveFileMetadata ::
  "db_rules \<Rightarrow> file_metadata \<Rightarrow> time \<Rightarrow> database \<Rightarrow> (sql_error + unit) \<times> database" where
  "saveFileMetadata E m now db =
     (case beginTx db of
        (Inl e, db) \<Rightarrow> (Inl e, db)
      | (Inr t, db) \<Rightarrow>
     (case exec_stmt (insert_file E m) t db of
        (Inl e, db) \<Rightarrow> (Inl e, db)
      | (Inr t, db) \<Rightarrow>
     (case insert_chunks E (mdFileID m) (chunks_of m) t db of
        (Inl e, db) \<Rightarrow> (Inl e, db)
      | (Inr t, db) \<Rightarrow>
     (case exec_stmt (insert_stats E (mdFileID m) now) t db of
        (Inl e, db) \<Rightarrow> (Inl e, db)
      | (Inr t, db) \<Rightarrow> commitTx t db))))"

definition updateFileMetadata ::
  "db_rules \<Rightarrow> file_metadata \<Rightarrow> database \<Rightarrow> (sql_error + unit) \<times> database" where
  "updateFileMetadata E m db =
     (case beginTx db of
        (Inl e, db) \<Rightarrow> (Inl e, db)
      | (Inr t, db) \<Rightarrow>
     (case exec_stmt (update_file E m) t db of
        (Inl e, db) \<Rightarrow> (Inl e, db)
      | (Inr t, db) \<Rightarrow>
     (case exec_stmt (delete_chunks E (mdFileID m)) t db of
        (Inl e, db) \<Rightarrow> (Inl e, db)
      | (Inr t, db) \<Rightarrow>
     (case insert_chunks E (mdFileID m) (chunks_of m) t db of
        (Inl e, db) \<Rightarrow> (Inl e, db)
      | (Inr t, db) \<Rightarrow> commitTx t db))))"

definition deleteFileMetadata :: "db_rules \<Rightarrow> string \<Rightarrow> database \<Rightarrow> (sql_error + unit) \<times> database" where
  "deleteFileMetadata E i db =
     (case beginTx db of
        (Inl e, db) \<Rightarrow> (Inl e, db)
      | (Inr t, db) \<Rightarrow>
     (case exec_stmt (delete_file_row E i) t db of
        (Inl e, db) \<Rightarrow> (Inl e, db)
      | (Inr t, db) \<Rightarrow>
     (case exec_stmt (delete_chunks E i) t db of
        (Inl e, db) \<Rightarrow> (Inl e, db)
      | (Inr t, db) \<Rightarrow>
     (case exec_stmt (delete_stats E i) t db of
        (Inl e, db) \<Rightarrow> (Inl e, db)
      | (Inr t, db) \<Rightarrow> commitTx t db))))"

definition updateFileAccessStats ::
  "db_rules \<Rightarrow> string \<Rightarrow> time \<Rightarrow> database \<Rightarrow> (sql_error + unit) \<times> database" where
  "updateFileAccessStats E i now db =
     (case next_call db of
        (Failing, db) \<Rightarrow> (Inl DBFailed, db)
      | (Done, db) \<Rightarrow> (case bump_stats E i now (dbTables db) of
            Inl e \<Rightarrow> (Inl e, db) | Inr t \<Rightarrow> (Inr (), db\<lparr>dbTables := t\<rparr>))
      | (Lost, db) \<Rightarrow> (Inl DBFailed, case bump_stats E i now (dbTables db) of
            Inl e \<Rightarrow> db | Inr t \<Rightarrow> db\<lparr>dbTables := t\<rparr>))"

text \<open>
  The rows of a query: \<open>Next\<close> and \<open>Scan\<close> are one call each. A \<open>Next\<close> that fails ends the loop like the
  end of the rows does, for \<open>rows.Err\<close> is never asked.
\<close>

fun read_rows :: "'a list \<Rightarrow> database \<Rightarrow> (sql_error + 'a list) \<times> database" where
  "read_rows [] db = (Inr [], snd (next_call db))"
| "read_rows (r # rs) db =
     (case next_call db of
        (Done, db) \<Rightarrow>
          (case next_call db of
             (Done, db) \<Rightarrow>
               (case read_rows rs db of (Inl e, db) \<Rightarrow> (Inl e, db) | (Inr xs, db) \<Rightarrow> (Inr (r # xs), db))
           | (_, db) \<Rightarrow> (Inl DBFailed, db))
      | (_, db) \<Rightarrow> (Inr [], db))"

text \<open>The record read has the zero value of every field that has no column.\<close>

definition no_metadata :: file_metadata where
  "no_metadata =
     \<lparr>mdFileID = '''', mdName = '''', mdContentType = '''', mdSize = 0, mdChecksum = '''', mdOwnerID = '''',
      mdStatus = '''', mdShardKey = 0, mdChunks = None, mdCreatedAt = 0, mdUpdatedAt = 0\<rparr>"

definition getFileMetadata ::
  "db_rules \<Rightarrow> string \<Rightarrow> database \<Rightarrow> (sql_error + file_metadata) \<times> database" where
  "getFileMetadata E i db =
     (case next_call db of
        (Done, db) \<Rightarrow>
          (case find (\<lambda>r. dbSame E (frFileID r) i) (tbFiles (dbTables db)) of
             None \<Rightarrow> (Inl NoRows, db)
           | Some row \<Rightarrow>
          (case next_call db of
             (Done, db) \<Rightarrow>
               (case read_rows (dbChunkOrder E (filter (\<lambda>r. dbSame E (fst r) i) (tbChunks (dbTables db)))) db of
                  (Inl e, db) \<Rightarrow> (Inl e, db)
                | (Inr rs, db) \<Rightarrow>
                    (Inr (no_metadata\<lparr>mdFileID := frFileID row, mdShardKey := frShardKey row,
                       mdCreatedAt := frCreatedAt row, mdChunks := Some (map snd rs)\<rparr>), db))
           | (_, db) \<Rightarrow> (Inl DBFailed, db)))
      | (_, db) \<Rightarrow> (Inl DBFailed, db))"

definition repositoryHotFiles ::
  "db_rules \<Rightarrow> int \<Rightarrow> database \<Rightarrow> (sql_error + access_stats list) \<times> database" where
  "repositoryHotFiles E limit db =
     (case next_call db of
        (Done, db) \<Rightarrow>
          if limit < 0 then (Inl Rejected, db)
          else read_rows (take (nat limit)
                 (sort_key (\<lambda>r. - asAccessCount r) (dbStatsOrder E (tbStats (dbTables db))))) db
      | (_, db) \<Rightarrow> (Inl DBFailed, db))"

section \<open>All or nothing\<close>

text \<open>What \<open>Save\<close>, \<open>Update\<close> and \<open>Delete\<close> make of the tables when every call is done.\<close>

definition andThen :: "sql_error + tables \<Rightarrow> (tables \<Rightarrow> sql_error + tables) \<Rightarrow> sql_error + tables" where
  "andThen r f = (case r of Inl e \<Rightarrow> Inl e | Inr t \<Rightarrow> f t)"

lemma andThen_simps [simp]: "andThen (Inl e) f = Inl e" "andThen (Inr t) f = f t"
  by (simp_all add: andThen_def)

definition insert_all :: "db_rules \<Rightarrow> string \<Rightarrow> chunk_info list \<Rightarrow> tables \<Rightarrow> sql_error + tables" where
  "insert_all E i cs t = fold (\<lambda>c r. andThen r (insert_chunk E i c)) cs (Inr t)"

definition saved_tables :: "db_rules \<Rightarrow> file_metadata \<Rightarrow> time \<Rightarrow> tables \<Rightarrow> sql_error + tables" where
  "saved_tables E m now t =
     andThen (andThen (insert_file E m t) (insert_all E (mdFileID m) (chunks_of m)))
       (insert_stats E (mdFileID m) now)"

definition updated_tables :: "db_rules \<Rightarrow> file_metadata \<Rightarrow> tables \<Rightarrow> sql_error + tables" where
  "updated_tables E m t =
     andThen (andThen (update_file E m t) (delete_chunks E (mdFileID m)))
       (insert_all E (mdFileID m) (chunks_of m))"

definition deleted_tables :: "db_rules \<Rightarrow> string \<Rightarrow> tables \<Rightarrow> sql_error + tables" where
  "deleted_tables E i t = andThen (andThen (delete_file_row E i t) (delete_chunks E i)) (delete_stats E i)"

text \<open>
  A working copy computed so far from tables \<open>t\<close> by \<open>r\<close>: the tables themselves are untouched, and without
  a failing call the outcome is exactly that of \<open>r\<close>.
\<close>

definition tracks :: "database \<Rightarrow> sql_error + tables \<Rightarrow> (sql_error + tables) \<times> database \<Rightarrow> bool" where
  "tracks db r x \<longleftrightarrow> dbTables (snd x) = dbTables db \<and>
     (fst x = r \<or> fst x = Inl DBFailed \<and> dbScript db \<noteq> []) \<and>
     (dbScript db = [] \<longrightarrow> dbScript (snd x) = [])"

definition all_or_nothing :: "database \<Rightarrow> sql_error + tables \<Rightarrow> (sql_error + unit) \<times> database \<Rightarrow> bool" where
  "all_or_nothing db r x \<longleftrightarrow>
     (case fst x of
        Inr _ \<Rightarrow> r = Inr (dbTables (snd x))
      | Inl e \<Rightarrow> dbTables (snd x) = dbTables db \<and> (e = DBFailed \<and> dbScript db \<noteq> [] \<or> r = Inl e) \<or>
                 e = DBFailed \<and> dbScript db \<noteq> [] \<and> r = Inr (dbTables (snd x)))"

lemma next_call_cases:
  obtains x db' where "next_call db = (x, db')" "dbTables db' = dbTables db"
    "x \<noteq> Done \<longrightarrow> dbScript db \<noteq> []" "dbScript db = [] \<longrightarrow> dbScript db' = []"
  by (cases "dbScript db") (auto simp: next_call_def)

lemma tracks_begin: "tracks db (Inr (dbTables db)) (beginTx db)"
  by (rule next_call_cases [of db]) (auto simp: beginTx_def tracks_def split: db_outcome.splits)

lemma tracks_exec:
  assumes "tracks db r x"
  shows "tracks db (andThen r f)
    (case x of (Inl e, d) \<Rightarrow> (Inl e, d) | (Inr t, d) \<Rightarrow> exec_stmt f t d)"
proof (cases x)
  case (Pair a d)
  show ?thesis
  proof (cases a)
    case (Inl e)
    then show ?thesis using assms Pair by (auto simp: tracks_def)
  next
    case (Inr t)
    then have r: "r = Inr t" and d: "dbTables d = dbTables db" "dbScript db = [] \<longrightarrow> dbScript d = []"
      using assms Pair by (auto simp: tracks_def)
    show ?thesis
      by (rule next_call_cases [of d]) (use Pair Inr r d in \<open>auto simp: exec_stmt_def tracks_def split: db_outcome.splits\<close>)
  qed
qed

lemma fold_stuck: "fold (\<lambda>c r. andThen r (g c)) cs (Inl e) = Inl e"
  by (induction cs) auto

lemma insert_all_Cons: "insert_all E i (c # cs) t = andThen (insert_chunk E i c t) (insert_all E i cs)"
  by (cases "insert_chunk E i c t") (auto simp: insert_all_def fold_stuck)

lemma tracks_chunks:
  assumes "tracks db r x"
  shows "tracks db (andThen r (insert_all E i cs))
    (case x of (Inl e, d) \<Rightarrow> (Inl e, d) | (Inr t, d) \<Rightarrow> insert_chunks E i cs t d)"
  using assms
proof (induction cs arbitrary: r x)
  case Nil
  then show ?case by (cases x; cases "fst x"; cases r) (auto simp: insert_all_def tracks_def)
next
  case (Cons c cs)
  have split: "andThen r (insert_all E i (c # cs)) = andThen (andThen r (insert_chunk E i c)) (insert_all E i cs)"
    by (cases r) (auto simp: insert_all_Cons)
  show ?case
    using Cons.IH [OF tracks_exec [OF Cons.prems, of "insert_chunk E i c"]]
    unfolding split by (auto split: prod.splits sum.splits)
qed

lemma tracks_commit:
  assumes "tracks db r x"
  shows "all_or_nothing db r (case x of (Inl e, d) \<Rightarrow> (Inl e, d) | (Inr t, d) \<Rightarrow> commitTx t d)"
proof (cases x)
  case (Pair a d)
  show ?thesis
  proof (cases a)
    case (Inl e)
    then show ?thesis using assms Pair by (auto simp: tracks_def all_or_nothing_def)
  next
    case (Inr t)
    then have r: "r = Inr t" and d: "dbTables d = dbTables db" "dbScript db = [] \<longrightarrow> dbScript d = []"
      using assms Pair by (auto simp: tracks_def)
    show ?thesis
      by (rule next_call_cases [of d])
        (use Pair Inr r d in \<open>auto simp: commitTx_def all_or_nothing_def split: db_outcome.splits\<close>)
  qed
qed

lemma save_all_or_nothing: "all_or_nothing db (saved_tables E m now (dbTables db)) (saveFileMetadata E m now db)"
  using tracks_commit [OF tracks_exec [OF tracks_chunks [OF tracks_exec [OF tracks_begin]]],
      of db "insert_file E m" E "mdFileID m" "chunks_of m" "insert_stats E (mdFileID m) now"]
  by (auto simp: saveFileMetadata_def saved_tables_def split: prod.splits sum.splits)

lemma update_all_or_nothing: "all_or_nothing db (updated_tables E m (dbTables db)) (updateFileMetadata E m db)"
  using tracks_commit [OF tracks_chunks [OF tracks_exec [OF tracks_exec [OF tracks_begin]]],
      of db "update_file E m" "delete_chunks E (mdFileID m)" E "mdFileID m" "chunks_of m"]
  by (auto simp: updateFileMetadata_def updated_tables_def split: prod.splits sum.splits)

lemma delete_all_or_nothing: "all_or_nothing db (deleted_tables E i (dbTables db)) (deleteFileMetadata E i db)"
  using tracks_commit [OF tracks_exec [OF tracks_exec [OF tracks_exec [OF tracks_begin]]],
      of db "delete_file_row E i" "delete_chunks E i" "delete_stats E i"]
  by (auto simp: deleteFileMetadata_def deleted_tables_def split: prod.splits sum.splits)

section \<open>Reading a record back\<close>

lemma insert_all_ok:
  assumes "insert_all E i cs t = Inr t'"
  shows "t' = t\<lparr>tbChunks := tbChunks t @ map (Pair i) cs\<rparr>"
  using assms
proof (induction cs arbitrary: t)
  case Nil
  then show ?case by (simp add: insert_all_def)
next
  case (Cons c cs)
  then show ?case by (fastforce simp: insert_all_Cons insert_chunk_def split: if_splits)
qed

lemma saved_rows:
  assumes "saved_tables E m now t = Inr t'"
  obtains tm where "dbStamp E (mdCreatedAt m) = Some tm" "\<not> list_ex (\<lambda>r. dbSame E (frFileID r) (mdFileID m)) (tbFiles t)"
    "tbFiles t' = tbFiles t @ [\<lparr>frFileID = mdFileID m, frShardKey = mdShardKey m, frCreatedAt = tm\<rparr>]"
    "tbChunks t' = tbChunks t @ map (Pair (mdFileID m)) (chunks_of m)"
proof -
  obtain t1 t2 where t: "insert_file E m t = Inr t1" "insert_all E (mdFileID m) (chunks_of m) t1 = Inr t2"
    "insert_stats E (mdFileID m) now t2 = Inr t'"
    using assms by (auto simp: saved_tables_def andThen_def split: sum.splits)
  show ?thesis
    using that t(1,3) insert_all_ok [OF t(2)]
    by (auto simp: insert_file_def insert_stats_def split: if_splits option.splits)
qed

lemma find_last: "\<not> list_ex P xs \<Longrightarrow> P x \<Longrightarrow> find P (xs @ [x]) = Some x"
  by (induction xs) auto

lemma read_rows_prefix:
  assumes "read_rows rs db = (Inr xs, db')"
  shows "\<exists>ys. rs = xs @ ys"
  using assms
proof (induction rs arbitrary: db xs)
  case (Cons r rs)
  then show ?case by (fastforce split: prod.splits db_outcome.splits sum.splits)
qed simp

lemma next_call_done: "dbScript db = [] \<Longrightarrow> next_call db = (Done, db)"
  by (simp add: next_call_def)

lemma read_rows_done: "dbScript db = [] \<Longrightarrow> read_rows rs db = (Inr rs, db)"
  by (induction rs) (auto simp: next_call_done)

text \<open>A repository whose collation is an equivalence and whose server only reorders rows.\<close>

definition sane_rules :: "db_rules \<Rightarrow> bool" where
  "sane_rules E \<longleftrightarrow> (\<forall>i. dbSame E i i) \<and> (\<forall>i j. dbSame E i j \<longrightarrow> dbSame E j i) \<and>
     (\<forall>i j k. dbSame E i j \<longrightarrow> dbSame E j k \<longrightarrow> dbSame E i k) \<and> (\<forall>xs. mset (dbChunkOrder E xs) = mset xs)"

definition no_chunks_of :: "db_rules \<Rightarrow> string \<Rightarrow> tables \<Rightarrow> bool" where
  "no_chunks_of E i t \<longleftrightarrow> (\<forall>r \<in> set (tbChunks t). \<not> dbSame E (fst r) i)"

lemma saved_lookup:
  assumes E: "sane_rules E" and new: "no_chunks_of E (mdFileID m) t" and s: "saved_tables E m now t = Inr t'"
  obtains tm where "dbStamp E (mdCreatedAt m) = Some tm"
    "find (\<lambda>r. dbSame E (frFileID r) (mdFileID m)) (tbFiles t') =
       Some \<lparr>frFileID = mdFileID m, frShardKey = mdShardKey m, frCreatedAt = tm\<rparr>"
    "mset (map snd (dbChunkOrder E (filter (\<lambda>r. dbSame E (fst r) (mdFileID m)) (tbChunks t')))) = mset (chunks_of m)"
proof (rule saved_rows [OF s])
  fix tm
  assume a: "dbStamp E (mdCreatedAt m) = Some tm" "\<not> list_ex (\<lambda>r. dbSame E (frFileID r) (mdFileID m)) (tbFiles t)"
    "tbFiles t' = tbFiles t @ [\<lparr>frFileID = mdFileID m, frShardKey = mdShardKey m, frCreatedAt = tm\<rparr>]"
    "tbChunks t' = tbChunks t @ map (Pair (mdFileID m)) (chunks_of m)"
  have refl: "dbSame E (mdFileID m) (mdFileID m)" using E by (simp add: sane_rules_def)
  have "filter (\<lambda>r. dbSame E (fst r) (mdFileID m)) (tbChunks t') = map (Pair (mdFileID m)) (chunks_of m)"
    using new refl by (auto simp: a(4) no_chunks_of_def filter_empty_conv filter_map comp_def)
  moreover have "mset (map snd (dbChunkOrder E xs)) = mset (map snd xs)" for xs
    using E by (simp add: sane_rules_def)
  ultimately have "mset (map snd (dbChunkOrder E (filter (\<lambda>r. dbSame E (fst r) (mdFileID m)) (tbChunks t')))) =
      mset (chunks_of m)"
    by (simp add: image_mset.compositionality comp_def)
  then show ?thesis using that a(1-3) find_last [OF a(2)] refl by simp
qed


text \<open>An update of a record that does not exist is a success and leaves its chunks without a file.\<close>

theorem update_of_nothing:
  assumes "dbScript db = []" "\<not> list_ex (\<lambda>r. dbSame E (frFileID r) (mdFileID m)) (tbFiles (dbTables db))"
    and "updated_tables E m (dbTables db) = Inr t"
  shows "\<exists>db'. updateFileMetadata E m db = (Inr (), db') \<and> tbFiles (dbTables db') = tbFiles (dbTables db) \<and>
    set (map (Pair (mdFileID m)) (chunks_of m)) \<subseteq> set (tbChunks (dbTables db'))"
proof -
  have same: "map (\<lambda>r. if dbSame E (frFileID r) i then r\<lparr>frShardKey := k\<rparr> else r) rs = rs"
    if "\<not> list_ex (\<lambda>r. dbSame E (frFileID r) i) rs" for i k rs
    using that by (induction rs) auto
  obtain r db' where u: "updateFileMetadata E m db = (r, db')" by fastforce
  then have "r = Inr ()" "dbTables db' = t"
    using update_all_or_nothing [of db E m] assms(1,3) by (auto simp: all_or_nothing_def split: sum.splits)
  moreover have "tbFiles t = tbFiles (dbTables db)"
    "set (map (Pair (mdFileID m)) (chunks_of m)) \<subseteq> set (tbChunks t)"
    using assms(2,3) same [OF assms(2)]
    by (auto simp: updated_tables_def update_file_def delete_chunks_def dest!: insert_all_ok)
  ultimately show ?thesis using u by auto
qed

text \<open>A server that reverses the rows and rounds times down to a thousand.\<close>

definition example_rules :: db_rules where
  "example_rules = \<lparr>dbSame = (=), dbFits = (\<lambda>s. length s \<le> 64), dbStamp = (\<lambda>t. Some (t - t mod 1000)),
     dbChunkOrder = rev, dbStatsOrder = (\<lambda>xs. xs)\<rparr>"

definition example_record :: file_metadata where
  "example_record = no_metadata\<lparr>mdFileID := ''f'', mdName := ''n'', mdShardKey := 7, mdCreatedAt := 1234,
     mdChunks := Some [\<lparr>ciChunkID = ''a'', ciNodeID = ''n'', ciOffset = 0, ciSize = 1\<rparr>,
                       \<lparr>ciChunkID = ''b'', ciNodeID = ''n'', ciOffset = 1, ciSize = 1\<rparr>]\<rparr>"

definition empty_database :: database where
  "empty_database = \<lparr>dbTables = \<lparr>tbFiles = [], tbChunks = [], tbStats = []\<rparr>, dbScript = []\<rparr>"

lemma example_rules_sane: "sane_rules example_rules"
  by (simp add: sane_rules_def example_rules_def)


end
